(* ===== verification/Prelude.thy ===== *)
theory Prelude
  imports Main "HOL-Library.Sublist"
begin

text \<open>
  Shared vocabulary of the development.

  A Python \<^verbatim>\<open>str\<close> is a list of Unicode code points (\<open>pystr\<close>); \<open>S\<close> embeds an
  ASCII literal.  \<open>py_strip\<close> removes exactly the code points for which \<^verbatim>\<open>str.isspace\<close>
  holds.  \<open>py_lower\<close> and \<open>py_casefold\<close> are exact for every code point whose image is
  made of ASCII characters; other code points outside ASCII are left alone.  The code only ever
  compares the results with ASCII words, and no other code point maps into ASCII, so these
  comparisons are decided as in Python.

  Controlled vocabulary that the code never normalises (database columns, error codes) is a HOL
  \<open>string\<close>.  Instants are integers counting microseconds in UTC, the resolution of
  \<^verbatim>\<open>datetime\<close>.  A raised exception is the left side of a sum.
\<close>

named_theorems gate_simps \<open>unfolding rules for guard chains\<close>
named_theorems frame_simps \<open>which fields an operation leaves alone\<close>

section \<open>Strings\<close>

type_synonym pystr = "nat list"

definition S :: "string \<Rightarrow> pystr" where
  "S s = map of_char s"

lemma S_inject [simp]: "S s = S t \<longleftrightarrow> s = t"
  by (auto simp: S_def inj_map_eq_map inj_of_char)

lemma S_Nil [simp]: "S [] = []"
  by (simp add: S_def)

lemma S_eq_Nil [simp]: "S s = [] \<longleftrightarrow> s = []" "[] = S s \<longleftrightarrow> s = []"
  by (auto simp: S_def)

lemma length_S [simp]: "length (S s) = length s"
  by (simp add: S_def)

definition py_space :: "nat \<Rightarrow> bool" where
  "py_space c \<longleftrightarrow> 9 \<le> c \<and> c \<le> 13 \<or> 28 \<le> c \<and> c \<le> 32 \<or> c \<in> {133, 160, 5760}
     \<or> 8192 \<le> c \<and> c \<le> 8202 \<or> c \<in> {8232, 8233, 8239, 8287, 12288}"

definition py_strip :: "pystr \<Rightarrow> pystr" where
  "py_strip s = rev (dropWhile py_space (rev (dropWhile py_space s)))"

definition lower_cp :: "nat \<Rightarrow> nat list" where
  "lower_cp c =
     (if 65 \<le> c \<and> c \<le> 90 then [c + 32]
      else if c = 304 then [105, 775]
      else if c = 8490 then [107]
      else [c])"

definition py_lower :: "pystr \<Rightarrow> pystr" where
  "py_lower s = concat (map lower_cp s)"

definition casefold_cp :: "nat \<Rightarrow> nat list" where
  "casefold_cp c =
     (if c = 223 \<or> c = 7838 then [115, 115]
      else if c = 383 then [115]
      else if c = 64256 then [102, 102]
      else if c = 64257 then [102, 105]
      else if c = 64258 then [102, 108]
      else if c = 64259 then [102, 102, 105]
      else if c = 64260 then [102, 102, 108]
      else if c = 64261 \<or> c = 64262 then [115, 116]
      else lower_cp c)"

definition py_casefold :: "pystr \<Rightarrow> pystr" where
  "py_casefold s = concat (map casefold_cp s)"

text \<open>\<^verbatim>\<open>a in b\<close> on strings.\<close>

definition py_contains :: "pystr \<Rightarrow> pystr \<Rightarrow> bool" where
  "py_contains needle hay \<longleftrightarrow> (\<exists>i \<in> set [0..<Suc (length hay)]. prefix needle (drop i hay))"

lemma py_contains_length: "py_contains m s \<Longrightarrow> length m \<le> length s"
  by (auto simp: py_contains_def dest!: prefix_length_le)

text \<open>\<^verbatim>\<open>str(value or default)\<close> for an optional string.\<close>

definition or_default :: "pystr option \<Rightarrow> pystr \<Rightarrow> pystr" where
  "or_default v d = (case v of None \<Rightarrow> d | Some s \<Rightarrow> if s = [] then d else s)"

lemma or_default_simps [simp]:
  "or_default None d = d"
  "or_default (Some []) d = d"
  "s \<noteq> [] \<Longrightarrow> or_default (Some s) d = s"
  by (simp_all add: or_default_def)

lemma dropWhile_py_space_idem [simp]:
  "dropWhile py_space (dropWhile py_space s) = dropWhile py_space s"
  by (induction s) auto

lemma dropWhile_rev_last:
  "dropWhile P xs = xs \<Longrightarrow> dropWhile P (rev (dropWhile P (rev xs))) = rev (dropWhile P (rev xs))"
proof (cases "rev (dropWhile P (rev xs))")
  case Nil
  then show ?thesis by (metis dropWhile.simps(1))
next
  case (Cons y ys)
  assume fix_xs: "dropWhile P xs = xs"
  have "prefix (y # ys) xs"
    using suffix_dropWhile [of P "rev xs"] Cons
    by (metis rev_rev_ident suffix_to_prefix)
  then obtain zs where "xs = y # zs"
    by (auto simp: prefix_def)
  with fix_xs have "\<not> P y"
    by (metis dropWhile.simps(2) dropWhile_eq_Cons_conv list.inject)
  with Cons show ?thesis by simp
qed

lemma py_strip_idem [simp]: "py_strip (py_strip s) = py_strip s"
proof -
  have "dropWhile py_space (rev (dropWhile py_space (rev (dropWhile py_space s))))
      = rev (dropWhile py_space (rev (dropWhile py_space s)))"
    by (rule dropWhile_rev_last) simp
  then show ?thesis
    by (simp add: py_strip_def)
qed

lemma py_strip_Nil [simp]: "py_strip [] = []"
  by (simp add: py_strip_def)

lemma length_py_strip_le: "length (py_strip s) \<le> length s"
  using length_dropWhile_le [of py_space "rev (dropWhile py_space s)"]
    length_dropWhile_le [of py_space s]
  by (simp add: py_strip_def)

lemma set_py_strip_subset: "set (py_strip s) \<subseteq> set s"
  by (auto simp: py_strip_def dest!: set_dropWhileD)

text \<open>Normalising a string twice changes nothing.\<close>

lemma py_strip_fixed_iff:
  "py_strip s = s \<longleftrightarrow> s = [] \<or> \<not> py_space (hd s) \<and> \<not> py_space (last s)"
proof
  assume fixed: "py_strip s = s"
  show "s = [] \<or> \<not> py_space (hd s) \<and> \<not> py_space (last s)"
  proof (cases "s = []")
    case False
    have "length s \<le> length (dropWhile py_space s)"
      using fixed length_dropWhile_le [of py_space "rev (dropWhile py_space s)"]
      by (metis length_rev py_strip_def)
    then have d: "dropWhile py_space s = s"
      using suffix_dropWhile [of py_space s]
      by (metis suffix_length_le order_antisym suffixE append_eq_conv_conj length_append
          add_cancel_left_left length_0_conv append_Nil)
    with fixed have e: "dropWhile py_space (rev s) = rev s"
      by (metis py_strip_def rev_rev_ident)
    from d False have "\<not> py_space (hd s)"
      by (metis hd_dropWhile)
    moreover from e False have "\<not> py_space (last s)"
      by (metis hd_dropWhile hd_rev rev_is_Nil_conv)
    ultimately show ?thesis by simp
  qed simp
next
  assume "s = [] \<or> \<not> py_space (hd s) \<and> \<not> py_space (last s)"
  then show "py_strip s = s"
  proof
    assume ends: "\<not> py_space (hd s) \<and> \<not> py_space (last s)"
    have "dropWhile py_space s = s" using ends by (cases s) auto
    moreover have "dropWhile py_space (rev s) = rev s"
      using ends by (cases s rule: rev_cases) auto
    ultimately show ?thesis by (simp add: py_strip_def)
  qed simp
qed

lemma lower_cp_not_Nil [simp]: "lower_cp c \<noteq> []"
  by (simp add: lower_cp_def)

lemma lower_cp_space: "\<not> py_space c \<Longrightarrow> x \<in> set (lower_cp c) \<Longrightarrow> \<not> py_space x"
  by (auto simp: lower_cp_def py_space_def split: if_splits)

lemma py_lower_simps [simp]:
  "py_lower [] = []" "py_lower (c # s) = lower_cp c @ py_lower s"
  "py_lower (s @ t) = py_lower s @ py_lower t"
  by (simp_all add: py_lower_def)

lemma py_lower_eq_Nil [simp]: "py_lower s = [] \<longleftrightarrow> s = []"
  by (cases s) auto

lemma py_lower_cp_idem [simp]: "py_lower (lower_cp c) = lower_cp c"
  by (auto simp: lower_cp_def)

lemma py_lower_idem [simp]: "py_lower (py_lower s) = py_lower s"
  by (induction s) auto

lemma py_strip_lower_strip [simp]:
  "py_strip (py_lower (py_strip s)) = py_lower (py_strip s)"
proof (cases "py_strip s = []")
  case False
  have ends: "\<not> py_space (hd (py_strip s)) \<and> \<not> py_space (last (py_strip s))"
    using py_strip_fixed_iff [of "py_strip s"] False by simp
  obtain c cs where c: "py_strip s = c # cs" using False by (cases "py_strip s") auto
  obtain ds d where d: "py_strip s = ds @ [d]" using False by (cases "py_strip s" rule: rev_cases) auto
  have "hd (py_lower (py_strip s)) \<in> set (lower_cp c)"
    using c by (simp add: hd_append)
  moreover have "last (py_lower (py_strip s)) \<in> set (lower_cp d)"
    using d by (simp add: last_append)
  ultimately show ?thesis
    using ends c d lower_cp_space by (subst py_strip_fixed_iff) (metis last_snoc list.sel(1))
qed simp

section \<open>Integer literals\<close>

text \<open>
  \<^verbatim>\<open>int(str(x).strip())\<close>: an optional sign and decimal digits of any script, single underscores
  between digits, at most 4300 digits.  \<open>decimal_zeros\<close> lists the digit zero of every
  decimal script of Unicode 14.
\<close>

definition decimal_zeros :: "nat list" where
  "decimal_zeros = [48, 1632, 1776, 1984, 2406, 2534, 2662, 2790, 2918, 3046, 3174, 3302, 3430,
     3558, 3664, 3792, 3872, 4160, 4240, 6112, 6160, 6470, 6608, 6784, 6800, 6992, 7088, 7232,
     7248, 42528, 43216, 43264, 43472, 43504, 43600, 44016, 65296, 66720, 68912, 69734, 69872,
     69942, 70096, 70384, 70736, 70864, 71248, 71360, 71472, 71904, 72016, 72784, 73040, 73120,
     92768, 92864, 93008, 120782, 120792, 120802, 120812, 120822, 123200, 123632, 125264, 130032]"

definition decimal_value :: "nat \<Rightarrow> nat option" where
  "decimal_value c = map_option (\<lambda>z. c - z) (find (\<lambda>z. z \<le> c \<and> c \<le> z + 9) decimal_zeros)"

lemma decimal_value_lt: "decimal_value c = Some d \<Longrightarrow> d < 10"
  by (auto simp: decimal_value_def find_Some_iff)

text \<open>The second argument says whether the previous character was a digit.\<close>

fun digits_value :: "nat \<Rightarrow> bool \<Rightarrow> pystr \<Rightarrow> nat option" where
  "digits_value acc prev [] = (if prev then Some acc else None)"
| "digits_value acc prev (c # cs) =
     (if c = 95 then (if prev then digits_value acc False cs else None)
      else case decimal_value c of
             None \<Rightarrow> None
           | Some d \<Rightarrow> digits_value (10 * acc + d) True cs)"

definition unsigned_value :: "pystr \<Rightarrow> nat option" where
  "unsigned_value s =
     (if length (filter (\<lambda>c. c \<noteq> 95) s) > 4300 then None else digits_value 0 False s)"

definition py_int :: "pystr \<Rightarrow> int option" where
  "py_int raw =
     (let s = py_strip raw in
      case s of
        [] \<Rightarrow> None
      | c # cs \<Rightarrow>
          if c = 43 then map_option int (unsigned_value cs)
          else if c = 45 then map_option (\<lambda>n. - int n) (unsigned_value cs)
          else map_option int (unsigned_value s))"

section \<open>Sums, options and lists\<close>

datatype py_error =
  ValueError string | TypeError string | KeyError string | AttributeError string | AssertionError
  | RuntimeError string | IntegrityError string

definition is_ok :: "'e + 'a \<Rightarrow> bool" where
  "is_ok r \<longleftrightarrow> (case r of Inl _ \<Rightarrow> False | Inr _ \<Rightarrow> True)"

lemma is_ok_simps [simp]: "is_ok (Inl e) = False" "is_ok (Inr x) = True"
  by (simp_all add: is_ok_def)

text \<open>Sequencing of fallible computations: the first exception ends the evaluation.\<close>

definition and_then :: "'e + 'a \<Rightarrow> ('a \<Rightarrow> 'e + 'b) \<Rightarrow> 'e + 'b" where
  "and_then r k = (case r of Inl e \<Rightarrow> Inl e | Inr x \<Rightarrow> k x)"

lemma and_then_simps [simp]: "and_then (Inl e) k = Inl e" "and_then (Inr x) k = k x"
  by (simp_all add: and_then_def)

lemma and_then_Inr_iff: "and_then r k = Inr y \<longleftrightarrow> (\<exists>x. r = Inr x \<and> k x = Inr y)"
  by (cases r) auto

fun map_ok :: "('a \<Rightarrow> 'e + 'b) \<Rightarrow> 'a list \<Rightarrow> 'e + 'b list" where
  "map_ok f [] = Inr []"
| "map_ok f (x # xs) =
     and_then (f x) (\<lambda>y. and_then (map_ok f xs) (\<lambda>ys. Inr (y # ys)))"

lemma map_ok_Inr_all: "map_ok f xs = Inr ys \<Longrightarrow> list_all2 (\<lambda>x y. f x = Inr y) xs ys"
  by (induction xs arbitrary: ys) (auto simp: and_then_Inr_iff)

lemma if_Inl_Inr_iff [gate_simps]: "(if b then Inl e else r) = Inr x \<longleftrightarrow> \<not> b \<and> r = Inr x"
  by auto

section \<open>Time\<close>

type_synonym instant = int

abbreviation seconds :: "int \<Rightarrow> instant" where
  "seconds n \<equiv> n * 1000000"

abbreviation days :: "int \<Rightarrow> instant" where
  "days n \<equiv> n * 86400000000"

text \<open>\<^verbatim>\<open>x is not None and P x\<close>.\<close>

definition some_and :: "'a option \<Rightarrow> ('a \<Rightarrow> bool) \<Rightarrow> bool" where
  "some_and v P = (case v of None \<Rightarrow> False | Some x \<Rightarrow> P x)"

lemma some_and_simps [simp]: "some_and None P = False" "some_and (Some x) P = P x"
  by (simp_all add: some_and_def)

lemma some_and_iff: "some_and v P \<longleftrightarrow> (\<exists>x. v = Some x \<and> P x)"
  by (cases v) auto

end
