(* ===== verification/Py_Regex.thy ===== *)
theory Py_Regex
  imports Prelude
begin

text \<open>
  The part of Python's \<^verbatim>\<open>re\<close> that the policy modules use, as an executable matcher.
  \<open>ends s r i\<close> lists the positions at which a match of \<open>r\<close> that starts at position
  \<open>i\<close> of \<open>s\<close> can end; \<^verbatim>\<open>search\<close> and \<^verbatim>\<open>fullmatch\<close> succeed exactly when such a
  position exists, whatever order the engine explores them in.  A case-insensitive literal
  (\<open>CiLit\<close>) also matches the four code points outside ASCII that \<^verbatim>\<open>re.IGNORECASE\<close> folds
  to an ASCII letter.  Word boundaries depend on Unicode's alphanumeric table, which is the
  argument \<open>uw\<close> (for code points outside ASCII).
\<close>

datatype re =
    Eps
  | Cls "(nat \<times> nat) list"
  | NCls "(nat \<times> nat) list"
  | CiLit nat
  | CiCls "(nat \<times> nat) list"
  | Digit
  | Space
  | NonSpace
  | Cat re re
  | Alt re re
  | Rep nat nat re
  | Star re
  | WordB
  | NotBehindDigit
  | NotAheadDigit
  | Bos
  | Eos

abbreviation Opt :: "re \<Rightarrow> re" where
  "Opt r \<equiv> Rep 0 1 r"

abbreviation Plus :: "re \<Rightarrow> re" where
  "Plus r \<equiv> Cat r (Star r)"

abbreviation chr :: "nat \<Rightarrow> re" where
  "chr c \<equiv> Cls [(c, c)]"

definition word :: "pystr \<Rightarrow> re" where
  "word s = foldr (\<lambda>c r. Cat (chr c) r) s Eps"

definition ci_word :: "pystr \<Rightarrow> re" where
  "ci_word s = foldr (\<lambda>c r. Cat (CiLit c) r) s Eps"

fun alts :: "re list \<Rightarrow> re" where
  "alts [] = NCls [(0, 1114111)]"
| "alts [r] = r"
| "alts (r # rs) = Alt r (alts rs)"

definition in_ranges :: "nat \<Rightarrow> (nat \<times> nat) list \<Rightarrow> bool" where
  "in_ranges c rs \<longleftrightarrow> (\<exists>(a, b) \<in> set rs. a \<le> c \<and> c \<le> b)"

definition ci_fold :: "nat \<Rightarrow> nat" where
  "ci_fold c =
     (if 65 \<le> c \<and> c \<le> 90 then c + 32
      else if c = 304 \<or> c = 305 then 105
      else if c = 383 then 115
      else if c = 8490 then 107
      else c)"

definition word_cp :: "(nat \<Rightarrow> bool) \<Rightarrow> nat \<Rightarrow> bool" where
  "word_cp uw c \<longleftrightarrow> (if c < 128 then 48 \<le> c \<and> c \<le> 57 \<or> 65 \<le> c \<and> c \<le> 90 \<or> c = 95 \<or> 97 \<le> c \<and> c \<le> 122
                     else uw c)"

definition char_at :: "pystr \<Rightarrow> nat \<Rightarrow> (nat \<Rightarrow> bool) \<Rightarrow> bool" where
  "char_at s i P \<longleftrightarrow> i < length s \<and> P (s ! i)"

definition step_on :: "pystr \<Rightarrow> (nat \<Rightarrow> bool) \<Rightarrow> nat \<Rightarrow> nat list" where
  "step_on s P i = (if char_at s i P then [Suc i] else [])"

primrec star_ends :: "(nat \<Rightarrow> nat list) \<Rightarrow> nat \<Rightarrow> nat \<Rightarrow> nat list" where
  "star_ends f 0 i = [i]"
| "star_ends f (Suc n) i =
     i # concat (map (\<lambda>j. if i < j then star_ends f n j else []) (f i))"

text \<open>Between \<open>m\<close> and \<open>m + k\<close> repetitions.\<close>

primrec upto_ends :: "(nat \<Rightarrow> nat list) \<Rightarrow> nat \<Rightarrow> nat \<Rightarrow> nat list" where
  "upto_ends f 0 i = [i]"
| "upto_ends f (Suc k) i = i # concat (map (upto_ends f k) (f i))"

primrec rep_ends :: "(nat \<Rightarrow> nat list) \<Rightarrow> nat \<Rightarrow> nat \<Rightarrow> nat \<Rightarrow> nat list" where
  "rep_ends f 0 k i = upto_ends f k i"
| "rep_ends f (Suc m) k i = concat (map (rep_ends f m k) (f i))"

primrec ends :: "(nat \<Rightarrow> bool) \<Rightarrow> pystr \<Rightarrow> re \<Rightarrow> nat \<Rightarrow> nat list" where
  "ends uw s Eps = (\<lambda>i. [i])"
| "ends uw s (Cls rs) = step_on s (\<lambda>c. in_ranges c rs)"
| "ends uw s (NCls rs) = step_on s (\<lambda>c. \<not> in_ranges c rs)"
| "ends uw s (CiLit l) = step_on s (\<lambda>c. ci_fold c = ci_fold l)"
| "ends uw s (CiCls rs) = step_on s (\<lambda>c. in_ranges c rs \<or> in_ranges (ci_fold c) rs)"
| "ends uw s Digit = step_on s (\<lambda>c. decimal_value c \<noteq> None)"
| "ends uw s Space = step_on s py_space"
| "ends uw s NonSpace = step_on s (\<lambda>c. \<not> py_space c)"
| "ends uw s (Cat a b) = (\<lambda>i. concat (map (ends uw s b) (ends uw s a i)))"
| "ends uw s (Alt a b) = (\<lambda>i. ends uw s a i @ ends uw s b i)"
| "ends uw s (Rep m n r) = (\<lambda>i. rep_ends (ends uw s r) m (n - m) i)"
| "ends uw s (Star r) = (\<lambda>i. star_ends (ends uw s r) (length s) i)"
| "ends uw s WordB =
     (\<lambda>i. if (0 < i \<and> char_at s (i - 1) (word_cp uw)) \<noteq> char_at s i (word_cp uw) then [i] else [])"
| "ends uw s NotBehindDigit =
     (\<lambda>i. if 0 < i \<and> char_at s (i - 1) (\<lambda>c. decimal_value c \<noteq> None) then [] else [i])"
| "ends uw s NotAheadDigit =
     (\<lambda>i. if char_at s i (\<lambda>c. decimal_value c \<noteq> None) then [] else [i])"
| "ends uw s Bos = (\<lambda>i. if i = 0 then [i] else [])"
| "ends uw s Eos = (\<lambda>i. if i = length s \<or> Suc i = length s \<and> s ! i = 10 then [i] else [])"

definition re_search :: "(nat \<Rightarrow> bool) \<Rightarrow> re \<Rightarrow> pystr \<Rightarrow> bool" where
  "re_search uw r s \<longleftrightarrow> (\<exists>i \<in> set [0..<Suc (length s)]. ends uw s r i \<noteq> [])"

definition re_fullmatch :: "(nat \<Rightarrow> bool) \<Rightarrow> re \<Rightarrow> pystr \<Rightarrow> bool" where
  "re_fullmatch uw r s \<longleftrightarrow> length s \<in> set (ends uw s r 0)"

subsection \<open>Searching for literal words\<close>

lemma ends_word: "i + length w \<le> length s \<Longrightarrow>
    ends uw s (word w) i = (if take (length w) (drop i s) = w then [i + length w] else [])"
proof (induction w arbitrary: i)
  case Nil
  then show ?case by (simp add: word_def)
next
  case (Cons c w)
  have i: "i < length s" using Cons.prems by simp
  have step: "ends uw s (word (c # w)) i
      = (if s ! i = c then ends uw s (word w) (Suc i) else [])"
    using i by (auto simp: word_def step_on_def char_at_def in_ranges_def)
  have "take (length (c # w)) (drop i s) = s ! i # take (length w) (drop (Suc i) s)"
    using i by (simp add: Cons_nth_drop_Suc [symmetric])
  with step Cons.IH [of "Suc i"] Cons.prems show ?case
    by auto
qed

lemma ends_word_short: "\<not> i + length w \<le> length s \<Longrightarrow> ends uw s (word w) i = [] \<or> w = []"
proof (induction w arbitrary: i)
  case Nil
  then show ?case by simp
next
  case (Cons c w)
  show ?case
  proof (cases "i < length s \<and> s ! i = c")
    case True
    with Cons.prems have "\<not> Suc i + length w \<le> length s" and "w \<noteq> []" by auto
    with Cons.IH [of "Suc i"] True show ?thesis
      by (auto simp: word_def step_on_def char_at_def in_ranges_def)
  next
    case False
    then show ?thesis
      by (auto simp: word_def step_on_def char_at_def in_ranges_def)
  qed
qed

text \<open>A search for a literal word is Python's substring test.\<close>

lemma re_search_word: "re_search uw (word w) s \<longleftrightarrow> py_contains w s"
proof
  assume "re_search uw (word w) s"
  then obtain i where i: "i \<le> length s" and e: "ends uw s (word w) i \<noteq> []"
    by (auto simp: re_search_def less_Suc_eq_le simp del: upt_Suc)
  have "prefix w (drop i s)"
  proof (cases "i + length w \<le> length s")
    case True
    with e have "take (length w) (drop i s) = w"
      by (simp add: ends_word split: if_splits)
    then show ?thesis by (metis take_is_prefix)
  next
    case False
    with e ends_word_short [of i w s uw] show ?thesis by simp
  qed
  with i show "py_contains w s"
    unfolding py_contains_def by (intro bexI [of _ i]) auto
next
  assume "py_contains w s"
  then obtain i where i: "i \<le> length s" and p: "prefix w (drop i s)"
    by (auto simp: py_contains_def less_Suc_eq_le simp del: upt_Suc)
  from p have len: "i + length w \<le> length s"
    using i prefix_length_le [OF p] by simp
  from p have "take (length w) (drop i s) = w"
    by (auto simp: prefix_def)
  with ends_word [OF len] have "ends uw s (word w) i \<noteq> []"
    by simp
  with i show "re_search uw (word w) s"
    unfolding re_search_def by (intro bexI [of _ i]) auto
qed

lemma re_search_Alt: "re_search uw (Alt a b) s \<longleftrightarrow> re_search uw a s \<or> re_search uw b s"
  by (auto simp: re_search_def)

lemma re_search_alts: "rs \<noteq> [] \<Longrightarrow> re_search uw (alts rs) s \<longleftrightarrow> (\<exists>r \<in> set rs. re_search uw r s)"
  by (induction rs rule: alts.induct) (auto simp: re_search_Alt)

subsection \<open>The least length of a match\<close>

primrec min_len :: "re \<Rightarrow> nat" where
  "min_len Eps = 0"
| "min_len (Cls rs) = 1"
| "min_len (NCls rs) = 1"
| "min_len (CiLit l) = 1"
| "min_len (CiCls rs) = 1"
| "min_len Digit = 1"
| "min_len Space = 1"
| "min_len NonSpace = 1"
| "min_len (Cat a b) = min_len a + min_len b"
| "min_len (Alt a b) = min (min_len a) (min_len b)"
| "min_len (Rep m n r) = m * min_len r"
| "min_len (Star r) = 0"
| "min_len WordB = 0"
| "min_len NotBehindDigit = 0"
| "min_len NotAheadDigit = 0"
| "min_len Bos = 0"
| "min_len Eos = 0"

definition advances :: "pystr \<Rightarrow> nat \<Rightarrow> (nat \<Rightarrow> nat list) \<Rightarrow> bool" where
  "advances s n f \<longleftrightarrow> (\<forall>i j. i \<le> length s \<longrightarrow> j \<in> set (f i) \<longrightarrow> i + n \<le> j \<and> j \<le> length s)"

lemma advancesD: "advances s n f \<Longrightarrow> i \<le> length s \<Longrightarrow> j \<in> set (f i) \<Longrightarrow> i + n \<le> j \<and> j \<le> length s"
  by (simp add: advances_def)

lemma star_ends_advances: "advances s n f \<Longrightarrow> advances s 0 (star_ends f k)"
proof (induction k)
  case (Suc k)
  note IH = Suc.IH [OF Suc.prems]
  show ?case unfolding advances_def
  proof (intro allI impI)
    fix i j
    assume i: "i \<le> length s" and j: "j \<in> set (star_ends f (Suc k) i)"
    then consider "j = i" | m where "m \<in> set (f i)" "j \<in> set (star_ends f k m)"
      by (auto split: if_splits)
    then show "i + 0 \<le> j \<and> j \<le> length s"
    proof cases
      case 2
      from advancesD [OF Suc.prems i 2(1)] advancesD [OF IH _ 2(2)] show ?thesis by auto
    qed (use i in simp)
  qed
qed (simp add: advances_def)

lemma upto_ends_advances: "advances s n f \<Longrightarrow> advances s 0 (upto_ends f k)"
proof (induction k)
  case (Suc k)
  note IH = Suc.IH [OF Suc.prems]
  show ?case unfolding advances_def
  proof (intro allI impI)
    fix i j
    assume i: "i \<le> length s" and j: "j \<in> set (upto_ends f (Suc k) i)"
    then consider "j = i" | m where "m \<in> set (f i)" "j \<in> set (upto_ends f k m)" by auto
    then show "i + 0 \<le> j \<and> j \<le> length s"
    proof cases
      case 2
      from advancesD [OF Suc.prems i 2(1)] advancesD [OF IH _ 2(2)] show ?thesis by auto
    qed (use i in simp)
  qed
qed (simp add: advances_def)

lemma rep_ends_advances: "advances s n f \<Longrightarrow> advances s (m * n) (rep_ends f m k)"
proof (induction m)
  case 0
  have "rep_ends f 0 k = upto_ends f k" by (rule ext) simp
  with upto_ends_advances [OF 0, of k] show ?case by simp
next
  case (Suc m)
  note IH = Suc.IH [OF Suc.prems]
  show ?case unfolding advances_def
  proof (intro allI impI)
    fix i j
    assume i: "i \<le> length s" and "j \<in> set (rep_ends f (Suc m) k i)"
    then obtain l where l: "l \<in> set (f i)" "j \<in> set (rep_ends f m k l)" by auto
    from advancesD [OF Suc.prems i l(1)] advancesD [OF IH _ l(2)]
    show "i + Suc m * n \<le> j \<and> j \<le> length s" by auto
  qed
qed

lemma advancesI:
  assumes "\<And>i j. i \<le> length s \<Longrightarrow> j \<in> set (f i) \<Longrightarrow> i + n \<le> j \<and> j \<le> length s"
  shows "advances s n f"
  using assms unfolding advances_def by blast

lemma step_on_advances: "advances s 1 (step_on s P)"
  by (rule advancesI) (auto simp: step_on_def char_at_def split: if_splits)

lemma test_advances: "advances s 0 (\<lambda>i. if Q i then [i] else [])"
  by (rule advancesI) (simp split: if_splits)

lemma no_test_advances: "advances s 0 (\<lambda>i. if Q i then [] else [i])"
  by (rule advancesI) (simp split: if_splits)

lemma ends_advances: "advances s (min_len r) (ends uw s r)"
proof (induction r)
  case (Cat a b)
  show ?case
  proof (rule advancesI)
    fix i j
    assume i: "i \<le> length s" and "j \<in> set (ends uw s (Cat a b) i)"
    then obtain k where k: "k \<in> set (ends uw s a i)" "j \<in> set (ends uw s b k)" by auto
    from advancesD [OF Cat.IH(1) i k(1)] advancesD [OF Cat.IH(2) _ k(2)]
    show "i + min_len (Cat a b) \<le> j \<and> j \<le> length s" by simp
  qed
next
  case (Alt a b)
  show ?case
  proof (rule advancesI)
    fix i j
    assume i: "i \<le> length s" and "j \<in> set (ends uw s (Alt a b) i)"
    then consider "j \<in> set (ends uw s a i)" | "j \<in> set (ends uw s b i)" by auto
    then show "i + min_len (Alt a b) \<le> j \<and> j \<le> length s"
    proof cases
      case 1
      from advancesD [OF Alt.IH(1) i 1] show ?thesis by (simp add: min_def)
    next
      case 2
      from advancesD [OF Alt.IH(2) i 2] show ?thesis by (simp add: min_def)
    qed
  qed
next
  case (Rep m n r)
  have e: "ends uw s (Rep m n r) = rep_ends (ends uw s r) m (n - m)" by (rule ext) simp
  show ?case unfolding e min_len.simps by (rule rep_ends_advances [OF Rep])
next
  case (Star r)
  have e: "ends uw s (Star r) = star_ends (ends uw s r) (length s)" by (rule ext) simp
  show ?case unfolding e min_len.simps by (rule star_ends_advances [OF Star])
next
  case Eps
  show ?case by (rule advancesI) simp
qed (simp_all only: ends.simps min_len.simps step_on_advances test_advances no_test_advances)

lemma re_search_too_short: "length s < min_len r \<Longrightarrow> \<not> re_search uw r s"
proof
  assume short: "length s < min_len r" and "re_search uw r s"
  then obtain i j where "i \<le> length s" "j \<in> set (ends uw s r i)"
    by (auto simp: re_search_def less_Suc_eq_le neq_Nil_conv simp del: upt_Suc)
      (metis list.set_intros(1))
  from advancesD [OF ends_advances this] short show False by simp
qed

lemma re_fullmatch_too_short: "length s < min_len r \<Longrightarrow> \<not> re_fullmatch uw r s"
proof
  assume short: "length s < min_len r" and "re_fullmatch uw r s"
  then have "length s \<in> set (ends uw s r 0)" by (simp add: re_fullmatch_def)
  from advancesD [OF ends_advances _ this] short show False by simp
qed

end
