(* ===== verification/Contact_Policy.thy ===== *)
theory Contact_Policy
  imports Py_Regex
begin

text \<open>
  \<^verbatim>\<open>bbw_agent/contact_policy.py\<close>: which relationship stage a contact is in, whether the
  last message must be left to the user, and whether the automatic reply is allowed.  The words of
  the risk patterns are written as code points, one list per pattern of the source.
\<close>

section \<open>Vocabulary\<close>

abbreviation "CONTACT_MODE_SUGGEST_ONLY \<equiv> S ''suggest_only''"
abbreviation "CONTACT_MODE_AUTO_LOW_RISK \<equiv> S ''auto_low_risk''"
abbreviation "CONTACT_MODE_MANUAL_ONLY \<equiv> S ''manual_only''"
abbreviation "STAGE_NEW \<equiv> S ''new''"
abbreviation "STAGE_ENGAGED \<equiv> S ''engaged''"
abbreviation "STAGE_ESTABLISHED \<equiv> S ''established''"
abbreviation "STAGE_CLOSE \<equiv> S ''close''"
abbreviation "STAGE_MANUAL_ONLY \<equiv> S ''manual_only''"
abbreviation "STAGE_INACTIVE \<equiv> S ''inactive''"

definition CONTACT_POLICY_MODES :: "pystr list" where
  "CONTACT_POLICY_MODES =
     [CONTACT_MODE_SUGGEST_ONLY, CONTACT_MODE_AUTO_LOW_RISK, CONTACT_MODE_MANUAL_ONLY]"

definition RELATIONSHIP_STAGES :: "pystr list" where
  "RELATIONSHIP_STAGES =
     [STAGE_NEW, STAGE_ENGAGED, STAGE_ESTABLISHED, STAGE_CLOSE, STAGE_MANUAL_ONLY, STAGE_INACTIVE]"

definition AUTO_REPLY_RELATIONSHIP_STAGES :: "pystr list" where
  "AUTO_REPLY_RELATIONSHIP_STAGES = [STAGE_NEW, STAGE_ENGAGED, STAGE_ESTABLISHED, STAGE_CLOSE]"

section \<open>Relationship signals\<close>

record relationship_signals =
  total_message_count :: int
  incoming_message_count :: int
  outgoing_message_count :: int
  last_incoming_at :: "instant option"
  last_outgoing_at :: "instant option"
  latest_direction :: pystr
  latest_message_at :: "instant option"
  sig_blocked :: bool
  conversation_available :: bool

text \<open>\<^verbatim>\<open>ContactRelationshipSignals.__post_init__\<close>.\<close>

definition post_init_signals :: "relationship_signals \<Rightarrow> py_error + relationship_signals" where
  "post_init_signals s =
     (if total_message_count s < 0 \<or> incoming_message_count s < 0 \<or> outgoing_message_count s < 0
      then Inl (ValueError ''contact message counts cannot be negative'')
      else if incoming_message_count s + outgoing_message_count s > total_message_count s
      then Inl (ValueError ''directional contact counts exceed the total'')
      else
        (let direction = py_lower (py_strip (latest_direction s)) in
         if direction \<notin> {[], S ''incoming'', S ''outgoing''}
         then Inl (ValueError ''latest contact message direction is invalid'')
         else Inr (s\<lparr>latest_direction := direction\<rparr>)))"

definition recently_bidirectional :: "relationship_signals \<Rightarrow> instant \<Rightarrow> bool" where
  "recently_bidirectional s current =
     (let recent_cutoff = current - days 7 in
      some_and (last_incoming_at s) (\<lambda>t. t \<ge> recent_cutoff)
      \<and> some_and (last_outgoing_at s) (\<lambda>t. t \<ge> recent_cutoff))"

definition derive_relationship_stage ::
  "relationship_signals \<Rightarrow> instant \<Rightarrow> pystr \<Rightarrow> pystr option \<Rightarrow> py_error + pystr" where
  "derive_relationship_stage s now mode stage_override =
     (let normalized_mode = py_lower (py_strip (or_default (Some mode) CONTACT_MODE_SUGGEST_ONLY));
          override = py_lower (py_strip (or_default stage_override [])) in
      if normalized_mode \<notin> set CONTACT_POLICY_MODES
      then Inl (ValueError ''unsupported contact policy mode'')
      else if override \<noteq> [] \<and> override \<notin> set RELATIONSHIP_STAGES
      then Inl (ValueError ''unsupported relationship stage override'')
      else if normalized_mode = CONTACT_MODE_MANUAL_ONLY \<or> override = STAGE_MANUAL_ONLY
      then Inr STAGE_MANUAL_ONLY
      else if sig_blocked s \<or> \<not> conversation_available s
      then Inr STAGE_INACTIVE
      else if latest_direction s = S ''outgoing''
           \<and> some_and (latest_message_at s) (\<lambda>t. t \<le> now - days 7)
      then Inr STAGE_INACTIVE
      else if override \<noteq> [] then Inr override
      else if total_message_count s \<ge> 100 then Inr STAGE_CLOSE
      else if total_message_count s \<ge> 20 \<and> recently_bidirectional s now
      then Inr STAGE_ESTABLISHED
      else if incoming_message_count s > 0 \<and> outgoing_message_count s > 0
      then Inr STAGE_ENGAGED
      else Inr STAGE_NEW)"

section \<open>Risk boundaries\<close>

definition credential_words :: "pystr list" where
  "credential_words =
    [[23494, 30721], [39564, 35777, 30721], [21475, 20196], [23494, 38053], [20196, 29260]]"

definition financial_words :: "pystr list" where
  "financial_words =
    [[36716, 36134], [20184, 27454], [25910, 27454], [20511, 38065], [36824, 38065],
     [32418, 21253], [38134, 34892, 21345], [25903, 20184, 23453],
     [24494, 20449, 25903, 20184], [20132, 26131], [25237, 36164], [20445, 35777, 37329],
     [22810, 23569, 38065]]"

definition contact_words :: "pystr list" where
  "contact_words =
    [[25163, 26426, 21495], [30005, 35805, 21495, 30721], [30005, 35805, 21495],
     [21152, 25105, 24494, 20449], [24494, 20449, 21495], [21152, 24494, 20449]]"

definition location_words :: "pystr list" where
  "location_words =
    [[20855, 20307, 22320, 22336], [21457, 23450, 20301], [20849, 20139, 23450, 20301],
     [32463, 32428, 24230], [25151, 38388, 21495], [37202, 24215], [23486, 39302],
     [32447, 19979, 35265, 38754], [20986, 26469, 35265], [32422, 20010, 22320, 26041],
     [35265, 19968, 38754]]"

definition health_words :: "pystr list" where
  "health_words =
    [[21307, 38498], [30475, 21307, 29983], [21507, 20160, 20040, 33647], [24576, 23381],
     [33406, 28363], [25233, 37057], [33258, 27531], [33258, 26432], [19981, 24819, 27963],
     [24515, 29702, 30142, 30149]]"

definition legal_words :: "pystr list" where
  "legal_words =
    [[25253, 35686], [20030, 25253], [24459, 24072], [36215, 35785], [27861, 38498],
     [23041, 32961], [21202, 32034], [25171, 20320], [26432, 20320], [24324, 27515],
     [26333, 20809, 20320]]"

definition commitment_words :: "pystr list" where
  "commitment_words =
    [[32467, 23130], [39046, 35777], [30007, 26379, 21451], [22899, 26379, 21451],
     [23545, 35937], [25215, 35834], [20445, 35777, 27704, 36828],
     [36523, 20221, 20851, 31995]]"

definition explicit_words :: "pystr list" where
  "explicit_words =
    [[20570, 29233], [24615, 20132], [32422, 28846], [35064, 29031],
     [25104, 20154, 35270, 39057], [23433, 20840, 35789], [36523, 20307, 36793, 30028],
     [21516, 24847, 29366, 24577], [24378, 36843], [25298, 32477, 36824]]"

definition explicit_words2 :: "pystr list" where
  "explicit_words2 =
    [[19981, 25214, 20027], [26377, 20027, 20102], [24050, 26377, 20027],
     [26377, 20027, 20154], [20027, 22900], [35843, 25945]]"

text \<open>
  \<^verbatim>\<open>_RISK_BOUNDARIES\<close>: the codes with their patterns, in the order in which they are tried.
  The Chinese words have no case, so a plain word stands for them under \<^verbatim>\<open>IGNORECASE\<close>.
\<close>

definition RISK_BOUNDARIES :: "(string \<times> re) list" where
  "RISK_BOUNDARIES =
    [(''credentials'', alts (map word credential_words @
        [ci_word (S ''token''), ci_word (S ''cookie''), ci_word (S ''session''),
         word [36134, 21495, 30331, 24405]])),
     (''financial'', alts (map word financial_words)),
     (''contact_details'', alts (map word contact_words @
        [Cat (word [21152, 25105]) (ci_word (S ''qq'')),
         Cat (ci_word (S ''qq'')) (word [21495]),
         word [37038, 31665],
         Cat (ci_word (S ''vx'')) (Cat (Star Space) (Opt (Cls [(58, 58), (65306, 65306)]))),
         Cat (CiLit 118) (word [20449])])),
     (''precise_location_or_meeting'', alts (map word location_words)),
     (''health_or_self_harm'', alts (map word health_words)),
     (''legal_or_conflict'', alts (map word legal_words)),
     (''identity_or_commitment'', alts (map word commitment_words)),
     (''explicit_or_consent'', alts (map word explicit_words @
        [Cat (word [36731, 24230]) (Cat (Star Space) (ci_word (S ''sm''))),
         Cat (CiLit 115) (Cat (Opt (Cls [(47, 47), (92, 92)])) (CiLit 109))]
        @ map word explicit_words2))]"

definition reply_risk_boundary :: "pystr option \<Rightarrow> pystr option \<Rightarrow> string" where
  "reply_risk_boundary body message_type =
     (let normalized_type = py_lower (py_strip (or_default message_type []));
          text = py_strip (or_default body []) in
      if normalized_type \<notin> {S ''text'', S ''timtextelem''} then ''unsupported_media''
      else if text = [] then ''empty_message''
      else case find (\<lambda>(code, pattern). re_search (\<lambda>_. True) pattern text) RISK_BOUNDARIES of
             Some (code, pattern) \<Rightarrow> code
           | None \<Rightarrow> [])"

section \<open>The automatic reply\<close>

definition contact_policy_allows_auto_reply ::
  "bool \<Rightarrow> pystr \<Rightarrow> bool \<Rightarrow> pystr \<Rightarrow> pystr \<Rightarrow> bool" where
  "contact_policy_allows_auto_reply persisted mode paused stage risk_boundary =
     (let effective_mode =
            (if persisted then py_lower (py_strip mode) else CONTACT_MODE_AUTO_LOW_RISK) in
      effective_mode = CONTACT_MODE_AUTO_LOW_RISK
      \<and> \<not> paused
      \<and> py_lower (py_strip stage) \<in> set AUTO_REPLY_RELATIONSHIP_STAGES
      \<and> py_strip risk_boundary = [])"

definition relationship_stage_allows_address_terms :: "pystr option \<Rightarrow> bool" where
  "relationship_stage_allows_address_terms stage \<longleftrightarrow>
     py_lower (py_strip (or_default stage [])) \<in> {STAGE_ESTABLISHED, STAGE_CLOSE}"

section \<open>Lemmas\<close>

lemmas contact_sets = CONTACT_POLICY_MODES_def RELATIONSHIP_STAGES_def
  AUTO_REPLY_RELATIONSHIP_STAGES_def

lemma stage_words_normal [simp]:
  "stage \<in> set RELATIONSHIP_STAGES \<Longrightarrow> py_lower stage = stage"
  "stage \<in> set RELATIONSHIP_STAGES \<Longrightarrow> py_strip stage = stage"
  by (auto simp: contact_sets py_lower_def py_strip_def S_def lower_cp_def py_space_def)

lemma derive_stage_known:
  "derive_relationship_stage s now mode stage_override = Inr stage
    \<Longrightarrow> stage \<in> set RELATIONSHIP_STAGES"
  by (auto simp: derive_relationship_stage_def Let_def contact_sets split: if_splits)

text \<open>A block, or a conversation that cannot be used, leaves only the two stages that stop replies.\<close>

lemma derive_stage_unsafe:
  assumes "derive_relationship_stage s now mode stage_override = Inr stage"
    and "sig_blocked s \<or> \<not> conversation_available s"
  shows "stage = STAGE_MANUAL_ONLY \<or> stage = STAGE_INACTIVE"
  using assms by (auto simp: derive_relationship_stage_def Let_def split: if_splits)

lemma stopped_stage_no_reply:
  assumes "stage = STAGE_MANUAL_ONLY \<or> stage = STAGE_INACTIVE"
  shows "\<not> contact_policy_allows_auto_reply persisted mode paused stage risk"
proof -
  from assms have "stage \<in> set RELATIONSHIP_STAGES"
    by (auto simp: RELATIONSHIP_STAGES_def)
  with assms show ?thesis
    by (auto simp: contact_policy_allows_auto_reply_def AUTO_REPLY_RELATIONSHIP_STAGES_def)
qed

lemma find_in_set: "find P xs = Some x \<Longrightarrow> x \<in> set xs"
  by (auto simp: find_Some_iff)

text \<open>No review reason has a space at its ends.\<close>

lemma reason_normal: "py_strip (S (reply_risk_boundary body mt)) = S (reply_risk_boundary body mt)"
proof -
  have codes: "\<forall>(c, p) \<in> set RISK_BOUNDARIES. py_strip (S c) = S c"
    by (simp add: RISK_BOUNDARIES_def S_def py_strip_def py_space_def)
  have "py_strip (S ''unsupported_media'') = S ''unsupported_media''"
    "py_strip (S ''empty_message'') = S ''empty_message''"
    by (simp_all add: S_def py_strip_def py_space_def)
  with codes show ?thesis
    by (fastforce simp: reply_risk_boundary_def Let_def dest: find_in_set split: option.split)
qed

lemma word_in_risk_boundary:
  assumes "(code, pattern) \<in> set RISK_BOUNDARIES" and "re_search (\<lambda>_. True) pattern (py_strip body)"
  shows "reply_risk_boundary (Some body) mt \<noteq> []"
proof -
  have codes: "\<forall>(c, p) \<in> set RISK_BOUNDARIES. c \<noteq> []" by (simp add: RISK_BOUNDARIES_def)
  have "find (\<lambda>(code, pattern). re_search (\<lambda>_. True) pattern (py_strip body)) RISK_BOUNDARIES \<noteq> None"
    using assms by (auto simp: find_None_iff)
  then obtain c p where
    f: "find (\<lambda>(code, pattern). re_search (\<lambda>_. True) pattern (py_strip body)) RISK_BOUNDARIES = Some (c, p)"
    by auto
  then have "(c, p) \<in> set RISK_BOUNDARIES" by (rule find_in_set)
  with codes have "c \<noteq> []" by auto
  with f show ?thesis
    by (cases "body = []") (auto simp: reply_risk_boundary_def Let_def)
qed

text \<open>The plain words of every boundary, as one list.\<close>

definition risk_words :: "pystr list" where
  "risk_words = credential_words @ financial_words @ contact_words @ location_words @ health_words
     @ legal_words @ commitment_words @ explicit_words @ explicit_words2"

lemma risk_word_hits:
  assumes "w \<in> set risk_words" and "py_contains w text"
  shows "\<exists>(code, pattern) \<in> set RISK_BOUNDARIES. re_search (\<lambda>_. True) pattern text"
proof -
  have hit: "re_search (\<lambda>_. True) (word w) text" using assms(2) by (simp add: re_search_word)
  have ne: "credential_words \<noteq> []" "financial_words \<noteq> []" "contact_words \<noteq> []" "location_words \<noteq> []"
    "health_words \<noteq> []" "legal_words \<noteq> []" "commitment_words \<noteq> []" "explicit_words \<noteq> []"
    by (simp_all add: credential_words_def financial_words_def contact_words_def location_words_def
        health_words_def legal_words_def commitment_words_def explicit_words_def)
  from assms(1) have "w \<in> set credential_words \<or> w \<in> set financial_words \<or> w \<in> set contact_words
      \<or> w \<in> set location_words \<or> w \<in> set health_words \<or> w \<in> set legal_words
      \<or> w \<in> set commitment_words \<or> w \<in> set explicit_words \<or> w \<in> set explicit_words2"
    by (auto simp: risk_words_def)
  then show ?thesis
    using hit ne by (elim disjE) (auto simp: RISK_BOUNDARIES_def re_search_alts)
qed

text \<open>No setting makes the agent answer by itself in an unsafe conversation.  Whatever the
  policy mode and the stage the user chose, the stage derived for a contact that is blocked, that
  cannot be reached, or whose last message is an unanswered outgoing one of at least seven days is
  one of the two stages for which the automatic reply is refused, with or without a stored contact
  policy.\<close>

theorem contact_unsafe_never_auto_reply:
  assumes "derive_relationship_stage s now mode stage_override = Inr stage"
    and "sig_blocked s \<or> \<not> conversation_available s
      \<or> latest_direction s = S ''outgoing''
        \<and> some_and (latest_message_at s) (\<lambda>t. t \<le> now - days 7)"
  shows "stage \<in> {STAGE_MANUAL_ONLY, STAGE_INACTIVE}
    \<and> \<not> contact_policy_allows_auto_reply persisted mode' paused stage risk"
proof -
  have "stage = STAGE_MANUAL_ONLY \<or> stage = STAGE_INACTIVE"
    using assms by (auto simp: derive_relationship_stage_def Let_def split: if_splits)
  with stopped_stage_no_reply [OF this] show ?thesis by blast
qed

lemma mode_stage_normal:
  "py_lower (py_strip STAGE_CLOSE) = STAGE_CLOSE" "py_lower (py_strip []) = []"
  "py_lower (py_strip CONTACT_MODE_AUTO_LOW_RISK) = CONTACT_MODE_AUTO_LOW_RISK"
  by (simp_all add: S_def py_strip_def py_space_def lower_cp_def)

theorem contact_unsafe_never_auto_reply_witness:
  "\<exists>s. derive_relationship_stage s 0 CONTACT_MODE_AUTO_LOW_RISK (Some STAGE_CLOSE) = Inr STAGE_INACTIVE
     \<and> \<not> contact_policy_allows_auto_reply True CONTACT_MODE_AUTO_LOW_RISK False STAGE_INACTIVE []"
proof -
  let ?s = "\<lparr>total_message_count = 200, incoming_message_count = 100, outgoing_message_count = 100,
    last_incoming_at = Some 0, last_outgoing_at = Some 0, latest_direction = S ''incoming'',
    latest_message_at = Some 0, sig_blocked = True, conversation_available = True\<rparr>"
  have d: "derive_relationship_stage ?s 0 CONTACT_MODE_AUTO_LOW_RISK (Some STAGE_CLOSE) = Inr STAGE_INACTIVE"
    by (simp add: derive_relationship_stage_def mode_stage_normal contact_sets)
  with contact_unsafe_never_auto_reply [OF d, of True CONTACT_MODE_AUTO_LOW_RISK False "[]"]
  show ?thesis by auto
qed

text \<open>A message that contains any plain word of any risk boundary, or that is empty, or that is
  not a text message, is never answered automatically: it has a review reason, and with that reason
  the automatic reply is refused for every contact.\<close>

theorem risky_message_never_auto_reply:
  assumes "(\<exists>w \<in> set risk_words. py_contains w (py_strip body)) \<or> py_strip body = []
    \<or> py_lower (py_strip message_type) \<notin> {S ''text'', S ''timtextelem''}"
  shows "\<not> contact_policy_allows_auto_reply persisted mode paused stage
    (S (reply_risk_boundary (Some body) (Some message_type)))"
proof -
  have "reply_risk_boundary (Some body) (Some message_type) \<noteq> []"
  proof (cases "\<exists>w \<in> set risk_words. py_contains w (py_strip body)")
    case True
    then obtain code pattern where "(code, pattern) \<in> set RISK_BOUNDARIES"
      "re_search (\<lambda>_. True) pattern (py_strip body)"
      using risk_word_hits by blast
    then show ?thesis by (rule word_in_risk_boundary)
  next
    case False
    with assms(1) show ?thesis
      by (cases "body = []"; cases "message_type = []") (auto simp: reply_risk_boundary_def Let_def)
  qed
  then show ?thesis by (simp add: contact_policy_allows_auto_reply_def Let_def reason_normal)
qed

theorem risky_message_never_auto_reply_witness:
  "reply_risk_boundary (Some []) (Some (S ''image'')) = ''unsupported_media''
   \<and> \<not> contact_policy_allows_auto_reply False [] False STAGE_CLOSE (S ''unsupported_media'')"
proof -
  have image: "py_lower (py_strip (S ''image'')) = S ''image''"
    by (simp add: S_def py_strip_def py_space_def lower_cp_def)
  then have "py_lower (py_strip (S ''image'')) \<notin> {S ''text'', S ''timtextelem''}" by simp
  then have "\<not> contact_policy_allows_auto_reply False [] False STAGE_CLOSE
      (S (reply_risk_boundary (Some []) (Some (S ''image''))))"
    by (intro risky_message_never_auto_reply disjI2)
  moreover have "reply_risk_boundary (Some []) (Some (S ''image'')) = ''unsupported_media''"
    using image by (simp add: reply_risk_boundary_def)
  ultimately show ?thesis by simp
qed

end
