(* ===== verification/Dependency_Health.thy ===== *)
theory Dependency_Health
  imports Complex_Main Py_Regex
begin

text \<open>
  \<^verbatim>\<open>bbw_web/dependency_health.py\<close>: classification of integration failures, the registry of
  capability states, the request deadline and the circuit breakers.  Clock readings and durations
  in floating point seconds are real numbers; every method takes the reading of its clock as the
  argument \<open>now\<close>.  A method that changes the registry and may raise returns the new registry
  with the outcome, because the change survives the exception.
\<close>

section \<open>Vocabulary\<close>

datatype availability = AVAILABLE | DEGRADED | UNAVAILABLE

datatype error_kind =
  TIMEOUT | CONNECTION | RATE_LIMITED | AUTHENTICATION | AUTHORIZATION | CONFIGURATION
| CONTRACT | UPSTREAM | UNKNOWN

fun availability_value :: "availability \<Rightarrow> string" where
  "availability_value AVAILABLE = ''available''"
| "availability_value DEGRADED = ''degraded''"
| "availability_value UNAVAILABLE = ''unavailable''"

fun kind_value :: "error_kind \<Rightarrow> string" where
  "kind_value TIMEOUT = ''timeout''"
| "kind_value CONNECTION = ''connection''"
| "kind_value RATE_LIMITED = ''rate_limited''"
| "kind_value AUTHENTICATION = ''authentication''"
| "kind_value AUTHORIZATION = ''authorization''"
| "kind_value CONFIGURATION = ''configuration''"
| "kind_value CONTRACT = ''contract''"
| "kind_value UPSTREAM = ''upstream''"
| "kind_value UNKNOWN = ''unknown''"

fun public_error_code :: "error_kind \<Rightarrow> string" where
  "public_error_code TIMEOUT = ''DEPENDENCY_TIMEOUT''"
| "public_error_code CONNECTION = ''DEPENDENCY_CONNECTION_FAILED''"
| "public_error_code RATE_LIMITED = ''DEPENDENCY_RATE_LIMITED''"
| "public_error_code AUTHENTICATION = ''DEPENDENCY_AUTHENTICATION_FAILED''"
| "public_error_code AUTHORIZATION = ''DEPENDENCY_AUTHORIZATION_FAILED''"
| "public_error_code CONFIGURATION = ''DEPENDENCY_CONFIGURATION_INVALID''"
| "public_error_code CONTRACT = ''DEPENDENCY_CONTRACT_CHANGED''"
| "public_error_code UPSTREAM = ''DEPENDENCY_UPSTREAM_FAILED''"
| "public_error_code UNKNOWN = ''DEPENDENCY_FAILED''"

fun default_retryable :: "error_kind \<Rightarrow> bool" where
  "default_retryable TIMEOUT = True"
| "default_retryable CONNECTION = True"
| "default_retryable RATE_LIMITED = True"
| "default_retryable AUTHENTICATION = False"
| "default_retryable AUTHORIZATION = False"
| "default_retryable CONFIGURATION = False"
| "default_retryable CONTRACT = False"
| "default_retryable UPSTREAM = True"
| "default_retryable UNKNOWN = False"

definition COMPONENT_RE :: re where
  "COMPONENT_RE =
     Cat (Cls [(97, 122)]) (Cat (Star (Cls [(97, 122), (48, 57)]))
       (Star (Cat (Cls [(46, 46), (95, 95), (45, 45)]) (Plus (Cls [(97, 122), (48, 57)])))))"

definition component :: "pystr \<Rightarrow> py_error + pystr" where
  "component value =
     (let normalized = py_lower (py_strip value) in
      if normalized = [] \<or> length normalized > 64
         \<or> \<not> re_fullmatch (\<lambda>_. True) COMPONENT_RE normalized
      then Inl (ValueError ''invalid dependency component'')
      else Inr normalized)"

section \<open>Failures\<close>

text \<open>What the classifier looks at in one exception of the cause chain.\<close>

record exc =
  exc_class :: pystr
  exc_status :: "int option"
  exc_response_status :: "int option"
  exc_http_code :: "int option"
  is_timeout_error :: bool
  url_reason_is_timeout :: bool
  is_connection_error :: bool
  is_url_error :: bool
  is_http_error :: bool
  is_decode_error :: bool

text \<open>
  An exception is given with its chain of causes, itself first.  The chain is what
  \<^verbatim>\<open>_exception_chain\<close> collects: following \<^verbatim>\<open>__cause__ or __context__\<close> until it ends or
  comes back to an exception already seen.
\<close>

type_synonym exc_chain = "exc list"

definition coerce_status_code :: "int option \<Rightarrow> int option" where
  "coerce_status_code v =
     (case v of None \<Rightarrow> None | Some n \<Rightarrow> if 100 \<le> n \<and> n \<le> 599 then Some n else None)"

definition exc_own_status :: "exc \<Rightarrow> int option" where
  "exc_own_status e =
     (case coerce_status_code (exc_status e) of
        Some n \<Rightarrow> Some n
      | None \<Rightarrow> (case coerce_status_code (exc_response_status e) of
          Some n \<Rightarrow> Some n
        | None \<Rightarrow> coerce_status_code (if is_http_error e then exc_http_code e else None)))"

fun exception_status_code :: "exc_chain \<Rightarrow> int option" where
  "exception_status_code [] = None"
| "exception_status_code (e # es) =
     (case exc_own_status e of Some n \<Rightarrow> Some n | None \<Rightarrow> exception_status_code es)"

definition looks_like_timeout :: "exc_chain \<Rightarrow> bool" where
  "looks_like_timeout es \<longleftrightarrow>
     (\<exists>e \<in> set es. is_timeout_error e
        \<or> py_contains (S ''timeout'') (py_lower (exc_class e))
        \<or> is_url_error e \<and> url_reason_is_timeout e)"

definition looks_like_connection_failure :: "exc_chain \<Rightarrow> bool" where
  "looks_like_connection_failure es \<longleftrightarrow>
     (\<exists>e \<in> set es. is_connection_error e
        \<or> is_url_error e \<and> \<not> is_http_error e
        \<or> (\<exists>token \<in> {S ''connecterror'', S ''networkerror'', S ''protocolerror''}.
             py_contains token (py_lower (exc_class e))))"

record failure =
  f_kind :: error_kind
  f_retryable :: bool
  f_status_code :: "int option"

text \<open>\<^verbatim>\<open>DependencyFailure(...)\<close> coerces its status code.\<close>

definition mk_failure :: "error_kind \<Rightarrow> bool \<Rightarrow> int option \<Rightarrow> failure" where
  "mk_failure kind retryable status =
     \<lparr>f_kind = kind, f_retryable = retryable, f_status_code = coerce_status_code status\<rparr>"

definition failure_dto :: "failure \<Rightarrow> string \<times> string \<times> bool" where
  "failure_dto f = (kind_value (f_kind f), public_error_code (f_kind f), f_retryable f)"

definition classify_kind :: "exc_chain \<Rightarrow> int option \<Rightarrow> error_kind" where
  "classify_kind es st =
     (if looks_like_timeout es \<or> st \<in> {Some 408, Some 504} then TIMEOUT
      else if st = Some 401 then AUTHENTICATION
      else if st = Some 403 then AUTHORIZATION
      else if st = Some 429 then RATE_LIMITED
      else if some_and st (\<lambda>n. n \<ge> 500) then UPSTREAM
      else if some_and st (\<lambda>n. n \<ge> 400) then CONTRACT
      else if looks_like_connection_failure es then CONNECTION
      else if some_and (case es of [] \<Rightarrow> None | e # _ \<Rightarrow> Some e) is_decode_error then CONTRACT
      else UNKNOWN)"

definition classify_dependency_error ::
  "exc_chain \<Rightarrow> int option \<Rightarrow> error_kind option \<Rightarrow> bool option \<Rightarrow> failure" where
  "classify_dependency_error es status_code kind retryable =
     (let resolved_status = (case coerce_status_code status_code of
            Some n \<Rightarrow> Some n | None \<Rightarrow> exception_status_code es);
          resolved_kind = (case kind of Some k \<Rightarrow> k | None \<Rightarrow> classify_kind es resolved_status)
      in mk_failure resolved_kind
           (case retryable of None \<Rightarrow> default_retryable resolved_kind | Some b \<Rightarrow> b)
           resolved_status)"

lemma coerce_status_code_range:
  "coerce_status_code v = Some n \<Longrightarrow> 100 \<le> n \<and> n \<le> 599"
  by (auto simp: coerce_status_code_def split: option.splits if_splits)

lemma coerce_status_code_idem [simp]:
  "coerce_status_code (coerce_status_code v) = coerce_status_code v"
  by (auto simp: coerce_status_code_def split: option.splits if_splits)

section \<open>Capability states\<close>

record capability =
  cap_provider :: pystr
  cap_domain :: pystr
  cap_availability :: availability
  checked_at :: instant
  changed_at :: instant
  cap_failure :: "failure option"

text \<open>\<^verbatim>\<open>DependencyCapabilityStatus.__post_init__\<close> on components that are already normal.\<close>

definition mk_capability ::
  "pystr \<Rightarrow> pystr \<Rightarrow> availability \<Rightarrow> instant \<Rightarrow> instant \<Rightarrow> failure option \<Rightarrow> py_error + capability" where
  "mk_capability provider domain avail checked changed fail =
     and_then (component provider) (\<lambda>p.
     and_then (component domain) (\<lambda>d.
       if changed > checked
       then Inl (ValueError ''dependency changed_at cannot be later than checked_at'')
       else if avail = AVAILABLE \<and> fail \<noteq> None
       then Inl (ValueError ''available dependency cannot contain a failure'')
       else Inr \<lparr>cap_provider = p, cap_domain = d, cap_availability = avail,
                 checked_at = checked, changed_at = changed, cap_failure = fail\<rparr>))"

definition capability_dto ::
  "capability \<Rightarrow> pystr \<times> pystr \<times> string \<times> instant \<times> instant \<times> (string \<times> string \<times> bool) option" where
  "capability_dto c =
     (cap_provider c, cap_domain c, availability_value (cap_availability c),
      checked_at c, changed_at c, map_option failure_dto (cap_failure c))"

definition capability_condition ::
  "capability \<Rightarrow> availability \<times> error_kind option \<times> bool option \<times> int option" where
  "capability_condition c =
     (cap_availability c, map_option f_kind (cap_failure c),
      map_option f_retryable (cap_failure c), Option.bind (cap_failure c) f_status_code)"

type_synonym dep_key = "pystr \<times> pystr"
type_synonym statuses = "dep_key \<rightharpoonup> capability"

definition dep_key :: "pystr \<Rightarrow> pystr \<Rightarrow> py_error + dep_key" where
  "dep_key provider domain =
     and_then (component provider) (\<lambda>p. and_then (component domain) (\<lambda>d. Inr (p, d)))"

definition record_status ::
  "statuses \<Rightarrow> pystr \<Rightarrow> pystr \<Rightarrow> availability \<Rightarrow> failure option \<Rightarrow> instant \<Rightarrow>
     py_error + (statuses \<times> capability)" where
  "record_status m provider domain avail fail observed_at =
     and_then (dep_key provider domain) (\<lambda>key.
       case m key of
         Some previous \<Rightarrow>
           if observed_at < checked_at previous then Inr (m, previous)
           else and_then (mk_capability (fst key) (snd key) avail observed_at observed_at fail)
             (\<lambda>provisional.
               let changed = (if capability_condition previous = capability_condition provisional
                              then changed_at previous else observed_at) in
               and_then (mk_capability (fst key) (snd key) avail observed_at changed fail)
                 (\<lambda>c. Inr (m(key \<mapsto> c), c)))
       | None \<Rightarrow>
           and_then (mk_capability (fst key) (snd key) avail observed_at observed_at fail)
             (\<lambda>c. Inr (m(key \<mapsto> c), c)))"

definition mark_available :: "statuses \<Rightarrow> pystr \<Rightarrow> pystr \<Rightarrow> instant \<Rightarrow> py_error + (statuses \<times> capability)" where
  "mark_available m provider domain observed_at =
     record_status m provider domain AVAILABLE None observed_at"

definition mark_degraded ::
  "statuses \<Rightarrow> pystr \<Rightarrow> pystr \<Rightarrow> failure option \<Rightarrow> instant \<Rightarrow> py_error + (statuses \<times> capability)" where
  "mark_degraded m provider domain fail observed_at =
     record_status m provider domain DEGRADED fail observed_at"

definition mark_unavailable ::
  "statuses \<Rightarrow> pystr \<Rightarrow> pystr \<Rightarrow> failure option \<Rightarrow> instant \<Rightarrow> py_error + (statuses \<times> capability)" where
  "mark_unavailable m provider domain fail observed_at =
     record_status m provider domain UNAVAILABLE fail observed_at"

definition mark_failure ::
  "statuses \<Rightarrow> pystr \<Rightarrow> pystr \<Rightarrow> exc_chain \<Rightarrow> bool \<Rightarrow> int option \<Rightarrow> error_kind option \<Rightarrow> bool option \<Rightarrow>
     instant \<Rightarrow> py_error + (statuses \<times> capability)" where
  "mark_failure m provider domain error fallback_available status_code kind retryable observed_at =
     record_status m provider domain (if fallback_available then DEGRADED else UNAVAILABLE)
       (Some (classify_dependency_error error status_code kind retryable)) observed_at"

definition get_status :: "statuses \<Rightarrow> pystr \<Rightarrow> pystr \<Rightarrow> py_error + capability option" where
  "get_status m provider domain = and_then (dep_key provider domain) (\<lambda>key. Inr (m key))"

section \<open>Invariant of the registry\<close>

lemma component_idem: "component v = Inr p \<Longrightarrow> component p = Inr p"
  by (auto simp: component_def Let_def split: if_splits)

lemma dep_key_idem:
  "dep_key provider domain = Inr (p, d) \<Longrightarrow> component p = Inr p \<and> component d = Inr d"
  by (auto simp: dep_key_def and_then_Inr_iff dest: component_idem)

definition capability_ok :: "dep_key \<Rightarrow> capability \<Rightarrow> bool" where
  "capability_ok k c \<longleftrightarrow>
     (cap_provider c, cap_domain c) = k \<and> changed_at c \<le> checked_at c
     \<and> (cap_availability c = AVAILABLE \<longrightarrow> cap_failure c = None)"

definition statuses_ok :: "statuses \<Rightarrow> bool" where
  "statuses_ok m \<longleftrightarrow> (\<forall>k c. m k = Some c \<longrightarrow> capability_ok k c)"

lemma mk_capability_ok:
  assumes "mk_capability p d avail checked changed fail = Inr c"
    and "component p = Inr p" and "component d = Inr d"
  shows "capability_ok (p, d) c \<and> checked_at c = checked \<and> changed_at c = changed
    \<and> cap_availability c = avail \<and> cap_failure c = fail"
  using assms by (auto simp: mk_capability_def capability_ok_def and_then_Inr_iff split: if_splits)

lemma statuses_ok_upd: "statuses_ok m \<Longrightarrow> capability_ok k c \<Longrightarrow> statuses_ok (m(k \<mapsto> c))"
  by (auto simp: statuses_ok_def)

text \<open>\<^verbatim>\<open>DependencyStatusRegistry.record\<close> keeps every stored state well formed (its change
  time is not after its check time, an available dependency carries no failure, a state is stored
  under its own provider and domain), never moves the stored check time of a key backwards, keeps
  the change time when the condition is the same as before, and touches no other key.\<close>

theorem record_status_correct:
  assumes ok: "statuses_ok m" and run: "record_status m provider domain avail fail t = Inr (m', c)"
  shows "statuses_ok m' \<and> (\<exists>k. dep_key provider domain = Inr k \<and> m' k = Some c
     \<and> (\<forall>k'. k' \<noteq> k \<longrightarrow> m' k' = m k')
     \<and> (\<forall>prev. m k = Some prev \<longrightarrow> checked_at prev \<le> checked_at c
          \<and> changed_at prev \<le> changed_at c
          \<and> (capability_condition prev = capability_condition c
             \<longrightarrow> t < checked_at prev \<or> changed_at c = changed_at prev)))"
proof -
  obtain p d where k: "dep_key provider domain = Inr (p, d)"
    using run by (auto simp: record_status_def and_then_Inr_iff)
  note comps = dep_key_idem [OF k]
  show ?thesis
  proof (cases "m (p, d)")
    case None
    then have "mk_capability p d avail t t fail = Inr c" and m': "m' = m((p, d) \<mapsto> c)"
      using run k by (auto simp: record_status_def and_then_Inr_iff)
    with mk_capability_ok comps ok None k show ?thesis
      by (auto simp: statuses_ok_upd)
  next
    case (Some prev)
    have prev_ok: "capability_ok (p, d) prev" using ok Some by (auto simp: statuses_ok_def)
    show ?thesis
    proof (cases "t < checked_at prev")
      case True
      then have "m' = m" "c = prev" using run k Some by (auto simp: record_status_def)
      with ok Some k True show ?thesis by auto
    next
      case False
      then obtain pc where pc: "mk_capability p d avail t t fail = Inr pc"
        and c: "mk_capability p d avail t
          (if capability_condition prev = capability_condition pc then changed_at prev else t) fail
            = Inr c"
        and m': "m' = m((p, d) \<mapsto> c)"
        using run k Some by (auto simp: record_status_def and_then_Inr_iff Let_def)
      note c_ok = mk_capability_ok [OF c comps [THEN conjunct1] comps [THEN conjunct2]]
      note pc_ok = mk_capability_ok [OF pc comps [THEN conjunct1] comps [THEN conjunct2]]
      have same: "capability_condition pc = capability_condition c"
        using c_ok pc_ok by (simp add: capability_condition_def)
      have "changed_at prev \<le> t" using prev_ok False by (simp add: capability_ok_def)
      with c_ok same m' ok Some k False show ?thesis
        by (auto simp: statuses_ok_upd)
    qed
  qed
qed

theorem record_status_correct_witness:
  "\<exists>m' c. record_status Map.empty (S ''tim'') (S ''im'') AVAILABLE None 5 = Inr (m', c)
     \<and> statuses_ok m'"
proof -
  have tim: "component (S ''tim'') = Inr (S ''tim'')" and im: "component (S ''im'') = Inr (S ''im'')"
    by (simp_all add: component_def S_def py_strip_def lower_cp_def py_space_def Let_def
      re_fullmatch_def COMPONENT_RE_def step_on_def char_at_def in_ranges_def)
  obtain m' c where run:
    "record_status Map.empty (S ''tim'') (S ''im'') AVAILABLE None 5 = Inr (m', c)"
    by (simp add: record_status_def dep_key_def mk_capability_def tim im)
  have "statuses_ok Map.empty" by (simp add: statuses_ok_def)
  from record_status_correct [OF this run] run show ?thesis by blast
qed

end
