(* ===== verification/Circuit_Breaker.thy ===== *)
theory Circuit_Breaker
  imports Dependency_Health
begin

text \<open>
  \<^verbatim>\<open>RequestDeadline\<close> and \<^verbatim>\<open>DependencyCircuitBreakerRegistry\<close> of
  \<^verbatim>\<open>bbw_web/dependency_health.py\<close>, and their one caller, \<^verbatim>\<open>_dependency_call\<close> of
  \<^verbatim>\<open>bbw_web/bff_server.py\<close>.  The registry's lock makes each method atomic, so a concurrent
  execution is a sequence of these operations.
\<close>

section \<open>Request deadlines\<close>

record deadline =
  started_at :: real
  dl_deadline :: real

definition mk_deadline :: "real \<Rightarrow> real \<Rightarrow> py_error + deadline" where
  "mk_deadline total_s now =
     (if total_s \<le> 0 then Inl (ValueError ''deadline total_seconds must be positive'')
      else Inr \<lparr>started_at = now, dl_deadline = now + total_s\<rparr>)"

definition elapsed :: "deadline \<Rightarrow> real \<Rightarrow> real" where
  "elapsed d now = max 0 (now - started_at d)"

definition remaining :: "deadline \<Rightarrow> real option \<Rightarrow> real \<Rightarrow> real" where
  "remaining d cap now =
     (let v = max 0 (dl_deadline d - now) in
      case cap of None \<Rightarrow> v | Some c \<Rightarrow> if c \<le> 0 then 0 else min v c)"

definition expired :: "deadline \<Rightarrow> real \<Rightarrow> bool" where
  "expired d now \<longleftrightarrow> remaining d None now \<le> 0"

text \<open>\<open>None\<close> is \<^verbatim>\<open>DependencyDeadlineExceeded\<close>.\<close>

definition timeout :: "deadline \<Rightarrow> real option \<Rightarrow> real \<Rightarrow> real option" where
  "timeout d cap now = (let r = remaining d cap now in if r \<le> 0 then None else Some r)"

lemma timeout_within_deadline:
  "timeout d cap now = Some t \<Longrightarrow> 0 < t \<and> now + t \<le> dl_deadline d"
  by (auto simp: timeout_def remaining_def Let_def max_def min_def split: option.splits if_splits)

section \<open>Circuit breakers\<close>

record circuit_state =
  cs_failures :: "real list"
  opened_until :: real
  probe_in_flight :: bool

record circuit_registry =
  failure_threshold :: int
  failure_window_seconds :: real
  cooldown_seconds :: real
  cr_states :: "dep_key \<rightharpoonup> circuit_state"

datatype breaker_error = BadKey py_error | CircuitOpen pystr pystr int

definition fresh_state :: circuit_state where
  "fresh_state = \<lparr>cs_failures = [], opened_until = 0, probe_in_flight = False\<rparr>"

definition mk_registry :: "int \<Rightarrow> real \<Rightarrow> real \<Rightarrow> py_error + circuit_registry" where
  "mk_registry threshold window cooldown =
     (if threshold < 1
      then Inl (ValueError ''circuit breaker failure_threshold must be positive'')
      else if window \<le> 0
      then Inl (ValueError ''circuit breaker failure_window_seconds must be positive'')
      else if cooldown \<le> 0
      then Inl (ValueError ''circuit breaker cooldown_seconds must be positive'')
      else Inr \<lparr>failure_threshold = threshold, failure_window_seconds = window,
                cooldown_seconds = cooldown, cr_states = Map.empty\<rparr>)"

text \<open>\<^verbatim>\<open>_states.setdefault(key, _CircuitState([]))\<close>.\<close>

definition state_of :: "circuit_registry \<Rightarrow> dep_key \<Rightarrow> circuit_state" where
  "state_of r k = (case cr_states r k of None \<Rightarrow> fresh_state | Some s \<Rightarrow> s)"

definition put_state :: "circuit_registry \<Rightarrow> dep_key \<Rightarrow> circuit_state \<Rightarrow> circuit_registry" where
  "put_state r k s = r\<lparr>cr_states := (cr_states r)(k \<mapsto> s)\<rparr>"

definition prune :: "circuit_registry \<Rightarrow> circuit_state \<Rightarrow> real \<Rightarrow> circuit_state" where
  "prune r s now =
     (let cutoff = now - failure_window_seconds r in
      s\<lparr>cs_failures := filter (\<lambda>stamp. stamp > cutoff) (cs_failures s)\<rparr>)"

text \<open>\<^verbatim>\<open>DependencyCircuitOpen.__init__\<close> raises the delay to at least one second.\<close>

definition circuit_open :: "dep_key \<Rightarrow> int \<Rightarrow> breaker_error" where
  "circuit_open k delay = CircuitOpen (fst k) (snd k) (max 1 delay)"

definition admit_key :: "circuit_registry \<Rightarrow> dep_key \<Rightarrow> real \<Rightarrow> circuit_registry \<times> breaker_error option" where
  "admit_key r k now =
     (let s = prune r (state_of r k) now in
      if opened_until s > now
      then (put_state r k s, Some (circuit_open k \<lceil>opened_until s - now\<rceil>))
      else if opened_until s > 0
      then (if probe_in_flight s
            then (put_state r k s, Some (circuit_open k 1))
            else (put_state r k (s\<lparr>probe_in_flight := True\<rparr>), None))
      else (put_state r k s, None))"

definition success_key :: "circuit_registry \<Rightarrow> dep_key \<Rightarrow> circuit_registry" where
  "success_key r k =
     put_state r k \<lparr>cs_failures = [], opened_until = 0, probe_in_flight = False\<rparr>"

definition failure_key :: "circuit_registry \<Rightarrow> dep_key \<Rightarrow> bool \<Rightarrow> real \<Rightarrow> circuit_registry" where
  "failure_key r k retryable now =
     (if \<not> retryable then success_key r k
      else
        (let s = prune r (state_of r k) now;
             fs = cs_failures s @ [now];
             until = (if probe_in_flight s \<or> int (length fs) \<ge> failure_threshold r
                      then now + cooldown_seconds r else opened_until s)
         in put_state r k \<lparr>cs_failures = fs, opened_until = until, probe_in_flight = False\<rparr>))"

definition before_call ::
  "circuit_registry \<Rightarrow> pystr \<Rightarrow> pystr \<Rightarrow> real \<Rightarrow> circuit_registry \<times> breaker_error option" where
  "before_call r provider domain now =
     (case dep_key provider domain of
        Inl e \<Rightarrow> (r, Some (BadKey e))
      | Inr k \<Rightarrow> admit_key r k now)"

definition record_success ::
  "circuit_registry \<Rightarrow> pystr \<Rightarrow> pystr \<Rightarrow> circuit_registry \<times> breaker_error option" where
  "record_success r provider domain =
     (case dep_key provider domain of
        Inl e \<Rightarrow> (r, Some (BadKey e))
      | Inr k \<Rightarrow> (success_key r k, None))"

definition record_failure ::
  "circuit_registry \<Rightarrow> pystr \<Rightarrow> pystr \<Rightarrow> bool \<Rightarrow> real \<Rightarrow> circuit_registry \<times> breaker_error option" where
  "record_failure r provider domain retryable now =
     (case dep_key provider domain of
        Inl e \<Rightarrow> (r, Some (BadKey e))
      | Inr k \<Rightarrow> (failure_key r k retryable now, None))"

definition retry_after :: "circuit_registry \<Rightarrow> pystr \<Rightarrow> pystr \<Rightarrow> real \<Rightarrow> py_error + int" where
  "retry_after r provider domain now =
     and_then (dep_key provider domain) (\<lambda>k.
       case cr_states r k of
         None \<Rightarrow> Inr 0
       | Some s \<Rightarrow> if opened_until s \<le> now then Inr 0
                   else Inr (max 1 \<lceil>opened_until s - now\<rceil>))"

record circuit_view =
  cv_open :: bool
  cv_retry_after :: int
  cv_recent_failures :: nat
  cv_probe_in_flight :: bool

definition breaker_snapshot ::
  "circuit_registry \<Rightarrow> real \<Rightarrow> circuit_registry \<times> (dep_key \<rightharpoonup> circuit_view)" where
  "breaker_snapshot r now =
     (let pruned = (\<lambda>k. map_option (\<lambda>s. prune r s now) (cr_states r k)) in
      (r\<lparr>cr_states := pruned\<rparr>,
       \<lambda>k. map_option (\<lambda>s.
         let delay = (if opened_until s > now then max 1 \<lceil>opened_until s - now\<rceil> else 0) in
         \<lparr>cv_open = delay > 0, cv_retry_after = delay,
          cv_recent_failures = length (cs_failures s),
          cv_probe_in_flight = probe_in_flight s\<rparr>) (pruned k)))"

section \<open>The caller\<close>

text \<open>
  How the guarded provider method ended: with a result that is ok, with one that is a final or a
  retryable rejection (\<^verbatim>\<open>_dependency_retryable\<close>), or with an exception.  \<open>NestedOpen\<close> is a
  \<^verbatim>\<open>DependencyCircuitOpen\<close> raised by the method itself.
\<close>

datatype method_outcome = Ok_result | Rejected | Retryable_failure
  | Deadline_exceeded | Other_exception | NestedOpen

datatype call_result = ShortCircuit breaker_error | Ran method_outcome | KeyRejected py_error

definition dependency_call ::
  "circuit_registry \<Rightarrow> pystr \<Rightarrow> pystr \<Rightarrow> real \<Rightarrow> real \<Rightarrow> method_outcome \<Rightarrow>
     circuit_registry \<times> call_result" where
  "dependency_call r provider domain t_admit t_settle outcome =
     (case before_call r provider domain t_admit of
        (r', Some (CircuitOpen p d n)) \<Rightarrow> (r', ShortCircuit (CircuitOpen p d n))
      | (r', Some (BadKey e)) \<Rightarrow> (r', KeyRejected e)
      | (r', None) \<Rightarrow>
          (case outcome of
             Ok_result \<Rightarrow> (fst (record_success r' provider domain), Ran outcome)
           | Rejected \<Rightarrow> (fst (record_success r' provider domain), Ran outcome)
           | Retryable_failure \<Rightarrow>
               (fst (record_failure r' provider domain True t_settle), Ran outcome)
           | NestedOpen \<Rightarrow> (r', Ran outcome)
           | Deadline_exceeded \<Rightarrow>
               (fst (record_failure r' provider domain True t_settle), Ran outcome)
           | Other_exception \<Rightarrow>
               (fst (record_failure r' provider domain True t_settle), Ran outcome)))"

section \<open>The half-open probe as an interface\<close>

text \<open>
  What the callers rely on: while a key is tripped, an admission makes it busy and a busy key admits
  nobody, until the key itself is settled.  Operations on other keys do not interfere.
\<close>

datatype settlement = Succeed | Fail bool real

datatype 'k gate_event = Attempt 'k real | Settle 'k settlement

fun admissions ::
  "('s \<Rightarrow> 'k \<Rightarrow> real \<Rightarrow> 's \<times> 'e option) \<Rightarrow> ('s \<Rightarrow> 'k \<Rightarrow> settlement \<Rightarrow> 's) \<Rightarrow> 'k \<Rightarrow> 's \<Rightarrow>
     'k gate_event list \<Rightarrow> nat" where
  "admissions admit settle k s [] = 0"
| "admissions admit settle k s (Attempt k' t # evs) =
     (if k' = k \<and> snd (admit s k' t) = None then 1 else 0)
     + admissions admit settle k (fst (admit s k' t)) evs"
| "admissions admit settle k s (Settle k' v # evs) = admissions admit settle k (settle s k' v) evs"

definition settles :: "'k \<Rightarrow> 'k gate_event list \<Rightarrow> bool" where
  "settles k evs \<longleftrightarrow> (\<exists>v. Settle k v \<in> set evs)"

locale probe_gate =
  fixes tripped :: "'s \<Rightarrow> 'k \<Rightarrow> bool"
    and busy :: "'s \<Rightarrow> 'k \<Rightarrow> bool"
    and admit :: "'s \<Rightarrow> 'k \<Rightarrow> real \<Rightarrow> 's \<times> 'e option"
    and settle :: "'s \<Rightarrow> 'k \<Rightarrow> settlement \<Rightarrow> 's"
  assumes admit_tripped: "tripped (fst (admit s k t)) k' = tripped s k'"
    and admit_keeps_busy: "busy s k' \<Longrightarrow> busy (fst (admit s k t)) k'"
    and admit_busy: "tripped s k \<Longrightarrow> busy s k \<Longrightarrow> snd (admit s k t) \<noteq> None"
    and admit_takes: "tripped s k \<Longrightarrow> snd (admit s k t) = None \<Longrightarrow> busy (fst (admit s k t)) k"
    and settle_other: "k \<noteq> k' \<Longrightarrow> tripped (settle s k v) k' = tripped s k'"
      "k \<noteq> k' \<Longrightarrow> busy (settle s k v) k' = busy s k'"
begin

lemma busy_no_admission:
  "tripped s k \<Longrightarrow> busy s k \<Longrightarrow> \<not> settles k evs \<Longrightarrow> admissions admit settle k s evs = 0"
proof (induction evs arbitrary: s)
  case Nil
  then show ?case by simp
next
  case (Cons ev evs)
  from Cons.prems(3) have rest: "\<not> settles k evs" by (auto simp: settles_def)
  show ?case
  proof (cases ev)
    case (Attempt k' t)
    have "admissions admit settle k (fst (admit s k' t)) evs = 0"
      using Cons.prems rest by (intro Cons.IH) (simp_all add: admit_tripped admit_keeps_busy)
    moreover have "\<not> (k' = k \<and> snd (admit s k' t) = None)"
      using Cons.prems admit_busy by blast
    ultimately show ?thesis by (simp add: Attempt)
  next
    case (Settle k' v)
    with Cons.prems(3) have "k' \<noteq> k" by (auto simp: settles_def)
    then have "admissions admit settle k (settle s k' v) evs = 0"
      using Cons.prems rest by (intro Cons.IH) (simp_all add: settle_other)
    then show ?thesis by (simp add: Settle)
  qed
qed

lemma one_probe:
  "tripped s k \<Longrightarrow> \<not> settles k evs \<Longrightarrow> admissions admit settle k s evs \<le> 1"
proof (induction evs arbitrary: s)
  case Nil
  then show ?case by simp
next
  case (Cons ev evs)
  from Cons.prems(2) have rest: "\<not> settles k evs" by (auto simp: settles_def)
  show ?case
  proof (cases ev)
    case (Attempt k' t)
    have trip: "tripped (fst (admit s k' t)) k" using Cons.prems by (simp add: admit_tripped)
    show ?thesis
    proof (cases "k' = k \<and> snd (admit s k' t) = None")
      case True
      then have "busy (fst (admit s k' t)) k" using Cons.prems admit_takes by blast
      then have "admissions admit settle k (fst (admit s k' t)) evs = 0"
        using trip rest by (intro busy_no_admission)
      with True show ?thesis by (simp add: Attempt)
    next
      case False
      with Cons.IH [OF trip rest] show ?thesis by (auto simp: Attempt)
    qed
  next
    case (Settle k' v)
    with Cons.prems(2) have "k' \<noteq> k" by (auto simp: settles_def)
    then have "tripped (settle s k' v) k" using Cons.prems by (simp add: settle_other)
    with Cons.IH rest show ?thesis by (simp add: Settle)
  qed
qed

end

section \<open>Lemmas on the registry\<close>

lemma state_of_put [simp]:
  "state_of (put_state r k s) k' = (if k' = k then s else state_of r k')"
  by (simp add: state_of_def put_state_def)

lemma registry_frame [frame_simps]:
  "failure_threshold (put_state r k s) = failure_threshold r"
  "failure_window_seconds (put_state r k s) = failure_window_seconds r"
  "cooldown_seconds (put_state r k s) = cooldown_seconds r"
  by (simp_all add: put_state_def)

lemma prune_simps [simp]:
  "opened_until (prune r s now) = opened_until s"
  "probe_in_flight (prune r s now) = probe_in_flight s"
  by (simp_all add: prune_def Let_def)

lemma admit_key_states:
  "opened_until (state_of (fst (admit_key r k now)) k') = opened_until (state_of r k')"
  "probe_in_flight (state_of r k') \<Longrightarrow> probe_in_flight (state_of (fst (admit_key r k now)) k')"
  by (auto simp: admit_key_def Let_def)

definition settle_key :: "circuit_registry \<Rightarrow> dep_key \<Rightarrow> settlement \<Rightarrow> circuit_registry" where
  "settle_key r k v =
     (case v of Succeed \<Rightarrow> success_key r k | Fail retryable now \<Rightarrow> failure_key r k retryable now)"

lemma settle_key_other: "k \<noteq> k' \<Longrightarrow> state_of (settle_key r k v) k' = state_of r k'"
  by (auto simp: settle_key_def success_key_def failure_key_def Let_def split: settlement.split)

lemma settle_key_not_busy [simp]: "\<not> probe_in_flight (state_of (settle_key r k v) k)"
  by (auto simp: settle_key_def success_key_def failure_key_def Let_def split: settlement.split)

interpretation cb: probe_gate
  "\<lambda>r k. opened_until (state_of r k) > 0" "\<lambda>r k. probe_in_flight (state_of r k)"
  admit_key settle_key
  by unfold_locales
    (auto simp: admit_key_states settle_key_other, auto simp: admit_key_def Let_def split: if_splits)

lemma admit_while_open:
  assumes "opened_until (state_of r k) > now"
  shows "snd (admit_key r k now)
    = Some (CircuitOpen (fst k) (snd k) (max 1 \<lceil>opened_until (state_of r k) - now\<rceil>))"
  using assms by (simp add: admit_key_def circuit_open_def Let_def)

lemma admit_after_cooldown:
  assumes "opened_until (state_of r k) \<le> now" and "\<not> probe_in_flight (state_of r k)"
  shows "snd (admit_key r k now) = None"
  using assms by (simp add: admit_key_def Let_def)

lemma failure_trips:
  assumes "int (length (cs_failures (prune r (state_of r k) t))) + 1 \<ge> failure_threshold r
    \<or> probe_in_flight (state_of r k)"
  shows "opened_until (state_of (failure_key r k True t) k) = t + cooldown_seconds r"
  using assms by (auto simp: failure_key_def Let_def)

lemma failure_not_busy [simp]: "\<not> probe_in_flight (state_of (failure_key r k b t) k)"
  using settle_key_not_busy [of r k "Fail b t"] by (simp add: settle_key_def)

lemma success_closes [simp]:
  "state_of (success_key r k) k = fresh_state"
  by (simp add: success_key_def fresh_state_def)

section \<open>Properties\<close>

definition fail_all :: "circuit_registry \<Rightarrow> dep_key \<Rightarrow> real list \<Rightarrow> circuit_registry" where
  "fail_all r k ts = foldl (\<lambda>r t. failure_key r k True t) r ts"

lemma fail_all_snoc: "fail_all r k (ts @ [t]) = failure_key (fail_all r k ts) k True t"
  by (simp add: fail_all_def)

lemma failure_key_frame [frame_simps]:
  "failure_threshold (failure_key r k b t) = failure_threshold r"
  "failure_window_seconds (failure_key r k b t) = failure_window_seconds r"
  "cooldown_seconds (failure_key r k b t) = cooldown_seconds r"
  by (auto simp: failure_key_def success_key_def Let_def frame_simps)

lemma fail_all_frame [frame_simps]:
  "failure_threshold (fail_all r k ts) = failure_threshold r"
  "failure_window_seconds (fail_all r k ts) = failure_window_seconds r"
  "cooldown_seconds (fail_all r k ts) = cooldown_seconds r"
  by (induction ts rule: rev_induct) (simp_all add: fail_all_snoc frame_simps, simp_all add: fail_all_def)

lemma fail_all_state:
  assumes "state_of r k = fresh_state" and "1 \<le> failure_threshold r"
    and "\<forall>t \<in> set ts. \<forall>t' \<in> set ts. t' - failure_window_seconds r < t"
  shows "state_of (fail_all r k ts) k =
    \<lparr>cs_failures = ts,
     opened_until = (if int (length ts) < failure_threshold r then 0
                     else last ts + cooldown_seconds r),
     probe_in_flight = False\<rparr>"
  using assms(3)
proof (induction ts rule: rev_induct)
  case Nil
  then show ?case using assms(1,2) by (simp add: fail_all_def fresh_state_def)
next
  case (snoc t ts)
  have IH: "state_of (fail_all r k ts) k =
    \<lparr>cs_failures = ts,
     opened_until = (if int (length ts) < failure_threshold r then 0
                     else last ts + cooldown_seconds r),
     probe_in_flight = False\<rparr>"
    using snoc.prems by (intro snoc.IH) auto
  have keep: "filter (\<lambda>stamp. stamp > t - failure_window_seconds r) ts = ts"
    using snoc.prems by (auto simp: filter_id_conv)
  show ?case
    by (simp add: fail_all_snoc failure_key_def Let_def prune_def IH keep frame_simps)
qed





text \<open>A guarded call that ran its method to any end of its own settles the circuit: no probe
  stays in flight for the key, a result that needs no retry closes the circuit, and no other key
  changes.  (A \<^verbatim>\<open>DependencyCircuitOpen\<close> that escapes from the method itself is the one end
  that is not settled.)\<close>

theorem dependency_call_settles:
  assumes key: "dep_key provider domain = Inr k"
    and run: "dependency_call r provider domain t_admit t_settle outcome = (r', Ran outcome)"
    and own: "outcome \<noteq> NestedOpen"
  shows "\<not> probe_in_flight (state_of r' k)
    \<and> (outcome \<in> {Ok_result, Rejected} \<longrightarrow> state_of r' k = fresh_state)
    \<and> (\<forall>k'. k' \<noteq> k \<longrightarrow> state_of r' k' = state_of r k')"
proof -
  obtain r1 where admit: "admit_key r k t_admit = (r1, None)"
    using key run by (auto simp: dependency_call_def before_call_def
        split: prod.splits option.splits breaker_error.splits)
  have other: "state_of r1 k' = state_of r k'" if "k' \<noteq> k" for k'
    using admit that by (auto simp: admit_key_def Let_def split: if_splits)
  have "r' = (if outcome \<in> {Ok_result, Rejected} then success_key r1 k
              else failure_key r1 k True t_settle)"
    using key run own admit
    by (cases outcome) (auto simp: dependency_call_def before_call_def record_success_def record_failure_def)
  then show ?thesis
    using other settle_key_other [of k _ r1 "Fail True t_settle"] settle_key_other [of k _ r1 Succeed]
    by (auto simp: settle_key_def fresh_state_def)
qed

theorem dependency_call_settles_witness:
  "\<exists>r' r. dependency_call r (S ''tim'') (S ''im'') 30 31 Other_exception = (r', Ran Other_exception)
     \<and> \<not> probe_in_flight (state_of r' (S ''tim'', S ''im''))"
proof -
  let ?r = "\<lparr>failure_threshold = 1, failure_window_seconds = 10, cooldown_seconds = 20,
        cr_states = [(S ''tim'', S ''im'') \<mapsto>
          \<lparr>cs_failures = [1], opened_until = 21, probe_in_flight = False\<rparr>]\<rparr>"
  have key: "dep_key (S ''tim'') (S ''im'') = Inr (S ''tim'', S ''im'')"
    by (simp add: dep_key_def component_def S_def py_strip_def lower_cp_def py_space_def Let_def
      re_fullmatch_def COMPONENT_RE_def step_on_def char_at_def in_ranges_def)
  obtain r' where run:
    "dependency_call ?r (S ''tim'') (S ''im'') 30 31 Other_exception = (r', Ran Other_exception)"
    by (simp add: dependency_call_def before_call_def key admit_key_def state_of_def Let_def prune_def)
  from dependency_call_settles [OF key run] run show ?thesis by blast
qed

end
