(* ===== verification/Request_Gates.thy ===== *)
theory Request_Gates
  imports Prelude "HOL-Library.List_Lexorder"
begin

text \<open>
  The request gates of \<^verbatim>\<open>bbw_web/store.py\<close>.  \<open>RequestGate\<close> lets account reads overlap and
  makes account mutations exclusive; \<open>PeerRequestGate\<close> serialises mutations that touch the same
  peer.  The critical sections of both classes run under one mutex, so an execution is a sequence
  of atomic steps; a step relation describes what the threads can do.  Threads are numbered, and
  each thread holds at most one lease of a gate at a time.
\<close>

section \<open>The reader/writer gate\<close>

record gate =
  readers :: int
  writer :: bool
  waiting_writers :: int

definition new_gate :: gate where
  "new_gate = \<lparr>readers = 0, writer = False, waiting_writers = 0\<rparr>"

text \<open>The loop conditions of \<^verbatim>\<open>acquire_read\<close> and \<^verbatim>\<open>acquire_write\<close>, negated.\<close>

definition may_read :: "gate \<Rightarrow> bool" where
  "may_read g \<longleftrightarrow> \<not> (writer g \<or> waiting_writers g \<noteq> 0)"

definition may_write :: "gate \<Rightarrow> bool" where
  "may_write g \<longleftrightarrow> \<not> (writer g \<or> readers g \<noteq> 0)"

definition take_read :: "gate \<Rightarrow> gate" where
  "take_read g = g\<lparr>readers := readers g + 1\<rparr>"

definition queue_write :: "gate \<Rightarrow> gate" where
  "queue_write g = g\<lparr>waiting_writers := waiting_writers g + 1\<rparr>"

definition take_write :: "gate \<Rightarrow> gate" where
  "take_write g = g\<lparr>writer := True, waiting_writers := waiting_writers g - 1\<rparr>"

definition release_gate :: "bool \<Rightarrow> gate \<Rightarrow> gate" where
  "release_gate write g =
     (if write then g\<lparr>writer := False\<rparr> else g\<lparr>readers := max 0 (readers g - 1)\<rparr>)"

text \<open>A lease remembers that it was released; a second release does nothing.\<close>

record gate_lease =
  lease_write :: bool
  lease_released :: bool

definition release_lease :: "gate_lease \<Rightarrow> gate \<Rightarrow> gate_lease \<times> gate" where
  "release_lease l g =
     (if lease_released l then (l, g)
      else (l\<lparr>lease_released := True\<rparr>, release_gate (lease_write l) g))"

datatype gate_pc = Idle | Wait_read | Reading | Wait_write | Writing

record gate_sys =
  the_gate :: gate
  gate_pcs :: "nat \<Rightarrow> gate_pc"

definition init_gate_sys :: gate_sys where
  "init_gate_sys = \<lparr>the_gate = new_gate, gate_pcs = (\<lambda>_. Idle)\<rparr>"

abbreviation goto :: "gate_sys \<Rightarrow> nat \<Rightarrow> gate_pc \<Rightarrow> gate \<Rightarrow> gate_sys" where
  "goto s i pc g \<equiv> \<lparr>the_gate = g, gate_pcs = (gate_pcs s)(i := pc)\<rparr>"

text \<open>
  A thread that finds the condition false waits and is woken by \<^verbatim>\<open>notify_all\<close>; it may then
  find the condition true.  A writer counts itself as waiting before its first test.
\<close>

inductive gate_step :: "gate_sys \<Rightarrow> gate_sys \<Rightarrow> bool" where
  read_now: "gate_pcs s i = Idle \<Longrightarrow> may_read (the_gate s)
     \<Longrightarrow> gate_step s (goto s i Reading (take_read (the_gate s)))"
| read_block: "gate_pcs s i = Idle \<Longrightarrow> \<not> may_read (the_gate s)
     \<Longrightarrow> gate_step s (goto s i Wait_read (the_gate s))"
| read_wake: "gate_pcs s i = Wait_read \<Longrightarrow> may_read (the_gate s)
     \<Longrightarrow> gate_step s (goto s i Reading (take_read (the_gate s)))"
| write_now: "gate_pcs s i = Idle \<Longrightarrow> may_write (the_gate s)
     \<Longrightarrow> gate_step s (goto s i Writing (take_write (queue_write (the_gate s))))"
| write_block: "gate_pcs s i = Idle \<Longrightarrow> \<not> may_write (the_gate s)
     \<Longrightarrow> gate_step s (goto s i Wait_write (queue_write (the_gate s)))"
| write_wake: "gate_pcs s i = Wait_write \<Longrightarrow> may_write (the_gate s)
     \<Longrightarrow> gate_step s (goto s i Writing (take_write (the_gate s)))"
| read_release: "gate_pcs s i = Reading
     \<Longrightarrow> gate_step s (goto s i Idle (release_gate False (the_gate s)))"
| write_release: "gate_pcs s i = Writing
     \<Longrightarrow> gate_step s (goto s i Idle (release_gate True (the_gate s)))"

inductive gate_reachable :: "gate_sys \<Rightarrow> bool" where
  gate_init: "gate_reachable init_gate_sys"
| gate_next: "gate_reachable s \<Longrightarrow> gate_step s t \<Longrightarrow> gate_reachable t"

lemmas gate_ops = new_gate_def may_read_def may_write_def take_read_def queue_write_def
  take_write_def release_gate_def

definition threads_at :: "gate_sys \<Rightarrow> gate_pc \<Rightarrow> nat set" where
  "threads_at s pc = {i. gate_pcs s i = pc}"

text \<open>The counters of the gate count the threads, and a writer excludes everybody else.\<close>

definition gate_inv :: "gate_sys \<Rightarrow> bool" where
  "gate_inv s \<longleftrightarrow>
     (\<forall>pc. pc \<noteq> Idle \<longrightarrow> finite (threads_at s pc))
     \<and> readers (the_gate s) = int (card (threads_at s Reading))
     \<and> waiting_writers (the_gate s) = int (card (threads_at s Wait_write))
     \<and> card (threads_at s Writing) = (if writer (the_gate s) then 1 else 0)
     \<and> (writer (the_gate s) \<longrightarrow> readers (the_gate s) = 0)"

lemma threads_at_goto:
  "threads_at (goto s i pc g) pc' =
     (if pc' = pc then insert i (threads_at s pc') else threads_at s pc' - {i})"
  by (auto simp: threads_at_def)

lemma in_threads_at [simp]: "i \<in> threads_at s pc \<longleftrightarrow> gate_pcs s i = pc"
  by (simp add: threads_at_def)

lemma gate_inv_init: "gate_inv init_gate_sys"
  by (simp add: gate_inv_def init_gate_sys_def new_gate_def threads_at_def)

lemma threads_card_pos: "finite (threads_at s pc) \<Longrightarrow> gate_pcs s i = pc \<Longrightarrow> 0 < card (threads_at s pc)"
  by (auto simp: card_gt_0_iff threads_at_def)

lemma gate_step_inv: "gate_step s t \<Longrightarrow> gate_inv s \<Longrightarrow> gate_inv t"
proof (induction rule: gate_step.induct)
  case (read_release s i)
  then have "0 < card (threads_at s Reading)"
    by (intro threads_card_pos) (auto simp: gate_inv_def)
  with read_release show ?case
    by (auto simp: gate_inv_def threads_at_goto gate_ops card_Diff_singleton_if)
next
  case (write_wake s i)
  then have "0 < card (threads_at s Wait_write)"
    by (intro threads_card_pos) (auto simp: gate_inv_def)
  with write_wake show ?case
    by (auto simp: gate_inv_def threads_at_goto gate_ops card_Diff_singleton_if card_insert_if split: if_splits)
next
  case (write_release s i)
  then have "0 < card (threads_at s Writing)"
    by (intro threads_card_pos) (auto simp: gate_inv_def)
  with write_release show ?case
    by (auto simp: gate_inv_def threads_at_goto gate_ops card_Diff_singleton_if split: if_splits)
qed (auto simp: gate_inv_def threads_at_goto gate_ops card_Diff_singleton_if card_insert_if split: if_splits)

lemma gate_reachable_inv: "gate_reachable s \<Longrightarrow> gate_inv s"
  by (induction rule: gate_reachable.induct) (auto intro: gate_inv_init gate_step_inv)

lemma gate_inv_writer:
  assumes "gate_inv s" and "gate_pcs s i = Writing"
  shows "writer (the_gate s) \<and> threads_at s Writing = {i} \<and> threads_at s Reading = {}"
proof -
  from assms have "0 < card (threads_at s Writing)"
    by (intro threads_card_pos) (auto simp: gate_inv_def)
  with assms have w: "writer (the_gate s)" and one: "card (threads_at s Writing) = 1"
    by (auto simp: gate_inv_def split: if_splits)
  from one assms(2) have "threads_at s Writing = {i}"
    by (auto simp: card_1_singleton_iff set_eq_iff)
  moreover from assms(1) w have "threads_at s Reading = {}"
    by (auto simp: gate_inv_def)
  ultimately show ?thesis using w by simp
qed

text \<open>C33: In every reachable state of the reader/writer gate a thread that holds the write lease
  is alone: no other thread reads or writes.  The counters never go wrong: the reader count is the
  number of threads that hold a read lease, and the release that clamps at zero never has to.\<close>

theorem request_gate_exclusive:
  assumes "gate_reachable s"
  shows "(\<forall>i j. gate_pcs s i = Writing \<and> gate_pcs s j \<in> {Reading, Writing} \<longrightarrow> i = j)
    \<and> readers (the_gate s) = int (card (threads_at s Reading))
    \<and> (\<forall>i. gate_pcs s i = Reading \<longrightarrow> 0 < readers (the_gate s))"
proof -
  have inv: "gate_inv s" using assms by (rule gate_reachable_inv)
  have "i = j" if "gate_pcs s i = Writing" "gate_pcs s j \<in> {Reading, Writing}" for i j
    using gate_inv_writer [OF inv that(1)] that(2) by (auto simp: threads_at_def)
  moreover have "0 < readers (the_gate s)" if "gate_pcs s i = Reading" for i
    using inv that threads_card_pos [of s Reading i] by (auto simp: gate_inv_def)
  ultimately show ?thesis using inv by (auto simp: gate_inv_def)
qed

theorem request_gate_exclusive_witness:
  "\<exists>s. gate_reachable s \<and> gate_pcs s 7 = Reading \<and> 0 < readers (the_gate s)"
proof -
  let ?s = "goto init_gate_sys 7 Reading (take_read (the_gate init_gate_sys))"
  have step: "gate_step init_gate_sys ?s"
    by (rule gate_step.read_now) (simp_all add: init_gate_sys_def gate_ops)
  from gate_init this have reach: "gate_reachable ?s" by (rule gate_next)
  have "gate_pcs ?s 7 = Reading" by simp
  with request_gate_exclusive [OF reach] reach show ?thesis by blast
qed



end
