(* ===== verification/Peer_Gate.thy ===== *)
theory Peer_Gate
  imports Prelude "HOL-Library.List_Lexorder"
begin

text \<open>
  \<^verbatim>\<open>PeerRequestGate\<close> of \<^verbatim>\<open>bbw_web/store.py\<close>: a request takes one lock per peer it
  touches, in the order of the peers' identifiers, out of a table of reference-counted locks.  Each
  request runs on a thread of its own (numbered), so the re-entrance of \<^verbatim>\<open>RLock\<close> never shows; lock
  objects are numbered in the order of their creation.  The steps are the critical sections of the
  guard and the acquisition or release of one lock.
\<close>

section \<open>Operations\<close>

type_synonym lock = nat
type_synonym lock_table = "pystr \<rightharpoonup> lock \<times> int"

text \<open>\<^verbatim>\<open>PeerRequestGate._peers\<close>.\<close>

definition gate_peers :: "pystr option list \<Rightarrow> pystr list" where
  "gate_peers values =
     sort (remdups (map (\<lambda>v. take 128 (py_strip (or_default v [])))
       (filter (\<lambda>v. py_strip (or_default v []) \<noteq> []) (take 100 values))))"

text \<open>The loop of \<^verbatim>\<open>acquire\<close> under the guard: find or create each lock, count a reference.\<close>

fun register_entries ::
  "pystr list \<Rightarrow> lock_table \<Rightarrow> lock \<Rightarrow> (pystr \<times> lock) list \<times> lock_table \<times> lock" where
  "register_entries [] t n = ([], t, n)"
| "register_entries (p # ps) t n =
     (case t p of
        None \<Rightarrow> (let (es, t', n') = register_entries ps (t(p \<mapsto> (n, 1))) (Suc n)
                 in ((p, n) # es, t', n'))
      | Some (l, refs) \<Rightarrow> (let (es, t', n') = register_entries ps (t(p \<mapsto> (l, refs + 1))) n
                          in ((p, l) # es, t', n')))"

text \<open>\<^verbatim>\<open>_release_entries\<close>: drop a reference, and the entry with the last one.\<close>

fun release_entries :: "(pystr \<times> lock) list \<Rightarrow> lock_table \<Rightarrow> lock_table" where
  "release_entries [] t = t"
| "release_entries ((p, l) # es) t =
     (case t p of
        None \<Rightarrow> release_entries es t
      | Some (l', refs) \<Rightarrow>
          if l' \<noteq> l then release_entries es t
          else if refs - 1 \<le> 0 then release_entries es (t(p := None))
          else release_entries es (t(p \<mapsto> (l, refs - 1))))"

text \<open>
  Where a request is: \<open>Acquiring done todo\<close> in the locking loop, \<open>Holding es\<close> with its lease,
  \<open>Unlocking todo es\<close> in \<^verbatim>\<open>release\<close> (or in the exception handler of \<^verbatim>\<open>acquire\<close>).
\<close>

datatype request =
    Absent
  | Acquiring "(pystr \<times> lock) list" "(pystr \<times> lock) list"
  | Holding "(pystr \<times> lock) list"
  | Unlocking "(pystr \<times> lock) list" "(pystr \<times> lock) list"

record peer_sys =
  table :: lock_table
  next_lock :: lock
  owner :: "lock \<rightharpoonup> nat"
  requests :: "nat \<Rightarrow> request"

definition init_peer_sys :: peer_sys where
  "init_peer_sys =
     \<lparr>table = Map.empty, next_lock = 0, owner = Map.empty, requests = (\<lambda>_. Absent)\<rparr>"

abbreviation set_req :: "peer_sys \<Rightarrow> nat \<Rightarrow> request \<Rightarrow> peer_sys" where
  "set_req s i r \<equiv> s\<lparr>requests := (requests s)(i := r)\<rparr>"

inductive peer_step :: "peer_sys \<Rightarrow> peer_sys \<Rightarrow> bool" where
  p_register: "requests s i = Absent
     \<Longrightarrow> register_entries (gate_peers values) (table s) (next_lock s) = (es, t', n')
     \<Longrightarrow> peer_step s (s\<lparr>table := t', next_lock := n',
                        requests := (requests s)(i := Acquiring [] es)\<rparr>)"
| p_lock: "requests s i = Acquiring ds ((p, l) # todo) \<Longrightarrow> owner s l = None
     \<Longrightarrow> peer_step s (s\<lparr>owner := (owner s)(l \<mapsto> i),
                        requests := (requests s)(i := Acquiring (ds @ [(p, l)]) todo)\<rparr>)"
| p_enter: "requests s i = Acquiring ds [] \<Longrightarrow> peer_step s (set_req s i (Holding ds))"
| p_abort: "requests s i = Acquiring ds todo
     \<Longrightarrow> peer_step s (set_req s i (Unlocking (rev ds) (ds @ todo)))"
| p_release: "requests s i = Holding es \<Longrightarrow> peer_step s (set_req s i (Unlocking (rev es) es))"
| p_unlock: "requests s i = Unlocking ((p, l) # todo) es
     \<Longrightarrow> peer_step s (s\<lparr>owner := (owner s)(l := None),
                        requests := (requests s)(i := Unlocking todo es)\<rparr>)"
| p_drop: "requests s i = Unlocking [] es
     \<Longrightarrow> peer_step s (s\<lparr>table := release_entries es (table s),
                        requests := (requests s)(i := Absent)\<rparr>)"

inductive peer_reachable :: "peer_sys \<Rightarrow> bool" where
  peer_init: "peer_reachable init_peer_sys"
| peer_next: "peer_reachable s \<Longrightarrow> peer_step s t \<Longrightarrow> peer_reachable t"

section \<open>Invariant\<close>

fun mine :: "request \<Rightarrow> (pystr \<times> lock) list" where
  "mine Absent = []"
| "mine (Acquiring ds todo) = ds @ todo"
| "mine (Holding es) = es"
| "mine (Unlocking todo es) = es"

fun held :: "request \<Rightarrow> (pystr \<times> lock) list" where
  "held Absent = []"
| "held (Acquiring ds todo) = ds"
| "held (Holding es) = es"
| "held (Unlocking todo es) = todo"

definition users :: "peer_sys \<Rightarrow> pystr \<Rightarrow> nat set" where
  "users s p = {i. p \<in> fst ` set (mine (requests s i))}"

text \<open>Locks in the table are old and belong to one peer each.\<close>

definition lock_of :: "lock_table \<Rightarrow> pystr \<Rightarrow> lock option" where
  "lock_of t p = map_option fst (t p)"

definition table_ok :: "lock_table \<Rightarrow> lock \<Rightarrow> bool" where
  "table_ok t n \<longleftrightarrow>
     (\<forall>p l. lock_of t p = Some l \<longrightarrow> l < n)
     \<and> (\<forall>p q l. lock_of t p = Some l \<longrightarrow> lock_of t q = Some l \<longrightarrow> p = q)"

definition refs_ok :: "peer_sys \<Rightarrow> bool" where
  "refs_ok s \<longleftrightarrow>
     finite {i. requests s i \<noteq> Absent}
     \<and> (\<forall>p. table s p = None \<longrightarrow> users s p = {})
     \<and> (\<forall>p l c. table s p = Some (l, c) \<longrightarrow> users s p \<noteq> {} \<and> c = int (card (users s p)))
     \<and> (\<forall>i p l. (p, l) \<in> set (mine (requests s i)) \<longrightarrow> (\<exists>c. table s p = Some (l, c)))"

definition order_ok :: "peer_sys \<Rightarrow> bool" where
  "order_ok s \<longleftrightarrow>
     (\<forall>i. sorted (map fst (mine (requests s i))) \<and> distinct (map fst (mine (requests s i)))
        \<and> set (held (requests s i)) \<subseteq> set (mine (requests s i))
        \<and> distinct (map snd (held (requests s i))))"

definition owner_ok :: "peer_sys \<Rightarrow> bool" where
  "owner_ok s \<longleftrightarrow> (\<forall>l i. owner s l = Some i \<longleftrightarrow> l \<in> snd ` set (held (requests s i)))"

definition peer_inv :: "peer_sys \<Rightarrow> bool" where
  "peer_inv s \<longleftrightarrow> table_ok (table s) (next_lock s) \<and> refs_ok s \<and> order_ok s \<and> owner_ok s"

lemma peer_inv_init: "peer_inv init_peer_sys"
  by (simp add: peer_inv_def init_peer_sys_def table_ok_def refs_ok_def order_ok_def owner_ok_def
      users_def lock_of_def)

subsection \<open>The two loops over the table\<close>

lemma gate_peers_ordered: "sorted (gate_peers vs) \<and> distinct (gate_peers vs)"
  by (simp add: gate_peers_def)

lemma lock_of_upd:
  "lock_of (t(p \<mapsto> (l, c))) = (lock_of t)(p \<mapsto> l)"
  "lock_of (t(p := None)) = (lock_of t)(p := None)"
  by (auto simp: lock_of_def)

lemma table_ok_upd_new:
  assumes ok: "table_ok t n" and fresh: "t p = None"
  shows "table_ok (t(p \<mapsto> (n, c))) (Suc n)"
proof -
  have new: "lock_of t q \<noteq> Some n" for q
    using ok unfolding table_ok_def by blast
  show ?thesis
    using ok new unfolding table_ok_def lock_of_upd by (auto simp: less_Suc_eq)
qed

lemma table_ok_upd_old:
  assumes "table_ok t n" and "t p = Some (l, c)" shows "table_ok (t(p \<mapsto> (l, c'))) n"
proof -
  have "lock_of (t(p \<mapsto> (l, c'))) = lock_of t"
    using assms(2) by (auto simp: lock_of_def)
  with assms(1) show ?thesis by (simp add: table_ok_def)
qed

lemma table_ok_delete: "table_ok t n \<Longrightarrow> table_ok (t(p := None)) n"
  unfolding table_ok_def lock_of_upd by auto

lemma register_entries_table_ok:
  "register_entries ps t n = (es, t', n') \<Longrightarrow> table_ok t n \<Longrightarrow> table_ok t' n'"
proof (induction ps arbitrary: t n es)
  case Nil
  then show ?case by simp
next
  case (Cons p ps)
  show ?case
  proof (cases "t p")
    case None
    with Cons.prems obtain es1 where "register_entries ps (t(p \<mapsto> (n, 1))) (Suc n) = (es1, t', n')"
      by (auto split: prod.splits)
    then show ?thesis using Cons.IH table_ok_upd_new [OF Cons.prems(2) None] by blast
  next
    case (Some e)
    obtain l c where e: "e = (l, c)" by (cases e)
    with Cons.prems Some obtain es1 where
      "register_entries ps (t(p \<mapsto> (l, c + 1))) n = (es1, t', n')"
      by (auto split: prod.splits)
    then show ?thesis using Cons.IH table_ok_upd_old [OF Cons.prems(2) Some [unfolded e]] by blast
  qed
qed

abbreviation refs_of :: "lock_table \<Rightarrow> pystr \<Rightarrow> int" where
  "refs_of t q \<equiv> (case t q of None \<Rightarrow> 0 | Some (l, c) \<Rightarrow> c)"

lemma register_entries_spec:
  "register_entries ps t n = (es, t', n') \<Longrightarrow> distinct ps \<Longrightarrow>
     map fst es = ps
     \<and> (\<forall>q. q \<notin> set ps \<longrightarrow> t' q = t q)
     \<and> (\<forall>q l. (q, l) \<in> set es \<longrightarrow> t' q = Some (l, refs_of t q + 1)
          \<and> (\<forall>l' c. t q = Some (l', c) \<longrightarrow> l' = l))"
proof (induction ps arbitrary: t n es)
  case Nil
  then show ?case by simp
next
  case (Cons p ps)
  define l where "l = (case t p of None \<Rightarrow> n | Some (l, c) \<Rightarrow> l)"
  define m where "m = (case t p of None \<Rightarrow> Suc n | Some e \<Rightarrow> n)"
  obtain es1 where r: "register_entries ps (t(p \<mapsto> (l, refs_of t p + 1))) m = (es1, t', n')"
    and es: "es = (p, l) # es1"
    using Cons.prems(1) by (cases "t p") (auto simp: l_def m_def split: prod.splits)
  have IH: "map fst es1 = ps"
    "\<forall>q. q \<notin> set ps \<longrightarrow> t' q = (t(p \<mapsto> (l, refs_of t p + 1))) q"
    "\<forall>q l'. (q, l') \<in> set es1 \<longrightarrow> t' q = Some (l', refs_of (t(p \<mapsto> (l, refs_of t p + 1))) q + 1)
       \<and> (\<forall>l'' c. (t(p \<mapsto> (l, refs_of t p + 1))) q = Some (l'', c) \<longrightarrow> l'' = l')"
    using Cons.IH [OF r] Cons.prems(2) by auto
  have ne: "q \<noteq> p" if "(q, l') \<in> set es1" for q l'
    using IH(1) Cons.prems(2) that by (metis distinct.simps(2) fst_conv image_eqI list.set_map)
  have "t' p = Some (l, refs_of t p + 1)"
    using IH(2) Cons.prems(2) by simp
  moreover have "l'' = l" if "t p = Some (l'', c)" for l'' c
    using that by (simp add: l_def)
  moreover have "t' q = Some (l', refs_of t q + 1) \<and> (\<forall>l'' c. t q = Some (l'', c) \<longrightarrow> l'' = l')"
    if "(q, l') \<in> set es1" for q l'
    using IH(3) that ne [OF that] by simp
  ultimately show ?case
    using IH(1,2) es Cons.prems(2) by auto
qed

lemma release_entries_other: "q \<notin> fst ` set es \<Longrightarrow> release_entries es t q = t q"
  by (induction es t rule: release_entries.induct) (auto split: option.splits)

lemma release_entries_spec:
  "distinct (map fst es) \<Longrightarrow> (q, l) \<in> set es \<Longrightarrow> t q = Some (l, c)
   \<Longrightarrow> release_entries es t q = (if c - 1 \<le> 0 then None else Some (l, c - 1))"
proof (induction es arbitrary: t)
  case Nil
  then show ?case by simp
next
  case (Cons e es)
  obtain p l0 where e: "e = (p, l0)" by (cases e)
  show ?case
  proof (cases "q = p")
    case True
    have "q \<notin> fst ` set es" using Cons.prems(1) True e by simp
    moreover from this have "l0 = l"
      using Cons.prems(2) True e by (auto simp: rev_image_eqI)
    ultimately show ?thesis using True Cons.prems(3) e by (auto simp: release_entries_other)
  next
    case False
    with Cons.prems e have q: "distinct (map fst es)" "(q, l) \<in> set es" by auto
    note IH = Cons.IH [OF q]
    from False Cons.prems(3) show ?thesis
      by (auto simp: e IH split: option.split)
  qed
qed


subsection \<open>Preservation\<close>

lemma refs_okD:
  assumes "refs_ok s"
  shows "finite (users s p)"
    and "i \<in> users s p \<Longrightarrow> \<exists>l c. table s p = Some (l, c)"
    and "table s p = Some (l, c) \<Longrightarrow> c = int (card (users s p)) \<and> users s p \<noteq> {}"
    and "(p, l) \<in> set (mine (requests s i)) \<Longrightarrow> \<exists>c. table s p = Some (l, c)"
proof -
  have "users s p \<subseteq> {i. requests s i \<noteq> Absent}" by (auto simp: users_def)
  with assms show "finite (users s p)" by (auto simp: refs_ok_def intro: finite_subset)
  show "i \<in> users s p \<Longrightarrow> \<exists>l c. table s p = Some (l, c)"
    using assms by (cases "table s p") (auto simp: refs_ok_def)
  show "table s p = Some (l, c) \<Longrightarrow> c = int (card (users s p)) \<and> users s p \<noteq> {}"
    using assms by (simp add: refs_ok_def)
  show "(p, l) \<in> set (mine (requests s i)) \<Longrightarrow> \<exists>c. table s p = Some (l, c)"
    using assms by (simp add: refs_ok_def)
qed

text \<open>Steps that change neither the table nor the entries of a request.\<close>

lemma refs_ok_same:
  assumes "refs_ok s" and "table t = table s" and "\<forall>j. mine (requests t j) = mine (requests s j)"
    and "\<forall>j. requests t j = Absent \<longleftrightarrow> requests s j = Absent"
  shows "refs_ok t"
proof -
  have "users t p = users s p" for p using assms(3) by (simp add: users_def)
  with assms show ?thesis by (simp add: refs_ok_def)
qed

lemma register_refs_ok:
  assumes inv: "refs_ok s" and absent: "requests s i = Absent"
    and reg: "register_entries ps (table s) n = (es, t', n')" and d: "distinct ps"
  shows "refs_ok (s\<lparr>table := t', next_lock := n', requests := (requests s)(i := Acquiring [] es)\<rparr>)"
    (is "refs_ok ?s")
proof -
  note spec = register_entries_spec [OF reg d]
  have keys: "fst ` set es = set ps" using spec by (metis list.set_map)
  have us: "users ?s p = (if p \<in> set ps then insert i (users s p) else users s p)" for p
    using absent keys by (auto simp: users_def)
  have not_in: "i \<notin> users s p" for p using absent by (simp add: users_def)
  have entry: "t' p = Some (l, refs_of (table s) p + 1)" if "(p, l) \<in> set es" for p l
    using spec that by blast
  have count: "refs_of (table s) p = int (card (users s p))" for p
  proof (cases "table s p")
    case None
    with inv have "users s p = {}" by (simp add: refs_ok_def)
    with None show ?thesis by simp
  qed (use refs_okD(3) [OF inv] in auto)
  have "{j. requests ?s j \<noteq> Absent} = insert i {j. requests s j \<noteq> Absent}"
    by auto
  then have fin: "finite {j. requests ?s j \<noteq> Absent}"
    using inv by (simp add: refs_ok_def)
  have tab: "(t' p = None \<longrightarrow> users ?s p = {})
      \<and> (\<forall>l c. t' p = Some (l, c) \<longrightarrow> users ?s p \<noteq> {} \<and> c = int (card (users ?s p)))" for p
  proof (cases "p \<in> set ps")
    case True
    then obtain l where "(p, l) \<in> set es" using keys by (metis fst_conv imageE surj_pair)
    then have "t' p = Some (l, int (card (users s p)) + 1)" using entry count by simp
    with True us not_in refs_okD(1) [OF inv] show ?thesis by simp
  next
    case False
    with spec us inv show ?thesis by (simp add: refs_ok_def)
  qed
  have mine: "\<exists>c. t' p = Some (l, c)" if "(p, l) \<in> set (mine (requests ?s j))" for j p l
  proof (cases "j = i")
    case True
    with that entry show ?thesis by auto
  next
    case False
    with that obtain c where c: "table s p = Some (l, c)" using refs_okD(4) [OF inv, of p l j] by auto
    show ?thesis
    proof (cases "p \<in> set ps")
      case True
      then obtain l' where l': "(p, l') \<in> set es" using keys by (metis fst_conv imageE surj_pair)
      with spec c have "l = l'" by blast
      with entry [OF l'] show ?thesis by simp
    qed (use c spec in simp)
  qed
  show ?thesis
    unfolding refs_ok_def using fin tab mine by simp
qed

lemma drop_refs_ok:
  assumes inv: "refs_ok s" and req: "requests s i = Unlocking [] es" and d: "distinct (map fst es)"
  shows "refs_ok (s\<lparr>table := release_entries es (table s), requests := (requests s)(i := Absent)\<rparr>)"
    (is "refs_ok ?s")
proof -
  have keys: "p \<in> fst ` set es \<longleftrightarrow> i \<in> users s p" for p using req by (simp add: users_def)
  have us: "users ?s p = users s p - {i}" for p by (auto simp: users_def)
  have entry: "release_entries es (table s) p
      = (if card (users s p) \<le> 1 then None else Some (l, int (card (users s p)) - 1))
      \<and> table s p = Some (l, int (card (users s p)))"
    if "(p, l) \<in> set es" for p l
  proof -
    obtain c where c: "table s p = Some (l, c)"
      using refs_okD(4) [OF inv, of p l i] req \<open>(p, l) \<in> set es\<close> by auto
    from release_entries_spec [where t = "table s", OF d that c] refs_okD(3) [OF inv c] c
    show ?thesis by auto
  qed
  have fin: "finite {j. requests ?s j \<noteq> Absent}"
    using inv by (auto simp: refs_ok_def elim: rev_finite_subset)
  have tab: "(release_entries es (table s) p = None \<longrightarrow> users ?s p = {})
      \<and> (\<forall>l c. release_entries es (table s) p = Some (l, c) \<longrightarrow> users ?s p \<noteq> {} \<and> c = int (card (users ?s p)))" for p
  proof (cases "p \<in> fst ` set es")
    case True
    then obtain l where l: "(p, l) \<in> set es" by auto
    have i: "i \<in> users s p" using True keys by simp
    have card: "card (users ?s p) = card (users s p) - 1"
      using i refs_okD(1) [OF inv] by (simp add: us)
    have pos: "0 < card (users s p)" using i refs_okD(1) [OF inv] by (auto simp: card_gt_0_iff)
    show ?thesis
    proof (cases "card (users s p) \<le> 1")
      case small: True
      with card have "card (users ?s p) = 0" by simp
      then have "users ?s p = {}" using refs_okD(1) [OF inv] by (simp add: us)
      with small entry [OF l] show ?thesis by simp
    next
      case False
      with card have "card (users ?s p) \<noteq> 0" by simp
      then have "users ?s p \<noteq> {}" by auto
      with False entry [OF l] card pos show ?thesis by simp
    qed
  next
    case False
    then have "users ?s p = users s p" using keys us by blast
    with False inv show ?thesis by (simp add: release_entries_other refs_ok_def)
  qed
  have mine: "\<exists>c. release_entries es (table s) p = Some (l, c)"
    if "(p, l) \<in> set (mine (requests ?s j))" for j p l
  proof -
    from that have ji: "j \<noteq> i" and m: "(p, l) \<in> set (mine (requests s j))"
      by (auto split: if_splits)
    then have ju: "j \<in> users s p" by (force simp: users_def)
    show ?thesis
    proof (cases "p \<in> fst ` set es")
      case True
      then obtain l' where l': "(p, l') \<in> set es" by auto
      from True keys have "{i, j} \<subseteq> users s p" using ju by simp
      then have "card {i, j} \<le> card (users s p)" using refs_okD(1) [OF inv] by (intro card_mono)
      with ji have "\<not> card (users s p) \<le> 1" by simp
      with entry [OF l'] refs_okD(4) [OF inv m] show ?thesis by auto
    next
      case False
      with refs_okD(4) [OF inv m] show ?thesis by (simp add: release_entries_other)
    qed
  qed
  show ?thesis
    unfolding refs_ok_def using fin tab mine by simp
qed

lemma release_table_ok: "table_ok t n \<Longrightarrow> table_ok (release_entries es t) n"
proof (induction es arbitrary: t)
  case Nil
  then show ?case by simp
next
  case (Cons e es)
  obtain p l where e: "e = (p, l)" by (cases e)
  note del = Cons.IH [OF table_ok_delete [OF Cons.prems, of p]]
  have upd: "table_ok (release_entries es (t(p \<mapsto> (l, c')))) n" if "t p = Some (l, c)" for c c'
    using Cons.IH [OF table_ok_upd_old [OF Cons.prems that]] .
  show ?case
    using Cons.IH [OF Cons.prems] del upd by (auto simp: e simp del: fun_upd_apply split: option.split)
qed

lemma held_unique:
  assumes "owner_ok s" and "l \<in> snd ` set (held (requests s i))" and "l \<in> snd ` set (held (requests s j))"
  shows "i = j"
  using assms unfolding owner_ok_def by (metis option.inject)

lemma locks_of_mine_distinct:
  assumes tab: "table_ok (table s) n" and refs: "refs_ok s" and d: "distinct (map fst (mine (requests s i)))"
  shows "distinct (map snd (mine (requests s i)))"
proof -
  have "inj_on snd (set (mine (requests s i)))"
  proof (rule inj_onI)
    fix x y
    assume x: "x \<in> set (mine (requests s i))" and y: "y \<in> set (mine (requests s i))"
      and eq: "snd x = snd y"
    obtain p q l where pq: "x = (p, l)" "y = (q, l)" using eq by (cases x; cases y) auto
    with x y obtain c c' where "table s p = Some (l, c)" "table s q = Some (l, c')"
      using refs_okD(4) [OF refs] by blast
    then have "lock_of (table s) p = Some l" "lock_of (table s) q = Some l"
      by (auto simp: lock_of_def)
    with tab have "p = q" unfolding table_ok_def by blast
    with pq show "x = y" by simp
  qed
  with d show ?thesis by (simp add: distinct_map)
qed

lemma owner_ok_upd:
  assumes "owner_ok s" and "\<forall>j. j \<noteq> i \<longrightarrow> requests t j = requests s j"
    and "\<forall>l. owner t l = Some i \<longleftrightarrow> l \<in> snd ` set (held (requests t i))"
    and "\<forall>l j. j \<noteq> i \<longrightarrow> owner t l = Some j \<longleftrightarrow> owner s l = Some j"
  shows "owner_ok t"
  using assms unfolding owner_ok_def by metis

lemma order_ok_upd:
  assumes "order_ok s" and "\<forall>j. j \<noteq> i \<longrightarrow> requests t j = requests s j"
    and "sorted (map fst (mine (requests t i)))" and "distinct (map fst (mine (requests t i)))"
    and "set (held (requests t i)) \<subseteq> set (mine (requests t i))"
    and "distinct (map snd (held (requests t i)))"
  shows "order_ok t"
  using assms unfolding order_ok_def by metis

lemma order_okD:
  assumes "order_ok s"
  shows "sorted (map fst (mine (requests s i)))" "distinct (map fst (mine (requests s i)))"
    "set (held (requests s i)) \<subseteq> set (mine (requests s i))"
    "distinct (map snd (held (requests s i)))"
  using assms by (auto simp: order_ok_def)

lemma peer_step_inv: "peer_step s t \<Longrightarrow> peer_inv s \<Longrightarrow> peer_inv t"
proof (induction rule: peer_step.induct)
  case (p_register s i "values" es t' n')
  then have inv: "table_ok (table s) (next_lock s)" "refs_ok s" "order_ok s" "owner_ok s"
    by (auto simp: peer_inv_def)
  have d: "distinct (gate_peers values)" "sorted (gate_peers values)"
    using gate_peers_ordered by auto
  have keys: "map fst es = gate_peers values"
    using register_entries_spec [OF p_register(2) d(1)] by simp
  let ?t = "s\<lparr>table := t', next_lock := n', requests := (requests s)(i := Acquiring [] es)\<rparr>"
  have "owner s l \<noteq> Some i" for l using inv(4) p_register(1) by (simp add: owner_ok_def)
  then have "owner_ok ?t" by (intro owner_ok_upd [OF inv(4), of i]) auto
  moreover have "order_ok ?t" using keys d by (intro order_ok_upd [OF inv(3), of i]) auto
  moreover have "refs_ok ?t" by (rule register_refs_ok [OF inv(2) p_register(1,2) d(1)])
  ultimately show ?case
    using register_entries_table_ok [OF p_register(2) inv(1)] by (simp add: peer_inv_def)
next
  case (p_lock s i ds p l todo)
  then have inv: "table_ok (table s) (next_lock s)" "refs_ok s" "order_ok s" "owner_ok s"
    by (auto simp: peer_inv_def)
  let ?t = "s\<lparr>owner := (owner s)(l \<mapsto> i),
              requests := (requests s)(i := Acquiring (ds @ [(p, l)]) todo)\<rparr>"
  note ord = order_okD [OF inv(3), of i, unfolded p_lock(1)]
  have "distinct (map snd (mine (requests s i)))"
    using locks_of_mine_distinct [OF inv(1,2)] order_okD(2) [OF inv(3)] by blast
  then have ds: "distinct (map snd (ds @ [(p, l)]))" using p_lock(1) by auto
  have "order_ok ?t" using ord ds by (intro order_ok_upd [OF inv(3), of i]) auto
  moreover have "owner_ok ?t"
  proof (intro owner_ok_upd [OF inv(4), of i])
    have "\<forall>l'. owner s l' = Some i \<longleftrightarrow> l' \<in> snd ` set ds"
      using inv(4) p_lock(1) by (simp add: owner_ok_def)
    then show "\<forall>l'. owner ?t l' = Some i \<longleftrightarrow> l' \<in> snd ` set (held (requests ?t i))" by auto
  qed (use p_lock(2) in auto)
  moreover have "refs_ok ?t" using p_lock(1) by (intro refs_ok_same [OF inv(2)]) auto
  ultimately show ?case using inv(1) by (simp add: peer_inv_def)
next
  case (p_unlock s i p l todo es)
  then have inv: "table_ok (table s) (next_lock s)" "refs_ok s" "order_ok s" "owner_ok s"
    by (auto simp: peer_inv_def)
  let ?t = "s\<lparr>owner := (owner s)(l := None), requests := (requests s)(i := Unlocking todo es)\<rparr>"
  note ord = order_okD [OF inv(3), of i, unfolded p_unlock(1)]
  have own: "\<forall>l'. owner s l' = Some i \<longleftrightarrow> l' = l \<or> l' \<in> snd ` set todo"
    using inv(4) p_unlock(1) by (auto simp: owner_ok_def)
  have "order_ok ?t" using ord by (intro order_ok_upd [OF inv(3), of i]) auto
  moreover have "owner_ok ?t"
  proof (intro owner_ok_upd [OF inv(4), of i])
    show "\<forall>l'. owner ?t l' = Some i \<longleftrightarrow> l' \<in> snd ` set (held (requests ?t i))"
      using own ord(4) by auto
    have "owner s l = Some i" using own by blast
    then show "\<forall>l' j. j \<noteq> i \<longrightarrow> owner ?t l' = Some j \<longleftrightarrow> owner s l' = Some j"
      by auto
  qed auto
  moreover have "refs_ok ?t" using p_unlock(1) by (intro refs_ok_same [OF inv(2)]) auto
  ultimately show ?case using inv(1) by (simp add: peer_inv_def)
next
  case (p_drop s i es)
  then have inv: "table_ok (table s) (next_lock s)" "refs_ok s" "order_ok s" "owner_ok s"
    by (auto simp: peer_inv_def)
  let ?t = "s\<lparr>table := release_entries es (table s), requests := (requests s)(i := Absent)\<rparr>"
  have "distinct (map fst es)" using order_okD(2) [OF inv(3), of i] p_drop(1) by simp
  then have "refs_ok ?t" using drop_refs_ok [OF inv(2) p_drop(1)] by blast
  moreover have "owner_ok ?t"
    using inv(4) p_drop(1) by (intro owner_ok_upd [OF inv(4), of i]) (auto simp: owner_ok_def)
  moreover have "order_ok ?t" by (intro order_ok_upd [OF inv(3), of i]) auto
  ultimately show ?case using release_table_ok [OF inv(1)] by (simp add: peer_inv_def)
next
  case (p_enter s i ds)
  then have inv: "table_ok (table s) (next_lock s)" "refs_ok s" "order_ok s" "owner_ok s"
    by (auto simp: peer_inv_def)
  let ?t = "set_req s i (Holding ds)"
  have "refs_ok ?t" using p_enter(1) by (intro refs_ok_same [OF inv(2)]) auto
  moreover have "owner_ok ?t"
    using inv(4) p_enter(1) by (intro owner_ok_upd [OF inv(4), of i]) (auto simp: owner_ok_def)
  moreover have "order_ok ?t"
    using order_okD [OF inv(3), of i] p_enter(1) by (intro order_ok_upd [OF inv(3), of i]) auto
  ultimately show ?case using inv(1) by (simp add: peer_inv_def)
next
  case (p_abort s i ds todo)
  then have inv: "table_ok (table s) (next_lock s)" "refs_ok s" "order_ok s" "owner_ok s"
    by (auto simp: peer_inv_def)
  let ?t = "set_req s i (Unlocking (rev ds) (ds @ todo))"
  have "refs_ok ?t" using p_abort(1) by (intro refs_ok_same [OF inv(2)]) auto
  moreover have "owner_ok ?t"
    using inv(4) p_abort(1) by (intro owner_ok_upd [OF inv(4), of i]) (auto simp: owner_ok_def)
  moreover have "order_ok ?t"
    using order_okD [OF inv(3), of i] p_abort(1)
    by (intro order_ok_upd [OF inv(3), of i]) (auto simp: rev_map [symmetric])
  ultimately show ?case using inv(1) by (simp add: peer_inv_def)
next
  case (p_release s i es)
  then have inv: "table_ok (table s) (next_lock s)" "refs_ok s" "order_ok s" "owner_ok s"
    by (auto simp: peer_inv_def)
  let ?t = "set_req s i (Unlocking (rev es) es)"
  have "refs_ok ?t" using p_release(1) by (intro refs_ok_same [OF inv(2)]) auto
  moreover have "owner_ok ?t"
    using inv(4) p_release(1) by (intro owner_ok_upd [OF inv(4), of i]) (auto simp: owner_ok_def)
  moreover have "order_ok ?t"
    using order_okD [OF inv(3), of i] p_release(1)
    by (intro order_ok_upd [OF inv(3), of i]) (auto simp: rev_map [symmetric])
  ultimately show ?case using inv(1) by (simp add: peer_inv_def)
qed

lemma peer_reachable_inv: "peer_reachable s \<Longrightarrow> peer_inv s"
  by (induction rule: peer_reachable.induct) (auto intro: peer_inv_init peer_step_inv)

section \<open>Exclusion, progress and cleanup\<close>

lemma same_peer_same_lock:
  assumes "refs_ok s" and "(p, l) \<in> set (mine (requests s i))" and "(p, l') \<in> set (mine (requests s j))"
  shows "l = l'"
  using refs_okD(4) [OF assms(1,2)] refs_okD(4) [OF assms(1,3)] by auto

lemma same_lock_same_peer:
  assumes "peer_inv s" and "(p, l) \<in> set (mine (requests s i))" and "(q, l) \<in> set (mine (requests s j))"
  shows "p = q"
proof -
  have refs: "refs_ok s" using assms(1) by (simp add: peer_inv_def)
  obtain c c' where "table s p = Some (l, c)" "table s q = Some (l, c')"
    using refs_okD(4) [OF refs assms(2)] refs_okD(4) [OF refs assms(3)] by blast
  then have "lock_of (table s) p = Some l" "lock_of (table s) q = Some l"
    by (auto simp: lock_of_def)
  with assms(1) show ?thesis unfolding peer_inv_def table_ok_def by blast
qed

lemma owner_holds:
  assumes "peer_inv s" and "owner s l = Some j"
  obtains q where "(q, l) \<in> set (held (requests s j))"
  using assms by (force simp: peer_inv_def owner_ok_def)

text \<open>What a blocked request waits for, and that its holder waits for a larger peer.\<close>

definition wanted :: "peer_sys \<Rightarrow> nat \<Rightarrow> pystr" where
  "wanted s i = (case requests s i of Acquiring ds ((p, l) # todo) \<Rightarrow> p | _ \<Rightarrow> [])"

definition blocked :: "peer_sys \<Rightarrow> nat \<Rightarrow> bool" where
  "blocked s i \<longleftrightarrow>
     (case requests s i of Acquiring ds ((p, l) # todo) \<Rightarrow> owner s l \<noteq> None | _ \<Rightarrow> False)"

lemma blockedE:
  assumes "blocked s i"
  obtains ds p l todo j where "requests s i = Acquiring ds ((p, l) # todo)" "owner s l = Some j"
  using assms by (auto simp: blocked_def split: request.splits list.splits)

lemma holder_wants_more:
  assumes inv: "peer_inv s" and r: "requests s i = Acquiring ds ((p, l) # todo)"
    and own: "owner s l = Some j" and blk: "blocked s j"
  shows "p < wanted s j"
proof -
  obtain ds' p' l' todo' j' where r': "requests s j = Acquiring ds' ((p', l') # todo')"
    using blk by (rule blockedE)
  obtain q where q: "(q, l) \<in> set ds'" using owner_holds [OF inv own] r' by auto
  have "p = q" by (rule same_lock_same_peer [OF inv, of p l i q j]) (use r r' q in auto)
  have "sorted (map fst (mine (requests s j)))" "distinct (map fst (mine (requests s j)))"
    using inv order_okD(1,2) [of s j] by (auto simp: peer_inv_def)
  then have ord: "\<forall>x \<in> fst ` set ds'. x \<le> p'" "p' \<notin> fst ` set ds'"
    using r' by (auto simp: sorted_append)
  moreover have "q \<in> fst ` set ds'" using q by (rule rev_image_eqI) simp
  ultimately have "p = q \<and> q < p'" using \<open>p = q\<close> by (metis order_le_imp_less_or_eq)
  then show ?thesis using r' by (simp add: wanted_def)
qed

lemma somebody_not_blocked:
  assumes inv: "peer_inv s" and present: "requests s i \<noteq> Absent"
  shows "\<exists>j. requests s j \<noteq> Absent \<and> \<not> blocked s j"
proof (rule ccontr)
  let ?B = "{j. requests s j \<noteq> Absent}"
  assume none: "\<not> ?thesis"
  have fin: "finite ?B" using inv by (simp add: peer_inv_def refs_ok_def)
  have "Max (wanted s ` ?B) \<in> wanted s ` ?B" using fin present by (intro Max_in) auto
  then obtain k where k: "requests s k \<noteq> Absent" "wanted s k = Max (wanted s ` ?B)" by auto
  with none have "blocked s k" by blast
  then obtain ds p l todo j where r: "requests s k = Acquiring ds ((p, l) # todo)"
    and own: "owner s l = Some j" by (rule blockedE)
  have j: "requests s j \<noteq> Absent" using owner_holds [OF inv own] by fastforce
  with none have "blocked s j" by blast
  with holder_wants_more [OF inv r own] r have "wanted s k < wanted s j" by (simp add: wanted_def)
  moreover have "wanted s j \<le> Max (wanted s ` ?B)" using fin j by (intro Max_ge) auto
  ultimately show False using k(2) by simp
qed

lemma unblocked_moves:
  assumes "requests s j \<noteq> Absent" and "\<not> blocked s j"
  shows "\<exists>t. peer_step s t \<and> requests t j \<noteq> requests s j"
proof (cases "requests s j")
  case Absent
  with assms show ?thesis by simp
next
  case (Acquiring ds todo)
  show ?thesis
  proof (cases todo)
    case Nil
    with p_enter [of s j ds] Acquiring show ?thesis by fastforce
  next
    case (Cons e es)
    obtain p l where e: "e = (p, l)" by (cases e)
    with Cons Acquiring assms(2) have "owner s l = None" by (simp add: blocked_def)
    with p_lock [of s j ds p l es] Cons Acquiring e show ?thesis by fastforce
  qed
next
  case (Holding es)
  with p_release [of s j es] show ?thesis by fastforce
next
  case (Unlocking todo es)
  show ?thesis
  proof (cases todo)
    case Nil
    with p_drop [of s j es] Unlocking show ?thesis by fastforce
  next
    case (Cons e rest)
    obtain p l where e: "e = (p, l)" by (cases e)
    with p_unlock [of s j p l rest es] Cons Unlocking show ?thesis by fastforce
  qed
qed

text \<open>C28: Two account mutations that touch a common peer never run at the same time: if both hold
  a lease of the peer gate, they are the same request.  This survives the deletion and re-creation
  of lock objects in the table while other requests come and go.\<close>

theorem peer_gate_exclusive:
  assumes "peer_reachable s"
    and "requests s i = Holding es" and "requests s j = Holding es'"
    and "p \<in> fst ` set es" and "p \<in> fst ` set es'"
  shows "i = j"
proof -
  have inv: "peer_inv s" using assms(1) by (rule peer_reachable_inv)
  obtain l l' where l: "(p, l) \<in> set es" "(p, l') \<in> set es'" using assms(4,5) by auto
  have "l = l'"
    by (rule same_peer_same_lock [of s p l i l' j]) (use inv l assms(2,3) in \<open>auto simp: peer_inv_def\<close>)
  with l assms(2,3) inv show ?thesis
    by (intro held_unique [of s l]) (force simp: peer_inv_def)+
qed

text \<open>A run of one request that takes the locks of two peers.\<close>

definition demo_peers :: "pystr option list" where
  "demo_peers = [Some (S ''b''), None, Some (S '' a ''), Some (S ''b'')]"

lemma gate_peers_demo: "gate_peers demo_peers = [S ''a'', S ''b'']"
  by (simp add: gate_peers_def demo_peers_def S_def py_strip_def py_space_def or_default_def
      insort_key.simps)

lemma demo_holding:
  "\<exists>s. peer_reachable s \<and> requests s 3 = Holding [(S ''a'', 0), (S ''b'', 1)]"
proof -
  let ?es = "[(S ''a'', 0), (S ''b'', 1)]"
  let ?t = "Map.empty(S ''a'' \<mapsto> (0, 1), S ''b'' \<mapsto> (1, 1)) :: lock_table"
  let ?s1 = "init_peer_sys\<lparr>table := ?t, next_lock := 2,
    requests := (requests init_peer_sys)(3 := Acquiring [] ?es)\<rparr>"
  let ?s2 = "?s1\<lparr>owner := (owner ?s1)(0 \<mapsto> 3),
    requests := (requests ?s1)(3 := Acquiring ([] @ [(S ''a'', 0)]) [(S ''b'', 1)])\<rparr>"
  let ?s3 = "?s2\<lparr>owner := (owner ?s2)(1 \<mapsto> 3),
    requests := (requests ?s2)(3 := Acquiring ([(S ''a'', 0)] @ [(S ''b'', 1)]) [])\<rparr>"
  have "peer_step init_peer_sys ?s1"
    by (rule p_register [of _ _ demo_peers])
      (simp_all add: init_peer_sys_def gate_peers_demo eval_nat_numeral)
  with peer_init have "peer_reachable ?s1" by (rule peer_next)
  moreover have "peer_step ?s1 ?s2" by (rule p_lock) (simp_all add: init_peer_sys_def)
  ultimately have "peer_reachable ?s2" by (rule peer_next)
  moreover have "peer_step ?s2 ?s3" by (rule p_lock) (simp_all add: init_peer_sys_def)
  ultimately have "peer_reachable ?s3" by (rule peer_next)
  moreover have "peer_step ?s3 (set_req ?s3 3 (Holding ([(S ''a'', 0)] @ [(S ''b'', 1)])))"
    by (rule p_enter) simp
  ultimately have "peer_reachable (set_req ?s3 3 (Holding ([(S ''a'', 0)] @ [(S ''b'', 1)])))"
    by (rule peer_next)
  then show ?thesis by (intro exI [of _ "set_req ?s3 3 (Holding ?es)"]) simp
qed

theorem peer_gate_exclusive_witness:
  "\<exists>s. peer_reachable s \<and> (\<exists>es. requests s 3 = Holding es)
     \<and> (\<forall>j es'. requests s j = Holding es' \<and> S ''b'' \<in> fst ` set es' \<longrightarrow> 3 = j)"
proof -
  obtain s where s: "peer_reachable s" "requests s 3 = Holding [(S ''a'', 0), (S ''b'', 1)]"
    using demo_holding by blast
  have "3 = j" if "requests s j = Holding es'" "S ''b'' \<in> fst ` set es'" for j es'
    by (rule peer_gate_exclusive [OF s that(1) _ that(2)]) simp
  with s show ?thesis by blast
qed

text \<open>C29: The peer gate never deadlocks and never leaks.  As long as any request is registered,
  some registered request is not blocked on a lock and has a step that moves it on, because locks
  are taken in the order of the peer identifiers; and when no request is registered the lock table
  and the ownership map are empty again.\<close>

theorem peer_gate_deadlock_free:
  assumes "peer_reachable s"
  shows "(\<forall>i. requests s i \<noteq> Absent \<longrightarrow>
      (\<exists>j t. requests s j \<noteq> Absent \<and> \<not> blocked s j \<and> peer_step s t \<and> requests t j \<noteq> requests s j))
    \<and> ((\<forall>i. requests s i = Absent) \<longrightarrow> table s = Map.empty \<and> owner s = Map.empty)"
proof -
  have inv: "peer_inv s" using assms by (rule peer_reachable_inv)
  have "table s p = None" if "\<forall>i. requests s i = Absent" for p
  proof (rule ccontr)
    assume "table s p \<noteq> None"
    then obtain l c where "table s p = Some (l, c)" by auto
    with inv have "users s p \<noteq> {}" by (simp add: peer_inv_def refs_ok_def)
    with that show False by (simp add: users_def)
  qed
  moreover have "owner s l = None" if "\<forall>i. requests s i = Absent" for l
  proof (cases "owner s l")
    case (Some j)
    obtain q where "(q, l) \<in> set (held (requests s j))" by (rule owner_holds [OF inv Some])
    with that show ?thesis by simp
  qed
  ultimately show ?thesis
    using somebody_not_blocked [OF inv] unblocked_moves by blast
qed

theorem peer_gate_deadlock_free_witness:
  "\<exists>s. peer_reachable s \<and> (\<exists>j t. peer_step s t \<and> requests t j \<noteq> requests s j)"
proof -
  obtain s where s: "peer_reachable s" "requests s 3 = Holding [(S ''a'', 0), (S ''b'', 1)]"
    using demo_holding by blast
  from peer_gate_deadlock_free [OF s(1)] have
    "\<forall>i. requests s i \<noteq> Absent \<longrightarrow>
      (\<exists>j t. requests s j \<noteq> Absent \<and> \<not> blocked s j \<and> peer_step s t \<and> requests t j \<noteq> requests s j)"
    by blast
  then have "\<exists>j t. peer_step s t \<and> requests t j \<noteq> requests s j"
    using s(2) by (metis request.distinct(3))
  with s(1) show ?thesis by blast
qed

end
