(* ===== verification/Autonomy_Types.thy ===== *)
theory Autonomy_Types
  imports Prelude
begin

text \<open>
  The value objects of \<^verbatim>\<open>bbw_agent/autonomous.py\<close>: fixed actions, access, policy, task, command,
  reservation decision, dispatch result and task completion, each with the checks of its
  \<^verbatim>\<open>__post_init__\<close> in the order of the source.  Python \<^verbatim>\<open>int\<close>s are \<open>int\<close>, UUIDs are
  numbers, and every timestamp is timezone-aware, that is an instant.  A time zone name is valid
  when the parameter \<open>known_zone\<close> says so (the zone database is not part of the program).
\<close>

section \<open>Fixed actions\<close>

abbreviation "SEND_PRIVATE_MESSAGE \<equiv> S ''send_private_message''"
abbreviation "PUBLISH_TEXT_POST \<equiv> S ''publish_text_post''"
abbreviation "FOLLOW_USER \<equiv> S ''follow_user''"
abbreviation "UNFOLLOW_USER \<equiv> S ''unfollow_user''"
abbreviation "BROWSE_ONLINE_USERS \<equiv> S ''browse_online_users''"
abbreviation "REQUEST_TEXT_MATCH \<equiv> S ''request_text_match''"
abbreviation "REQUEST_FRIEND_ACTION \<equiv> S ''request_friend''"

definition FIXED_ACCOUNT_ACTIONS :: "pystr list" where
  "FIXED_ACCOUNT_ACTIONS =
     [SEND_PRIVATE_MESSAGE, PUBLISH_TEXT_POST, FOLLOW_USER, UNFOLLOW_USER, BROWSE_ONLINE_USERS,
      REQUEST_TEXT_MATCH, REQUEST_FRIEND_ACTION]"

definition STATIC_RELATIONSHIP_ACTIONS :: "pystr set" where
  "STATIC_RELATIONSHIP_ACTIONS = {FOLLOW_USER, UNFOLLOW_USER}"

type_synonym uuid = nat

section \<open>Vocabulary\<close>

datatype task_type =
    REPLY_TO_MESSAGE | SCHEDULED_POST | FOLLOW_TARGET | UNFOLLOW_TARGET | BROWSE_ONLINE
  | REQUEST_MATCH | PROACTIVE_MESSAGE | FOLLOW_DISCOVERED | REQUEST_FRIEND

fun task_type_value :: "task_type \<Rightarrow> pystr" where
  "task_type_value REPLY_TO_MESSAGE = S ''reply_to_message''"
| "task_type_value SCHEDULED_POST = S ''scheduled_post''"
| "task_type_value FOLLOW_TARGET = S ''follow_target''"
| "task_type_value UNFOLLOW_TARGET = S ''unfollow_target''"
| "task_type_value BROWSE_ONLINE = S ''browse_online''"
| "task_type_value REQUEST_MATCH = S ''request_match''"
| "task_type_value PROACTIVE_MESSAGE = S ''proactive_message''"
| "task_type_value FOLLOW_DISCOVERED = S ''follow_discovered''"
| "task_type_value REQUEST_FRIEND = S ''request_friend''"

datatype task_status =
    QUEUED | DEFERRED | LEASED | GENERATING | DISPATCHING
  | SUCCEEDED | FAILED | CANCELLED | STALE | MANUAL_REVIEW

fun task_status_value :: "task_status \<Rightarrow> pystr" where
  "task_status_value QUEUED = S ''queued''"
| "task_status_value DEFERRED = S ''deferred''"
| "task_status_value LEASED = S ''leased''"
| "task_status_value GENERATING = S ''generating''"
| "task_status_value DISPATCHING = S ''dispatching''"
| "task_status_value SUCCEEDED = S ''succeeded''"
| "task_status_value FAILED = S ''failed''"
| "task_status_value CANCELLED = S ''cancelled''"
| "task_status_value STALE = S ''stale''"
| "task_status_value MANUAL_REVIEW = S ''manual_review''"

definition CLAIMABLE_TASK_STATUSES :: "task_status set" where
  "CLAIMABLE_TASK_STATUSES = {QUEUED, DEFERRED, LEASED, GENERATING}"

definition NOT_STARTED_TASK_STATUSES :: "task_status set" where
  "NOT_STARTED_TASK_STATUSES = {QUEUED, DEFERRED, LEASED, GENERATING}"

definition TERMINAL_TASK_STATUSES :: "task_status set" where
  "TERMINAL_TASK_STATUSES = {SUCCEEDED, FAILED, CANCELLED, STALE, MANUAL_REVIEW}"

datatype message_direction = INCOMING | OUTGOING | UNKNOWN_DIRECTION

datatype decision_code =
    ALLOWED | LEASE_LOST | ACCESS_REVOKED | POLICY_CHANGED | ACTION_NOT_ALLOWED | HALTED
  | SOURCE_STALE | DAILY_BUDGET_EXHAUSTED | MINIMUM_INTERVAL

fun decision_code_value :: "decision_code \<Rightarrow> pystr" where
  "decision_code_value ALLOWED = S ''allowed''"
| "decision_code_value LEASE_LOST = S ''lease_lost''"
| "decision_code_value ACCESS_REVOKED = S ''access_revoked''"
| "decision_code_value POLICY_CHANGED = S ''policy_changed''"
| "decision_code_value ACTION_NOT_ALLOWED = S ''action_not_allowed''"
| "decision_code_value HALTED = S ''halted''"
| "decision_code_value SOURCE_STALE = S ''source_stale''"
| "decision_code_value DAILY_BUDGET_EXHAUSTED = S ''daily_budget_exhausted''"
| "decision_code_value MINIMUM_INTERVAL = S ''minimum_interval''"

datatype action_outcome = OUT_SUCCEEDED | OUT_FAILED | OUTCOME_UNKNOWN

text \<open>\<^verbatim>\<open>_STABLE_CODE.fullmatch(code)\<close>: a leading \<^verbatim>\<open>[a-z0-9]\<close> and at most 63 of
  \<^verbatim>\<open>[a-z0-9_.-]\<close>.\<close>

definition low_alnum :: "nat \<Rightarrow> bool" where
  "low_alnum c \<longleftrightarrow> 97 \<le> c \<and> c \<le> 122 \<or> 48 \<le> c \<and> c \<le> 57"

definition stable_code :: "pystr \<Rightarrow> bool" where
  "stable_code code \<longleftrightarrow>
     (case code of [] \<Rightarrow> False
      | c # cs \<Rightarrow> low_alnum c \<and> length cs \<le> 63
          \<and> (\<forall>d \<in> set cs. low_alnum d \<or> d = 95 \<or> d = 46 \<or> d = 45))"

text \<open>\<^verbatim>\<open>AgentAutonomyError\<close>: the code the error carries.\<close>

definition autonomy_error_code :: "pystr option \<Rightarrow> pystr" where
  "autonomy_error_code code =
     (let normalized = py_lower (py_strip (or_default code (S ''autonomy_error''))) in
      if stable_code normalized then normalized else S ''autonomy_error'')"

section \<open>Access\<close>

record autonomy_access =
  account_active :: bool
  runner_system_enabled :: bool
  runner_admin_granted :: bool
  runner_user_enabled :: bool
  model_connection_ready :: bool
  account_actions_system_enabled :: bool
  account_actions_admin_granted :: bool
  account_actions_user_enabled :: bool
  private_message_auto_send_enabled :: bool
  autonomy_system_enabled :: bool
  autonomy_admin_granted :: bool

definition access_available :: "autonomy_access \<Rightarrow> bool" where
  "access_available a \<longleftrightarrow>
     account_active a \<and> runner_system_enabled a \<and> runner_admin_granted a
     \<and> runner_user_enabled a \<and> model_connection_ready a
     \<and> account_actions_system_enabled a \<and> account_actions_admin_granted a
     \<and> account_actions_user_enabled a \<and> autonomy_system_enabled a \<and> autonomy_admin_granted a"

section \<open>Normalisation\<close>

definition normalize_target :: "pystr \<Rightarrow> py_error + pystr" where
  "normalize_target value =
     (let target = py_strip value in
      if target = [] \<or> length target > 128 \<or> (\<exists>c \<in> set target. c < 33)
         \<or> (\<exists>c \<in> set target. c \<in> {42, 63, 91, 93})
      then Inl (ValueError ''autonomy target must be one exact user identifier'')
      else Inr target)"

definition normalize_actions :: "pystr set \<Rightarrow> py_error + pystr set" where
  "normalize_actions vs =
     (let actions = py_strip ` vs in
      if \<not> actions \<subseteq> set FIXED_ACCOUNT_ACTIONS
      then Inl (ValueError ''autonomy policy contains an unsupported action'')
      else Inr actions)"

fun limits_loop :: "int \<Rightarrow> (pystr \<times> int) list \<Rightarrow> (pystr \<rightharpoonup> int) \<Rightarrow> py_error + (pystr \<rightharpoonup> int)" where
  "limits_loop total_limit [] limits = Inr limits"
| "limits_loop total_limit ((raw_action, limit) # vs) limits =
     (let action = py_strip raw_action in
      if action \<notin> set FIXED_ACCOUNT_ACTIONS
      then Inl (ValueError ''daily action limit contains an unsupported action'')
      else if \<not> (0 \<le> limit \<and> limit \<le> total_limit)
      then Inl (ValueError ''daily action limit is outside the total hard budget'')
      else limits_loop total_limit vs (limits(action \<mapsto> limit)))"

definition normalize_limits :: "(pystr \<times> int) list \<Rightarrow> int \<Rightarrow> py_error + (pystr \<times> int) list" where
  "normalize_limits vs total_limit =
     and_then (limits_loop total_limit vs Map.empty) (\<lambda>limits.
       Inr (List.map_filter (\<lambda>action. map_option (Pair action) (limits action))
              FIXED_ACCOUNT_ACTIONS))"

definition hex_fingerprint :: "pystr \<Rightarrow> bool" where
  "hex_fingerprint f \<longleftrightarrow> length f = 64 \<and> (\<forall>c \<in> set f. c \<in> set (S ''0123456789abcdef''))"


section \<open>Policy\<close>

record autonomy_policy =
  pol_owner :: uuid
  pol_account :: uuid
  pol_version :: int
  pol_execution_version :: int
  pol_runner_version :: int
  pol_model_connection :: uuid
  pol_fingerprint :: pystr
  pol_access :: autonomy_access
  user_enabled :: bool
  auto_reply_enabled :: bool
  scheduled_posts_enabled :: bool
  relationship_actions_enabled :: bool
  auto_reply_started_at :: "instant option"
  discovery_enabled :: bool
  text_match_enabled :: bool
  proactive_message_enabled :: bool
  follow_discovered_enabled :: bool
  friend_request_enabled :: bool
  selected_actions :: "pystr set"
  target_allowlist :: "pystr list"
  daily_total_limit :: int
  daily_action_limits :: "(pystr \<times> int) list"
  minimum_interval_seconds :: int
  quiet_timezone :: pystr
  quiet_start_minute :: "int option"
  quiet_end_minute :: "int option"
  max_consecutive_failures :: int
  consecutive_failures :: int
  pol_halted :: bool
  scheduled_post_max_lateness_seconds :: int

text \<open>The bounds of lines 939 to 959 and the feature requirements of lines 960 to 986.\<close>

definition policy_ranges :: "(pystr \<Rightarrow> bool) \<Rightarrow> autonomy_policy \<Rightarrow> string option" where
  "policy_ranges known_zone p =
     (if \<not> (1 \<le> minimum_interval_seconds p \<and> minimum_interval_seconds p \<le> 86400)
      then Some ''minimum interval is outside the supported range''
      else if \<not> (1 \<le> max_consecutive_failures p \<and> max_consecutive_failures p \<le> 100)
      then Some ''consecutive failure threshold is invalid''
      else if consecutive_failures p < 0
      then Some ''consecutive failure count cannot be negative''
      else if \<not> (60 \<le> scheduled_post_max_lateness_seconds p
                \<and> scheduled_post_max_lateness_seconds p \<le> 86400)
      then Some ''scheduled post lateness window is invalid''
      else if \<not> known_zone (quiet_timezone p)
      then Some ''quiet timezone is invalid''
      else if (quiet_start_minute p = None) \<noteq> (quiet_end_minute p = None)
      then Some ''quiet start and end must be configured together''
      else (case (quiet_start_minute p, quiet_end_minute p) of
              (Some starts, Some ends) \<Rightarrow>
                if \<not> (0 \<le> starts \<and> starts < 1440) \<or> \<not> (0 \<le> ends \<and> ends < 1440)
                then Some ''quiet time is outside one day''
                else if starts = ends
                then Some ''equal quiet boundaries are ambiguous''
                else None
            | _ \<Rightarrow> None))"

definition policy_features :: "autonomy_policy \<Rightarrow> pystr set \<Rightarrow> pystr set \<Rightarrow> string option" where
  "policy_features p actions targets =
     (if auto_reply_enabled p \<and> SEND_PRIVATE_MESSAGE \<notin> actions
      then Some ''auto reply requires the private-message action''
      else if auto_reply_enabled p \<and> auto_reply_started_at p = None
      then Some ''auto reply requires an activation watermark''
      else if scheduled_posts_enabled p \<and> PUBLISH_TEXT_POST \<notin> actions
      then Some ''scheduled posts require the publish action''
      else if relationship_actions_enabled p \<and> actions \<inter> STATIC_RELATIONSHIP_ACTIONS = {}
      then Some ''relationship automation requires a relationship action''
      else if relationship_actions_enabled p \<and> targets = {}
      then Some ''relationship automation requires an exact target allowlist''
      else if discovery_enabled p \<and> BROWSE_ONLINE_USERS \<notin> actions
      then Some ''online discovery requires the browse action''
      else if text_match_enabled p \<and> REQUEST_TEXT_MATCH \<notin> actions
      then Some ''text matching requires the match action''
      else if proactive_message_enabled p \<and> SEND_PRIVATE_MESSAGE \<notin> actions
      then Some ''proactive messaging requires the private-message action''
      else if follow_discovered_enabled p \<and> FOLLOW_USER \<notin> actions
      then Some ''discovered follows require the follow action''
      else if friend_request_enabled p \<and> REQUEST_FRIEND_ACTION \<notin> actions
      then Some ''friend requests require the friend-request action''
      else None)"

definition post_init_policy ::
  "(pystr \<Rightarrow> bool) \<Rightarrow> autonomy_policy \<Rightarrow> py_error + autonomy_policy" where
  "post_init_policy known_zone p =
     (if pol_version p < 1 \<or> pol_execution_version p < 1 \<or> pol_runner_version p < 1
      then Inl (ValueError ''autonomy policy versions must be positive'')
      else
        let fingerprint = py_lower (py_strip (pol_fingerprint p)) in
        if \<not> hex_fingerprint fingerprint
        then Inl (ValueError ''autonomy policy runner fingerprint is invalid'')
        else
          and_then (normalize_actions (selected_actions p)) (\<lambda>actions.
          and_then (map_ok normalize_target (target_allowlist p)) (\<lambda>targets.
            if \<not> (1 \<le> daily_total_limit p \<and> daily_total_limit p \<le> 1000)
            then Inl (ValueError ''daily total limit must be between one and one thousand'')
            else
              and_then (normalize_limits (daily_action_limits p) (daily_total_limit p)) (\<lambda>limits.
                case policy_ranges known_zone p of
                  Some m \<Rightarrow> Inl (ValueError m)
                | None \<Rightarrow>
                    (case policy_features p actions (set targets) of
                       Some m \<Rightarrow> Inl (ValueError m)
                     | None \<Rightarrow>
                         Inr (p\<lparr>selected_actions := actions, target_allowlist := targets,
                               daily_action_limits := limits,
                               pol_fingerprint := fingerprint\<rparr>))))))"

definition policy_active :: "autonomy_policy \<Rightarrow> bool" where
  "policy_active p \<longleftrightarrow>
     access_available (pol_access p) \<and> user_enabled p \<and> \<not> pol_halted p
     \<and> consecutive_failures p < max_consecutive_failures p"

definition action_daily_limit :: "autonomy_policy \<Rightarrow> pystr \<Rightarrow> int" where
  "action_daily_limit p action =
     (case map_of (rev (daily_action_limits p)) action of
        Some n \<Rightarrow> n | None \<Rightarrow> daily_total_limit p)"

section \<open>Task\<close>

record autonomy_task =
  task_id :: uuid
  task_owner :: uuid
  task_account :: uuid
  task_type :: task_type
  task_action :: pystr
  task_status :: task_status
  task_key :: pystr
  task_policy_version :: int
  task_execution_version :: int
  task_runner_version :: int
  task_model_connection :: uuid
  task_fingerprint :: pystr
  task_target :: pystr
  task_source :: pystr
  task_instruction :: pystr
  scheduled_for :: "instant option"
  task_not_before :: "instant option"
  attempt_count :: int
  lease_token :: pystr
  lease_until :: "instant option"

fun expected_action :: "task_type \<Rightarrow> pystr" where
  "expected_action REPLY_TO_MESSAGE = SEND_PRIVATE_MESSAGE"
| "expected_action SCHEDULED_POST = PUBLISH_TEXT_POST"
| "expected_action FOLLOW_TARGET = FOLLOW_USER"
| "expected_action UNFOLLOW_TARGET = UNFOLLOW_USER"
| "expected_action BROWSE_ONLINE = BROWSE_ONLINE_USERS"
| "expected_action REQUEST_MATCH = REQUEST_TEXT_MATCH"
| "expected_action PROACTIVE_MESSAGE = SEND_PRIVATE_MESSAGE"
| "expected_action FOLLOW_DISCOVERED = FOLLOW_USER"
| "expected_action REQUEST_FRIEND = REQUEST_FRIEND_ACTION"

text \<open>The parameters a task of each type may have (lines 1085 to 1109); the result is the target.\<close>

definition task_parameters ::
  "task_type \<Rightarrow> pystr \<Rightarrow> pystr \<Rightarrow> pystr \<Rightarrow> instant option \<Rightarrow> py_error + pystr" where
  "task_parameters ty target source instruction scheduled =
     (case ty of
        REPLY_TO_MESSAGE \<Rightarrow>
          and_then (normalize_target target) (\<lambda>t.
            if source = []
            then Inl (ValueError ''reply task requires a source message identity'')
            else Inr t)
      | SCHEDULED_POST \<Rightarrow>
          if target \<noteq> [] \<or> source \<noteq> [] \<or> scheduled = None
          then Inl (ValueError ''scheduled post task parameters are invalid'')
          else Inr target
      | BROWSE_ONLINE \<Rightarrow>
          if target \<noteq> [] \<or> source \<noteq> [] \<or> instruction \<noteq> [] \<or> scheduled \<noteq> None
          then Inl (ValueError ''discovery task parameters are invalid'')
          else Inr target
      | REQUEST_MATCH \<Rightarrow>
          if target \<noteq> [] \<or> source \<noteq> [] \<or> instruction \<noteq> [] \<or> scheduled \<noteq> None
          then Inl (ValueError ''discovery task parameters are invalid'')
          else Inr target
      | _ \<Rightarrow>
          if ty \<in> {FOLLOW_TARGET, UNFOLLOW_TARGET, FOLLOW_DISCOVERED} then
            and_then (normalize_target target) (\<lambda>t.
              if source \<noteq> [] \<or> instruction \<noteq> []
              then Inl (ValueError ''relationship task parameters are invalid'')
              else Inr t)
          else
            and_then (normalize_target target) (\<lambda>t.
              if source \<noteq> [] \<or> scheduled \<noteq> None
              then Inl (ValueError ''outreach task parameters are invalid'')
              else Inr t))"

definition post_init_task :: "autonomy_task \<Rightarrow> py_error + autonomy_task" where
  "post_init_task t =
     (let action = py_strip (task_action t);
          key = py_strip (task_key t);
          fingerprint = py_lower (py_strip (task_fingerprint t));
          target = py_strip (task_target t);
          source = py_strip (task_source t);
          instruction = py_strip (task_instruction t) in
      if action \<notin> set FIXED_ACCOUNT_ACTIONS
      then Inl (ValueError ''autonomy task action is unsupported'')
      else if \<not> (8 \<le> length key \<and> length key \<le> 160) \<or> (\<exists>c \<in> set key. c < 32)
      then Inl (ValueError ''autonomy task idempotency key is invalid'')
      else if task_policy_version t < 1 \<or> task_execution_version t < 1 \<or> task_runner_version t < 1
      then Inl (ValueError ''autonomy task versions must be positive'')
      else if \<not> hex_fingerprint fingerprint
      then Inl (ValueError ''autonomy task runner fingerprint is invalid'')
      else if attempt_count t < 0
      then Inl (ValueError ''autonomy task attempt count cannot be negative'')
      else if length source > 256 \<or> (\<exists>c \<in> set source. c < 32)
      then Inl (ValueError ''source message identity is invalid'')
      else if length instruction > 4000
      then Inl (ValueError ''generation instruction is too long'')
      else if action \<noteq> expected_action (task_type t)
      then Inl (ValueError ''autonomy task type and action do not match'')
      else
        and_then (task_parameters (task_type t) target source instruction (scheduled_for t))
          (\<lambda>target'.
            Inr (t\<lparr>task_action := action, task_key := key, task_target := target',
                  task_source := source, task_instruction := instruction,
                  task_fingerprint := fingerprint\<rparr>)))"

definition task_is_reclaimable :: "autonomy_task \<Rightarrow> instant \<Rightarrow> bool" where
  "task_is_reclaimable t now =
     (if task_status t \<notin> CLAIMABLE_TASK_STATUSES then False
      else if task_status t = QUEUED
      then (case task_not_before t of None \<Rightarrow> True | Some nb \<Rightarrow> nb \<le> now)
      else if task_status t = DEFERRED then some_and (task_not_before t) (\<lambda>nb. nb \<le> now)
      else some_and (lease_until t) (\<lambda>u. u \<le> now))"

section \<open>Fixed action command\<close>

record fixed_action_command =
  cmd_action :: pystr
  cmd_key :: pystr
  cmd_target :: pystr
  cmd_content :: pystr
  cmd_visibility :: pystr

definition post_init_command :: "fixed_action_command \<Rightarrow> py_error + fixed_action_command" where
  "post_init_command c =
     (let action = py_strip (cmd_action c);
          key = py_strip (cmd_key c);
          target = py_strip (cmd_target c);
          content = py_strip (cmd_content c);
          visibility = py_lower (py_strip (or_default (Some (cmd_visibility c)) (S ''public''))) in
      if action \<notin> set FIXED_ACCOUNT_ACTIONS
      then Inl (ValueError ''fixed action command is unsupported'')
      else if \<not> (8 \<le> length key \<and> length key \<le> 160)
      then Inl (ValueError ''fixed action idempotency key is invalid'')
      else
        and_then
          (if action \<in> {SEND_PRIVATE_MESSAGE, FOLLOW_USER, UNFOLLOW_USER, REQUEST_FRIEND_ACTION}
           then normalize_target target
           else if target \<noteq> []
           then Inl (ValueError ''this fixed action does not accept a target'')
           else Inr target)
          (\<lambda>target'.
            if action \<in> {SEND_PRIVATE_MESSAGE, PUBLISH_TEXT_POST, REQUEST_FRIEND_ACTION}
               \<and> (content = [] \<or> length content > 2000)
            then Inl (ValueError ''fixed action content is invalid'')
            else if action = REQUEST_FRIEND_ACTION \<and> length content > 200
            then Inl (ValueError ''friend request content is too long'')
            else if action \<notin> {SEND_PRIVATE_MESSAGE, PUBLISH_TEXT_POST, REQUEST_FRIEND_ACTION}
               \<and> content \<noteq> []
            then Inl (ValueError ''relationship action does not accept content'')
            else if visibility \<noteq> S ''public''
            then Inl (ValueError (if action = PUBLISH_TEXT_POST
                 then ''unattended posts are restricted to public text posts''
                 else ''non-post action does not accept visibility''))
            else Inr \<lparr>cmd_action = action, cmd_key = key, cmd_target = target',
                      cmd_content = content, cmd_visibility = visibility\<rparr>))"

section \<open>Reservation, result and completion\<close>

record dispatch_decision =
  dec_code :: decision_code
  permit_token :: pystr
  dec_retry_at :: "instant option"

definition post_init_decision :: "dispatch_decision \<Rightarrow> py_error + dispatch_decision" where
  "post_init_decision d =
     (if dec_code d = ALLOWED \<and> permit_token d = []
      then Inl (ValueError ''allowed dispatch decision requires a permit token'')
      else if dec_code d \<noteq> ALLOWED \<and> permit_token d \<noteq> []
      then Inl (ValueError ''denied dispatch decision cannot expose a permit token'')
      else Inr d)"

record dispatch_result =
  outcome :: action_outcome
  res_error_code :: pystr
  res_id :: pystr

definition post_init_result :: "dispatch_result \<Rightarrow> py_error + dispatch_result" where
  "post_init_result r =
     (let code = (if outcome r = OUT_SUCCEEDED then []
                  else py_lower (py_strip (res_error_code r))) in
      if outcome r \<noteq> OUT_SUCCEEDED \<and> \<not> stable_code code
      then Inl (ValueError ''failed fixed action requires a stable error code'')
      else Inr (r\<lparr>res_error_code := code, res_id := take 256 (res_id r)\<rparr>))"

record task_completion =
  comp_status :: task_status
  comp_error_code :: pystr
  comp_result_id :: pystr
  outcome_unknown :: bool
  count_failure :: bool
  reset_failures :: bool
  force_halt :: bool
  retryable :: bool
  refund_budget :: bool
  comp_retry_at :: "instant option"

text \<open>\<^verbatim>\<open>TaskCompletion(status=..., stable_error_code=...)\<close> with the defaults of the class.\<close>

definition completion :: "task_status \<Rightarrow> pystr \<Rightarrow> task_completion" where
  "completion st code =
     \<lparr>comp_status = st, comp_error_code = code, comp_result_id = [], outcome_unknown = False,
      count_failure = False, reset_failures = False, force_halt = False, retryable = False,
      refund_budget = False, comp_retry_at = None\<rparr>"

definition post_init_completion :: "task_completion \<Rightarrow> py_error + task_completion" where
  "post_init_completion c =
     (let code = py_lower (py_strip (comp_error_code c)) in
      if comp_status c \<notin> TERMINAL_TASK_STATUSES
      then Inl (ValueError ''task completion must use a terminal status'')
      else if comp_status c = SUCCEEDED
         \<and> (code \<noteq> [] \<or> outcome_unknown c \<or> count_failure c \<or> force_halt c \<or> retryable c
            \<or> refund_budget c \<or> comp_retry_at c \<noteq> None)
      then Inl (ValueError ''successful completion cannot contain failure state'')
      else if comp_status c \<noteq> SUCCEEDED \<and> \<not> stable_code code
      then Inl (ValueError ''non-success completion requires a stable error code'')
      else if outcome_unknown c \<and> comp_status c \<noteq> MANUAL_REVIEW
      then Inl (ValueError ''unknown outcomes require manual review'')
      else if comp_status c = MANUAL_REVIEW \<and> \<not> outcome_unknown c
      then Inl (ValueError ''manual review requires an unknown outcome'')
      else if outcome_unknown c \<and> \<not> count_failure c
      then Inl (ValueError ''unknown outcomes must count as failures'')
      else if outcome_unknown c \<and> \<not> force_halt c
      then Inl (ValueError ''unknown outcomes must halt unattended execution'')
      else if retryable c
         \<and> (comp_status c \<noteq> FAILED \<or> \<not> count_failure c \<or> outcome_unknown c \<or> force_halt c
            \<or> \<not> refund_budget c \<or> comp_retry_at c = None)
      then Inl (ValueError ''retryable failures must be known, counted and budget-refunded'')
      else if refund_budget c \<and> \<not> retryable c
      then Inl (ValueError ''budget refunds require a retryable failure'')
      else if comp_retry_at c \<noteq> None \<and> \<not> retryable c
      then Inl (ValueError ''retry timestamps require a retryable failure'')
      else Inr (c\<lparr>comp_error_code := code, comp_result_id := take 256 (comp_result_id c)\<rparr>))"

section \<open>Lemmas\<close>

lemma normalize_target_idem:
  "normalize_target v = Inr t \<Longrightarrow> normalize_target t = Inr t \<and> py_strip t = t \<and> t \<noteq> []"
  by (auto simp: normalize_target_def Let_def split: if_splits)

lemma fixed_actions_strip: "a \<in> set FIXED_ACCOUNT_ACTIONS \<Longrightarrow> py_strip a = a"
proof -
  have "\<forall>a \<in> set FIXED_ACCOUNT_ACTIONS. py_strip a = a"
    by (simp add: FIXED_ACCOUNT_ACTIONS_def S_def py_strip_def py_space_def)
  then show "a \<in> set FIXED_ACCOUNT_ACTIONS \<Longrightarrow> py_strip a = a" by blast
qed

lemma map_filter_cong: "\<forall>a \<in> set as. f a = g a \<Longrightarrow> List.map_filter f as = List.map_filter g as"
  by (induction as) (auto split: option.split)

lemma expected_action_fixed: "expected_action ty \<in> set FIXED_ACCOUNT_ACTIONS"
  by (cases ty) (simp_all add: FIXED_ACCOUNT_ACTIONS_def)

lemma normalize_actions_idem:
  assumes "normalize_actions vs = Inr as"
  shows "normalize_actions as = Inr as \<and> as \<subseteq> set FIXED_ACCOUNT_ACTIONS"
proof -
  have sub: "as \<subseteq> set FIXED_ACCOUNT_ACTIONS"
    using assms by (auto simp: normalize_actions_def Let_def split: if_splits)
  then have "py_strip ` as = as" using fixed_actions_strip by force
  with sub show ?thesis by (simp add: normalize_actions_def)
qed

lemma limits_loop_range:
  assumes "limits_loop n vs m = Inr m'" and "\<forall>a k. m a = Some k \<longrightarrow> 0 \<le> k \<and> k \<le> n"
  shows "\<forall>a k. m' a = Some k \<longrightarrow> 0 \<le> k \<and> k \<le> n"
  using assms
proof (induction vs arbitrary: m)
  case (Cons v vs)
  obtain a k where v: "v = (a, k)" by (cases v)
  from Cons.prems(1) have rec: "limits_loop n vs (m(py_strip a \<mapsto> k)) = Inr m'"
    and k: "0 \<le> k \<and> k \<le> n"
    by (auto simp: v Let_def split: if_splits)
  have "\<forall>b j. (m(py_strip a \<mapsto> k)) b = Some j \<longrightarrow> 0 \<le> j \<and> j \<le> n"
    using Cons.prems(2) k by auto
  then show ?case by (rule Cons.IH [OF rec])
qed simp

lemma limits_loop_normal:
  assumes "set as \<subseteq> set FIXED_ACCOUNT_ACTIONS" and "\<forall>(a, k) \<in> set (List.map_filter (\<lambda>a. map_option (Pair a) (m' a)) as). 0 \<le> k \<and> k \<le> n"
  shows "limits_loop n (List.map_filter (\<lambda>a. map_option (Pair a) (m' a)) as) m
    = Inr (\<lambda>a. if a \<in> set as \<and> m' a \<noteq> None then m' a else m a)"
  using assms
proof (induction as arbitrary: m)
  case Nil
  then show ?case by simp
next
  case (Cons a as)
  show ?case
  proof (cases "m' a")
    case None
    with Cons.IH [of m] Cons.prems show ?thesis by (auto simp: fun_eq_iff)
  next
    case (Some k)
    with Cons.prems have "a \<in> set FIXED_ACCOUNT_ACTIONS" "0 \<le> k" "k \<le> n" by auto
    moreover have "(\<lambda>b. if b \<in> set as \<and> m' b \<noteq> None then m' b else (m(a \<mapsto> k)) b)
        = (\<lambda>b. if b \<in> set (a # as) \<and> m' b \<noteq> None then m' b else m b)"
      using Some by auto
    moreover note Cons.IH [of "m(a \<mapsto> k)"]
    ultimately show ?thesis using Some Cons.prems
      by (simp add: Let_def fixed_actions_strip del: fun_upd_apply)
  qed
qed

lemma normalize_limits_idem:
  assumes "normalize_limits vs n = Inr ls"
  shows "normalize_limits ls n = Inr ls \<and> (\<forall>(a, k) \<in> set ls. a \<in> set FIXED_ACCOUNT_ACTIONS \<and> 0 \<le> k \<and> k \<le> n)"
proof -
  obtain m where m: "limits_loop n vs Map.empty = Inr m"
    and ls: "ls = List.map_filter (\<lambda>a. map_option (Pair a) (m a)) FIXED_ACCOUNT_ACTIONS"
    using assms by (auto simp: normalize_limits_def and_then_Inr_iff)
  have r: "\<forall>a k. m a = Some k \<longrightarrow> 0 \<le> k \<and> k \<le> n" by (rule limits_loop_range [OF m]) simp
  then have bounds: "\<forall>(a, k) \<in> set ls. a \<in> set FIXED_ACCOUNT_ACTIONS \<and> 0 \<le> k \<and> k \<le> n"
    by (auto simp: ls List.map_filter_def)
  have "limits_loop n ls Map.empty
      = Inr (\<lambda>a. if a \<in> set FIXED_ACCOUNT_ACTIONS \<and> m a \<noteq> None then m a else None)"
    using limits_loop_normal [of FIXED_ACCOUNT_ACTIONS m n Map.empty] bounds unfolding ls by fastforce
  moreover have "List.map_filter (\<lambda>a. map_option (Pair a)
      (if a \<in> set FIXED_ACCOUNT_ACTIONS \<and> m a \<noteq> None then m a else None)) FIXED_ACCOUNT_ACTIONS = ls"
    unfolding ls by (rule map_filter_cong) simp
  ultimately have "normalize_limits ls n = Inr ls" by (simp add: normalize_limits_def)
  with bounds show ?thesis by blast
qed

lemma map_ok_fixed: "\<forall>x \<in> set xs. f x = Inr x \<Longrightarrow> map_ok f xs = Inr xs"
  by (induction xs) auto

lemma map_ok_target_idem:
  assumes "map_ok normalize_target vs = Inr ts"
  shows "map_ok normalize_target ts = Inr ts \<and> (\<forall>t \<in> set ts. normalize_target t = Inr t)"
proof -
  have "\<forall>t \<in> set ts. normalize_target t = Inr t"
    using map_ok_Inr_all [OF assms] normalize_target_idem
    by (fastforce simp: list_all2_conv_all_nth in_set_conv_nth)
  then show ?thesis using map_ok_fixed by blast
qed

section \<open>Properties\<close>

text \<open>The checks depend on a policy only through fields that normalisation leaves alone.\<close>

lemma policy_checks_frame [frame_simps]:
  "policy_ranges kz (p\<lparr>selected_actions := a, target_allowlist := t, daily_action_limits := l,
     pol_fingerprint := f\<rparr>) = policy_ranges kz p"
  "policy_features (p\<lparr>selected_actions := a, target_allowlist := t, daily_action_limits := l,
     pol_fingerprint := f\<rparr>) as ts = policy_features p as ts"
  by (simp_all add: policy_ranges_def policy_features_def cong: if_cong split del: if_split)

lemma post_init_policy_cases:
  assumes "post_init_policy kz p = Inr q"
  obtains actions targets limits where
    "normalize_actions (selected_actions p) = Inr actions"
    "map_ok normalize_target (target_allowlist p) = Inr targets"
    "normalize_limits (daily_action_limits p) (daily_total_limit p) = Inr limits"
    "policy_ranges kz p = None" "policy_features p actions (set targets) = None"
    "hex_fingerprint (py_lower (py_strip (pol_fingerprint p)))"
    "1 \<le> pol_version p" "1 \<le> pol_execution_version p" "1 \<le> pol_runner_version p"
    "1 \<le> daily_total_limit p" "daily_total_limit p \<le> 1000"
    "q = p\<lparr>selected_actions := actions, target_allowlist := targets,
           daily_action_limits := limits, pol_fingerprint := py_lower (py_strip (pol_fingerprint p))\<rparr>"
  using assms
  by (auto simp: post_init_policy_def Let_def and_then_Inr_iff split: if_splits option.splits)


text \<open>A policy, a task and their parts used as concrete instances.\<close>

definition full_access :: autonomy_access where
  "full_access = \<lparr>account_active = True, runner_system_enabled = True, runner_admin_granted = True,
     runner_user_enabled = True, model_connection_ready = True,
     account_actions_system_enabled = True, account_actions_admin_granted = True,
     account_actions_user_enabled = True, private_message_auto_send_enabled = True,
     autonomy_system_enabled = True, autonomy_admin_granted = True\<rparr>"

definition sample_policy :: autonomy_policy where
  "sample_policy = \<lparr>pol_owner = 1, pol_account = 2, pol_version = 1, pol_execution_version = 1,
     pol_runner_version = 1, pol_model_connection = 3, pol_fingerprint = replicate 64 48,
     pol_access = full_access, user_enabled = True, auto_reply_enabled = True,
     scheduled_posts_enabled = False, relationship_actions_enabled = False,
     auto_reply_started_at = Some 0, discovery_enabled = False, text_match_enabled = False,
     proactive_message_enabled = False, follow_discovered_enabled = False,
     friend_request_enabled = False, selected_actions = {SEND_PRIVATE_MESSAGE},
     target_allowlist = [], daily_total_limit = 10, daily_action_limits = [],
     minimum_interval_seconds = 60, quiet_timezone = S ''UTC'', quiet_start_minute = None,
     quiet_end_minute = None, max_consecutive_failures = 3, consecutive_failures = 0,
     pol_halted = False, scheduled_post_max_lateness_seconds = 3600\<rparr>"

lemma py_strip_replicate_48: "py_strip (replicate n 48) = replicate n 48"
  by (simp add: py_strip_fixed_iff py_space_def) (cases n; simp)

lemma py_lower_replicate_48: "py_lower (replicate n 48) = replicate n 48"
  by (induction n) (simp_all add: lower_cp_def)

lemma hex_replicate_48: "hex_fingerprint (replicate 64 48)"
  by (simp add: hex_fingerprint_def S_def)

lemma sample_policy_ok: "post_init_policy (\<lambda>z. z = S ''UTC'') sample_policy = Inr sample_policy"
  by (simp add: post_init_policy_def sample_policy_def py_strip_replicate_48 py_lower_replicate_48
      hex_replicate_48 normalize_actions_def FIXED_ACCOUNT_ACTIONS_def fixed_actions_strip
      normalize_limits_def policy_ranges_def policy_features_def Let_def)


lemma task_parameters_idem:
  assumes "task_parameters ty target source instruction scheduled = Inr t"
    and "py_strip target = target"
  shows "task_parameters ty t source instruction scheduled = Inr t \<and> py_strip t = t"
  using assms normalize_target_idem
  by (cases ty) (auto simp: task_parameters_def and_then_Inr_iff split: if_splits)

lemma post_init_task_cases:
  assumes "post_init_task t = Inr u"
  obtains target where
    "py_strip (task_action t) = expected_action (task_type t)"
    "task_parameters (task_type t) (py_strip (task_target t)) (py_strip (task_source t))
       (py_strip (task_instruction t)) (scheduled_for t) = Inr target"
    "u = t\<lparr>task_action := py_strip (task_action t), task_key := py_strip (task_key t),
           task_target := target, task_source := py_strip (task_source t),
           task_instruction := py_strip (task_instruction t),
           task_fingerprint := py_lower (py_strip (task_fingerprint t))\<rparr>"
  using assms by (simp add: post_init_task_def Let_def and_then_Inr_iff split: if_splits) blast

lemma post_init_task_again:
  assumes "post_init_task t = Inr u"
    and "u = t\<lparr>task_action := py_strip (task_action t), task_key := py_strip (task_key t),
           task_target := target, task_source := py_strip (task_source t),
           task_instruction := py_strip (task_instruction t),
           task_fingerprint := py_lower (py_strip (task_fingerprint t))\<rparr>"
    and "task_parameters (task_type t) target (py_strip (task_source t))
      (py_strip (task_instruction t)) (scheduled_for t) = Inr target" and "py_strip target = target"
  shows "post_init_task u = Inr u"
  using assms(1) by (simp add: assms(2-4) post_init_task_def Let_def split: if_splits)

text \<open>A task that was constructed is in normal form: constructing it again changes nothing, its
  action is the one of its type, and it has exactly the parameters its type allows.  A task that
  addresses a user has one exact user identifier; a reply is bound to a source message; a
  scheduled post has a time and no addressee; a discovery task has no parameter at all.\<close>

theorem task_normal_form:
  assumes "post_init_task t = Inr u"
  shows "post_init_task u = Inr u
    \<and> task_action u = expected_action (task_type u)
    \<and> (task_type u \<notin> {SCHEDULED_POST, BROWSE_ONLINE, REQUEST_MATCH} \<longrightarrow>
         normalize_target (task_target u) = Inr (task_target u))
    \<and> (task_source u \<noteq> [] \<longleftrightarrow> task_type u = REPLY_TO_MESSAGE)
    \<and> (task_type u = SCHEDULED_POST \<longrightarrow> scheduled_for u \<noteq> None \<and> task_target u = [])
    \<and> (task_type u \<in> {BROWSE_ONLINE, REQUEST_MATCH} \<longrightarrow>
         task_target u = [] \<and> task_instruction u = [] \<and> scheduled_for u = None)"
proof -
  obtain target where act: "py_strip (task_action t) = expected_action (task_type t)"
    and par: "task_parameters (task_type t) (py_strip (task_target t)) (py_strip (task_source t))
       (py_strip (task_instruction t)) (scheduled_for t) = Inr target"
    and u: "u = t\<lparr>task_action := py_strip (task_action t), task_key := py_strip (task_key t),
           task_target := target, task_source := py_strip (task_source t),
           task_instruction := py_strip (task_instruction t),
           task_fingerprint := py_lower (py_strip (task_fingerprint t))\<rparr>"
    using assms by (rule post_init_task_cases)
  have p: "task_parameters (task_type t) target (py_strip (task_source t))
      (py_strip (task_instruction t)) (scheduled_for t) = Inr target \<and> py_strip target = target"
    by (rule task_parameters_idem [OF par]) simp
  have idem: "post_init_task u = Inr u"
    using p by (intro post_init_task_again [OF assms u]) blast+
  have shape: "(task_type t \<notin> {SCHEDULED_POST, BROWSE_ONLINE, REQUEST_MATCH} \<longrightarrow>
         normalize_target target = Inr target)
    \<and> (py_strip (task_source t) \<noteq> [] \<longleftrightarrow> task_type t = REPLY_TO_MESSAGE)
    \<and> (task_type t = SCHEDULED_POST \<longrightarrow> scheduled_for t \<noteq> None \<and> target = [])
    \<and> (task_type t \<in> {BROWSE_ONLINE, REQUEST_MATCH} \<longrightarrow>
         target = [] \<and> py_strip (task_instruction t) = [] \<and> scheduled_for t = None)"
    using p normalize_target_idem
    by (cases "task_type t") (auto simp: task_parameters_def and_then_Inr_iff split: if_splits)
  from idem shape act show ?thesis by (simp add: u)
qed

definition sample_task :: autonomy_task where
  "sample_task = \<lparr>task_id = 7, task_owner = 1, task_account = 2, task_type = REPLY_TO_MESSAGE,
     task_action = SEND_PRIVATE_MESSAGE, task_status = LEASED, task_key = S ''reply-0001'',
     task_policy_version = 1, task_execution_version = 1, task_runner_version = 1,
     task_model_connection = 3, task_fingerprint = replicate 64 48, task_target = S ''42'',
     task_source = S ''msgv2:1'', task_instruction = [], scheduled_for = None,
     task_not_before = None, attempt_count = 0, lease_token = S ''lease'', lease_until = Some 300\<rparr>"

lemma sample_task_ok: "post_init_task sample_task = Inr sample_task"
proof -
  have strip: "py_strip (S ''42'') = S ''42''" "py_strip (S ''msgv2:1'') = S ''msgv2:1''"
    "py_strip (S ''reply-0001'') = S ''reply-0001''"
    by (simp_all add: S_def py_strip_def py_space_def)
  have chars: "\<forall>c \<in> set (S ''msgv2:1''). \<not> c < 32" "\<forall>c \<in> set (S ''reply-0001''). \<not> c < 32"
    by (simp_all add: S_def)
  have n: "normalize_target (S ''42'') = Inr (S ''42'')"
    by (simp add: normalize_target_def S_def py_strip_def py_space_def)
  show ?thesis using chars
    by (simp add: post_init_task_def sample_task_def strip py_strip_replicate_48
        py_lower_replicate_48 hex_replicate_48 FIXED_ACCOUNT_ACTIONS_def fixed_actions_strip
        task_parameters_def n Let_def)
qed

theorem task_normal_form_witness:
  "normalize_target (task_target sample_task) = Inr (task_target sample_task)
   \<and> task_source sample_task \<noteq> []"
  using task_normal_form [OF sample_task_ok] by (simp add: sample_task_def)

lemma post_init_completion_cases:
  assumes "post_init_completion c = Inr d"
  shows "comp_status c \<in> TERMINAL_TASK_STATUSES"
    and "comp_status c = SUCCEEDED \<longrightarrow> py_lower (py_strip (comp_error_code c)) = []
      \<and> \<not> outcome_unknown c \<and> \<not> count_failure c \<and> \<not> force_halt c \<and> \<not> retryable c"
    and "comp_status c \<noteq> SUCCEEDED \<longrightarrow> stable_code (py_lower (py_strip (comp_error_code c)))"
    and "outcome_unknown c \<longleftrightarrow> comp_status c = MANUAL_REVIEW"
    and "outcome_unknown c \<longrightarrow> count_failure c"
    and "outcome_unknown c \<longrightarrow> force_halt c"
    and "retryable c \<longrightarrow> comp_status c = FAILED \<and> count_failure c"
    and "outcome_unknown c \<longrightarrow> \<not> retryable c"
    and "refund_budget c \<longleftrightarrow> retryable c"
    and "comp_retry_at c \<noteq> None \<longleftrightarrow> retryable c"
    and "d = c\<lparr>comp_error_code := py_lower (py_strip (comp_error_code c)),
      comp_result_id := take 256 (comp_result_id c)\<rparr>"
  using assms unfolding post_init_completion_def Let_def
  by (auto simp only: if_Inl_Inr_iff sum.inject)

lemma completion_idem: "post_init_completion c = Inr d \<Longrightarrow> post_init_completion d = Inr d"
proof -
  assume c: "post_init_completion c = Inr d"
  note g = post_init_completion_cases [OF c]
  show ?thesis
  proof (cases c)
    case (fields st code rid ou cf rf fh rt rb ra)
    note A = c [unfolded fields post_init_completion_def Let_def if_Inl_Inr_iff task_completion.simps]
    show ?thesis
      unfolding g(11) fields post_init_completion_def Let_def if_Inl_Inr_iff task_completion.simps
        py_strip_lower_strip py_lower_idem take_take min.idem
      using A by (elim conjE) (intro conjI; (assumption | rule refl))
  qed
qed

text \<open>The completions that can be recorded.  Manual review, an unknown outcome and a forced halt
  with a counted failure go together; a success carries no failure state; the budget is given back
  exactly for retryable failures, which are known, counted and have a retry time; and a completion
  in normal form stays the same.\<close>

theorem completion_normal_form:
  assumes "post_init_completion c = Inr d"
  shows "post_init_completion d = Inr d
    \<and> comp_status d \<in> TERMINAL_TASK_STATUSES
    \<and> (outcome_unknown d \<longleftrightarrow> comp_status d = MANUAL_REVIEW)
    \<and> (outcome_unknown d \<longrightarrow> count_failure d \<and> force_halt d \<and> \<not> retryable d)
    \<and> (comp_status d = SUCCEEDED \<longrightarrow> comp_error_code d = [] \<and> \<not> count_failure d \<and> \<not> force_halt d)
    \<and> (comp_status d \<noteq> SUCCEEDED \<longrightarrow> stable_code (comp_error_code d))
    \<and> (refund_budget d \<longleftrightarrow> retryable d) \<and> (comp_retry_at d \<noteq> None \<longleftrightarrow> retryable d)
    \<and> (retryable d \<longrightarrow> comp_status d = FAILED \<and> count_failure d)"
proof -
  note g = post_init_completion_cases [OF assms]
  have d: "d = c\<lparr>comp_error_code := py_lower (py_strip (comp_error_code c)),
      comp_result_id := take 256 (comp_result_id c)\<rparr>"
    by (rule g(11))
  have "post_init_completion d = Inr d" by (rule completion_idem [OF assms])
  moreover have "comp_status d = comp_status c" "outcome_unknown d = outcome_unknown c"
    "count_failure d = count_failure c" "force_halt d = force_halt c" "retryable d = retryable c"
    "refund_budget d = refund_budget c" "comp_retry_at d = comp_retry_at c"
    "comp_error_code d = py_lower (py_strip (comp_error_code c))"
    by (simp_all add: d)
  ultimately show ?thesis using g(1-10) by metis
qed

theorem completion_normal_form_witness:
  "\<exists>d. post_init_completion ((completion MANUAL_REVIEW (S ''x''))
        \<lparr>outcome_unknown := True, count_failure := True, force_halt := True\<rparr>) = Inr d \<and> force_halt d"
proof -
  have "py_lower (py_strip (S ''x'')) = S ''x''" "stable_code (S ''x'')"
    by (simp_all add: S_def py_strip_def py_space_def lower_cp_def stable_code_def low_alnum_def)
  then obtain d where d: "post_init_completion ((completion MANUAL_REVIEW (S ''x''))
        \<lparr>outcome_unknown := True, count_failure := True, force_halt := True\<rparr>) = Inr d"
    and "outcome_unknown d"
    by (simp add: post_init_completion_def completion_def TERMINAL_TASK_STATUSES_def)
  with completion_normal_form [OF d] show ?thesis by blast
qed

end
