(* ===== verification/Autonomy_Text.thy ===== *)
theory Autonomy_Text
  imports Autonomy_Types Py_Regex
begin

text \<open>
  The pure decisions of \<^verbatim>\<open>bbw_agent/autonomous.py\<close> on texts and times: message identities and
  idempotency keys, which inbound message may be answered and when, address terms, what the model may
  say, quiet hours.  Unicode normalisation, the general categories, SHA-256 and the time zone
  database are not part of the program: they are the parameters \<open>nfkc\<close>, \<open>category\<close>,
  \<open>sha256\<close> and the \<open>zone\<close> of a policy.  Chinese words are lists of code points.
\<close>

section \<open>Identities and keys\<close>

definition hex_digit :: "nat \<Rightarrow> nat" where
  "hex_digit n = (if n < 10 then 48 + n else 87 + n)"

text \<open>\<^verbatim>\<open>json.dumps(..., ensure_ascii=False)\<close> of a string and of the identity tuple.\<close>

definition json_char :: "nat \<Rightarrow> pystr" where
  "json_char c =
     (if c = 34 then [92, 34] else if c = 92 then [92, 92]
      else if c = 10 then [92, 110] else if c = 13 then [92, 114] else if c = 9 then [92, 116]
      else if c = 12 then [92, 102] else if c = 8 then [92, 98]
      else if c < 32 then [92, 117, 48, 48, hex_digit (c div 16), hex_digit (c mod 16)]
      else [c])"

definition json_string :: "pystr \<Rightarrow> pystr" where
  "json_string s = 34 # concat (map json_char s) @ [34]"

definition json_bool :: "bool \<Rightarrow> pystr" where
  "json_bool b = (if b then S ''true'' else S ''false'')"

definition message_payload :: "pystr \<Rightarrow> pystr \<Rightarrow> pystr \<Rightarrow> pystr \<Rightarrow> bool \<Rightarrow> pystr" where
  "message_payload stable_id direction message_type body revoked =
     91 # json_string stable_id @ 44 # json_string direction @ 44 # json_string message_type
       @ 44 # json_string body @ 44 # json_bool revoked @ [93]"

definition stable_message_id :: "pystr option \<Rightarrow> pystr option \<Rightarrow> pystr option \<Rightarrow> pystr" where
  "stable_message_id provider upstream canonical =
     (let c = py_strip (or_default canonical []) in
      if c \<noteq> [] then c
      else py_strip (or_default provider []) @ 58 # py_strip (or_default upstream []))"

definition autonomy_message_identity ::
  "(pystr \<Rightarrow> pystr) \<Rightarrow> pystr option \<Rightarrow> pystr option \<Rightarrow> pystr option \<Rightarrow> pystr option \<Rightarrow>
     pystr option \<Rightarrow> pystr option \<Rightarrow> bool \<Rightarrow> pystr" where
  "autonomy_message_identity sha256 provider upstream canonical direction message_type body revoked =
     S ''msgv2:'' @ sha256 (message_payload (stable_message_id provider upstream canonical)
       (py_lower (py_strip (or_default direction [])))
       (py_lower (py_strip (or_default message_type []))) (or_default body []) revoked)"

text \<open>The same with \<^verbatim>\<open>ensure_ascii=True\<close>, for the task key.\<close>

definition hex4 :: "nat \<Rightarrow> pystr" where
  "hex4 n = [92, 117, hex_digit (n div 4096 mod 16), hex_digit (n div 256 mod 16),
             hex_digit (n div 16 mod 16), hex_digit (n mod 16)]"

definition json_char_ascii :: "nat \<Rightarrow> pystr" where
  "json_char_ascii c =
     (if c \<in> {34, 92, 10, 13, 9, 12, 8} then json_char c
      else if 32 \<le> c \<and> c \<le> 126 then [c]
      else if c < 65536 then hex4 c
      else hex4 (55296 + (c - 65536) div 1024) @ hex4 (56320 + (c - 65536) mod 1024))"

definition json_string_ascii :: "pystr \<Rightarrow> pystr" where
  "json_string_ascii s = 34 # concat (map json_char_ascii s) @ [34]"

definition task_key_payload :: "pystr \<Rightarrow> pystr \<Rightarrow> task_type \<Rightarrow> pystr" where
  "task_key_payload owner source ty =
     123 # json_string_ascii (S ''owner_user_id'') @ 58 # json_string_ascii owner
     @ 44 # json_string_ascii (S ''source_identity'') @ 58 # json_string_ascii source
     @ 44 # json_string_ascii (S ''task_type'') @ 58 # json_string_ascii (task_type_value ty) @ [125]"

definition deterministic_task_key ::
  "(pystr \<Rightarrow> pystr) \<Rightarrow> (uuid \<Rightarrow> pystr) \<Rightarrow> uuid \<Rightarrow> task_type \<Rightarrow> pystr option \<Rightarrow> py_error + pystr" where
  "deterministic_task_key sha256 uuid_str owner ty source_identity =
     (let source = py_strip (or_default source_identity []) in
      if source = [] \<or> length source > 512 \<or> (\<exists>c \<in> set source. c < 32)
      then Inl (ValueError ''autonomy task source identity is invalid'')
      else Inr (S ''autonomy:'' @ task_type_value ty @ 58 # sha256 (task_key_payload (uuid_str owner) source ty)))"

definition action_key_payload :: "(uuid \<Rightarrow> pystr) \<Rightarrow> autonomy_task \<Rightarrow> pystr" where
  "action_key_payload uuid_str t = uuid_str (task_owner t) @ 58 # task_action t @ 58 # task_key t"

definition deterministic_action_key ::
  "(pystr \<Rightarrow> pystr) \<Rightarrow> (uuid \<Rightarrow> pystr) \<Rightarrow> autonomy_task \<Rightarrow> pystr" where
  "deterministic_action_key sha256 uuid_str t =
     S ''autonomous:'' @ sha256 (action_key_payload uuid_str t)"

section \<open>Eligible messages\<close>

definition SYSTEM_MESSAGE_MARKERS :: "pystr list" where
  "SYSTEM_MESSAGE_MARKERS =
    [[25105, 20204, 24050, 32463, 26159, 22909, 21451, 20102, 65292, 26469, 32842, 22825, 21543],
     [25105, 20204, 24050, 32463, 26159, 22909, 21451, 20102, 44, 26469, 32842, 22825, 21543],
     [20320, 20204, 24050, 32463, 26159, 22909, 21451, 20102, 65292, 26469, 32842, 22825, 21543],
     [20851, 27880, 20320, 20102, 44, 24555, 21435, 30475, 30475, 21543],
     [20851, 27880, 20320, 20102, 65292, 24555, 21435, 30475, 30475, 21543]]"

definition UNAVAILABLE_CONVERSATION_MARKERS :: "pystr list" where
  "UNAVAILABLE_CONVERSATION_MARKERS =
    [[24050, 27880, 38144], [24050, 23553, 31105], [27880, 38144, 25110, 23553, 31105]]"

definition TERMINAL_MESSAGE_TOKENS :: "pystr list" where
  "TERMINAL_MESSAGE_TOKENS =
    [S ''ok'', [19981, 23458, 27668], [21999], [21999, 21999], [21999, 21602], [21999, 21756],
     [21734], [22114], [22007], [22007, 22007], [22909], [22909, 21568], [22909, 21834],
     [22909, 21543], [22909, 30340], [22909, 21714], [22909, 21602], [22909, 28404],
     [22909, 22046], [34892], [34892, 21543], [21487, 20197], [25910, 21040],
     [30693, 36947, 20102], [27809, 20107], [27809, 20107, 30340], [35874, 35874],
     [35874, 35874, 21862], [35874, 35874, 21568], [35874, 35874, 20320], [35874, 21862],
     [35874, 20102], [26202, 23433], [21704, 21704], [21704, 21704, 21704],
     [21704, 21704, 21704, 21704], [22826, 36828, 20102], [19981, 24863, 20852, 36259],
     [19981, 24819, 32842], [19981, 32842, 20102], [21035, 32852, 31995],
     [19981, 35201, 32852, 31995], [19981, 29992, 32852, 31995], [19981, 25214, 20027],
     [26377, 20027, 20102], [24050, 26377, 20027], [19981, 25214, 20027, 26377, 20027, 20102]]"

definition RELATIONSHIP_ADDRESS_TERMS :: "pystr list" where
  "RELATIONSHIP_ADDRESS_TERMS =
    [[20146, 29233, 30340], [21487, 29233, 39740], [23567, 20667, 29399], [23567, 20667, 29916],
     [23567, 21487, 29233], [23567, 21733, 21733], [23567, 22992, 22992], [23567, 23453, 36125],
     [23567, 31528, 34507], [33261, 23453, 36125], [33261, 29399, 29399], [20054, 20054],
     [20054, 23453], [20146, 20146], [20667, 29399], [20667, 29916], [21733, 21733],
     [22969, 22969], [22992, 22992], [23453, 23453], [23453, 36125], [23567, 29482],
     [23869, 23869], [24351, 24351], [29399, 29399], [29482, 29482], [31528, 34507],
     [32769, 20844], [32769, 23110], [33261, 23453], [36145, 29399]]"

definition TUI_EMOJI_ONLY :: re where
  "TUI_EMOJI_ONLY =
     Plus (Cat (Star Space) (Cat (word (S ''[TUIEmoji_''))
       (Cat (Plus (Cls [(65, 90), (97, 122), (48, 57), (95, 95)]))
         (Cat (chr 93) (Star Space)))))"

definition normalized_message_text :: "(pystr \<Rightarrow> pystr) \<Rightarrow> pystr option \<Rightarrow> pystr" where
  "normalized_message_text nfkc v = py_strip (nfkc (or_default v []))"

text \<open>\<open>category c\<close> is the first letter of \<^verbatim>\<open>unicodedata.category(c)\<close>.\<close>

definition semantic_token :: "(pystr \<Rightarrow> pystr) \<Rightarrow> (nat \<Rightarrow> char) \<Rightarrow> pystr option \<Rightarrow> pystr" where
  "semantic_token nfkc category v =
     (let text = normalized_message_text nfkc v in
      if text = [] \<or> re_fullmatch (\<lambda>_. True) TUI_EMOJI_ONLY text then []
      else concat (map casefold_cp
             (filter (\<lambda>c. category c \<notin> {CHR ''C'', CHR ''P'', CHR ''S'', CHR ''Z''}) text)))"

definition py_isdecimal :: "pystr \<Rightarrow> bool" where
  "py_isdecimal s \<longleftrightarrow> s \<noteq> [] \<and> (\<forall>c \<in> set s. decimal_value c \<noteq> None)"

definition reply_message_is_eligible ::
  "(pystr \<Rightarrow> pystr) \<Rightarrow> (nat \<Rightarrow> char) \<Rightarrow> pystr option \<Rightarrow> pystr option \<Rightarrow> pystr option \<Rightarrow>
     pystr option \<Rightarrow> bool" where
  "reply_message_is_eligible nfkc category body sender_uid peer_uid conversation_title =
     (let text = normalized_message_text nfkc body;
          sender = py_strip (or_default sender_uid []);
          peer = py_strip (or_default peer_uid []);
          title = normalized_message_text nfkc conversation_title in
      if text = [] \<or> sender = S ''1'' \<or> peer = S ''1'' then False
      else if \<exists>m \<in> set UNAVAILABLE_CONVERSATION_MARKERS. py_contains m title then False
      else let compact = filter (\<lambda>c. \<not> py_space c) text in
        if \<exists>m \<in> set SYSTEM_MESSAGE_MARKERS. py_contains m compact then False
        else let token = semantic_token nfkc category (Some text) in
          if token = [] \<or> token \<in> set TERMINAL_MESSAGE_TOKENS then False
          else if py_isdecimal token then False
          else True)"

definition reply_message_is_fresh :: "instant \<Rightarrow> instant \<Rightarrow> instant option \<Rightarrow> int \<Rightarrow> bool" where
  "reply_message_is_fresh occurred now started_at max_age_seconds =
     (if some_and started_at (\<lambda>st. occurred < st) then False
      else let age = now - occurred in
        age \<ge> - seconds 300 \<and> age \<le> seconds (max 1 max_age_seconds))"

definition reply_not_before :: "instant \<Rightarrow> instant \<Rightarrow> int \<Rightarrow> py_error + instant" where
  "reply_not_before occurred now delay =
     (if \<not> (10 \<le> delay \<and> delay \<le> 300)
      then Inl (ValueError ''autonomy reply delay must be between 10 and 300 seconds'')
      else Inr (max now (occurred + seconds delay)))"

record conversation_head =
  peer_upstream_uid :: pystr
  head_identity :: pystr
  head_direction :: message_direction
  head_message_type :: pystr
  head_body :: pystr
  occurred_at :: instant
  revoked :: bool
  has_outgoing_after :: bool
  conversation_title :: pystr

definition is_unanswered_inbound ::
  "(pystr \<Rightarrow> pystr) \<Rightarrow> (nat \<Rightarrow> char) \<Rightarrow> conversation_head \<Rightarrow> pystr \<Rightarrow> instant option \<Rightarrow>
     instant option \<Rightarrow> bool" where
  "is_unanswered_inbound nfkc category h expected_identity now started_at \<longleftrightarrow>
     head_identity h = py_strip expected_identity
     \<and> head_direction h = INCOMING
     \<and> py_lower (py_strip (head_message_type h)) \<in> {S ''text'', S ''timtextelem''}
     \<and> py_strip (head_body h) \<noteq> []
     \<and> \<not> revoked h
     \<and> \<not> has_outgoing_after h
     \<and> reply_message_is_eligible nfkc category (Some (head_body h)) None
          (Some (peer_upstream_uid h)) (Some (conversation_title h))
     \<and> (case now of None \<Rightarrow> True
        | Some t \<Rightarrow> reply_message_is_fresh (occurred_at h) t started_at 7200)"

section \<open>Address terms\<close>

definition allowed_address_terms :: "(pystr \<Rightarrow> pystr) \<Rightarrow> pystr option list \<Rightarrow> int \<Rightarrow> pystr list" where
  "allowed_address_terms nfkc outgoing minimum_occurrences =
     (let minimum = max 2 minimum_occurrences;
          normalized = map (normalized_message_text nfkc) outgoing in
      filter (\<lambda>term. int (length (filter (py_contains term) normalized)) \<ge> minimum)
        RELATIONSHIP_ADDRESS_TERMS)"

definition unapproved_address_terms ::
  "(pystr \<Rightarrow> pystr) \<Rightarrow> pystr option \<Rightarrow> pystr option list \<Rightarrow> pystr list" where
  "unapproved_address_terms nfkc text allowed_terms =
     (let normalized = normalized_message_text nfkc text;
          allowed = (\<lambda>v. py_strip (or_default v [])) ` set allowed_terms in
      filter (\<lambda>term. py_contains term normalized \<and> term \<notin> allowed) RELATIONSHIP_ADDRESS_TERMS)"

section \<open>Generated text\<close>

definition AUTONOMOUS_LINK :: re where
  "AUTONOMOUS_LINK =
     Cat (Alt (Cat (ci_word (S ''http'')) (Cat (Opt (CiLit 115)) (word (S ''://''))))
              (Cat (ci_word (S ''www'')) (chr 46)))
       (Plus NonSpace)"

definition token_char :: re where
  "token_char = CiCls [(97, 122), (48, 57), (95, 95), (45, 45)]"

definition eight_or_more :: "re \<Rightarrow> re" where
  "eight_or_more r = Cat (Rep 8 8 r) (Star r)"

definition AUTONOMOUS_CREDENTIAL :: re where
  "AUTONOMOUS_CREDENTIAL =
     (let sep = Opt (Cls [(95, 95), (32, 32), (45, 45)]) in
      alts [Cat WordB (Cat (alts
              [Cat (ci_word (S ''api'')) (Cat sep (ci_word (S ''key''))),
               Cat (ci_word (S ''access'')) (Cat sep (ci_word (S ''token''))),
               ci_word (S ''bearer''), ci_word (S ''cookie''),
               Cat (ci_word (S ''session'')) (Cat sep (ci_word (S ''id'')))]) WordB),
            Cat WordB (Cat (ci_word (S ''sk'')) (Cat (chr 45) (Cat (eight_or_more token_char) WordB))),
            Cat WordB (Cat (ci_word (S ''eyj'')) (Cat (eight_or_more token_char)
              (Cat (chr 46) (Cat (eight_or_more token_char)
                (Cat (chr 46) (Cat (eight_or_more token_char) WordB))))))])"

definition AUTONOMOUS_EMAIL :: re where
  "AUTONOMOUS_EMAIL =
     (let an = CiCls [(97, 122), (48, 57)];
          label = Cat an (Opt (Cat (Rep 0 61 (CiCls [(97, 122), (48, 57), (45, 45)])) an)) in
      Cat WordB
        (Cat (Plus (CiCls ([(97, 122), (48, 57)] @ map (\<lambda>c. (c, c)) (S ''.!#$%&'' @ [39] @ S ''*+/=?^_`{|}~-''))))
          (Cat (chr 64) (Cat label (Cat (Plus (Cat (chr 46) label)) WordB)))))"

definition AUTONOMOUS_PHONE :: re where
  "AUTONOMOUS_PHONE =
     Cat NotBehindDigit
       (Cat (Opt (Cat (Opt (chr 43)) (Cat (word (S ''86'')) (Opt (Cls [(45, 45), (32, 32)])))))
         (Cat (chr 49) (Cat (Cls [(51, 57)]) (Cat (Rep 9 9 Digit) NotAheadDigit))))"

text \<open>The result is the text or the code of the \<^verbatim>\<open>AgentAutonomyModelError\<close>.\<close>

definition safe_generated_text :: "(nat \<Rightarrow> bool) \<Rightarrow> pystr option \<Rightarrow> pystr \<Rightarrow> pystr + pystr" where
  "safe_generated_text uw raw action =
     (let text = py_strip (or_default raw []) in
      if text = [] then Inl (S ''empty_generated_text'')
      else if length text > 2000 then Inl (S ''generated_text_too_long'')
      else if \<exists>c \<in> set text. c < 32 \<and> c \<notin> {10, 9}
      then Inl (S ''generated_content_control_character'')
      else if re_search uw AUTONOMOUS_LINK text then Inl (S ''generated_content_link_rejected'')
      else if re_search uw AUTONOMOUS_CREDENTIAL text
      then Inl (S ''generated_content_sensitive_rejected'')
      else if action = PUBLISH_TEXT_POST
         \<and> (re_search uw AUTONOMOUS_EMAIL text \<or> re_search uw AUTONOMOUS_PHONE text)
      then Inl (S ''generated_content_privacy_rejected'')
      else if action = REQUEST_FRIEND_ACTION \<and> length text > 200
      then Inl (S ''friend_request_text_too_long'')
      else Inr text)"

section \<open>Quiet hours\<close>

text \<open>
  A zone converts instants to wall clock readings and wall clock readings to instants (the first of
  the two, when a reading is ambiguous), both in microseconds.
\<close>

record zone =
  to_local :: "instant \<Rightarrow> int"
  from_local :: "int \<Rightarrow> instant"

abbreviation minutes :: "int \<Rightarrow> instant" where
  "minutes n \<equiv> n * 60000000"

definition local_minute :: "int \<Rightarrow> int" where
  "local_minute l = (l mod 86400000000) div 60000000"

definition local_date :: "int \<Rightarrow> int" where
  "local_date l = l div 86400000000"

definition quiet_window_end :: "(pystr \<Rightarrow> zone) \<Rightarrow> autonomy_policy \<Rightarrow> instant \<Rightarrow> instant option" where
  "quiet_window_end zones p now =
     (case (quiet_start_minute p, quiet_end_minute p) of
        (Some start, Some end) \<Rightarrow>
          (let z = zones (quiet_timezone p);
               l = to_local z now;
               minute = local_minute l;
               in_quiet = (if start < end then start \<le> minute \<and> minute < end
                           else minute \<ge> start \<or> minute < end);
               end_day = (if start < end then local_date l
                          else if minute \<ge> start then local_date l + 1 else local_date l) in
           if \<not> in_quiet then None
           else Some (from_local z (days end_day + minutes end)))
      | _ \<Rightarrow> None)"

definition policy_budget_day :: "(pystr \<Rightarrow> zone) \<Rightarrow> autonomy_policy \<Rightarrow> instant \<Rightarrow> int" where
  "policy_budget_day zones p now = local_date (to_local (zones (quiet_timezone p)) now)"

section \<open>JSON strings can be read back\<close>

lemma json_char_head: "\<exists>h t. json_char c = h # t \<and> h \<noteq> 34 \<and> (h = 92 \<or> t = [] \<and> h = c)"
  by (simp add: json_char_def)

text \<open>The first character of an encoded text, read back.\<close>

definition unhex :: "nat \<Rightarrow> nat" where
  "unhex d = (if d < 58 then d - 48 else d - 87)"

definition json_first :: "pystr \<Rightarrow> nat \<times> pystr" where
  "json_first s =
     (if hd s \<noteq> 92 then (hd s, tl s)
      else let e = hd (tl s) in
        if e = 117 then (16 * unhex (s ! 4) + unhex (s ! 5), drop 6 s)
        else (if e = 110 then 10 else if e = 114 then 13 else if e = 116 then 9
              else if e = 102 then 12 else if e = 98 then 8 else e, drop 2 s))"

lemma unhex_digit: "n < 16 \<Longrightarrow> unhex (hex_digit n) = n"
  by (auto simp: hex_digit_def unhex_def)

lemma json_first_char: "json_first (json_char c @ x) = (c, x)"
proof -
  consider "c \<in> {34, 92, 10, 13, 9, 12, 8}" | "c \<notin> {34, 92, 10, 13, 9, 12, 8}" "c < 32"
    | "c \<notin> {34, 92, 10, 13, 9, 12, 8}" "\<not> c < 32" by blast
  then show ?thesis
  proof cases
    case 1
    then have "c = 34 \<or> c = 92 \<or> c = 10 \<or> c = 13 \<or> c = 9 \<or> c = 12 \<or> c = 8" by simp
    then show ?thesis by (elim disjE) (simp_all add: json_char_def json_first_def)
  next
    case 2
    then have e: "json_char c = [92, 117, 48, 48, hex_digit (c div 16), hex_digit (c mod 16)]"
      by (simp add: json_char_def)
    have "unhex (hex_digit (c div 16)) = c div 16" "unhex (hex_digit (c mod 16)) = c mod 16"
      using 2 by (auto intro!: unhex_digit)
    moreover have "16 * (c div 16) + c mod 16 = c" by simp
    ultimately show ?thesis by (simp add: e json_first_def)
  next
    case 3
    then have "json_char c = [c]" by (simp add: json_char_def)
    with 3 show ?thesis by (simp add: json_first_def)
  qed
qed

lemma json_char_prefix: "json_char c @ x = json_char d @ y \<Longrightarrow> c = d \<and> x = y"
  by (metis json_first_char prod.inject)

lemma json_body_prefix:
  "concat (map json_char s) @ 34 # x = concat (map json_char t) @ 34 # y \<Longrightarrow> s = t \<and> x = y"
proof (induction s arbitrary: t)
  case Nil
  then show ?case
  proof (cases t)
    case (Cons d ds)
    with Nil json_char_head [of d] show ?thesis by auto
  qed simp
next
  case (Cons c cs)
  show ?case
  proof (cases t)
    case Nil
    with Cons.prems json_char_head [of c] show ?thesis by auto
  next
    case (Cons d ds)
    with Cons.prems have "json_char c @ (concat (map json_char cs) @ 34 # x)
        = json_char d @ (concat (map json_char ds) @ 34 # y)" by simp
    from json_char_prefix [OF this] Cons Cons.IH show ?thesis by blast
  qed
qed

lemma json_string_prefix: "json_string s @ x = json_string t @ y \<Longrightarrow> s = t \<and> x = y"
  using json_body_prefix [of s x t y] by (simp add: json_string_def)

text \<open>C32: The text that is hashed into a message identity determines everything the identity stands
  for: the stable message id, the direction, the type, the body and whether the message was revoked.
  Two messages that differ in one of them are hashed from different texts, whatever quotes, brackets
  or control characters their bodies contain.\<close>

theorem message_payload_injective:
  assumes "message_payload i d ty b r = message_payload i' d' ty' b' r'"
  shows "(i, d, ty, b, r) = (i', d', ty', b', r')"
proof -
  have "json_string i @ (44 # json_string d @ 44 # json_string ty @ 44 # json_string b @ 44 # json_bool r @ [93])
      = json_string i' @ (44 # json_string d' @ 44 # json_string ty' @ 44 # json_string b' @ 44 # json_bool r' @ [93])"
    using assms by (simp add: message_payload_def)
  from json_string_prefix [OF this] have i: "i = i'"
    and "json_string d @ (44 # json_string ty @ 44 # json_string b @ 44 # json_bool r @ [93])
      = json_string d' @ (44 # json_string ty' @ 44 # json_string b' @ 44 # json_bool r' @ [93])" by auto
  from json_string_prefix [OF this(2)] have d: "d = d'"
    and "json_string ty @ (44 # json_string b @ 44 # json_bool r @ [93])
      = json_string ty' @ (44 # json_string b' @ 44 # json_bool r' @ [93])" by auto
  from json_string_prefix [OF this(2)] have ty: "ty = ty'"
    and "json_string b @ (44 # json_bool r @ [93]) = json_string b' @ (44 # json_bool r' @ [93])" by auto
  from json_string_prefix [OF this(2)] have "b = b'" "json_bool r = json_bool r'" by auto
  moreover from this(2) have "r = r'" by (cases r; cases r') (simp_all add: json_bool_def)
  ultimately show ?thesis using i d ty by simp
qed

theorem message_payload_injective_witness:
  "message_payload (S ''a'') (S ''incoming'') (S ''text'') [34, 44, 34] False
   \<noteq> message_payload (S ''a'') (S ''incoming'') (S ''text'') [34, 44, 34] True"
proof
  assume "message_payload (S ''a'') (S ''incoming'') (S ''text'') [34, 44, 34] False
   = message_payload (S ''a'') (S ''incoming'') (S ''text'') [34, 44, 34] True"
  from message_payload_injective [OF this] show False by simp
qed

lemma split_at_colon:
  fixes a b x y :: pystr
  assumes "58 \<notin> set a" and "58 \<notin> set b" and "a @ 58 # x = b @ 58 # y"
  shows "a = b \<and> x = y"
proof -
  have t: "takeWhile (\<lambda>c. c \<noteq> 58) (u @ 58 # z) = u" if "58 \<notin> set u" for u z :: pystr
    using that by (induction u) auto
  have "a = b" using t [OF assms(1), of x] t [OF assms(2), of y] assms(3) by simp
  with assms(3) show ?thesis by simp
qed

lemma fixed_actions_no_colon: "a \<in> set FIXED_ACCOUNT_ACTIONS \<Longrightarrow> 58 \<notin> set a"
proof -
  have "\<forall>a \<in> set FIXED_ACCOUNT_ACTIONS. 58 \<notin> set a"
    by (simp add: FIXED_ACCOUNT_ACTIONS_def S_def)
  then show "a \<in> set FIXED_ACCOUNT_ACTIONS \<Longrightarrow> 58 \<notin> set a" by blast
qed

text \<open>Two constructed tasks whose hashed action keys are the same text have the same owner,
  action and idempotency key: no two different actions share an idempotency key by accident of the
  colon-separated format.  (The printed form of a UUID is injective and has no colon.)\<close>

theorem action_key_payload_injective:
  assumes "post_init_task t0 = Inr t" and "post_init_task u0 = Inr u"
    and "inj uuid_str" and "\<forall>i. 58 \<notin> set (uuid_str i)"
    and "action_key_payload uuid_str t = action_key_payload uuid_str u"
  shows "task_owner t = task_owner u \<and> task_action t = task_action u \<and> task_key t = task_key u"
proof -
  have fixed: "task_action v \<in> set FIXED_ACCOUNT_ACTIONS" if "post_init_task v0 = Inr v" for v0 v
    by (rule post_init_task_cases [OF that]) (simp add: expected_action_fixed)
  have o: "uuid_str (task_owner t) = uuid_str (task_owner u)"
    and rest: "task_action t @ 58 # task_key t = task_action u @ 58 # task_key u"
    using split_at_colon [of "uuid_str (task_owner t)" "uuid_str (task_owner u)"] assms(4,5)
    by (auto simp: action_key_payload_def)
  from split_at_colon [OF _ _ rest] fixed [OF assms(1)] fixed [OF assms(2)] fixed_actions_no_colon
  have "task_action t = task_action u \<and> task_key t = task_key u" by blast
  with o assms(3) show ?thesis by (simp add: inj_eq)
qed

text \<open>A printed form of numbers with these two properties.\<close>

definition unary :: "uuid \<Rightarrow> pystr" where
  "unary n = replicate n 49"

lemma unary_ok: "inj unary" "\<forall>i. 58 \<notin> set (unary i)"
proof -
  show "inj unary" by (rule injI) (metis length_replicate unary_def)
  show "\<forall>i. 58 \<notin> set (unary i)" by (simp add: unary_def)
qed

theorem action_key_payload_injective_witness:
  "task_owner sample_task = task_owner sample_task \<and> inj unary"
  using action_key_payload_injective [OF sample_task_ok sample_task_ok unary_ok refl] unary_ok
  by blast

section \<open>Quiet windows\<close>

definition fixed_offset_zone :: "int \<Rightarrow> zone" where
  "fixed_offset_zone off = \<lparr>to_local = (\<lambda>t. t + off), from_local = (\<lambda>l. l - off)\<rparr>"

text \<open>The wall clock at minute \<open>m\<close> of a day.\<close>

lemma wall_clock:
  fixes l :: int
  shows "l = days (local_date l) + minutes (local_minute l) + l mod 60000000"
    and "0 \<le> local_minute l \<and> local_minute l < 1440" and "0 \<le> l mod 60000000 \<and> l mod 60000000 < 60000000"
proof -
  have "l = days (l div 86400000000) + l mod 86400000000" by simp
  also have "l mod 86400000000 = minutes (local_minute l) + (l mod 86400000000) mod 60000000"
    by (simp add: local_minute_def)
  also have "(l mod 86400000000) mod 60000000 = l mod 60000000"
    by (rule mod_mod_cancel) simp
  finally show "l = days (local_date l) + minutes (local_minute l) + l mod 60000000"
    by (simp add: local_date_def)
  have "0 \<le> l mod 86400000000" "l mod 86400000000 < 86400000000" by simp_all
  then show "0 \<le> local_minute l \<and> local_minute l < 1440"
    unfolding local_minute_def by (auto simp: pos_imp_zdiv_nonneg_iff intro: zdiv_mono1)
  show "0 \<le> l mod 60000000 \<and> l mod 60000000 < 60000000" by simp
qed

lemma wall_clock_at:
  assumes "0 \<le> m" and "m < 1440"
  shows "local_minute (days d + minutes m) = m" "local_date (days d + minutes m) = d"
  using assms by (simp_all add: local_minute_def local_date_def)

lemma policy_quiet_ranges:
  assumes "policy_ranges kz p = None" and "quiet_start_minute p = Some a" and "quiet_end_minute p = Some b"
  shows "0 \<le> a \<and> a < 1440 \<and> 0 \<le> b \<and> b < 1440 \<and> a \<noteq> b"
  using assms by (auto simp: policy_ranges_def split: if_splits)

lemma quiet_window_at_end:
  assumes "zones (quiet_timezone p) = fixed_offset_zone off"
    and "quiet_start_minute p = Some a" and "quiet_end_minute p = Some b"
    and "0 \<le> b" "b < 1440" "a \<noteq> b" and "t = days d + minutes b - off"
  shows "quiet_window_end zones p t = None"
  using assms wall_clock_at [of b d] by (simp add: quiet_window_end_def fixed_offset_zone_def Let_def)

lemma quiet_window_bounds:
  assumes z: "zones (quiet_timezone p) = fixed_offset_zone off"
    and q: "quiet_start_minute p = Some a" "quiet_end_minute p = Some b"
    and r: "0 \<le> a" "a < 1440" "0 \<le> b" "b < 1440" "a \<noteq> b"
    and e: "quiet_window_end zones p now = Some t"
  shows "now < t \<and> t \<le> now + days 1 \<and> (\<exists>d. t = days d + minutes b - off)"
proof -
  define l where "l = now + off"
  define m where "m = local_minute l"
  have l: "l = days (local_date l) + minutes m + l mod 60000000" "0 \<le> m" "m < 1440"
    "0 \<le> l mod 60000000" "l mod 60000000 < 60000000"
    using wall_clock [of l] by (auto simp: m_def)
  show ?thesis
  proof (cases "a < b")
    case True
    with e z q have in_q: "a \<le> m" "m < b" and t: "t = days (local_date l) + minutes b - off"
      by (auto simp: quiet_window_end_def fixed_offset_zone_def Let_def l_def m_def split: if_splits)
    have "minutes (m + 1) \<le> minutes b" using in_q by simp
    with l t r in_q have "now < t" "t \<le> now + days 1" by (simp_all add: l_def [symmetric] algebra_simps) (use l_def in linarith)+
    with t show ?thesis by blast
  next
    case False
    with r have "b < a" by simp
    show ?thesis
    proof (cases "m \<ge> a")
      case True
      with e z q False have t: "t = days (local_date l + 1) + minutes b - off"
        by (auto simp: quiet_window_end_def fixed_offset_zone_def Let_def l_def m_def split: if_splits)
      have "minutes (b + 1) \<le> minutes m" "minutes (m + 1) \<le> minutes 1440" using \<open>b < a\<close> True l by simp_all
      with l t r have "now < t" "t \<le> now + days 1" by (simp_all add: algebra_simps) (use l_def in linarith)+
      with t show ?thesis by blast
    next
      case low: False
      with e z q False have "m < b" and t: "t = days (local_date l) + minutes b - off"
        by (auto simp: quiet_window_end_def fixed_offset_zone_def Let_def l_def m_def split: if_splits)
      then have "minutes (m + 1) \<le> minutes b" by simp
      with l t r have "now < t" "t \<le> now + days 1" by (simp_all add: algebra_simps) (use l_def in linarith)+
      with t show ?thesis by blast
    qed
  qed
qed

text \<open>C31: In a zone with a fixed offset, a task that falls into the quiet hours of a constructed
  policy is deferred to a moment later than now and at most one day away, at which the quiet hours
  are over, so it is not deferred for them again.\<close>

theorem quiet_window_end_correct:
  assumes "post_init_policy known_zone p0 = Inr p"
    and "zones (quiet_timezone p) = fixed_offset_zone off"
    and "quiet_window_end zones p now = Some t"
  shows "now < t \<and> t \<le> now + days 1 \<and> quiet_window_end zones p t = None"
proof -
  have ranges: "policy_ranges known_zone p = None"
    by (rule post_init_policy_cases [OF assms(1)]) (simp add: frame_simps)
  obtain a b where q: "quiet_start_minute p = Some a" "quiet_end_minute p = Some b"
    using assms(3) by (auto simp: quiet_window_end_def split: option.splits)
  note r = policy_quiet_ranges [OF ranges q]
  from quiet_window_bounds [OF assms(2) q _ _ _ _ _ assms(3)] r
  have w: "now < t \<and> t \<le> now + days 1 \<and> (\<exists>d. t = days d + minutes b - off)" by blast
  then obtain d where "t = days d + minutes b - off" by blast
  with quiet_window_at_end [of zones p off a b t d] assms(2) q r have "quiet_window_end zones p t = None" by blast
  with w show ?thesis by blast
qed

definition night_policy :: autonomy_policy where
  "night_policy = sample_policy\<lparr>quiet_start_minute := Some 1380, quiet_end_minute := Some 105\<rparr>"

lemma night_policy_ok: "post_init_policy (\<lambda>z. z = S ''UTC'') night_policy = Inr night_policy"
  by (simp add: night_policy_def post_init_policy_def sample_policy_def py_strip_replicate_48
      py_lower_replicate_48 hex_replicate_48 normalize_actions_def FIXED_ACCOUNT_ACTIONS_def
      fixed_actions_strip normalize_limits_def policy_ranges_def policy_features_def Let_def)

theorem quiet_window_end_correct_witness:
  "quiet_window_end (\<lambda>_. fixed_offset_zone 0) night_policy (minutes 1400) = Some (days 1 + minutes 105)
   \<and> minutes 1400 < days 1 + minutes 105"
proof -
  have e: "quiet_window_end (\<lambda>_. fixed_offset_zone 0) night_policy (minutes 1400) = Some (days 1 + minutes 105)"
    by (simp add: quiet_window_end_def night_policy_def fixed_offset_zone_def local_minute_def local_date_def)
  with quiet_window_end_correct [OF night_policy_ok _ e, of 0] show ?thesis by simp
qed

text \<open>
  A zone whose clock goes back by one hour at \<open>turn\<close>.  Readings of the repeated hour mean its
  first occurrence, as in \<^verbatim>\<open>datetime.combine\<close> with \<^verbatim>\<open>fold=0\<close>.
\<close>

definition autumn_zone :: "instant \<Rightarrow> zone" where
  "autumn_zone turn =
     \<lparr>to_local = (\<lambda>t. if t < turn then t + minutes 60 else t),
      from_local = (\<lambda>l. if l < turn + minutes 60 then l - minutes 60 else l)\<rparr>"

text \<open>A defect of the quiet hours.  When they end within the hour that a zone repeats, a task
  that is met in its second run is deferred to a moment that has already passed: quiet hours from
  23:00 to 01:45, met at the second 01:30, end at the first 01:45.\<close>

theorem quiet_window_end_in_the_past:
  "quiet_window_end (\<lambda>_. autumn_zone (minutes 60)) night_policy (minutes 90) = Some (minutes 45)"
  by (simp add: quiet_window_end_def night_policy_def sample_policy_def autumn_zone_def
      local_minute_def local_date_def)

end
