(* ===== verification/Orchestrator.thy ===== *)
theory Orchestrator
  imports Autonomy_Text
begin

text \<open>
  \<^verbatim>\<open>AgentAutonomyOrchestrator\<close> of \<^verbatim>\<open>bbw_agent/autonomous.py\<close>.  The store, the model
  runner, the dispatcher and the clock are objects the orchestrator is given; \<open>ports\<close> holds their
  methods as functions on a state \<open>'w\<close> of the world, which every call may change.  A model call
  returns a text or fails with an \<^verbatim>\<open>AgentAutonomyModelError\<close> or with another exception; a
  dispatcher call returns a result or raises.  The value objects are built with the checks of their
  constructors, so a constructor that raises shows up as an exception of \<^verbatim>\<open>run_once\<close>.
\<close>

section \<open>Collaborators\<close>

record dispatch_request =
  req_task_id :: uuid
  req_owner :: uuid
  req_account :: uuid
  req_lease_token :: pystr
  req_action :: pystr
  req_key :: pystr
  req_policy_version :: int
  req_execution_version :: int
  req_runner_version :: int
  req_model_connection :: uuid
  req_fingerprint :: pystr
  req_source :: pystr
  req_target :: pystr
  req_budget_day :: int
  req_total_limit :: int
  req_action_limit :: int
  req_minimum_interval :: int
  req_now :: instant

datatype generation_error = Model_error pystr | Other_error

record 'w ports =
  clock :: "'w \<Rightarrow> instant \<times> 'w"
  claim_next :: "pystr \<Rightarrow> instant \<Rightarrow> instant \<Rightarrow> 'w \<Rightarrow> autonomy_task option \<times> 'w"
  load_policy :: "uuid \<Rightarrow> 'w \<Rightarrow> autonomy_policy option \<times> 'w"
  load_conversation_head :: "uuid \<Rightarrow> pystr \<Rightarrow> 'w \<Rightarrow> conversation_head option \<times> 'w"
  begin_generation :: "uuid \<Rightarrow> pystr \<Rightarrow> instant \<Rightarrow> instant \<Rightarrow> 'w \<Rightarrow> bool \<times> 'w"
  renew_lease :: "uuid \<Rightarrow> pystr \<Rightarrow> instant \<Rightarrow> instant \<Rightarrow> 'w \<Rightarrow> bool \<times> 'w"
  begin_dispatch :: "dispatch_request \<Rightarrow> 'w \<Rightarrow> dispatch_decision \<times> 'w"
  defer_task :: "uuid \<Rightarrow> pystr \<Rightarrow> instant \<Rightarrow> pystr \<Rightarrow> instant \<Rightarrow> 'w \<Rightarrow> bool \<times> 'w"
  finish_task :: "uuid \<Rightarrow> pystr \<Rightarrow> task_completion \<Rightarrow> instant \<Rightarrow> 'w \<Rightarrow> bool \<times> 'w"
  generate_reply :: "autonomy_task \<Rightarrow> conversation_head \<Rightarrow> autonomy_policy \<Rightarrow> 'w \<Rightarrow>
    (generation_error + pystr option) \<times> 'w"
  generate_scheduled_post :: "autonomy_task \<Rightarrow> autonomy_policy \<Rightarrow> 'w \<Rightarrow>
    (generation_error + pystr option) \<times> 'w"
  generate_proactive_message :: "autonomy_task \<Rightarrow> autonomy_policy \<Rightarrow> 'w \<Rightarrow>
    (generation_error + pystr option) \<times> 'w"
  generate_friend_request :: "autonomy_task \<Rightarrow> autonomy_policy \<Rightarrow> 'w \<Rightarrow>
    (generation_error + pystr option) \<times> 'w"
  execute_fixed_action :: "fixed_action_command \<Rightarrow> pystr \<Rightarrow> 'w \<Rightarrow> (unit + dispatch_result) \<times> 'w"

text \<open>The library functions the pure decisions depend on, and the configured lease.\<close>

record env =
  nfkc :: "pystr \<Rightarrow> pystr"
  category :: "nat \<Rightarrow> char"
  unicode_word :: "nat \<Rightarrow> bool"
  sha256 :: "pystr \<Rightarrow> pystr"
  uuid_str :: "uuid \<Rightarrow> pystr"
  zones :: "pystr \<Rightarrow> zone"
  lease_seconds :: int

definition mk_orchestrator :: "env \<Rightarrow> py_error + env" where
  "mk_orchestrator e =
     (if \<not> (30 \<le> lease_seconds e \<and> lease_seconds e \<le> 1800)
      then Inl (ValueError ''autonomy task lease must be between 30 and 1800 seconds'')
      else Inr e)"

record run_result =
  rr_status :: pystr
  rr_code :: pystr
  rr_task :: "uuid option"

type_synonym outcome_of_run = "py_error + run_result"

text \<open>A stage of \<^verbatim>\<open>run_once\<close> returns from it (or raises), or goes on with a value.\<close>

datatype 'a stage = Stop outcome_of_run | Go 'a

section \<open>Recording the end of a task\<close>

definition finish_with :: "'w ports \<Rightarrow> autonomy_task \<Rightarrow> task_completion \<Rightarrow> instant \<Rightarrow> 'w \<Rightarrow> outcome_of_run \<times> 'w" where
  "finish_with P t c now w =
     (case post_init_completion c of
        Inl e \<Rightarrow> (Inl e, w)
      | Inr c \<Rightarrow>
          (let (finished, w) = finish_task P (task_id t) (lease_token t) c now w in
           (Inr \<lparr>rr_status = (if finished then task_status_value (comp_status c)
                              else S ''completion_not_recorded''),
                 rr_code = (if finished \<and> comp_error_code c \<noteq> [] then comp_error_code c
                            else if finished then S ''ok''
                            else S ''completion_not_recorded''),
                 rr_task = Some (task_id t)\<rparr>, w)))"

definition defer_until :: "'w ports \<Rightarrow> autonomy_task \<Rightarrow> instant \<Rightarrow> pystr \<Rightarrow> instant \<Rightarrow> 'w \<Rightarrow> outcome_of_run \<times> 'w" where
  "defer_until P t not_before code now w =
     (let (deferred, w) = defer_task P (task_id t) (lease_token t) not_before code now w in
      (Inr \<lparr>rr_status = (if deferred then S ''deferred'' else S ''lease_lost''),
            rr_code = (if deferred then code else S ''lease_lost_while_deferring''),
            rr_task = Some (task_id t)\<rparr>, w))"

definition finish_generation_failure ::
  "'w ports \<Rightarrow> autonomy_task \<Rightarrow> pystr \<Rightarrow> instant \<Rightarrow> 'w \<Rightarrow> outcome_of_run \<times> 'w" where
  "finish_generation_failure P t code now w =
     (let safe_skip = code \<in> {S ''inbound_message_stale'', S ''reply_contains_unapproved_address'',
                              S ''reply_not_needed''} in
      finish_with P t ((completion (if safe_skip then STALE else FAILED) code)
        \<lparr>count_failure := \<not> safe_skip\<rparr>) now w)"

text \<open>A stage that ended.\<close>

definition stop :: "outcome_of_run \<times> 'w \<Rightarrow> 'a stage \<times> 'w" where
  "stop r = (Stop (fst r), snd r)"

section \<open>Before anything happens\<close>

fun feature_enabled :: "autonomy_policy \<Rightarrow> task_type \<Rightarrow> bool" where
  "feature_enabled p REPLY_TO_MESSAGE = auto_reply_enabled p"
| "feature_enabled p SCHEDULED_POST = scheduled_posts_enabled p"
| "feature_enabled p FOLLOW_TARGET = relationship_actions_enabled p"
| "feature_enabled p UNFOLLOW_TARGET = relationship_actions_enabled p"
| "feature_enabled p BROWSE_ONLINE = discovery_enabled p"
| "feature_enabled p REQUEST_MATCH = text_match_enabled p"
| "feature_enabled p PROACTIVE_MESSAGE = proactive_message_enabled p"
| "feature_enabled p FOLLOW_DISCOVERED = follow_discovered_enabled p"
| "feature_enabled p REQUEST_FRIEND = friend_request_enabled p"

text \<open>The reasons for which a task is cancelled before it starts (lines 1927 to 2020).\<close>

definition preflight_denial :: "autonomy_task \<Rightarrow> autonomy_policy \<Rightarrow> pystr option" where
  "preflight_denial t p =
     (if \<not> access_available (pol_access p) \<or> \<not> user_enabled p then Some (S ''autonomy_access_revoked'')
      else if task_account t \<noteq> pol_account p \<or> task_policy_version t \<noteq> pol_version p
         \<or> task_execution_version t \<noteq> pol_execution_version p
         \<or> task_runner_version t \<noteq> pol_runner_version p
         \<or> task_model_connection t \<noteq> pol_model_connection p
         \<or> task_fingerprint t \<noteq> pol_fingerprint p
      then Some (S ''autonomy_policy_changed'')
      else if pol_halted p \<or> consecutive_failures p \<ge> max_consecutive_failures p
      then Some (S ''autonomy_halted'')
      else if task_action t \<notin> selected_actions p then Some (S ''autonomy_action_not_allowed'')
      else if \<not> feature_enabled p (task_type t) then Some (S ''autonomy_task_type_disabled'')
      else if task_type t \<in> {REPLY_TO_MESSAGE, PROACTIVE_MESSAGE}
         \<and> \<not> private_message_auto_send_enabled (pol_access p)
      then Some (S ''autonomy_auto_send_disabled'')
      else if task_type t \<in> {FOLLOW_TARGET, UNFOLLOW_TARGET}
         \<and> task_target t \<notin> set (target_allowlist p)
      then Some (S ''autonomy_target_not_allowlisted'')
      else None)"

definition preflight ::
  "'w ports \<Rightarrow> autonomy_task \<Rightarrow> autonomy_policy option \<Rightarrow> instant \<Rightarrow> 'w \<Rightarrow> autonomy_policy stage \<times> 'w" where
  "preflight P t policy now w =
     (case policy of
        None \<Rightarrow> stop (finish_with P t (completion CANCELLED (S ''autonomy_access_revoked'')) now w)
      | Some p \<Rightarrow>
          (case preflight_denial t p of
             Some code \<Rightarrow> stop (finish_with P t (completion CANCELLED code) now w)
           | None \<Rightarrow>
               if task_type t = SCHEDULED_POST then
                 (case scheduled_for t of
                    None \<Rightarrow> (Stop (Inl (AttributeError ''tzinfo'')), w)
                  | Some scheduled \<Rightarrow>
                      if scheduled > now
                      then stop (defer_until P t scheduled (S ''scheduled_time_not_reached'') now w)
                      else if now - scheduled > seconds (scheduled_post_max_lateness_seconds p)
                      then stop (finish_with P t (completion STALE (S ''scheduled_post_too_late'')) now w)
                      else (Go p, w))
               else (Go p, w)))"

section \<open>The conversation\<close>

text \<open>
  A reply needs its message to be the unanswered head of the conversation; a proactive message
  needs an empty conversation.  The same guard runs before and after the generation, with other
  error codes (lines 1639 to 1675 and 1754 to 1789).
\<close>

definition conversation_guard ::
  "env \<Rightarrow> 'w ports \<Rightarrow> autonomy_task \<Rightarrow> autonomy_policy \<Rightarrow> pystr \<Rightarrow> pystr \<Rightarrow> instant \<Rightarrow> 'w \<Rightarrow>
     conversation_head option stage \<times> 'w" where
  "conversation_guard E P t p stale_code sent_code now w =
     (if task_type t = REPLY_TO_MESSAGE then
        let (head, w) = load_conversation_head P (task_owner t) (task_target t) w in
        if \<not> some_and head (\<lambda>h. is_unanswered_inbound (nfkc E) (category E) h (task_source t)
                (Some now) (auto_reply_started_at p))
        then stop (finish_with P t (completion STALE stale_code) now w)
        else (Go head, w)
      else if task_type t = PROACTIVE_MESSAGE then
        let (head, w) = load_conversation_head P (task_owner t) (task_target t) w in
        (case head of
           Some h \<Rightarrow> stop (finish_with P t (completion STALE
             (if head_direction h = INCOMING then S ''inbound_message_requires_reply'' else sent_code)) now w)
         | None \<Rightarrow> (Go head, w))
      else (Go None, w))"

section \<open>Generation\<close>

definition generates :: "task_type \<Rightarrow> bool" where
  "generates ty \<longleftrightarrow> ty \<in> {REPLY_TO_MESSAGE, SCHEDULED_POST, PROACTIVE_MESSAGE, REQUEST_FRIEND}"

definition model_call ::
  "'w ports \<Rightarrow> autonomy_task \<Rightarrow> autonomy_policy \<Rightarrow> conversation_head option \<Rightarrow> 'w \<Rightarrow>
     (generation_error + pystr option) \<times> 'w" where
  "model_call P t p head w =
     (case task_type t of
        REPLY_TO_MESSAGE \<Rightarrow>
          (case head of None \<Rightarrow> (Inl Other_error, w) | Some h \<Rightarrow> generate_reply P t h p w)
      | SCHEDULED_POST \<Rightarrow> generate_scheduled_post P t p w
      | PROACTIVE_MESSAGE \<Rightarrow> generate_proactive_message P t p w
      | _ \<Rightarrow> generate_friend_request P t p w)"

text \<open>Lines 1684 to 1732: claim the generation, call the model, check what it wrote.\<close>

definition generation ::
  "env \<Rightarrow> 'w ports \<Rightarrow> autonomy_task \<Rightarrow> autonomy_policy \<Rightarrow> conversation_head option \<Rightarrow> instant \<Rightarrow>
     'w \<Rightarrow> pystr stage \<times> 'w" where
  "generation E P t p head now w =
     (let (began, w) = begin_generation P (task_id t) (lease_token t) now
                         (now + seconds (lease_seconds E)) w in
      if \<not> began
      then (Stop (Inr \<lparr>rr_status = S ''lease_lost'', rr_code = S ''lease_lost_before_generation'',
                      rr_task = Some (task_id t)\<rparr>), w)
      else
        let (generated, w) = model_call P t p head w in
        (case and_then generated (\<lambda>raw.
                case safe_generated_text (unicode_word E) raw (task_action t) of
                  Inl code \<Rightarrow> Inl (Model_error code) | Inr text \<Rightarrow> Inr text) of
           Inl (Model_error code) \<Rightarrow>
             (let (later, w) = clock P w in
              stop (finish_generation_failure P t (autonomy_error_code (Some code)) later w))
         | Inl Other_error \<Rightarrow>
             (let (later, w) = clock P w in
              stop (finish_generation_failure P t (S ''model_generation_failed'') later w))
         | Inr text \<Rightarrow> (Go text, w)))"

text \<open>Lines 1734 to 1802: after the generation, everything that time may have changed.\<close>

definition recheck ::
  "env \<Rightarrow> 'w ports \<Rightarrow> autonomy_task \<Rightarrow> autonomy_policy \<Rightarrow> 'w \<Rightarrow> instant stage \<times> 'w" where
  "recheck E P t p w =
     (let (now, w) = clock P w;
          (renewed, w) = renew_lease P (task_id t) (lease_token t) now
                           (now + seconds (lease_seconds E)) w in
      if \<not> renewed
      then (Stop (Inr \<lparr>rr_status = S ''lease_lost'', rr_code = S ''lease_lost_after_generation'',
                      rr_task = Some (task_id t)\<rparr>), w)
      else
        (case quiet_window_end (zones E) p now of
           Some quiet_end \<Rightarrow> stop (defer_until P t quiet_end (S ''quiet_hours'') now w)
         | None \<Rightarrow>
             (case conversation_guard E P t p (S ''inbound_message_changed_during_generation'')
                     (S ''proactive_message_changed_during_generation'') now w of
                (Stop r, w) \<Rightarrow> (Stop r, w)
              | (Go _, w) \<Rightarrow>
                  if task_type t = SCHEDULED_POST then
                    (case scheduled_for t of
                       None \<Rightarrow> (Stop (Inl (AttributeError ''tzinfo'')), w)
                     | Some scheduled \<Rightarrow>
                         if now - scheduled > seconds (scheduled_post_max_lateness_seconds p)
                         then stop (finish_with P t (completion STALE
                                (S ''scheduled_post_expired_during_generation'')) now w)
                         else (Go now, w))
                  else (Go now, w))))"

section \<open>Dispatch\<close>

definition action_command :: "env \<Rightarrow> autonomy_task \<Rightarrow> pystr \<Rightarrow> fixed_action_command" where
  "action_command E t content =
     \<lparr>cmd_action = task_action t, cmd_key = deterministic_action_key (sha256 E) (uuid_str E) t,
      cmd_target = task_target t, cmd_content = content, cmd_visibility = S ''public''\<rparr>"

definition reservation_request ::
  "env \<Rightarrow> autonomy_task \<Rightarrow> autonomy_policy \<Rightarrow> fixed_action_command \<Rightarrow> instant \<Rightarrow> dispatch_request" where
  "reservation_request E t p command now =
     \<lparr>req_task_id = task_id t, req_owner = task_owner t, req_account = task_account t,
      req_lease_token = lease_token t, req_action = task_action t, req_key = cmd_key command,
      req_policy_version = task_policy_version t,
      req_execution_version = task_execution_version t,
      req_runner_version = task_runner_version t,
      req_model_connection = task_model_connection t, req_fingerprint = task_fingerprint t,
      req_source = task_source t, req_target = task_target t,
      req_budget_day = policy_budget_day (zones E) p now,
      req_total_limit = daily_total_limit p,
      req_action_limit = action_daily_limit p (task_action t),
      req_minimum_interval = minimum_interval_seconds p, req_now = now\<rparr>"

definition handle_dispatch_denial ::
  "'w ports \<Rightarrow> autonomy_task \<Rightarrow> dispatch_decision \<Rightarrow> instant \<Rightarrow> 'w \<Rightarrow> unit stage \<times> 'w" where
  "handle_dispatch_denial P t d now w =
     (if dec_code d = ALLOWED then (Go (), w)
      else if dec_code d = LEASE_LOST
      then (Stop (Inr \<lparr>rr_status = S ''lease_lost'', rr_code = S ''lease_lost_before_dispatch'',
                      rr_task = Some (task_id t)\<rparr>), w)
      else if dec_code d = MINIMUM_INTERVAL
      then (case dec_retry_at d of
              None \<Rightarrow> stop (finish_with P t ((completion FAILED (S ''invalid_interval_decision''))
                        \<lparr>count_failure := True\<rparr>) now w)
            | Some retry_at \<Rightarrow> stop (defer_until P t retry_at (S ''minimum_interval'') now w))
      else stop (finish_with P t (completion (if dec_code d = SOURCE_STALE then STALE else CANCELLED)
             (S ''dispatch_'' @ decision_code_value (dec_code d))) now w))"

definition retryable_action_error_codes :: "pystr set" where
  "retryable_action_error_codes = {S ''external_discovery_unavailable''}"

text \<open>Lines 1844 to 1915: how the result of the action is recorded, under the permit token.\<close>

definition completion_of :: "unit + dispatch_result \<Rightarrow> instant \<Rightarrow> task_completion" where
  "completion_of r later =
     (let unknown = (\<lambda>code. (completion MANUAL_REVIEW code)
            \<lparr>outcome_unknown := True, count_failure := True, force_halt := True\<rparr>) in
      case r of
        Inl _ \<Rightarrow> unknown (S ''dispatch_outcome_unknown'')
      | Inr d \<Rightarrow>
          if outcome d = OUT_SUCCEEDED
          then (completion SUCCEEDED [])\<lparr>comp_result_id := res_id d, reset_failures := True\<rparr>
          else if outcome d = OUTCOME_UNKNOWN then unknown (res_error_code d)
          else if res_error_code d = S ''local_message_source_stale''
          then completion STALE (res_error_code d)
          else if res_error_code d \<in> retryable_action_error_codes
          then (completion FAILED (res_error_code d))
            \<lparr>count_failure := True, retryable := True, refund_budget := True,
             comp_retry_at := Some (later + seconds 300)\<rparr>
          else (completion FAILED (res_error_code d))\<lparr>count_failure := True\<rparr>)"

definition execute ::
  "'w ports \<Rightarrow> autonomy_task \<Rightarrow> fixed_action_command \<Rightarrow> pystr \<Rightarrow> 'w \<Rightarrow> outcome_of_run \<times> 'w" where
  "execute P t command permit w =
     (let (dispatched, w) = execute_fixed_action P command permit w;
          (later, w) = clock P w in
      finish_with P (t\<lparr>lease_token := permit\<rparr>) (completion_of dispatched later) later w)"

text \<open>Lines 1804 to 1842: command, reservation, and the decision.\<close>

definition dispatch ::
  "env \<Rightarrow> 'w ports \<Rightarrow> autonomy_task \<Rightarrow> autonomy_policy \<Rightarrow> pystr \<Rightarrow> instant \<Rightarrow> 'w \<Rightarrow> outcome_of_run \<times> 'w" where
  "dispatch E P t p content now w =
     (case post_init_command (action_command E t content) of
        Inl e \<Rightarrow> (Inl e, w)
      | Inr command \<Rightarrow>
          (let (d, w) = begin_dispatch P (reservation_request E t p command now) w in
           case handle_dispatch_denial P t d now w of
             (Stop r, w) \<Rightarrow> (r, w)
           | (Go _, w) \<Rightarrow> execute P t command (permit_token d) w))"

section \<open>One run\<close>

definition valid_worker :: "pystr \<Rightarrow> bool" where
  "valid_worker w \<longleftrightarrow> w \<noteq> [] \<and> length w \<le> 128 \<and> (\<forall>c \<in> set w. \<not> c < 33)"

text \<open>Lines 1639 to 1842, for a task that passed the preflight outside quiet hours.\<close>

definition perform ::
  "env \<Rightarrow> 'w ports \<Rightarrow> autonomy_task \<Rightarrow> autonomy_policy \<Rightarrow> instant \<Rightarrow> 'w \<Rightarrow> outcome_of_run \<times> 'w" where
  "perform E P t p now w =
     (case conversation_guard E P t p (S ''inbound_message_already_handled'')
             (S ''proactive_message_already_sent'') now w of
        (Stop r, w) \<Rightarrow> (r, w)
      | (Go head, w) \<Rightarrow>
          if \<not> generates (task_type t) then dispatch E P t p [] now w
          else
            (case generation E P t p head now w of
               (Stop r, w) \<Rightarrow> (r, w)
             | (Go content, w) \<Rightarrow>
                 (case recheck E P t p w of
                    (Stop r, w) \<Rightarrow> (r, w)
                  | (Go now, w) \<Rightarrow> dispatch E P t p content now w)))"

definition run_task :: "env \<Rightarrow> 'w ports \<Rightarrow> autonomy_task \<Rightarrow> instant \<Rightarrow> 'w \<Rightarrow> outcome_of_run \<times> 'w" where
  "run_task E P t now w =
     (if task_status t \<noteq> LEASED \<or> lease_token t = []
      then (Inr \<lparr>rr_status = S ''rejected'', rr_code = S ''invalid_claim'',
                 rr_task = Some (task_id t)\<rparr>, w)
      else if attempt_count t > 3
      then finish_with P t ((completion FAILED (S ''task_attempts_exhausted''))
             \<lparr>count_failure := True\<rparr>) now w
      else
        let (policy, w) = load_policy P (task_owner t) w in
        (case preflight P t policy now w of
           (Stop r, w) \<Rightarrow> (r, w)
         | (Go p, w) \<Rightarrow>
             (case quiet_window_end (zones E) p now of
                Some quiet_end \<Rightarrow> defer_until P t quiet_end (S ''quiet_hours'') now w
              | None \<Rightarrow> perform E P t p now w)))"

definition run_once :: "env \<Rightarrow> 'w ports \<Rightarrow> pystr option \<Rightarrow> 'w \<Rightarrow> outcome_of_run \<times> 'w" where
  "run_once E P worker_id w =
     (let worker = py_strip (or_default worker_id []) in
      if \<not> valid_worker worker
      then (Inl (ValueError ''autonomy worker identifier is invalid''), w)
      else
        let (now, w) = clock P w;
            (task, w) = claim_next P worker now (now + seconds (lease_seconds E)) w in
        case task of
          None \<Rightarrow> (Inr \<lparr>rr_status = S ''idle'', rr_code = S ''no_due_task'', rr_task = None\<rparr>, w)
        | Some t \<Rightarrow> run_task E P t now w)"

end
