(* ===== verification/Run_Protocol.thy ===== *)
theory Run_Protocol
  imports Orchestrator
begin

text \<open>
  What one run of the orchestrator does to its collaborators.  \<open>traced\<close> wraps the collaborators
  so that every call that matters is logged; the orchestrator itself is the one of the theory
  Orchestrator, run on the wrapped collaborators.  \<open>constructed\<close> says that the objects the
  collaborators return were built by the constructors of their classes, which is the only way to
  build them.
\<close>

section \<open>Logging the calls\<close>

datatype call =
    Claimed "autonomy_task option"
  | Policy "autonomy_policy option"
  | Head "conversation_head option"
  | Generating bool
  | Generated
  | Renewed bool
  | Reserved dispatch_request dispatch_decision
  | Executed fixed_action_command pystr "unit + dispatch_result"
  | Deferred uuid pystr instant
  | Finished uuid pystr task_completion

definition logged :: "('w \<Rightarrow> 'a \<times> 'w) \<Rightarrow> ('a \<Rightarrow> call list) \<Rightarrow> 'w \<times> call list \<Rightarrow> 'a \<times> ('w \<times> call list)" where
  "logged f ev s = (let (x, w) = f (fst s) in (x, (w, snd s @ ev x)))"

definition traced :: "'w ports \<Rightarrow> ('w \<times> call list) ports" where
  "traced P =
     \<lparr>clock = logged (clock P) (\<lambda>_. []),
      claim_next = (\<lambda>a b c. logged (claim_next P a b c) (\<lambda>t. [Claimed t])),
      load_policy = (\<lambda>a. logged (load_policy P a) (\<lambda>p. [Policy p])),
      load_conversation_head = (\<lambda>a b. logged (load_conversation_head P a b) (\<lambda>h. [Head h])),
      begin_generation = (\<lambda>a b c d. logged (begin_generation P a b c d) (\<lambda>x. [Generating x])),
      renew_lease = (\<lambda>a b c d. logged (renew_lease P a b c d) (\<lambda>x. [Renewed x])),
      begin_dispatch = (\<lambda>r. logged (begin_dispatch P r) (\<lambda>d. [Reserved r d])),
      defer_task = (\<lambda>i k nb code now. logged (defer_task P i k nb code now) (\<lambda>_. [Deferred i k nb])),
      finish_task = (\<lambda>i k c now. logged (finish_task P i k c now) (\<lambda>_. [Finished i k c])),
      generate_reply = (\<lambda>t h p. logged (generate_reply P t h p) (\<lambda>_. [Generated])),
      generate_scheduled_post = (\<lambda>t p. logged (generate_scheduled_post P t p) (\<lambda>_. [Generated])),
      generate_proactive_message = (\<lambda>t p. logged (generate_proactive_message P t p) (\<lambda>_. [Generated])),
      generate_friend_request = (\<lambda>t p. logged (generate_friend_request P t p) (\<lambda>_. [Generated])),
      execute_fixed_action = (\<lambda>c k. logged (execute_fixed_action P c k) (\<lambda>r. [Executed c k r]))\<rparr>"

definition constructed :: "'w ports \<Rightarrow> bool" where
  "constructed P \<longleftrightarrow>
     (\<forall>a b c w t w'. claim_next P a b c w = (Some t, w') \<longrightarrow> post_init_task t = Inr t)
     \<and> (\<forall>r w d w'. begin_dispatch P r w = (d, w') \<longrightarrow> post_init_decision d = Inr d)
     \<and> (\<forall>c k w r w'. execute_fixed_action P c k w = (Inr r, w') \<longrightarrow> post_init_result r = Inr r)"

text \<open>\<^verbatim>\<open>hashlib.sha256(...).hexdigest()\<close> is 64 hexadecimal digits.\<close>

definition hex_digest :: "(pystr \<Rightarrow> pystr) \<Rightarrow> bool" where
  "hex_digest h \<longleftrightarrow> (\<forall>x. hex_fingerprint (h x))"

definition silent :: "call \<Rightarrow> bool" where
  "silent e \<longleftrightarrow> (case e of Claimed _ \<Rightarrow> True | Policy _ \<Rightarrow> True | Head _ \<Rightarrow> True | Generating _ \<Rightarrow> True
     | Generated \<Rightarrow> True | Renewed _ \<Rightarrow> True | _ \<Rightarrow> False)"

lemma silent_simps [simp]:
  "silent (Claimed t)" "silent (Policy p)" "silent (Head h)" "silent (Generating b)"
  "silent Generated" "silent (Renewed b)" "\<not> silent (Reserved r d)" "\<not> silent (Executed c k x)"
  "\<not> silent (Deferred i k nb)" "\<not> silent (Finished i k cc)"
  by (simp_all add: silent_def)

text \<open>The calls that end the unattended handling of a task under its own lease.\<close>

fun ends_task :: "autonomy_task \<Rightarrow> call \<Rightarrow> bool" where
  "ends_task t (Deferred i k nb) = (i = task_id t \<and> k = lease_token t)"
| "ends_task t (Finished i k c) = (i = task_id t \<and> k = lease_token t \<and> post_init_completion c = Inr c)"
| "ends_task t _ = False"

section \<open>The stages on the traced collaborators\<close>

lemma logged_eq: "logged f ev s = (x, s') \<longleftrightarrow> (\<exists>w. f (fst s) = (x, w) \<and> s' = (w, snd s @ ev x))"
  by (auto simp: logged_def split: prod.splits)

lemma finish_traced:
  assumes "finish_with (traced P) t c now s = (r, s')" and "post_init_completion c = Inr c'"
  shows "snd s' = snd s @ [Finished (task_id t) (lease_token t) c'] \<and> is_ok r"
  using assms by (auto simp: finish_with_def traced_def logged_eq split: prod.splits)

lemma defer_traced:
  assumes "defer_until (traced P) t nb code now s = (r, s')"
  shows "snd s' = snd s @ [Deferred (task_id t) (lease_token t) nb] \<and> is_ok r"
  using assms by (auto simp: defer_until_def traced_def logged_eq split: prod.splits)

text \<open>A stage that stops after one call that ends the task.\<close>

definition ended :: "autonomy_task \<Rightarrow> 'w \<times> call list \<Rightarrow> outcome_of_run \<Rightarrow> 'w \<times> call list \<Rightarrow> bool" where
  "ended t s r s' \<longleftrightarrow> (\<exists>e. snd s' = snd s @ [e] \<and> ends_task t e) \<and> is_ok r"

lemma finish_ended:
  assumes "finish_with (traced P) t c now s = (r, s')" and "post_init_completion c = Inr c'"
  shows "ended t s r s'"
  using finish_traced [OF assms] completion_idem [OF assms(2)] by (auto simp: ended_def)

lemma defer_ended: "defer_until (traced P) t nb code now s = (r, s') \<Longrightarrow> ended t s r s'"
  using defer_traced by (fastforce simp: ended_def)

subsection \<open>Completions that are always valid\<close>

lemma stable_code_normal: "stable_code c \<Longrightarrow> py_lower (py_strip c) = c"
proof -
  assume s: "stable_code c"
  then obtain a as where c: "c = a # as" by (auto simp: stable_code_def split: list.splits)
  have chars: "\<forall>x \<in> set c. low_alnum x \<or> x = 95 \<or> x = 46 \<or> x = 45"
    using s by (auto simp: stable_code_def c)
  then have "\<forall>x \<in> set c. \<not> py_space x" by (auto simp: low_alnum_def py_space_def)
  with c have "py_strip c = c" by (simp add: py_strip_fixed_iff)
  moreover have "py_lower c = c"
    using chars by (induction c) (auto simp: lower_cp_def low_alnum_def)
  ultimately show ?thesis by simp
qed

lemma completion_plain:
  assumes "st \<in> {FAILED, CANCELLED, STALE}" and "stable_code code"
  shows "post_init_completion ((completion st code)\<lparr>count_failure := b\<rparr>)
       = Inr ((completion st code)\<lparr>count_failure := b\<rparr>)"
    and "post_init_completion (completion st code) = Inr (completion st code)"
  using assms by (auto simp: post_init_completion_def completion_def TERMINAL_TASK_STATUSES_def
      stable_code_normal Let_def)

lemma stable_codes [simp]:
  "stable_code (S ''autonomy_access_revoked'')" "stable_code (S ''autonomy_policy_changed'')"
  "stable_code (S ''autonomy_halted'')" "stable_code (S ''autonomy_action_not_allowed'')"
  "stable_code (S ''autonomy_task_type_disabled'')" "stable_code (S ''autonomy_auto_send_disabled'')"
  "stable_code (S ''autonomy_target_not_allowlisted'')" "stable_code (S ''scheduled_post_too_late'')"
  "stable_code (S ''inbound_message_already_handled'')" "stable_code (S ''proactive_message_already_sent'')"
  "stable_code (S ''inbound_message_requires_reply'')"
  "stable_code (S ''inbound_message_changed_during_generation'')"
  "stable_code (S ''proactive_message_changed_during_generation'')"
  "stable_code (S ''scheduled_post_expired_during_generation'')" "stable_code (S ''autonomy_error'')"
  "stable_code (S ''model_generation_failed'')" "stable_code (S ''invalid_interval_decision'')"
  "stable_code (S ''task_attempts_exhausted'')" "stable_code (S ''dispatch_outcome_unknown'')"
  "stable_code (S ''local_message_source_stale'')" "stable_code (S ''external_discovery_unavailable'')"
  by (simp_all add: stable_code_def low_alnum_def S_def)

lemma stable_dispatch_code: "stable_code (S ''dispatch_'' @ decision_code_value d)"
  by (cases d) (simp_all add: stable_code_def low_alnum_def S_def)

lemma autonomy_error_code_stable [simp]: "stable_code (autonomy_error_code c)"
  by (simp add: autonomy_error_code_def Let_def)

lemma preflight_denial_stable: "preflight_denial t p = Some code \<Longrightarrow> stable_code code"
  by (auto simp: preflight_denial_def split: if_splits)

lemma generation_failure_ended:
  assumes "finish_generation_failure (traced P) t code now s = (r, s')" and "stable_code code"
  shows "ended t s r s'"
  using assms(1) unfolding finish_generation_failure_def Let_def
  by (rule finish_ended) (rule completion_plain(1), use assms(2) in auto)

subsection \<open>One lemma per stage\<close>

lemma stop_eq: "stop x = (r, s') \<longleftrightarrow> (\<exists>y. x = (y, s') \<and> r = Stop y)"
  by (cases x) (auto simp: stop_def)

lemma preflight_traced:
  assumes "preflight (traced P) t policy now s = (r, s')" and "post_init_task t = Inr t"
  shows "case r of
      Stop x \<Rightarrow> ended t s x s'
    | Go p \<Rightarrow> s' = s \<and> policy = Some p \<and> preflight_denial t p = None"
proof (cases policy)
  case None
  with assms(1) obtain x where f: "finish_with (traced P) t (completion CANCELLED
      (S ''autonomy_access_revoked'')) now s = (x, s')" and r: "r = Stop x"
    by (auto simp: preflight_def stop_eq)
  have "ended t s x s'" by (rule finish_ended [OF f completion_plain(2)]) simp_all
  with r show ?thesis by simp
next
  case (Some p)
  show ?thesis
  proof (cases "preflight_denial t p")
    case None
    have sch: "scheduled_for t \<noteq> None" if "task_type t = SCHEDULED_POST"
      using that by (rule_tac post_init_task_cases [OF assms(2)]) (auto simp: task_parameters_def split: if_splits)
    show ?thesis
    proof (cases "task_type t = SCHEDULED_POST")
      case True
      with sch obtain at where at: "scheduled_for t = Some at" by blast
      have late: "ended t s x s'"
        if "finish_with (traced P) t (completion STALE (S ''scheduled_post_too_late'')) now s = (x, s')" for x
        by (rule finish_ended [OF that completion_plain(2)]) simp_all
      have early: "ended t s x s'"
        if "defer_until (traced P) t at (S ''scheduled_time_not_reached'') now s = (x, s')" for x
        using that by (rule defer_ended)
      show ?thesis
        using assms(1) Some None True at late early
        by (auto simp: preflight_def stop_eq split: if_splits)
    next
      case False
      with assms(1) Some None show ?thesis by (auto simp: preflight_def)
    qed
  next
    case (Some code)
    with assms(1) \<open>policy = Some p\<close> obtain x where
      f: "finish_with (traced P) t (completion CANCELLED code) now s = (x, s')" and r: "r = Stop x"
      by (auto simp: preflight_def stop_eq)
    have "ended t s x s'"
      by (rule finish_ended [OF f completion_plain(2)]) (simp_all add: preflight_denial_stable [OF Some])
    with r show ?thesis by simp
  qed
qed

text \<open>What the conversation guard has established when it lets a task through.\<close>

definition head_ok :: "env \<Rightarrow> autonomy_task \<Rightarrow> autonomy_policy \<Rightarrow> instant \<Rightarrow> call list \<Rightarrow> bool" where
  "head_ok E t p now evs \<longleftrightarrow>
     (if task_type t = REPLY_TO_MESSAGE then
        \<exists>h. evs = [Head (Some h)] \<and> is_unanswered_inbound (nfkc E) (category E) h (task_source t)
              (Some now) (auto_reply_started_at p)
      else if task_type t = PROACTIVE_MESSAGE then evs = [Head None]
      else evs = [])"

text \<open>A stage that logs silent calls and then stops.\<close>

definition stopped :: "autonomy_task \<Rightarrow> 'w \<times> call list \<Rightarrow> outcome_of_run \<Rightarrow> 'w \<times> call list \<Rightarrow> bool" where
  "stopped t s r s' \<longleftrightarrow> is_ok r \<and>
     (\<exists>evs last. snd s' = snd s @ evs @ last \<and> list_all silent evs
        \<and> (last = [] \<or> (\<exists>e. last = [e] \<and> ends_task t e)))"

lemma ended_stopped:
  assumes "ended t s1 r s'" and "snd s1 = snd s @ evs" and "list_all silent evs"
  shows "stopped t s r s'"
  using assms by (auto simp: ended_def stopped_def)

lemma stopped_later:
  assumes "stopped t s1 r s'" and "snd s1 = snd s @ evs" and "list_all silent evs"
  shows "stopped t s r s'"
proof -
  obtain evs' last where l: "snd s' = snd s1 @ evs' @ last" "list_all silent evs'"
    "last = [] \<or> (\<exists>e. last = [e] \<and> ends_task t e)" and ok: "is_ok r"
    using assms(1) by (auto simp: stopped_def)
  then show ?thesis
    unfolding stopped_def using assms(2,3)
    by (intro conjI ok exI [of _ "evs @ evs'"] exI [of _ last]) auto
qed

lemma stopped_silently:
  assumes "is_ok r" and "snd s' = snd s @ evs" and "list_all silent evs"
  shows "stopped t s r s'"
  unfolding stopped_def using assms by (intro conjI exI [of _ evs] exI [of _ "[]"]) auto

lemma guard_traced:
  assumes "conversation_guard E (traced P) t p stale_code sent_code now s = (r, s')"
    and "stable_code stale_code" and "stable_code sent_code"
  shows "case r of
      Stop x \<Rightarrow> stopped t s x s'
    | Go head \<Rightarrow> (\<exists>evs. snd s' = snd s @ evs \<and> head_ok E t p now evs)"
proof -
  obtain head w where h: "load_conversation_head P (task_owner t) (task_target t) (fst s) = (head, w)"
    by fastforce
  let ?s1 = "(w, snd s @ [Head head])"
  have load: "load_conversation_head (traced P) (task_owner t) (task_target t) s = (head, ?s1)"
    by (simp add: traced_def logged_def h)
  have fin: "stopped t s x s'"
    if "finish_with (traced P) t (completion STALE code) now ?s1 = (x, s')" and "stable_code code" for x code
    using finish_ended [OF that(1) completion_plain(2)] that(2)
    by (intro ended_stopped [of t ?s1 x s' s "[Head head]"]) simp_all
  consider (reply) "task_type t = REPLY_TO_MESSAGE" | (proactive) "task_type t = PROACTIVE_MESSAGE"
    | (other) "task_type t \<noteq> REPLY_TO_MESSAGE" "task_type t \<noteq> PROACTIVE_MESSAGE" by blast
  then show ?thesis
  proof cases
    case reply
    with assms(1) load fin [OF _ assms(2)] show ?thesis
      by (cases head) (auto simp: conversation_guard_def stop_eq head_ok_def split: if_splits)
  next
    case proactive
    with assms(1) load fin assms(3) show ?thesis
      by (cases head) (auto simp: conversation_guard_def stop_eq head_ok_def split: if_splits)
  next
    case other
    with assms(1) show ?thesis by (auto simp: conversation_guard_def head_ok_def)
  qed
qed

lemma model_call_traced:
  assumes "model_call (traced P) t p head s = (g, s')"
  shows "\<exists>evs. snd s' = snd s @ evs \<and> list_all silent evs \<and> (is_ok g \<longrightarrow> evs = [Generated])"
  using assms
  by (cases "task_type t"; cases head)
    (auto simp: model_call_def traced_def logged_eq)

lemma clock_traced: "clock (traced P) s = (x, s') \<Longrightarrow> snd s' = snd s"
  by (auto simp: traced_def logged_eq)

lemma generation_traced:
  assumes "generation E (traced P) t p head now s = (r, s')"
  shows "case r of
      Stop x \<Rightarrow> stopped t s x s'
    | Go content \<Rightarrow> snd s' = snd s @ [Generating True, Generated]
        \<and> (\<exists>raw. safe_generated_text (unicode_word E) raw (task_action t) = Inr content)"
proof -
  obtain began w where b: "begin_generation P (task_id t) (lease_token t) now
      (now + seconds (lease_seconds E)) (fst s) = (began, w)" by fastforce
  let ?s1 = "(w, snd s @ [Generating began])"
  have bt: "begin_generation (traced P) (task_id t) (lease_token t) now
      (now + seconds (lease_seconds E)) s = (began, ?s1)"
    by (simp add: traced_def logged_def b)
  obtain g s2 where m: "model_call (traced P) t p head ?s1 = (g, s2)" by (metis surj_pair)
  from model_call_traced [OF m] obtain evs where evs: "snd s2 = snd s @ Generating began # evs"
    "list_all silent evs" "is_ok g \<longrightarrow> evs = [Generated]" by auto
  have fail: "stopped t s x s'"
    if "finish_generation_failure (traced P) t code later s3 = (x, s')" "clock (traced P) s2 = (later, s3)"
      "stable_code code" for x code later s3
  proof -
    have "ended t s3 x s'" by (rule generation_failure_ended [OF that(1,3)])
    then show ?thesis
      using clock_traced [OF that(2)] evs
      by (intro ended_stopped [of t s3 x s' s "Generating began # evs"]) simp_all
  qed
  show ?thesis
  proof (cases began)
    case False
    with assms bt show ?thesis
      by (auto simp: generation_def intro!: stopped_silently [of _ _ s "[Generating False]"])
  next
    case True
    show ?thesis
    proof (cases g)
      case (Inl e)
      with assms bt m True fail show ?thesis
        by (cases e; cases "clock (traced P) s2") (auto simp: generation_def stop_eq)
    next
      case (Inr raw)
      show ?thesis
      proof (cases "safe_generated_text (unicode_word E) raw (task_action t)")
        case (Inl code)
        with assms bt m True fail Inr show ?thesis
          by (cases "clock (traced P) s2") (auto simp: generation_def stop_eq)
      next
        case ok: (Inr content)
        with assms bt m True Inr have r: "r = Go content" "s' = s2" by (auto simp: generation_def)
        with evs Inr ok True show ?thesis by auto
      qed
    qed
  qed
qed

lemma recheck_traced:
  assumes "recheck E (traced P) t p s = (r, s')" and "post_init_task t = Inr t"
  shows "case r of
      Stop x \<Rightarrow> stopped t s x s'
    | Go now \<Rightarrow> quiet_window_end (zones E) p now = None
        \<and> (\<exists>evs. snd s' = snd s @ Renewed True # evs \<and> head_ok E t p now evs)
        \<and> (task_type t = SCHEDULED_POST \<longrightarrow>
             some_and (scheduled_for t) (\<lambda>at. now - at \<le> seconds (scheduled_post_max_lateness_seconds p)))"
proof -
  obtain now s1 where c: "clock (traced P) s = (now, s1)" by (metis surj_pair)
  have s1: "snd s1 = snd s" by (rule clock_traced [OF c])
  obtain renewed w where b: "renew_lease P (task_id t) (lease_token t) now
      (now + seconds (lease_seconds E)) (fst s1) = (renewed, w)" by fastforce
  let ?s2 = "(w, snd s @ [Renewed renewed])"
  have bt: "renew_lease (traced P) (task_id t) (lease_token t) now
      (now + seconds (lease_seconds E)) s1 = (renewed, ?s2)"
    by (simp add: traced_def logged_def b s1)
  have sch: "scheduled_for t \<noteq> None" if "task_type t = SCHEDULED_POST"
    using that by (rule_tac post_init_task_cases [OF assms(2)]) (auto simp: task_parameters_def split: if_splits)
  have quiet: "stopped t s x s'" if "defer_until (traced P) t at (S ''quiet_hours'') now ?s2 = (x, s')" for x at
    by (rule ended_stopped [OF defer_ended [OF that], of s "[Renewed renewed]"]) simp_all
  obtain g s3 where g: "conversation_guard E (traced P) t p (S ''inbound_message_changed_during_generation'')
      (S ''proactive_message_changed_during_generation'') now ?s2 = (g, s3)" by (metis surj_pair)
  note guard = guard_traced [OF g]
  show ?thesis
  proof (cases "renewed \<and> quiet_window_end (zones E) p now = None")
    case False
    show ?thesis
    proof (cases renewed)
      case True
      with False obtain at where "quiet_window_end (zones E) p now = Some at" by auto
      with True assms(1) c bt quiet show ?thesis by (auto simp: recheck_def stop_eq)
    next
      case lost: False
      with assms(1) c bt show ?thesis
        by (auto simp: recheck_def intro!: stopped_silently [of _ _ s "[Renewed False]"])
    qed
  next
    case go: True
    show ?thesis
    proof (cases g)
      case (Stop x)
      with assms(1) c bt g go have "r = Stop x" "s' = s3" by (auto simp: recheck_def)
      with guard Stop show ?thesis
        by (auto intro!: stopped_later [of t ?s2 x s3 s "[Renewed renewed]"])
    next
      case (Go head)
      with guard obtain evs where evs: "snd s3 = snd s @ Renewed renewed # evs" "head_ok E t p now evs"
        by auto
      have late: "stopped t s x s'" if "finish_with (traced P) t (completion STALE
          (S ''scheduled_post_expired_during_generation'')) now s3 = (x, s')"
          "task_type t = SCHEDULED_POST" for x
      proof (rule ended_stopped)
        show "ended t s3 x s'" by (rule finish_ended [OF that(1) completion_plain(2)]) simp_all
        show "snd s3 = snd s @ Renewed renewed # evs" by (rule evs(1))
        show "list_all silent (Renewed renewed # evs)" using evs(2) that(2) by (simp add: head_ok_def)
      qed
      show ?thesis
      proof (cases "task_type t = SCHEDULED_POST")
        case True
        with sch obtain at where "scheduled_for t = Some at" by blast
        with assms(1) c bt g go Go True late evs show ?thesis
          by (auto simp: recheck_def stop_eq split: if_splits)
      next
        case False
        with assms(1) c bt g go Go have "r = Go now" "s' = s3" by (auto simp: recheck_def)
        with evs go False show ?thesis by auto
      qed
    qed
  qed
qed

subsection \<open>Dispatch\<close>

lemma task_facts:
  assumes "post_init_task t = Inr t"
  shows "task_action t = expected_action (task_type t)"
    and "task_type t \<notin> {SCHEDULED_POST, BROWSE_ONLINE, REQUEST_MATCH}
      \<Longrightarrow> normalize_target (task_target t) = Inr (task_target t)"
    and "task_type t \<in> {SCHEDULED_POST, BROWSE_ONLINE, REQUEST_MATCH} \<Longrightarrow> task_target t = []"
proof -
  obtain target where act: "py_strip (task_action t) = expected_action (task_type t)"
    and par: "task_parameters (task_type t) (py_strip (task_target t)) (py_strip (task_source t))
       (py_strip (task_instruction t)) (scheduled_for t) = Inr target"
    and t: "t = t\<lparr>task_action := py_strip (task_action t), task_key := py_strip (task_key t),
           task_target := target, task_source := py_strip (task_source t),
           task_instruction := py_strip (task_instruction t),
           task_fingerprint := py_lower (py_strip (task_fingerprint t))\<rparr>"
    using assms by (rule post_init_task_cases)
  from arg_cong [OF t, of task_action] act show "task_action t = expected_action (task_type t)" by simp
  from arg_cong [OF t, of task_target] have tt: "task_target t = target" by simp
  have p: "task_parameters (task_type t) target (py_strip (task_source t))
      (py_strip (task_instruction t)) (scheduled_for t) = Inr target"
    using task_parameters_idem [OF par] by simp
  show "normalize_target (task_target t) = Inr (task_target t)"
    if "task_type t \<notin> {SCHEDULED_POST, BROWSE_ONLINE, REQUEST_MATCH}"
    using p that by (cases "task_type t") (auto simp: task_parameters_def and_then_Inr_iff tt split: if_splits)
  show "task_target t = []" if "task_type t \<in> {SCHEDULED_POST, BROWSE_ONLINE, REQUEST_MATCH}"
    using p that by (cases "task_type t") (auto simp: task_parameters_def tt split: if_splits)
qed

lemma safe_text_facts:
  assumes "safe_generated_text uw raw action = Inr content"
  shows "py_strip content = content" "content \<noteq> []" "length content \<le> 2000"
    "\<not> re_search uw AUTONOMOUS_LINK content" "\<not> re_search uw AUTONOMOUS_CREDENTIAL content"
    "action = PUBLISH_TEXT_POST \<Longrightarrow>
       \<not> re_search uw AUTONOMOUS_EMAIL content \<and> \<not> re_search uw AUTONOMOUS_PHONE content"
    "action = REQUEST_FRIEND_ACTION \<Longrightarrow> length content \<le> 200"
  using assms by (auto simp: safe_generated_text_def Let_def split: if_splits)

text \<open>The content a command carries when it is reached.\<close>

definition content_ok :: "env \<Rightarrow> autonomy_task \<Rightarrow> pystr \<Rightarrow> bool" where
  "content_ok E t content \<longleftrightarrow>
     (if generates (task_type t)
      then \<exists>raw. safe_generated_text (unicode_word E) raw (task_action t) = Inr content
      else content = [])"

lemma action_key_valid:
  assumes "hex_digest (sha256 E)"
  shows "py_strip (deterministic_action_key (sha256 E) (uuid_str E) t)
       = deterministic_action_key (sha256 E) (uuid_str E) t"
    and "length (deterministic_action_key (sha256 E) (uuid_str E) t) = 75"
proof -
  define h where "h = sha256 E (action_key_payload (uuid_str E) t)"
  have len: "length h = 64" and hex: "\<forall>c \<in> set h. c \<in> set (S ''0123456789abcdef'')"
    using assms by (auto simp: hex_digest_def hex_fingerprint_def h_def)
  have "\<forall>c \<in> set (S ''0123456789abcdef''). \<not> py_space c" by (simp add: S_def py_space_def)
  moreover have ne: "h \<noteq> []" using len by auto
  moreover have "last h \<in> set h" using ne by simp
  ultimately have "\<not> py_space (last h)" using hex by blast
  moreover have "\<not> py_space (hd (S ''autonomous:''))" by (simp add: S_def py_space_def)
  ultimately show "py_strip (deterministic_action_key (sha256 E) (uuid_str E) t)
       = deterministic_action_key (sha256 E) (uuid_str E) t"
    using ne by (simp add: deterministic_action_key_def py_strip_fixed_iff h_def [symmetric] hd_append)
  show "length (deterministic_action_key (sha256 E) (uuid_str E) t) = 75"
    using len by (simp add: deterministic_action_key_def h_def)
qed

lemma public_normal: "py_lower (py_strip (S ''public'')) = S ''public''"
  by (simp add: S_def py_strip_def py_space_def lower_cp_def)

lemma content_facts:
  assumes "content_ok E t content"
  shows "py_strip content = content" "length content \<le> 2000"
    "generates (task_type t) \<Longrightarrow> content \<noteq> []" "\<not> generates (task_type t) \<Longrightarrow> content = []"
    "task_action t = REQUEST_FRIEND_ACTION \<Longrightarrow> length content \<le> 200"
proof -
  have gen: "py_strip content = content \<and> length content \<le> 2000 \<and> content \<noteq> []
      \<and> (task_action t = REQUEST_FRIEND_ACTION \<longrightarrow> length content \<le> 200)" if "generates (task_type t)"
  proof -
    from that assms obtain raw where
      r: "safe_generated_text (unicode_word E) raw (task_action t) = Inr content"
      by (auto simp: content_ok_def)
    from safe_text_facts(1,2,3,7) [OF r] show ?thesis by blast
  qed
  have none: "content = []" if "\<not> generates (task_type t)"
    using that assms by (simp add: content_ok_def)
  show "py_strip content = content" "length content \<le> 2000"
    "generates (task_type t) \<Longrightarrow> content \<noteq> []" "\<not> generates (task_type t) \<Longrightarrow> content = []"
    "task_action t = REQUEST_FRIEND_ACTION \<Longrightarrow> length content \<le> 200"
    using gen none by (cases "generates (task_type t)"; simp)+
qed

lemma action_command_valid:
  assumes task: "post_init_task t = Inr t" and hex: "hex_digest (sha256 E)"
    and content: "content_ok E t content"
  shows "post_init_command (action_command E t content) = Inr (action_command E t content)"
proof -
  note f = task_facts [OF task]
  note k = action_key_valid [OF hex, of t]
  have a: "py_strip (expected_action (task_type t)) = expected_action (task_type t)"
    by (rule fixed_actions_strip [OF expected_action_fixed])
  have c: "py_strip content = content" "length content \<le> 2000"
    "generates (task_type t) \<Longrightarrow> content \<noteq> []" "\<not> generates (task_type t) \<Longrightarrow> content = []"
    "task_type t = REQUEST_FRIEND \<Longrightarrow> length content \<le> 200"
    using content_facts [OF content] f(1) by auto
  show ?thesis
  proof (cases "task_type t \<in> {SCHEDULED_POST, BROWSE_ONLINE, REQUEST_MATCH}")
    case True
    with f(3) c k a show ?thesis
      by (auto simp: post_init_command_def action_command_def f(1) public_normal Let_def
          FIXED_ACCOUNT_ACTIONS_def generates_def)
  next
    case False
    with normalize_target_idem [OF f(2)] have t: "normalize_target (task_target t) = Inr (task_target t)"
      "py_strip (task_target t) = task_target t" by auto
    from False c k a t show ?thesis
      by (cases "task_type t") (auto simp: post_init_command_def action_command_def f(1) public_normal
          Let_def FIXED_ACCOUNT_ACTIONS_def generates_def)
  qed
qed

lemma result_facts:
  assumes "post_init_result d = Inr d"
  shows "outcome d = OUT_SUCCEEDED \<Longrightarrow> res_error_code d = []"
    and "outcome d \<noteq> OUT_SUCCEEDED \<Longrightarrow> stable_code (res_error_code d)"
    and "take 256 (res_id d) = res_id d"
proof -
  have d: "d = d\<lparr>res_error_code := (if outcome d = OUT_SUCCEEDED then [] else py_lower (py_strip (res_error_code d))),
      res_id := take 256 (res_id d)\<rparr>"
    and s: "outcome d \<noteq> OUT_SUCCEEDED \<longrightarrow> stable_code (py_lower (py_strip (res_error_code d)))"
    using assms by (auto simp: post_init_result_def Let_def split: if_splits)
  from arg_cong [OF d, of res_error_code] arg_cong [OF d, of res_id] s
  show "outcome d = OUT_SUCCEEDED \<Longrightarrow> res_error_code d = []"
    and "outcome d \<noteq> OUT_SUCCEEDED \<Longrightarrow> stable_code (res_error_code d)"
    and "take 256 (res_id d) = res_id d" by simp_all
qed

lemma completion_of_valid:
  assumes "\<forall>d. r = Inr d \<longrightarrow> post_init_result d = Inr d"
  shows "post_init_completion (completion_of r later) = Inr (completion_of r later)"
proof (cases r)
  case (Inl u)
  then show ?thesis
    by (simp add: completion_of_def post_init_completion_def completion_def
        TERMINAL_TASK_STATUSES_def stable_code_normal Let_def)
next
  case (Inr d)
  with assms have d: "post_init_result d = Inr d" by blast
  show ?thesis
  proof (cases "outcome d")
    case OUT_SUCCEEDED
    with Inr result_facts [OF d] show ?thesis
      by (simp add: completion_of_def post_init_completion_def completion_def TERMINAL_TASK_STATUSES_def Let_def)
  next
    case OUT_FAILED
    with result_facts(2) [OF d] have "stable_code (res_error_code d)" by simp
    with Inr OUT_FAILED show ?thesis
      by (simp add: completion_of_def post_init_completion_def completion_def TERMINAL_TASK_STATUSES_def
          stable_code_normal Let_def)
  next
    case OUTCOME_UNKNOWN
    with result_facts(2) [OF d] have "stable_code (res_error_code d)" by simp
    with Inr OUTCOME_UNKNOWN show ?thesis
      by (simp add: completion_of_def post_init_completion_def completion_def TERMINAL_TASK_STATUSES_def
          stable_code_normal Let_def)
  qed
qed

text \<open>The calls of a dispatch: a reservation, and what its decision leads to.\<close>

definition dispatch_calls ::
  "env \<Rightarrow> autonomy_task \<Rightarrow> autonomy_policy \<Rightarrow> pystr \<Rightarrow> instant \<Rightarrow> call list \<Rightarrow> bool" where
  "dispatch_calls E t p content now evs \<longleftrightarrow>
     (\<exists>d rest. evs = Reserved (reservation_request E t p (action_command E t content) now) d # rest
        \<and> post_init_decision d = Inr d
        \<and> (if dec_code d = ALLOWED
           then \<exists>res later. rest = [Executed (action_command E t content) (permit_token d) res,
                  Finished (task_id t) (permit_token d) (completion_of res later)]
                  \<and> (\<forall>r. res = Inr r \<longrightarrow> post_init_result r = Inr r)
           else rest = [] \<or> (\<exists>e. rest = [e] \<and> ends_task t e)))"

lemma execute_traced:
  assumes "execute (traced P) t c permit s = (r, s')" and "constructed P"
  shows "is_ok r \<and> (\<exists>res later. snd s' = snd s @ [Executed c permit res,
      Finished (task_id t) permit (completion_of res later)] \<and> (\<forall>x. res = Inr x \<longrightarrow> post_init_result x = Inr x))"
proof -
  obtain res w where x: "execute_fixed_action P c permit (fst s) = (res, w)" by fastforce
  let ?s1 = "(w, snd s @ [Executed c permit res])"
  have xt: "execute_fixed_action (traced P) c permit s = (res, ?s1)"
    by (simp add: traced_def logged_def x)
  obtain later s2 where k: "clock (traced P) ?s1 = (later, s2)" by (metis surj_pair)
  have ok: "\<forall>d. res = Inr d \<longrightarrow> post_init_result d = Inr d"
    using assms(2) x unfolding constructed_def by blast
  have f: "finish_with (traced P) (t\<lparr>lease_token := permit\<rparr>) (completion_of res later) later s2 = (r, s')"
    using assms(1) xt k by (simp add: execute_def)
  from finish_traced [OF f completion_of_valid [OF ok]] clock_traced [OF k] ok
  show ?thesis by auto
qed

lemma denial_traced:
  assumes "handle_dispatch_denial (traced P) t d now s = (r, s')"
  shows "case r of
      Stop x \<Rightarrow> dec_code d \<noteq> ALLOWED \<and> is_ok x \<and> (s' = s \<or> ended t s x s')
    | Go _ \<Rightarrow> dec_code d = ALLOWED \<and> s' = s"
proof -
  have fin: "ended t s x s'" if "finish_with (traced P) t (completion st (S ''dispatch_'' @
      decision_code_value (dec_code d))) now s = (x, s')" "st \<in> {FAILED, CANCELLED, STALE}" for x st
    by (rule finish_ended [OF that(1) completion_plain(2) [OF that(2) stable_dispatch_code]])
  have bad: "ended t s x s'" if "finish_with (traced P) t ((completion FAILED
      (S ''invalid_interval_decision''))\<lparr>count_failure := True\<rparr>) now s = (x, s')" for x
    by (rule finish_ended [OF that completion_plain(1)]) simp_all
  have dly: "ended t s x s'" if "defer_until (traced P) t at (S ''minimum_interval'') now s = (x, s')" for x at
    using that by (rule defer_ended)
  have ok: "is_ok x" if "ended t s x s'" for x using that by (simp add: ended_def)
  consider "dec_code d = ALLOWED" | "dec_code d = LEASE_LOST" | "dec_code d = MINIMUM_INTERVAL"
    | "dec_code d \<notin> {ALLOWED, LEASE_LOST, MINIMUM_INTERVAL}" by blast
  then show ?thesis
  proof cases
    case 3
    with assms bad dly ok show ?thesis
      by (cases "dec_retry_at d") (auto simp: handle_dispatch_denial_def stop_eq)
  next
    case 4
    then have e: "handle_dispatch_denial (traced P) t d now s
        = stop (finish_with (traced P) t (completion (if dec_code d = SOURCE_STALE then STALE else CANCELLED)
             (S ''dispatch_'' @ decision_code_value (dec_code d))) now s)"
      by (simp add: handle_dispatch_denial_def)
    have st: "(if dec_code d = SOURCE_STALE then STALE else CANCELLED) \<in> {FAILED, CANCELLED, STALE}" by simp
    from assms e obtain x where f: "finish_with (traced P) t (completion (if dec_code d = SOURCE_STALE then STALE else CANCELLED)
             (S ''dispatch_'' @ decision_code_value (dec_code d))) now s = (x, s')" and r: "r = Stop x"
      by (auto simp: stop_eq)
    from fin [OF f st] ok 4 r show ?thesis by auto
  qed (use assms in \<open>auto simp: handle_dispatch_denial_def\<close>)
qed

lemma dispatch_traced:
  assumes "dispatch E (traced P) t p content now s = (r, s')" and "constructed P"
    and "post_init_task t = Inr t" and "hex_digest (sha256 E)" and "content_ok E t content"
  shows "is_ok r \<and> (\<exists>evs. snd s' = snd s @ evs \<and> dispatch_calls E t p content now evs)"
proof -
  let ?c = "action_command E t content"
  let ?q = "reservation_request E t p ?c now"
  obtain d w where b: "begin_dispatch P ?q (fst s) = (d, w)" by fastforce
  let ?s1 = "(w, snd s @ [Reserved ?q d])"
  have bt: "begin_dispatch (traced P) ?q s = (d, ?s1)" by (simp add: traced_def logged_def b)
  have d: "post_init_decision d = Inr d" using assms(2) b unfolding constructed_def by blast
  obtain h s2 where h: "handle_dispatch_denial (traced P) t d now ?s1 = (h, s2)" by (metis surj_pair)
  note den = denial_traced [OF h]
  note unfold = dispatch_def action_command_valid [OF assms(3-5)]
  show ?thesis
  proof (cases h)
    case (Stop x)
    with assms(1) bt h have r: "r = x" "s' = s2" by (simp_all add: unfold)
    from den Stop have no: "dec_code d \<noteq> ALLOWED" and ok: "is_ok x" and "s2 = ?s1 \<or> ended t ?s1 x s2" by auto
    then obtain rest where "snd s2 = snd s @ Reserved ?q d # rest"
      "rest = [] \<or> (\<exists>e. rest = [e] \<and> ends_task t e)"
      by (auto simp: ended_def)
    with d no ok r show ?thesis by (auto simp: dispatch_calls_def)
  next
    case (Go u)
    with den have yes: "dec_code d = ALLOWED" "s2 = ?s1" by auto
    with assms(1) bt h Go have "execute (traced P) t ?c (permit_token d) ?s1 = (r, s')" by (simp add: unfold)
    from execute_traced [OF this assms(2)] obtain res later where ok: "is_ok r"
      and log: "snd s' = snd ?s1 @ [Executed ?c (permit_token d) res,
          Finished (task_id t) (permit_token d) (completion_of res later)]"
      and res: "\<forall>x. res = Inr x \<longrightarrow> post_init_result x = Inr x" by blast
    have "dispatch_calls E t p content now [Reserved ?q d, Executed ?c (permit_token d) res,
          Finished (task_id t) (permit_token d) (completion_of res later)]"
      unfolding dispatch_calls_def using d yes(1) res by simp blast
    with ok log show ?thesis by auto
  qed
qed

section \<open>The whole run\<close>

text \<open>What has been established when a command is about to be reserved.\<close>

definition ready ::
  "env \<Rightarrow> autonomy_task \<Rightarrow> autonomy_policy \<Rightarrow> pystr \<Rightarrow> instant \<Rightarrow> call list \<Rightarrow> bool" where
  "ready E t p content now evs \<longleftrightarrow>
     content_ok E t content \<and> quiet_window_end (zones E) p now = None
     \<and> (generates (task_type t) \<longrightarrow>
          (\<exists>a b. evs = a @ [Generated, Renewed True] @ b \<and> head_ok E t p now b)
          \<and> (task_type t = SCHEDULED_POST \<longrightarrow>
               some_and (scheduled_for t) (\<lambda>at. now - at \<le> seconds (scheduled_post_max_lateness_seconds p))))"

definition dispatched ::
  "env \<Rightarrow> autonomy_task \<Rightarrow> autonomy_policy \<Rightarrow> 'w \<times> call list \<Rightarrow> 'w \<times> call list \<Rightarrow> bool" where
  "dispatched E t p s s' \<longleftrightarrow>
     (\<exists>pre content now evs. snd s' = snd s @ pre @ evs \<and> list_all silent pre
        \<and> ready E t p content now pre \<and> dispatch_calls E t p content now evs)"

lemma head_ok_silent: "head_ok E t p now evs \<Longrightarrow> list_all silent evs"
  by (auto simp: head_ok_def split: if_splits)

lemma perform_traced:
  assumes "perform E (traced P) t p now s = (r, s')" and "constructed P"
    and "post_init_task t = Inr t" and "hex_digest (sha256 E)"
    and "quiet_window_end (zones E) p now = None"
  shows "stopped t s r s' \<or> is_ok r \<and> dispatched E t p s s'"
proof -
  obtain g s1 where g: "conversation_guard E (traced P) t p (S ''inbound_message_already_handled'')
      (S ''proactive_message_already_sent'') now s = (g, s1)" by (metis surj_pair)
  note guard = guard_traced [OF g]
  show ?thesis
  proof (cases g)
    case (Stop x)
    with assms(1) g guard show ?thesis by (simp add: perform_def)
  next
    case (Go head)
    with guard obtain evs where evs: "snd s1 = snd s @ evs" "head_ok E t p now evs" by auto
    show ?thesis
    proof (cases "generates (task_type t)")
      case False
      then have c: "content_ok E t []" by (simp add: content_ok_def)
      have "dispatch E (traced P) t p [] now s1 = (r, s')"
        using assms(1) g Go False by (simp add: perform_def)
      from dispatch_traced [OF this assms(2-4) c] obtain ds where
        "is_ok r" "snd s' = snd s @ evs @ ds" "dispatch_calls E t p [] now ds"
        using evs(1) by auto
      moreover have "ready E t p [] now evs" using c assms(5) False by (simp add: ready_def)
      ultimately show ?thesis using head_ok_silent [OF evs(2)] unfolding dispatched_def by blast
    next
      case True
      obtain x s2 where x: "generation E (traced P) t p head now s1 = (x, s2)" by (metis surj_pair)
      note gen = generation_traced [OF x]
      show ?thesis
      proof (cases x)
        case (Stop y)
        with assms(1) g Go True x have "r = y" "s' = s2" by (simp_all add: perform_def)
        with gen Stop stopped_later [OF _ evs(1) head_ok_silent [OF evs(2)]] show ?thesis by simp
      next
        case content: (Go content)
        with gen have s2: "snd s2 = snd s @ evs @ [Generating True, Generated]"
          and safe: "\<exists>raw. safe_generated_text (unicode_word E) raw (task_action t) = Inr content"
          using evs(1) by auto
        from safe True have c: "content_ok E t content" by (simp add: content_ok_def)
        obtain y s3 where y: "recheck E (traced P) t p s2 = (y, s3)" by (metis surj_pair)
        note re = recheck_traced [OF y assms(3)]
        show ?thesis
        proof (cases y)
          case (Stop z)
          with assms(1) g Go True x content y have "r = z" "s' = s3" by (simp_all add: perform_def)
          with re Stop s2 head_ok_silent [OF evs(2)] show ?thesis
            using stopped_later [of t s2 z s3 s "evs @ [Generating True, Generated]"] by auto
        next
          case (Go later)
          with re obtain b where q: "quiet_window_end (zones E) p later = None"
            and s3: "snd s3 = snd s2 @ Renewed True # b" and b: "head_ok E t p later b"
            and sch: "task_type t = SCHEDULED_POST \<longrightarrow>
               some_and (scheduled_for t) (\<lambda>at. later - at \<le> seconds (scheduled_post_max_lateness_seconds p))"
            by auto
          have "dispatch E (traced P) t p content later s3 = (r, s')"
            using assms(1) g \<open>g = Go head\<close> True x content y Go by (simp add: perform_def)
          from dispatch_traced [OF this assms(2-4) c] obtain ds where ds: "is_ok r"
            "snd s' = snd s3 @ ds" "dispatch_calls E t p content later ds" by blast
          let ?pre = "evs @ [Generating True, Generated] @ Renewed True # b"
          have "?pre = (evs @ [Generating True]) @ [Generated, Renewed True] @ b" by simp
          with c q b sch have "ready E t p content later ?pre" unfolding ready_def by blast
          moreover have "list_all silent ?pre" using head_ok_silent evs(2) b by simp
          moreover have "snd s' = snd s @ ?pre @ ds" using ds(2) s3 s2 by simp
          ultimately show ?thesis using ds unfolding dispatched_def by blast
        qed
      qed
    qed
  qed
qed

lemma run_task_traced:
  assumes "run_task E (traced P) t now s = (r, s')" and "constructed P"
    and "post_init_task t = Inr t" and "hex_digest (sha256 E)"
  shows "stopped t s r s'
    \<or> is_ok r \<and> (\<exists>p w. preflight_denial t p = None \<and> dispatched E t p (w, snd s @ [Policy (Some p)]) s')"
proof (cases "task_status t \<noteq> LEASED \<or> lease_token t = [] \<or> attempt_count t > 3")
  case True
  have fin: "stopped t s x s'" if "finish_with (traced P) t ((completion FAILED
      (S ''task_attempts_exhausted''))\<lparr>count_failure := True\<rparr>) now s = (x, s')" for x
    by (rule ended_stopped [OF finish_ended [OF that completion_plain(1)], of s "[]"]) simp_all
  have stay: "stopped t s x s" if "is_ok x" for x
    by (rule stopped_silently [OF that, of s s "[]"]) simp_all
  show ?thesis
  proof (cases "task_status t \<noteq> LEASED \<or> lease_token t = []")
    case bad: True
    with assms(1) have "s' = s" "is_ok r" by (auto simp: run_task_def)
    with stay show ?thesis by simp
  next
    case good: False
    with True assms(1) have "finish_with (traced P) t ((completion FAILED
      (S ''task_attempts_exhausted''))\<lparr>count_failure := True\<rparr>) now s = (r, s')"
      by (simp add: run_task_def)
    with fin show ?thesis by simp
  qed
next
  case False
  obtain policy w where b: "load_policy P (task_owner t) (fst s) = (policy, w)" by fastforce
  let ?s1 = "(w, snd s @ [Policy policy])"
  have bt: "load_policy (traced P) (task_owner t) s = (policy, ?s1)" by (simp add: traced_def logged_def b)
  obtain g s2 where g: "preflight (traced P) t policy now ?s1 = (g, s2)" by (metis surj_pair)
  note pre = preflight_traced [OF g assms(3)]
  show ?thesis
  proof (cases g)
    case (Stop x)
    with assms(1) False bt g have "r = x" "s' = s2" by (simp_all add: run_task_def)
    with pre Stop show ?thesis
      by (auto intro!: ended_stopped [of t ?s1 x s2 s "[Policy policy]"])
  next
    case (Go p)
    with pre have p: "s2 = ?s1" "policy = Some p" "preflight_denial t p = None" by auto
    show ?thesis
    proof (cases "quiet_window_end (zones E) p now")
      case None
      with assms(1) False bt g Go p have "perform E (traced P) t p now ?s1 = (r, s')"
        by (simp add: run_task_def)
      from perform_traced [OF this assms(2-4) None] p show ?thesis
        using stopped_later [of t ?s1 r s' s "[Policy policy]"] by auto
    next
      case (Some at)
      with assms(1) False bt g Go p have
        "defer_until (traced P) t at (S ''quiet_hours'') now ?s1 = (r, s')"
        by (simp add: run_task_def)
      from defer_ended [OF this] show ?thesis
        by (auto intro!: ended_stopped [of t ?s1 r s' s "[Policy policy]"])
    qed
  qed
qed

text \<open>Every run on an empty log is silent, or stops a task, or dispatches it.\<close>

lemma run_once_cases:
  assumes "run_once E (traced P) worker (w, []) = (r, (w', tr))" and "constructed P"
    and "hex_digest (sha256 E)" and "valid_worker (py_strip (or_default worker []))"
  obtains (idle) "is_ok r" "tr = [Claimed None]"
    | (stopped) t evs last where "is_ok r" "tr = Claimed (Some t) # evs @ last" "list_all silent evs"
        "last = [] \<or> (\<exists>e. last = [e] \<and> ends_task t e)" "post_init_task t = Inr t"
    | (dispatched) t p pre content now evs where "is_ok r" "post_init_task t = Inr t"
        "tr = Claimed (Some t) # Policy (Some p) # pre @ evs" "list_all silent pre"
        "preflight_denial t p = None" "ready E t p content now pre" "dispatch_calls E t p content now evs"
proof -
  obtain now w1 where c: "clock P w = (now, w1)" by fastforce
  obtain task w2 where k: "claim_next P (py_strip (or_default worker [])) now
      (now + seconds (lease_seconds E)) w1 = (task, w2)" by fastforce
  have ct: "clock (traced P) (w, []) = (now, (w1, []))" by (simp add: traced_def logged_def c)
  have kt: "claim_next (traced P) (py_strip (or_default worker [])) now
      (now + seconds (lease_seconds E)) (w1, []) = (task, (w2, [Claimed task]))"
    by (simp add: traced_def logged_def k)
  show thesis
  proof (cases task)
    case None
    with assms(1,4) ct kt show thesis by (intro idle) (auto simp: run_once_def)
  next
    case (Some t)
    with k assms(2) have t: "post_init_task t = Inr t" unfolding constructed_def by blast
    have "run_task E (traced P) t now (w2, [Claimed (Some t)]) = (r, (w', tr))"
      using assms(1,4) ct kt Some by (simp add: run_once_def)
    from run_task_traced [OF this assms(2) t assms(3)] show thesis
    proof
      assume "stopped t (w2, [Claimed (Some t)]) r (w', tr)"
      then show thesis using t by (auto simp: stopped_def intro: stopped)
    next
      assume "is_ok r \<and> (\<exists>p u. preflight_denial t p = None
        \<and> dispatched E t p (u, snd (w2, [Claimed (Some t)]) @ [Policy (Some p)]) (w', tr))"
      then show thesis using t by (auto simp: dispatched_def intro: dispatched)
    qed
  qed
qed

end
