(* ===== verification/Run_Properties.thy ===== *)
theory Run_Properties
  imports Run_Protocol
begin

text \<open>
  The guarantees of one run of the orchestrator, read off the calls it made: what was checked before
  an account action was executed, and how its outcome was recorded.  Each holds for every
  implementation of the collaborators whose objects come from their constructors.
\<close>

section \<open>Runs that executed an action\<close>

lemma executed_not_silent: "list_all silent evs \<Longrightarrow> Executed c k res \<notin> set evs"
  by (auto simp: list_all_iff dest: bspec)

lemma ends_task_not_executed: "ends_task t e \<Longrightarrow> e \<noteq> Executed c k res"
  by auto

lemma executed_run:
  assumes run: "run_once E (traced P) worker (w, []) = (r, (w', tr))"
    and con: "constructed P" and hex: "hex_digest (sha256 E)" and ex: "Executed c k res \<in> set tr"
  obtains t p pre content now d later where
    "tr = Claimed (Some t) # Policy (Some p) # pre
        @ [Reserved (reservation_request E t p c now) d, Executed c k res,
           Finished (task_id t) k (completion_of res later)]"
    "c = action_command E t content" "list_all silent pre" "post_init_task t = Inr t"
    "preflight_denial t p = None" "ready E t p content now pre"
    "dec_code d = ALLOWED" "permit_token d = k" "k \<noteq> []"
    "\<forall>x. res = Inr x \<longrightarrow> post_init_result x = Inr x"
proof (cases "valid_worker (py_strip (or_default worker []))")
  case False
  with run ex have False by (auto simp: run_once_def)
  then show thesis ..
next
  case True
  show thesis
  proof (rule run_once_cases [OF run con hex True])
    assume "tr = [Claimed None]"
    with ex show thesis by simp
  next
    fix t evs last
    assume "tr = Claimed (Some t) # evs @ last" "list_all silent evs"
      "last = [] \<or> (\<exists>e. last = [e] \<and> ends_task t e)"
    with ex show thesis using executed_not_silent ends_task_not_executed by fastforce
  next
    fix t p pre content now evs
    assume t: "post_init_task t = Inr t"
      and tr: "tr = Claimed (Some t) # Policy (Some p) # pre @ evs" and sil: "list_all silent pre"
      and pf: "preflight_denial t p = None" and rdy: "ready E t p content now pre"
      and calls: "dispatch_calls E t p content now evs"
    let ?c = "action_command E t content"
    from ex tr sil have ev: "Executed c k res \<in> set evs" using executed_not_silent by auto
    obtain d rest where evs: "evs = Reserved (reservation_request E t p ?c now) d # rest"
      and d: "post_init_decision d = Inr d"
      and rest: "if dec_code d = ALLOWED
           then \<exists>res later. rest = [Executed ?c (permit_token d) res,
                  Finished (task_id t) (permit_token d) (completion_of res later)]
                  \<and> (\<forall>r. res = Inr r \<longrightarrow> post_init_result r = Inr r)
           else rest = [] \<or> (\<exists>e. rest = [e] \<and> ends_task t e)"
      using calls unfolding dispatch_calls_def by blast
    have ok: "dec_code d = ALLOWED"
    proof (rule ccontr)
      assume "dec_code d \<noteq> ALLOWED"
      with rest ev evs show False by auto
    qed
    with rest obtain res' later where r: "rest = [Executed ?c (permit_token d) res',
        Finished (task_id t) (permit_token d) (completion_of res' later)]"
      "\<forall>r. res' = Inr r \<longrightarrow> post_init_result r = Inr r" by auto
    with ev evs have eq: "c = ?c" "k = permit_token d" "res = res'" by auto
    have "permit_token d \<noteq> []" using d ok by (auto simp: post_init_decision_def split: if_splits)
    with tr evs r eq sil t pf rdy ok show thesis
      by (intro that [of t p pre now d later content]) auto
  qed
qed

section \<open>A concrete run\<close>

text \<open>One unanswered message, a model that says \<^verbatim>\<open>hi\<close>, and a dispatcher that succeeds.\<close>

definition sample_env :: env where
  "sample_env = \<lparr>nfkc = id, category = (\<lambda>_. CHR ''L''), unicode_word = (\<lambda>_. True),
     sha256 = (\<lambda>_. replicate 64 48), uuid_str = unary, zones = (\<lambda>_. fixed_offset_zone 0),
     lease_seconds = 300\<rparr>"

definition sample_head :: conversation_head where
  "sample_head = \<lparr>peer_upstream_uid = S ''42'', head_identity = S ''msgv2:1'',
     head_direction = INCOMING, head_message_type = S ''text'', head_body = S ''yo'', occurred_at = 0,
     revoked = False, has_outgoing_after = False, conversation_title = []\<rparr>"

definition sample_ports :: "dispatch_result \<Rightarrow> unit ports" where
  "sample_ports x =
     \<lparr>clock = (\<lambda>w. (0, w)), claim_next = (\<lambda>_ _ _ w. (Some sample_task, w)),
      load_policy = (\<lambda>_ w. (Some sample_policy, w)),
      load_conversation_head = (\<lambda>_ _ w. (Some sample_head, w)),
      begin_generation = (\<lambda>_ _ _ _ w. (True, w)), renew_lease = (\<lambda>_ _ _ _ w. (True, w)),
      begin_dispatch = (\<lambda>_ w. (\<lparr>dec_code = ALLOWED, permit_token = S ''permit'', dec_retry_at = None\<rparr>, w)),
      defer_task = (\<lambda>_ _ _ _ _ w. (True, w)), finish_task = (\<lambda>_ _ _ _ w. (True, w)),
      generate_reply = (\<lambda>_ _ _ w. (Inr (Some (S ''hi'')), w)),
      generate_scheduled_post = (\<lambda>_ _ w. (Inl Other_error, w)),
      generate_proactive_message = (\<lambda>_ _ w. (Inl Other_error, w)),
      generate_friend_request = (\<lambda>_ _ w. (Inl Other_error, w)),
      execute_fixed_action = (\<lambda>_ _ w. (Inr x, w))\<rparr>"

definition unknown_result :: dispatch_result where
  "unknown_result = \<lparr>outcome = OUTCOME_UNKNOWN, res_error_code = S ''dispatch_outcome_unknown'', res_id = []\<rparr>"

lemma unknown_result_ok: "post_init_result unknown_result = Inr unknown_result"
  by (simp add: post_init_result_def unknown_result_def stable_code_normal)

lemma sample_constructed:
  assumes "post_init_result x = Inr x" shows "constructed (sample_ports x)"
  using assms by (auto simp: constructed_def sample_ports_def sample_task_ok post_init_decision_def)

lemma sample_hex: "hex_digest (sha256 sample_env)"
  by (simp add: hex_digest_def sample_env_def hex_replicate_48)

lemma sample_head_eligible:
  "is_unanswered_inbound id (\<lambda>_. CHR ''L'') sample_head (S ''msgv2:1'') (Some 0) (Some 0)"
proof -
  have strip: "py_strip (S ''msgv2:1'') = S ''msgv2:1''" "py_strip (S ''yo'') = S ''yo''"
    "py_strip (S ''42'') = S ''42''" "py_lower (py_strip (S ''text'')) = S ''text''"
    by (simp_all add: S_def py_strip_def py_space_def lower_cp_def)
  have sp: "filter (\<lambda>c. \<not> py_space c) (S ''yo'') = S ''yo''" by (simp add: S_def py_space_def)
  have tok: "semantic_token id (\<lambda>_. CHR ''L'') (Some (S ''yo'')) = S ''yo''"
  proof -
    have "\<not> re_fullmatch (\<lambda>_. True) TUI_EMOJI_ONLY (S ''yo'')"
      by (rule re_fullmatch_too_short) (simp add: TUI_EMOJI_ONLY_def word_def S_def)
    moreover have "concat (map casefold_cp (S ''yo'')) = S ''yo''"
      by (simp add: S_def casefold_cp_def lower_cp_def)
    ultimately show ?thesis
      by (simp add: semantic_token_def normalized_message_text_def strip)
  qed
  have sys: "\<not> (\<exists>m \<in> set SYSTEM_MESSAGE_MARKERS. py_contains m (S ''yo''))"
  proof -
    have "\<forall>m \<in> set SYSTEM_MESSAGE_MARKERS. length (S ''yo'') < length m"
      by (simp add: SYSTEM_MESSAGE_MARKERS_def)
    then show ?thesis using py_contains_length by fastforce
  qed
  have un: "\<not> (\<exists>m \<in> set UNAVAILABLE_CONVERSATION_MARKERS. py_contains m [])"
  proof -
    have "\<forall>m \<in> set UNAVAILABLE_CONVERSATION_MARKERS. length ([] :: pystr) < length m"
      by (simp add: UNAVAILABLE_CONVERSATION_MARKERS_def)
    then show ?thesis using py_contains_length by fastforce
  qed
  have tokens: "S ''yo'' \<notin> set TERMINAL_MESSAGE_TOKENS"
    by (simp add: TERMINAL_MESSAGE_TOKENS_def S_def)
  have dec: "\<not> py_isdecimal (S ''yo'')"
    by (simp add: py_isdecimal_def S_def decimal_value_def decimal_zeros_def)
  have "reply_message_is_eligible id (\<lambda>_. CHR ''L'') (Some (S ''yo'')) None (Some (S ''42'')) (Some [])"
    using sys un tokens dec
    by (simp add: reply_message_is_eligible_def normalized_message_text_def strip sp tok)
  then show ?thesis
    by (simp add: is_unanswered_inbound_def sample_head_def strip reply_message_is_fresh_def)
qed

lemma short_text_safe:
  "\<not> re_search uw AUTONOMOUS_LINK (S ''hi'')" "\<not> re_search uw AUTONOMOUS_CREDENTIAL (S ''hi'')"
  by (rule re_search_too_short;
      simp add: AUTONOMOUS_LINK_def AUTONOMOUS_CREDENTIAL_def ci_word_def word_def S_def
        eight_or_more_def token_char_def Let_def)+

lemma sample_steps:
  "valid_worker (py_strip (or_default (Some (S ''w'')) []))"
  "preflight_denial sample_task sample_policy = None"
  "quiet_window_end (zones sample_env) sample_policy 0 = None"
  "is_unanswered_inbound (nfkc sample_env) (category sample_env) sample_head (task_source sample_task)
     (Some 0) (auto_reply_started_at sample_policy)"
  "safe_generated_text (unicode_word sample_env) (Some (S ''hi'')) (task_action sample_task) = Inr (S ''hi'')"
proof -
  show "valid_worker (py_strip (or_default (Some (S ''w'')) []))"
    by (simp add: valid_worker_def S_def py_strip_def py_space_def)
  show "preflight_denial sample_task sample_policy = None"
    by (simp add: preflight_denial_def sample_task_def sample_policy_def full_access_def access_available_def)
  show "quiet_window_end (zones sample_env) sample_policy 0 = None"
    by (simp add: quiet_window_end_def sample_policy_def)
  show "is_unanswered_inbound (nfkc sample_env) (category sample_env) sample_head (task_source sample_task)
     (Some 0) (auto_reply_started_at sample_policy)"
    using sample_head_eligible by (simp add: sample_env_def sample_task_def sample_policy_def)
  have strip: "py_strip (S ''hi'') = S ''hi''" by (simp add: S_def py_strip_def py_space_def)
  have chars: "\<forall>c \<in> set (S ''hi''). \<not> c < 32" by (simp add: S_def)
  show "safe_generated_text (unicode_word sample_env) (Some (S ''hi'')) (task_action sample_task) = Inr (S ''hi'')"
    using chars by (simp add: safe_generated_text_def strip short_text_safe sample_task_def Let_def)
qed

abbreviation sample_command :: fixed_action_command where
  "sample_command \<equiv> action_command sample_env sample_task (S ''hi'')"

lemma sample_command_valid: "post_init_command sample_command = Inr sample_command"
proof (rule action_command_valid [OF sample_task_ok sample_hex])
  show "content_ok sample_env sample_task (S ''hi'')"
    using sample_steps(5) by (auto simp: content_ok_def sample_task_def generates_def)
qed

lemma sample_run:
  assumes "post_init_result x = Inr x"
  shows "\<exists>r pre d q f. run_once sample_env (traced (sample_ports x)) (Some (S ''w'')) ((), [])
      = (r, ((), Claimed (Some sample_task) # Policy (Some sample_policy) # pre
          @ [Reserved q d, Executed sample_command (S ''permit'') (Inr x), f]))"
proof -
  note t = sample_task_def
  note ports = sample_ports_def traced_def logged_def
  let ?P = "traced (sample_ports x)"
  let ?d = "\<lparr>dec_code = ALLOWED, permit_token = S ''permit'', dec_retry_at = None\<rparr>"
  have guard: "conversation_guard sample_env ?P sample_task sample_policy a b 0 ((), l)
      = (Go (Some sample_head), ((), l @ [Head (Some sample_head)]))" for a b l
  proof -
    have ty: "task_type sample_task = REPLY_TO_MESSAGE" by (simp add: t)
    show ?thesis using sample_steps(4) by (simp add: conversation_guard_def ty ports)
  qed
  have gen: "generation sample_env ?P sample_task sample_policy (Some sample_head) 0 ((), l)
      = (Go (S ''hi''), ((), l @ [Generating True, Generated]))" for l
  proof -
    have ty: "task_type sample_task = REPLY_TO_MESSAGE" by (simp add: t)
    show ?thesis using sample_steps(5) by (simp add: generation_def model_call_def ty ports)
  qed
  have re: "recheck sample_env ?P sample_task sample_policy ((), l)
      = (Go 0, ((), l @ [Renewed True, Head (Some sample_head)]))" for l
  proof -
    have ty: "task_type sample_task = REPLY_TO_MESSAGE" by (simp add: t)
    have c: "clock ?P ((), l) = (0, ((), l))" by (simp add: ports)
    have rn: "renew_lease ?P i k u v ((), l) = (True, ((), l @ [Renewed True]))" for i k u v
      by (simp add: ports)
    show ?thesis by (simp add: recheck_def c rn sample_steps(3) guard ty)
  qed
  have fin: "\<exists>r f. execute ?P sample_task sample_command (S ''permit'') ((), l)
      = (r, ((), l @ [Executed sample_command (S ''permit'') (Inr x), f]))" for l
  proof -
    have c: "post_init_completion (completion_of (Inr x) 0) = Inr (completion_of (Inr x) 0)"
      by (rule completion_of_valid) (use assms in simp)
    show ?thesis by (simp add: execute_def finish_with_def ports c)
  qed
  have dis: "\<exists>r q f. dispatch sample_env ?P sample_task sample_policy (S ''hi'') 0 ((), l)
      = (r, ((), l @ [Reserved q ?d, Executed sample_command (S ''permit'') (Inr x), f]))" for l
  proof -
    let ?q = "reservation_request sample_env sample_task sample_policy sample_command 0"
    have b: "begin_dispatch ?P ?q ((), l) = (?d, ((), l @ [Reserved ?q ?d]))" by (simp add: ports)
    obtain r f where "execute ?P sample_task sample_command (S ''permit'') ((), l @ [Reserved ?q ?d])
        = (r, ((), (l @ [Reserved ?q ?d]) @ [Executed sample_command (S ''permit'') (Inr x), f]))"
      using fin by blast
    then show ?thesis
      by (intro exI [of _ r] exI [of _ ?q] exI [of _ f])
        (simp add: dispatch_def sample_command_valid b handle_dispatch_denial_def)
  qed
  have claim: "run_once sample_env ?P (Some (S ''w'')) ((), [])
      = run_task sample_env ?P sample_task 0 ((), [Claimed (Some sample_task)])"
    using sample_steps(1) by (simp add: run_once_def ports Let_def)
  have pre: "preflight ?P sample_task (Some sample_policy) 0 s = (Go sample_policy, s)" for s
    using sample_steps(2) by (simp add: preflight_def t)
  have ok: "task_status sample_task = LEASED" "lease_token sample_task \<noteq> []" "\<not> 3 < attempt_count sample_task"
    "generates (task_type sample_task)" by (simp_all add: t generates_def)
  have load: "load_policy ?P i ((), l) = (Some sample_policy, ((), l @ [Policy (Some sample_policy)]))" for i l
    by (simp add: ports)
  let ?l = "[Claimed (Some sample_task), Policy (Some sample_policy), Head (Some sample_head),
      Generating True, Generated, Renewed True, Head (Some sample_head)]"
  have "run_once sample_env ?P (Some (S ''w'')) ((), [])
      = dispatch sample_env ?P sample_task sample_policy (S ''hi'') 0 ((), ?l)"
    using ok by (simp add: claim run_task_def load pre sample_steps(3) perform_def guard gen re)
  with dis [of ?l] show ?thesis
    by (auto intro!: exI [of _ "[Head (Some sample_head), Generating True, Generated, Renewed True, Head (Some sample_head)]"])
qed

section \<open>Properties\<close>

definition calls_of :: "(call \<Rightarrow> bool) \<Rightarrow> call list \<Rightarrow> nat" where
  "calls_of Q tr = length (filter Q tr)"

lemma calls_of_append [simp]: "calls_of Q (a @ b) = calls_of Q a + calls_of Q b"
  by (simp add: calls_of_def)

lemma calls_of_Cons [simp]: "calls_of Q (e # a) = (if Q e then 1 else 0) + calls_of Q a"
  by (simp add: calls_of_def)

lemma calls_of_Nil [simp]: "calls_of Q [] = 0"
  by (simp add: calls_of_def)

definition is_action :: "call \<Rightarrow> bool" where
  "is_action e \<longleftrightarrow> (\<exists>c k r. e = Executed c k r)"

definition is_settlement :: "call \<Rightarrow> bool" where
  "is_settlement e \<longleftrightarrow> (\<exists>i k nb. e = Deferred i k nb) \<or> (\<exists>i k c. e = Finished i k c)"

lemma silent_counts:
  "list_all silent evs \<Longrightarrow> calls_of is_action evs = 0 \<and> calls_of is_settlement evs = 0"
  by (induction evs) (auto simp: is_action_def is_settlement_def)

lemma call_kinds [simp]:
  "is_action (Executed c k r)" "\<not> is_action (Finished i l cc)" "\<not> is_action (Deferred i l nb)"
  "\<not> is_action (Claimed t)" "\<not> is_action (Policy p)" "\<not> is_action (Reserved q d)"
  "is_settlement (Finished i l cc)" "is_settlement (Deferred i l nb)" "\<not> is_settlement (Executed c k r)"
  "\<not> is_settlement (Claimed t)" "\<not> is_settlement (Policy p)" "\<not> is_settlement (Reserved q d)"
  by (auto simp: is_action_def is_settlement_def)

lemma ends_task_counts:
  "ends_task t e \<Longrightarrow> \<not> is_action e \<and> is_settlement e"
  by (cases e) auto

lemma dispatch_calls_counts:
  assumes "dispatch_calls E t p content now evs"
  shows "calls_of is_action evs \<le> 1 \<and> calls_of is_settlement evs \<le> 1"
proof -
  let ?q = "reservation_request E t p (action_command E t content) now"
  obtain d rest where evs: "evs = Reserved ?q d # rest"
    and rest: "if dec_code d = ALLOWED
           then \<exists>res later. rest = [Executed (action_command E t content) (permit_token d) res,
                  Finished (task_id t) (permit_token d) (completion_of res later)]
                  \<and> (\<forall>r. res = Inr r \<longrightarrow> post_init_result r = Inr r)
           else rest = [] \<or> (\<exists>e. rest = [e] \<and> ends_task t e)"
    using assms unfolding dispatch_calls_def by blast
  show ?thesis
  proof (cases "dec_code d = ALLOWED")
    case True
    with rest evs show ?thesis by auto
  next
    case False
    with rest evs show ?thesis using ends_task_counts by auto
  qed
qed

text \<open>C5: A run with a valid worker name never raises, whatever the store, the model and the
  dispatcher return: it executes at most one account action and defers or finishes at most one task,
  and the command it builds is always valid.\<close>

theorem run_settles_once:
  assumes "run_once E (traced P) worker (w, []) = (r, (w', tr))" and "constructed P"
    and "hex_digest (sha256 E)" and "valid_worker (py_strip (or_default worker []))"
  shows "is_ok r \<and> calls_of is_action tr \<le> 1 \<and> calls_of is_settlement tr \<le> 1"
proof (rule run_once_cases [OF assms])
  fix t evs last
  assume "is_ok r" "tr = Claimed (Some t) # evs @ last" "list_all silent evs"
    "last = [] \<or> (\<exists>e. last = [e] \<and> ends_task t e)"
  then show ?thesis using silent_counts [of evs] ends_task_counts by auto
next
  fix t p pre content now evs
  assume "is_ok r" "tr = Claimed (Some t) # Policy (Some p) # pre @ evs" "list_all silent pre"
    "dispatch_calls E t p content now evs"
  then show ?thesis using silent_counts [of pre] dispatch_calls_counts [of E t p content now evs] by simp
qed simp

theorem run_settles_once_witness:
  "\<exists>r tr. run_once sample_env (traced (sample_ports unknown_result)) (Some (S ''w'')) ((), []) = (r, ((), tr))
     \<and> is_ok r \<and> calls_of is_settlement tr \<le> 1"
proof -
  obtain r tr where run: "run_once sample_env (traced (sample_ports unknown_result)) (Some (S ''w'')) ((), [])
      = (r, ((), tr))" using sample_run [OF unknown_result_ok] by blast
  from run_settles_once [OF run sample_constructed [OF unknown_result_ok] sample_hex sample_steps(1)] run
  show ?thesis by blast
qed

text \<open>C1: An account action is executed only under a permit.  The call before it is the reservation of
  exactly this action (same action, target and idempotency key) for the claimed task under its
  lease, the store allowed it, and the permit passed to the dispatcher is the one it gave.  Before
  the reservation the run has changed nothing but leases.\<close>

theorem action_only_under_permit:
  assumes "run_once E (traced P) worker (w, []) = (r, (w', tr))" and "constructed P"
    and "hex_digest (sha256 E)" and "Executed c k res \<in> set tr"
  shows "\<exists>pre q d f t. tr = pre @ [Reserved q d, Executed c k res, f] \<and> list_all silent pre
    \<and> dec_code d = ALLOWED \<and> permit_token d = k \<and> k \<noteq> []
    \<and> hd pre = Claimed (Some t) \<and> req_task_id q = task_id t \<and> req_lease_token q = lease_token t
    \<and> req_action q = cmd_action c \<and> req_target q = cmd_target c \<and> req_key q = cmd_key c
    \<and> req_source q = task_source t"
proof (rule executed_run [OF assms])
  fix t p pre content now d later
  assume "tr = Claimed (Some t) # Policy (Some p) # pre
        @ [Reserved (reservation_request E t p c now) d, Executed c k res,
           Finished (task_id t) k (completion_of res later)]"
    and "c = action_command E t content" "list_all silent pre"
    and "dec_code d = ALLOWED" "permit_token d = k" "k \<noteq> []"
  then show ?thesis
    by (intro exI [of _ "Claimed (Some t) # Policy (Some p) # pre"]
        exI [of _ "reservation_request E t p c now"] exI [of _ d]
        exI [of _ "Finished (task_id t) k (completion_of res later)"] exI [of _ t])
      (simp add: reservation_request_def action_command_def)
qed

theorem action_only_under_permit_witness:
  "\<exists>r tr pre q d f. run_once sample_env (traced (sample_ports unknown_result)) (Some (S ''w'')) ((), [])
       = (r, ((), tr))
     \<and> tr = pre @ [Reserved q d, Executed sample_command (S ''permit'') (Inr unknown_result), f]
     \<and> dec_code d = ALLOWED"
proof -
  obtain r tr where run: "run_once sample_env (traced (sample_ports unknown_result)) (Some (S ''w'')) ((), [])
      = (r, ((), tr))" and ex: "Executed sample_command (S ''permit'') (Inr unknown_result) \<in> set tr"
    using sample_run [OF unknown_result_ok] by force
  from action_only_under_permit [OF run sample_constructed [OF unknown_result_ok] sample_hex ex] run
  show ?thesis by blast
qed





text \<open>A reply is sent only to a message that still waits for it.  When a reply task executes its
  action, the last thing the run looked at after the model had written, and after the lease had
  been renewed, is the head of the conversation: it is the very message the task was made for, from
  the other side, not revoked, not answered, meaningful, and at most two hours old.\<close>

theorem reply_only_to_unanswered:
  assumes "run_once E (traced P) worker (w, []) = (r, (w', tr))" and "constructed P"
    and "hex_digest (sha256 E)" and "Executed c k res \<in> set tr"
    and "hd tr = Claimed (Some t)" and "task_type t = REPLY_TO_MESSAGE"
  shows "\<exists>a h q d rest st. tr = a @ [Generated, Renewed True, Head (Some h), Reserved q d] @ Executed c k res # rest
    \<and> is_unanswered_inbound (nfkc E) (category E) h (task_source t) (Some (req_now q)) st
    \<and> head_direction h = INCOMING \<and> \<not> has_outgoing_after h \<and> \<not> revoked h
    \<and> req_now q - occurred_at h \<le> seconds 7200 \<and> cmd_target c = task_target t"
proof (rule executed_run [OF assms(1-4)])
  fix t' p pre content now d later
  assume tr: "tr = Claimed (Some t') # Policy (Some p) # pre
        @ [Reserved (reservation_request E t' p c now) d, Executed c k res,
           Finished (task_id t') k (completion_of res later)]"
    and c: "c = action_command E t' content" and rdy: "ready E t' p content now pre"
  from tr assms(5) have t': "t' = t" by simp
  with rdy assms(6) obtain a b where pre: "pre = a @ [Generated, Renewed True] @ b"
    and "head_ok E t p now b" by (auto simp: ready_def generates_def)
  with assms(6) obtain h where b: "b = [Head (Some h)]"
    and h: "is_unanswered_inbound (nfkc E) (category E) h (task_source t) (Some now) (auto_reply_started_at p)"
    by (auto simp: head_ok_def)
  have n: "req_now (reservation_request E t p c now) = now" by (simp add: reservation_request_def)
  have fresh: "now - occurred_at h \<le> seconds 7200" "head_direction h = INCOMING"
    "\<not> has_outgoing_after h" "\<not> revoked h"
    using h by (auto simp: is_unanswered_inbound_def reply_message_is_fresh_def Let_def split: if_splits)
  show ?thesis
    using tr pre b h n fresh t' c
    by (intro exI [of _ "Claimed (Some t) # Policy (Some p) # a"] exI [of _ h]
        exI [of _ "reservation_request E t p c now"] exI [of _ d]
        exI [of _ "[Finished (task_id t') k (completion_of res later)]"] exI [of _ "auto_reply_started_at p"])
      (simp add: action_command_def)
qed

theorem reply_only_to_unanswered_witness:
  "\<exists>r tr a h q d rest. run_once sample_env (traced (sample_ports unknown_result)) (Some (S ''w'')) ((), [])
       = (r, ((), tr))
     \<and> tr = a @ [Generated, Renewed True, Head (Some h), Reserved q d]
         @ Executed sample_command (S ''permit'') (Inr unknown_result) # rest"
proof -
  obtain r tr where run: "run_once sample_env (traced (sample_ports unknown_result)) (Some (S ''w'')) ((), [])
      = (r, ((), tr))" and ex: "Executed sample_command (S ''permit'') (Inr unknown_result) \<in> set tr"
    and h: "hd tr = Claimed (Some sample_task)"
    using sample_run [OF unknown_result_ok] by force
  have ty: "task_type sample_task = REPLY_TO_MESSAGE" by (simp add: sample_task_def)
  from reply_only_to_unanswered [OF run sample_constructed [OF unknown_result_ok] sample_hex ex h ty] run
  show ?thesis by blast
qed

text \<open>C4: What an executed command carries.  A message, a post or a friend request has a text that is
  not empty, has at most two thousand characters (two hundred for a friend request) and neither a
  link nor anything that looks like a credential; a public post moreover has no e-mail address and
  no phone number.  Every other action carries no text.\<close>

theorem executed_content_safe:
  assumes "run_once E (traced P) worker (w, []) = (r, (w', tr))" and "constructed P"
    and "hex_digest (sha256 E)" and "Executed c k res \<in> set tr"
  shows "if cmd_action c \<in> {SEND_PRIVATE_MESSAGE, PUBLISH_TEXT_POST, REQUEST_FRIEND_ACTION}
    then cmd_content c \<noteq> [] \<and> length (cmd_content c) \<le> 2000
      \<and> \<not> re_search (unicode_word E) AUTONOMOUS_LINK (cmd_content c)
      \<and> \<not> re_search (unicode_word E) AUTONOMOUS_CREDENTIAL (cmd_content c)
      \<and> (cmd_action c = PUBLISH_TEXT_POST \<longrightarrow>
           \<not> re_search (unicode_word E) AUTONOMOUS_EMAIL (cmd_content c)
           \<and> \<not> re_search (unicode_word E) AUTONOMOUS_PHONE (cmd_content c))
      \<and> (cmd_action c = REQUEST_FRIEND_ACTION \<longrightarrow> length (cmd_content c) \<le> 200)
    else cmd_content c = []"
proof (rule executed_run [OF assms])
  fix t p pre content now d later
  assume c: "c = action_command E t content" and t: "post_init_task t = Inr t"
    and "ready E t p content now pre"
  then have ok: "content_ok E t content" by (simp add: ready_def)
  have cc: "cmd_content c = content" "cmd_action c = task_action t" by (simp_all add: c action_command_def)
  have gen: "task_action t \<in> {SEND_PRIVATE_MESSAGE, PUBLISH_TEXT_POST, REQUEST_FRIEND_ACTION}
      \<longleftrightarrow> generates (task_type t)"
    using task_facts(1) [OF t] by (cases "task_type t") (simp_all add: generates_def)
  show ?thesis
  proof (cases "generates (task_type t)")
    case True
    with ok obtain raw where
      r: "safe_generated_text (unicode_word E) raw (task_action t) = Inr content"
      by (auto simp: content_ok_def)
    from safe_text_facts [OF r] True gen show ?thesis unfolding cc by auto
  next
    case False
    with ok gen show ?thesis unfolding cc by (simp add: content_ok_def)
  qed
qed

theorem executed_content_safe_witness:
  "cmd_content sample_command \<noteq> []
   \<and> \<not> re_search (unicode_word sample_env) AUTONOMOUS_LINK (cmd_content sample_command)"
proof -
  obtain r tr where run: "run_once sample_env (traced (sample_ports unknown_result)) (Some (S ''w'')) ((), [])
      = (r, ((), tr))" and ex: "Executed sample_command (S ''permit'') (Inr unknown_result) \<in> set tr"
    using sample_run [OF unknown_result_ok] by force
  have "cmd_action sample_command = SEND_PRIVATE_MESSAGE"
    by (simp add: action_command_def sample_task_def)
  with executed_content_safe [OF run sample_constructed [OF unknown_result_ok] sample_hex ex]
  show ?thesis by simp
qed

end
