(* ===== verification/Candidate_Compatibility.thy ===== *)
theory Candidate_Compatibility
  imports Prelude
begin

text \<open>
  Python values of a profile, and \<^verbatim>\<open>agent_candidate_compatibility\<close> of
  \<^verbatim>\<open>bbw_agent/autonomous.py\<close>: may the agent act on this discovered user?  Profiles and the
  match preference are dictionaries (the attributes of an object row are the same dictionary).  A
  float and a value of a type the code never inspects are \<open>PFloat text truth\<close> and
  \<open>POther text truth\<close>, their \<^verbatim>\<open>str\<close> and their truth value.
\<close>

section \<open>Values\<close>

datatype pyval = PNone | PBool bool | PInt int | PStr pystr | PFloat pystr bool
  | POther pystr bool

type_synonym pydict = "(pystr \<times> pyval) list"

fun nat_str :: "nat \<Rightarrow> pystr" where
  "nat_str n = (if n < 10 then [48 + n] else nat_str (n div 10) @ [48 + n mod 10])"

declare nat_str.simps [simp del]

fun py_str :: "pyval \<Rightarrow> pystr" where
  "py_str PNone = S ''None''"
| "py_str (PBool b) = (if b then S ''True'' else S ''False'')"
| "py_str (PInt i) = (if i < 0 then 45 # nat_str (nat (- i)) else nat_str (nat i))"
| "py_str (PStr s) = s"
| "py_str (PFloat s b) = s"
| "py_str (POther s b) = s"

fun truthy :: "pyval \<Rightarrow> bool" where
  "truthy PNone = False"
| "truthy (PBool b) = b"
| "truthy (PInt i) = (i \<noteq> 0)"
| "truthy (PStr s) = (s \<noteq> [])"
| "truthy (PFloat s b) = b"
| "truthy (POther s b) = b"

text \<open>\<^verbatim>\<open>str(value or "")\<close> and \<^verbatim>\<open>d.get(key)\<close>.\<close>

definition str_or_empty :: "pyval \<Rightarrow> pystr" where
  "str_or_empty v = (if truthy v then py_str v else [])"

definition dict_get :: "pydict \<Rightarrow> pystr \<Rightarrow> pyval" where
  "dict_get d k = (case map_of d k of None \<Rightarrow> PNone | Some v \<Rightarrow> v)"

text \<open>Decimal digits read back.\<close>

lemma decimal_value_digit: "d < 10 \<Longrightarrow> decimal_value (48 + d) = Some d"
  by (simp add: decimal_value_def decimal_zeros_def)

lemma digits_value_snoc:
  "digits_value acc b s = Some n \<Longrightarrow> d < 10 \<Longrightarrow> digits_value acc b (s @ [48 + d]) = Some (10 * n + d)"
  by (induction acc b s rule: digits_value.induct)
    (auto simp: decimal_value_digit split: if_splits option.splits)

lemma digits_value_nat_str: "digits_value 0 False (nat_str n) = Some n"
proof (induction n rule: nat_str.induct)
  case (1 n)
  show ?case
  proof (cases "n < 10")
    case True
    then show ?thesis
      using decimal_value_digit [of n] by (simp add: nat_str.simps [of n])
  next
    case False
    then have "digits_value 0 False (nat_str (n div 10) @ [48 + n mod 10])
        = Some (10 * (n div 10) + n mod 10)"
      by (intro digits_value_snoc 1) simp_all
    with False show ?thesis by (simp add: nat_str.simps [of n])
  qed
qed

lemma nat_str_digits: "set (nat_str n) \<subseteq> {48..57} \<and> nat_str n \<noteq> []"
proof (induction n rule: nat_str.induct)
  case (1 n)
  have "48 + n mod 10 \<le> 57" by (simp add: less_Suc_eq_le [symmetric])
  with 1 show ?case by (cases "n < 10") (auto simp: nat_str.simps [of n])
qed

lemma py_strip_digits: "s \<noteq> [] \<Longrightarrow> set s \<subseteq> insert 45 {48..57} \<Longrightarrow> py_strip s = s"
proof -
  assume s: "s \<noteq> []" "set s \<subseteq> insert 45 {48..57}"
  have "\<forall>c \<in> set s. \<not> py_space c" using s(2) by (auto simp: py_space_def)
  with s(1) show "py_strip s = s" by (simp add: py_strip_fixed_iff)
qed

text \<open>An integer of at most 4300 digits survives \<^verbatim>\<open>int(str(value).strip())\<close>.\<close>

lemma py_int_str: "length (nat_str (nat \<bar>i\<bar>)) \<le> 4300 \<Longrightarrow> py_int (py_str (PInt i)) = Some i"
proof -
  assume len: "length (nat_str (nat \<bar>i\<bar>)) \<le> 4300"
  obtain c cs where n: "nat_str (nat \<bar>i\<bar>) = c # cs" and c: "48 \<le> c" "c \<le> 57"
    using nat_str_digits [of "nat \<bar>i\<bar>"] by (cases "nat_str (nat \<bar>i\<bar>)") auto
  have u: "unsigned_value (nat_str (nat \<bar>i\<bar>)) = Some (nat \<bar>i\<bar>)"
    using digits_value_nat_str [of "nat \<bar>i\<bar>"] order_trans [OF length_filter_le len]
    by (simp add: unsigned_value_def not_less)
  have strip: "py_strip (nat_str (nat \<bar>i\<bar>)) = nat_str (nat \<bar>i\<bar>)"
    "py_strip (45 # nat_str (nat \<bar>i\<bar>)) = 45 # nat_str (nat \<bar>i\<bar>)"
    using nat_str_digits [of "nat \<bar>i\<bar>"] by (intro py_strip_digits; auto)+
  show ?thesis
  proof (cases "i < 0")
    case True
    then show ?thesis using u strip by (simp add: py_int_def)
  next
    case False
    then show ?thesis using u strip n c by (simp add: py_int_def)
  qed
qed

section \<open>Reading a profile\<close>

text \<open>The first of the keys whose value is not \<^verbatim>\<open>None\<close> and not blank.\<close>

definition candidate_profile_value :: "pydict \<Rightarrow> string list \<Rightarrow> pyval" where
  "candidate_profile_value source ks =
     (case find (\<lambda>k. dict_get source (S k) \<noteq> PNone
                   \<and> py_strip (py_str (dict_get source (S k))) \<noteq> []) ks of
        None \<Rightarrow> PNone | Some k \<Rightarrow> dict_get source (S k))"

definition gender_aliases :: "(pystr \<times> string) list" where
  "gender_aliases =
     [([30007], ''male''), (S ''male'', ''male''), (S ''m'', ''male''), (S ''1'', ''male''),
      ([22899], ''female''), (S ''female'', ''female''), (S ''f'', ''female''), (S ''2'', ''female''),
      ([20854, 20182], ''other''), (S ''other'', ''other''),
      ([19981, 38480], ''any''), (S ''any'', ''any''), (S ''all'', ''any''), (S ''*'', ''any'')]"

definition candidate_gender :: "pyval \<Rightarrow> bool \<Rightarrow> string option" where
  "candidate_gender value preference =
     (let result = map_of gender_aliases (py_casefold (py_strip (str_or_empty value))) in
      if result = Some ''any'' \<and> \<not> preference then None else result)"

definition ascii_upper :: "pystr \<Rightarrow> pystr" where
  "ascii_upper s = map (\<lambda>c. if 97 \<le> c \<and> c \<le> 122 then c - 32 else c) s"

definition candidate_property :: "pyval \<Rightarrow> pystr option" where
  "candidate_property value =
     (let stripped = py_strip (str_or_empty value);
          normalized = (if py_casefold stripped \<in> {S ''z'', S ''b''} then ascii_upper stripped
                        else stripped) in
      if normalized \<in> {[21452], S ''Z'', S ''B''} then Some normalized else None)"

definition candidate_age :: "pyval \<Rightarrow> int option" where
  "candidate_age value =
     (case value of
        PNone \<Rightarrow> None
      | PBool _ \<Rightarrow> None
      | _ \<Rightarrow> (case py_int (py_str value) of
                None \<Rightarrow> None
              | Some age \<Rightarrow> if 18 \<le> age \<and> age \<le> 120 then Some age else None))"

definition candidate_boolean :: "pyval \<Rightarrow> bool" where
  "candidate_boolean value \<longleftrightarrow>
     value = PBool True
     \<or> py_casefold (py_strip (str_or_empty value))
         \<in> {S ''1'', S ''true'', S ''yes'', S ''on'', S ''enabled''}"

section \<open>The decision\<close>

text \<open>Each part of the decision either gives the reason for a refusal or a value.\<close>

definition candidate_identities :: "pydict \<Rightarrow> pystr list" where
  "candidate_identities candidate =
     filter (\<lambda>s. s \<noteq> [])
       (map (\<lambda>v. py_strip (py_str v))
         (filter (\<lambda>v. v \<noteq> PNone) (map (\<lambda>k. dict_get candidate (S k)) [''uid'', ''id'', ''user_id'', ''userId''])))"

definition candidate_identity :: "pydict \<Rightarrow> pystr \<Rightarrow> string + unit" where
  "candidate_identity candidate target =
     (if target = [] then Inl ''candidate_target_missing''
      else if candidate_identities candidate = [] then Inl ''candidate_identity_missing''
      else if set (candidate_identities candidate) \<noteq> {target} then Inl ''candidate_identity_mismatch''
      else Inr ())"

definition native_enabled :: "pydict option \<Rightarrow> bool" where
  "native_enabled pref =
     (case pref of None \<Rightarrow> False
      | Some p \<Rightarrow> candidate_boolean (candidate_profile_value p [''enabled'']))"

text \<open>The preference a source states: nothing, an invalid value, or a gender (\<^verbatim>\<open>any\<close> constrains
  nothing).\<close>

definition gender_constraint :: "pyval \<Rightarrow> string + string list" where
  "gender_constraint value =
     (case candidate_gender value True of
        None \<Rightarrow> Inl ''owner_gender_preference_invalid''
      | Some g \<Rightarrow> Inr (if g = ''any'' then [] else [g]))"

definition legacy_gender_value :: "pydict \<Rightarrow> pyval" where
  "legacy_gender_value owner =
     candidate_profile_value owner [''match_gender'', ''matchGender'', ''matchgender'']"

definition gender_constraints :: "pydict \<Rightarrow> pydict option \<Rightarrow> string + string list" where
  "gender_constraints owner pref =
     and_then (if legacy_gender_value owner \<noteq> PNone
               then gender_constraint (legacy_gender_value owner) else Inr []) (\<lambda>legacy.
     and_then (if native_enabled pref
               then gender_constraint (candidate_profile_value (the pref) [''gender_preference''])
               else Inr []) (\<lambda>native. Inr (legacy @ native)))"

definition gender_check :: "pydict \<Rightarrow> pydict option \<Rightarrow> pydict \<Rightarrow> string + unit" where
  "gender_check owner pref candidate =
     (case candidate_gender (candidate_profile_value candidate [''sex'', ''gender'']) False of
        None \<Rightarrow> Inl ''candidate_gender_missing''
      | Some g \<Rightarrow>
          and_then (gender_constraints owner pref) (\<lambda>cs.
            if \<exists>c \<in> set cs. c \<noteq> g then Inl ''candidate_gender_incompatible'' else Inr ()))"

definition property_constraint :: "pyval \<Rightarrow> string + pystr list" where
  "property_constraint value =
     (if value = PNone then Inr []
      else case candidate_property value of
             None \<Rightarrow> Inl ''owner_property_preference_invalid''
           | Some p \<Rightarrow> Inr [p])"

definition legacy_property_value :: "pydict \<Rightarrow> pyval" where
  "legacy_property_value owner =
     candidate_profile_value owner [''match_property'', ''matchProperty'', ''matchproperty'']"

definition property_constraints :: "pydict \<Rightarrow> pydict option \<Rightarrow> string + pystr list" where
  "property_constraints owner pref =
     and_then (property_constraint (legacy_property_value owner)) (\<lambda>legacy.
     and_then (if native_enabled pref
               then property_constraint (candidate_profile_value (the pref) [''property_preference''])
               else Inr []) (\<lambda>native. Inr (legacy @ native)))"

definition property_check :: "pydict \<Rightarrow> pydict option \<Rightarrow> pydict \<Rightarrow> string + unit" where
  "property_check owner pref candidate =
     and_then (property_constraints owner pref) (\<lambda>cs.
       if cs = [] then Inl ''owner_property_preference_missing''
       else if card (set cs) \<noteq> 1 then Inl ''owner_preferences_conflict''
       else case candidate_property
                   (candidate_profile_value candidate [''property'', ''profile_property'', ''attribute'']) of
              None \<Rightarrow> Inl ''candidate_property_missing''
            | Some p \<Rightarrow>
                if p \<noteq> hd cs then Inl ''candidate_property_incompatible'' else Inr ())"

definition or_int :: "pyval \<Rightarrow> int \<Rightarrow> pyval" where
  "or_int v n = (if v \<noteq> PNone then v else PInt n)"

definition age_bounds :: "pydict \<Rightarrow> pydict option \<Rightarrow> (pyval \<times> pyval) list" where
  "age_bounds owner pref =
     (let profile_minimum = candidate_profile_value owner [''match_min_age'', ''matchMinAge'', ''_web_match_min_age''];
          profile_maximum = candidate_profile_value owner [''match_max_age'', ''matchMaxAge'', ''_web_match_max_age''] in
      (if profile_minimum \<noteq> PNone \<or> profile_maximum \<noteq> PNone
       then [(or_int profile_minimum 18, or_int profile_maximum 120)] else [])
      @ (if native_enabled pref
         then [(or_int (candidate_profile_value (the pref) [''min_age'']) 18,
                or_int (candidate_profile_value (the pref) [''max_age'']) 120)] else []))"

fun narrow_ages :: "int \<Rightarrow> int \<Rightarrow> (pyval \<times> pyval) list \<Rightarrow> string + int \<times> int" where
  "narrow_ages lo hi [] = Inr (lo, hi)"
| "narrow_ages lo hi ((raw_lo, raw_hi) # bs) =
     (case (py_int (py_str raw_lo), py_int (py_str raw_hi)) of
        (Some a, Some b) \<Rightarrow>
          if \<not> (18 \<le> a \<and> a \<le> b \<and> b \<le> 120) then Inl ''owner_age_preference_invalid''
          else narrow_ages (max lo a) (min hi b) bs
      | _ \<Rightarrow> Inl ''owner_age_preference_invalid'')"

definition age_check :: "pydict \<Rightarrow> pydict option \<Rightarrow> pydict \<Rightarrow> string + unit" where
  "age_check owner pref candidate =
     and_then (narrow_ages 18 120 (age_bounds owner pref)) (\<lambda>(lo, hi).
       if lo > hi then Inl ''owner_preferences_conflict''
       else
         let raw = candidate_profile_value candidate [''age''] in
         case candidate_age raw of
           None \<Rightarrow> Inl (if raw \<noteq> PNone then ''candidate_underage_or_invalid'' else ''candidate_age_missing'')
         | Some age \<Rightarrow>
             if \<not> (lo \<le> age \<and> age \<le> hi) then Inl ''candidate_age_incompatible'' else Inr ())"

definition compatibility_checks ::
  "pydict \<Rightarrow> pydict \<Rightarrow> pyval \<Rightarrow> pydict option \<Rightarrow> string + unit" where
  "compatibility_checks owner candidate target_uid pref =
     and_then (candidate_identity candidate (py_strip (str_or_empty target_uid))) (\<lambda>_.
     and_then (gender_check owner pref candidate) (\<lambda>_.
     and_then (property_check owner pref candidate) (\<lambda>_.
       age_check owner pref candidate)))"

record compatibility_decision =
  compat_allowed :: bool
  compat_reason :: string

definition agent_candidate_compatibility ::
  "pydict option \<Rightarrow> pydict option \<Rightarrow> pyval \<Rightarrow> pydict option \<Rightarrow> compatibility_decision" where
  "agent_candidate_compatibility owner_profile candidate_profile target_uid pref =
     (case compatibility_checks (case owner_profile of None \<Rightarrow> [] | Some d \<Rightarrow> d)
             (case candidate_profile of None \<Rightarrow> [] | Some d \<Rightarrow> d) target_uid pref of
        Inl reason \<Rightarrow> \<lparr>compat_allowed = False, compat_reason = reason\<rparr>
      | Inr _ \<Rightarrow> \<lparr>compat_allowed = True, compat_reason = ''allowed''\<rparr>)"

section \<open>Properties\<close>

lemma narrow_ages_bounds:
  "narrow_ages lo hi bs = Inr (l, h) \<Longrightarrow>
     lo \<le> l \<and> h \<le> hi
     \<and> (\<forall>(a, b) \<in> set bs. \<exists>m n. py_int (py_str a) = Some m \<and> py_int (py_str b) = Some n
          \<and> m \<le> l \<and> h \<le> n)"
  by (induction lo hi bs rule: narrow_ages.induct) (fastforce split: option.splits if_splits)+

lemma narrow_ages_prefix:
  "narrow_ages lo hi (as @ bs) = Inr (l, h) \<Longrightarrow>
     \<exists>l' h'. narrow_ages lo hi as = Inr (l', h') \<and> l' \<le> l \<and> h \<le> h'"
proof (induction lo hi as rule: narrow_ages.induct)
  case (1 lo hi)
  then show ?case using narrow_ages_bounds [of lo hi bs l h] by simp
next
  case (2 lo hi a b as)
  then show ?case by (auto split: option.splits if_splits)
qed

lemma allowed_checks:
  "compat_allowed (agent_candidate_compatibility (Some owner) (Some candidate) uid pref) \<longleftrightarrow>
     candidate_identity candidate (py_strip (str_or_empty uid)) = Inr ()
     \<and> gender_check owner pref candidate = Inr ()
     \<and> property_check owner pref candidate = Inr ()
     \<and> age_check owner pref candidate = Inr ()"
  by (auto simp: agent_candidate_compatibility_def compatibility_checks_def and_then_def
      split: sum.splits)

lemma candidate_age_Some:
  "candidate_age v = Some age \<longleftrightarrow>
     v \<noteq> PNone \<and> (\<forall>b. v \<noteq> PBool b) \<and> py_int (py_str v) = Some age \<and> 18 \<le> age \<and> age \<le> 120"
  by (auto simp: candidate_age_def split: pyval.splits option.splits)

lemma age_check_ok:
  assumes "age_check owner pref candidate = Inr ()"
  shows "\<exists>age. py_int (py_str (candidate_profile_value candidate [''age''])) = Some age
    \<and> 18 \<le> age \<and> age \<le> 120
    \<and> (\<forall>(a, b) \<in> set (age_bounds owner pref). \<exists>m n. py_int (py_str a) = Some m
         \<and> py_int (py_str b) = Some n \<and> m \<le> age \<and> age \<le> n)"
proof -
  obtain l h age where n: "narrow_ages 18 120 (age_bounds owner pref) = Inr (l, h)"
    and age: "candidate_age (candidate_profile_value candidate [''age'']) = Some age"
    and range: "l \<le> age" "age \<le> h"
    using assms
    by (fastforce simp: age_check_def and_then_Inr_iff Let_def split: if_splits option.splits)
  have "\<forall>(a, b) \<in> set (age_bounds owner pref). \<exists>m n. py_int (py_str a) = Some m
      \<and> py_int (py_str b) = Some n \<and> m \<le> age \<and> age \<le> n"
    using narrow_ages_bounds [OF n] range by fastforce
  with age show ?thesis unfolding candidate_age_Some by (intro exI [of _ age] conjI) simp_all
qed

lemma gender_check_ok:
  "gender_check owner pref candidate = Inr () \<longleftrightarrow>
     (\<exists>g cs. candidate_gender (candidate_profile_value candidate [''sex'', ''gender'']) False = Some g
        \<and> gender_constraints owner pref = Inr cs \<and> (\<forall>c \<in> set cs. c = g))"
  by (auto simp: gender_check_def and_then_Inr_iff split: option.splits if_splits)

lemma property_check_ok:
  "property_check owner pref candidate = Inr () \<longleftrightarrow>
     (\<exists>p cs. candidate_property (candidate_profile_value candidate
                [''property'', ''profile_property'', ''attribute'']) = Some p
        \<and> property_constraints owner pref = Inr cs \<and> set cs = {p})"
    (is "_ \<longleftrightarrow> (\<exists>p cs. ?cp = Some p \<and> _ \<and> _)")
proof (cases "property_constraints owner pref")
  case (Inr cs)
  have "cs \<noteq> [] \<and> card (set cs) = 1 \<and> p = hd cs \<longleftrightarrow> set cs = {p}" for p
    by (cases cs) (auto simp: card_1_singleton_iff)
  with Inr show ?thesis by (cases ?cp) (auto simp: property_check_def)
qed (simp add: property_check_def)

lemma candidate_identity_ok:
  "candidate_identity candidate target = Inr () \<longleftrightarrow>
     target \<noteq> [] \<and> set (candidate_identities candidate) = {target}"
  by (auto simp: candidate_identity_def)


lemmas candidate_eval = candidate_identity_def candidate_identities_def gender_check_def
  gender_constraints_def gender_constraint_def legacy_gender_value_def property_check_def
  property_constraints_def property_constraint_def legacy_property_value_def age_check_def
  age_bounds_def native_enabled_def candidate_profile_value_def candidate_gender_def
  gender_aliases_def candidate_property_def candidate_age_def candidate_boolean_def or_int_def
  ascii_upper_def dict_get_def str_or_empty_def S_def py_strip_def py_space_def py_casefold_def
  casefold_cp_def lower_cp_def nat_str.simps py_int_def unsigned_value_def decimal_value_def
  decimal_zeros_def

definition sample_owner :: pydict where
  "sample_owner = [(S ''match_property'', PStr (S ''z'')), (S ''match_min_age'', PInt 21)]"

definition sample_candidate :: pydict where
  "sample_candidate = [(S ''uid'', PStr (S ''42'')), (S ''id'', PInt 42), (S ''sex'', PInt 2),
     (S ''property'', PStr (S ''Z'')), (S ''age'', PStr (S ''25''))]"

definition sample_preference :: pydict where
  "sample_preference = [(S ''enabled'', PBool True), (S ''gender_preference'', PStr (S ''female'')),
     (S ''property_preference'', PStr (S ''Z'')), (S ''max_age'', PInt 30)]"

lemma sample_allowed:
  "compat_allowed (agent_candidate_compatibility (Some sample_owner) (Some sample_candidate)
     (PStr (S ''42'')) (Some sample_preference))"
  unfolding allowed_checks
  by (intro conjI) (simp_all add: candidate_eval sample_owner_def sample_candidate_def
      sample_preference_def)


text \<open>Next to a legacy property preference, an enabled native match preference only narrows the
  eligible set: whoever is allowed with it is allowed without it.\<close>

theorem native_preference_narrows:
  assumes "legacy_property_value owner \<noteq> PNone"
    and "compat_allowed (agent_candidate_compatibility (Some owner) (Some candidate) uid (Some pref))"
  shows "compat_allowed (agent_candidate_compatibility (Some owner) (Some candidate) uid None)"
proof -
  have legacy_gender: "\<exists>as bs. gender_constraints owner None = Inr as \<and> cs = as @ bs"
    if "gender_constraints owner (Some pref) = Inr cs" for cs
    using that
    by (cases "if legacy_gender_value owner \<noteq> PNone
               then gender_constraint (legacy_gender_value owner) else Inr []")
      (auto simp: gender_constraints_def native_enabled_def and_then_Inr_iff)
  have legacy_property: "\<exists>as bs. property_constraints owner None = Inr as \<and> as \<noteq> [] \<and> cs = as @ bs"
    if "property_constraints owner (Some pref) = Inr cs" for cs
    using that assms(1)
    by (cases "property_constraint (legacy_property_value owner)")
      (auto simp: property_constraints_def native_enabled_def property_constraint_def and_then_Inr_iff
        split: option.splits if_splits)
  have bounds: "\<exists>bs. age_bounds owner (Some pref) = age_bounds owner None @ bs"
    by (simp add: age_bounds_def native_enabled_def Let_def)
  have "age_check owner None candidate = Inr ()" if ok: "age_check owner (Some pref) candidate = Inr ()"
  proof -
    obtain l h age where n: "narrow_ages 18 120 (age_bounds owner (Some pref)) = Inr (l, h)"
      and age: "candidate_age (candidate_profile_value candidate [''age'']) = Some age"
      and range: "l \<le> age" "age \<le> h"
      using ok by (fastforce simp: age_check_def and_then_Inr_iff Let_def split: if_splits option.splits)
    obtain l' h' where "narrow_ages 18 120 (age_bounds owner None) = Inr (l', h')" "l' \<le> l" "h \<le> h'"
      using narrow_ages_prefix n bounds by metis
    with age range show ?thesis by (simp add: age_check_def Let_def)
  qed
  moreover have "gender_check owner None candidate = Inr ()"
    if "gender_check owner (Some pref) candidate = Inr ()"
    using that legacy_gender unfolding gender_check_ok by fastforce
  moreover have "property_check owner None candidate = Inr ()"
    if ok: "property_check owner (Some pref) candidate = Inr ()"
  proof -
    obtain p cs where p: "candidate_property (candidate_profile_value candidate
          [''property'', ''profile_property'', ''attribute'']) = Some p"
      and cs: "property_constraints owner (Some pref) = Inr cs" "set cs = {p}"
      using ok unfolding property_check_ok by blast
    obtain as bs where as: "property_constraints owner None = Inr as" "as \<noteq> []" "cs = as @ bs"
      using legacy_property [OF cs(1)] by blast
    then have "set as = {p}" using cs(2) by (cases as) auto
    with p as(1) show ?thesis unfolding property_check_ok by blast
  qed
  ultimately show ?thesis using assms(2) unfolding allowed_checks by blast
qed

theorem native_preference_narrows_witness:
  "compat_allowed (agent_candidate_compatibility (Some sample_owner) (Some sample_candidate)
     (PStr (S ''42'')) None)"
proof (rule native_preference_narrows)
  show "legacy_property_value sample_owner \<noteq> PNone"
    by (simp add: candidate_eval sample_owner_def)
qed (rule sample_allowed)

text \<open>Without a legacy property preference the native one does not narrow: a candidate refused
  for want of a property preference becomes eligible when a native preference is added.\<close>

theorem native_preference_can_admit:
  "compat_reason (agent_candidate_compatibility (Some []) (Some sample_candidate) (PStr (S ''42'')) None)
     = ''owner_property_preference_missing''
   \<and> compat_allowed (agent_candidate_compatibility (Some []) (Some sample_candidate) (PStr (S ''42''))
       (Some sample_preference))"
proof
  show "compat_reason (agent_candidate_compatibility (Some []) (Some sample_candidate)
      (PStr (S ''42'')) None) = ''owner_property_preference_missing''"
    by (simp add: agent_candidate_compatibility_def compatibility_checks_def candidate_eval
        sample_candidate_def)
  show "compat_allowed (agent_candidate_compatibility (Some []) (Some sample_candidate)
      (PStr (S ''42'')) (Some sample_preference))"
    unfolding allowed_checks
    by (intro conjI) (simp_all add: candidate_eval sample_candidate_def sample_preference_def)
qed

end
