(* ===== verification/Store_Rows.thy ===== *)
theory Store_Rows
  imports Autonomy_Text Contact_Policy Candidate_Compatibility
begin

text \<open>
  The tables of the agent (\<^verbatim>\<open>bbw_prod/models.py\<close>) as records, the database that holds them, and the
  helper functions of \<^verbatim>\<open>bbw_agent/repositories.py\<close>.

  A table is the list of its rows in whatever order the database keeps them; a query that names a
  row takes the first row that satisfies it, an \<^verbatim>\<open>UPDATE ... WHERE\<close> is \<open>update_where\<close> and its
  row count is \<open>count_where\<close>.  A comparison with NULL is false.  Columns restricted by a CHECK
  constraint to an enumeration are datatypes or, where the code computes with the text, strings.
  A repository method runs inside a transaction that the caller rolls back when it raises: a
  result is an error, or a value with the new database.
\<close>

section \<open>Rows\<close>

datatype execution_status =
    X_QUEUED | X_RUNNING | X_SUCCEEDED | X_FAILED | X_CANCELLED | X_MANUAL_REVIEW

record task_row =
  t_id :: uuid
  t_owner :: uuid
  t_account :: uuid
  t_type :: task_type
  t_action :: pystr
  t_status :: task_status
  t_key :: pystr
  t_action_key :: "pystr option"
  t_policy_version :: int
  t_contact_version :: "int option"
  t_stage :: "pystr option"
  t_execution_version :: int
  t_runner_version :: int
  t_connection :: uuid
  t_fingerprint :: pystr
  t_source_id :: "uuid option"
  t_source :: "pystr option"
  t_slot :: "pystr option"
  t_target :: "pystr option"
  t_instruction :: pystr
  t_scheduled_for :: "instant option"
  t_model_run :: "uuid option"
  t_execution :: "uuid option"
  t_error :: "pystr option"
  t_result :: "pystr option"
  t_budget_day :: "int option"
  t_not_before :: "instant option"
  t_attempts :: int
  t_lease_owner :: "pystr option"
  t_lease_token :: "pystr option"
  t_lease_until :: "instant option"
  t_queued_at :: instant
  t_started_at :: "instant option"
  t_dispatch_at :: "instant option"
  t_completed_at :: "instant option"
  t_unknown :: bool
  t_created_at :: instant
  t_updated_at :: instant

record execution_row =
  x_id :: uuid
  x_owner :: uuid
  x_account :: uuid
  x_action :: pystr
  x_status :: execution_status
  x_key :: pystr
  x_setting_version :: int
  x_target_snapshot :: pydict
  x_parameter_snapshot :: pydict
  x_approval :: pystr
  x_trigger :: pystr
  x_error :: "pystr option"
  x_result :: "pystr option"
  x_queued_at :: instant
  x_started_at :: "instant option"
  x_completed_at :: "instant option"
  x_cancelled_at :: "instant option"
  x_created_at :: instant
  x_updated_at :: instant

record setting_row =
  s_id :: uuid
  s_owner :: uuid
  s_enabled :: bool
  s_auto_reply :: bool
  s_reply_started :: "instant option"
  s_posts :: bool
  s_relationships :: bool
  s_discovery :: bool
  s_match :: bool
  s_outreach :: bool
  s_follow_discovered :: bool
  s_friend_request :: bool
  s_actions :: "pystr list"
  s_brief :: pystr
  s_targets :: "pystr list"
  s_timezone :: pystr
  s_active_start :: int
  s_active_end :: int
  s_min_interval :: int
  s_total_limit :: int
  s_reply_limit :: int
  s_post_limit :: int
  s_relationship_limit :: int
  s_post_interval :: int
  s_discovery_minutes :: int
  s_discovery_seconds :: int
  s_failure_limit :: int
  s_failures :: int
  s_next_run :: "instant option"
  s_last_run :: "instant option"
  s_last_action :: "instant option"
  s_last_post :: "instant option"
  s_last_discovery :: "instant option"
  s_last_match :: "instant option"
  s_last_outreach :: "instant option"
  s_halted_at :: "instant option"
  s_halted_reason :: "pystr option"
  s_version :: int
  s_updated_at :: instant

record usage_row =
  u_id :: uuid
  u_owner :: uuid
  u_day :: int
  u_total :: int
  u_reply :: int
  u_outreach :: int
  u_post :: int
  u_relationship :: int
  u_browse :: int
  u_match :: int
  u_failed :: int
  u_unknown :: int
  u_last_action :: "instant option"
  u_updated_at :: instant

record candidate_row =
  c_id :: uuid
  c_owner :: uuid
  c_target :: pystr
  c_source :: pystr
  c_display :: "pystr option"
  c_profile :: pydict
  c_first_seen :: instant
  c_last_seen :: instant
  c_last_interaction :: "instant option"
  c_last_action :: "pystr option"
  c_updated_at :: instant

record contact_row =
  k_id :: uuid
  k_owner :: uuid
  k_peer :: pystr
  k_mode :: pystr
  k_stage_override :: "pystr option"
  k_paused :: bool
  k_min_delay :: int
  k_max_age :: int
  k_terms :: "pystr list"
  k_version :: int
  k_updated_at :: instant

record relation_row =
  r_owner :: uuid
  r_subject :: pystr
  r_kind :: string
  r_status :: string
  r_ended_at :: "instant option"

record conversation_row =
  v_id :: uuid
  v_owner :: uuid
  v_provider :: string
  v_peer :: pystr
  v_title :: "pystr option"
  v_last_message_at :: "instant option"
  v_updated_at :: instant

record message_row =
  m_id :: uuid
  m_owner :: uuid
  m_conversation :: uuid
  m_provider :: string
  m_upstream_id :: "pystr option"
  m_sender :: "pystr option"
  m_direction :: string
  m_type :: pystr
  m_body :: "pystr option"
  m_status :: pystr
  m_extra :: pydict
  m_occurred_at :: instant
  m_created_at :: instant

text \<open>The rows a dispatch is checked against; the columns the agent reads.  Of an encrypted API key,
  a JSON value, only its canonical dump and its truth value are read.\<close>

record system_row =
  y_enabled :: bool
  y_account_actions :: bool
  y_autonomous :: bool

record account_row =
  a_id :: uuid
  a_user :: uuid
  a_provider :: pystr
  a_uid :: pystr

record user_row =
  n_id :: uuid
  n_status :: string
  n_disabled_at :: "instant option"
  n_runner :: bool
  n_account_actions :: bool
  n_autonomous :: bool
  n_profile :: "pydict option"
  n_online_pool :: bool

record agent_row =
  g_id :: uuid
  g_owner :: uuid
  g_enabled :: bool
  g_connection :: "uuid option"
  g_version :: int
  g_context_limit :: int
  g_instructions :: "pystr option"
  g_max_tokens :: int
  g_temperature :: int

record exec_setting_row =
  e_id :: uuid
  e_owner :: uuid
  e_enabled :: bool
  e_auto_send :: bool
  e_actions :: "pystr list"
  e_version :: int
  e_updated_at :: instant

record connection_row =
  l_id :: uuid
  l_owner :: uuid
  l_enabled :: bool
  l_key_json :: pystr
  l_has_key :: bool
  l_test_status :: pystr
  l_provider :: pystr
  l_base_url :: pystr
  l_model :: pystr

section \<open>The database\<close>

record agent_db =
  d_tasks :: "task_row list"
  d_executions :: "execution_row list"
  d_settings :: "setting_row list"
  d_usages :: "usage_row list"
  d_candidates :: "candidate_row list"
  d_contacts :: "contact_row list"
  d_relations :: "relation_row list"
  d_conversations :: "conversation_row list"
  d_messages :: "message_row list"
  d_system :: "system_row option"
  d_accounts :: "account_row list"
  d_users :: "user_row list"
  d_agents :: "agent_row list"
  d_exec_settings :: "exec_setting_row list"
  d_connections :: "connection_row list"
  d_preferences :: "(uuid \<times> pydict) list"

definition update_where :: "('r \<Rightarrow> bool) \<Rightarrow> ('r \<Rightarrow> 'r) \<Rightarrow> 'r list \<Rightarrow> 'r list" where
  "update_where P f rows = map (\<lambda>r. if P r then f r else r) rows"

definition count_where :: "('r \<Rightarrow> bool) \<Rightarrow> 'r list \<Rightarrow> nat" where
  "count_where P rows = length (filter P rows)"

lemma update_where_simps [simp]:
  "update_where P f [] = []"
  "update_where P f (r # rows) = (if P r then f r else r) # update_where P f rows"
  "length (update_where P f rows) = length rows"
  by (simp_all add: update_where_def)

lemma set_update_where: "set (update_where P f rows) = (\<lambda>r. if P r then f r else r) ` set rows"
  by (simp add: update_where_def)

lemma in_update_where:
  "r' \<in> set (update_where P f rows) \<longleftrightarrow> (\<exists>r \<in> set rows. r' = (if P r then f r else r))"
  by (auto simp: update_where_def)

lemma update_where_none: "\<forall>r \<in> set rows. \<not> P r \<Longrightarrow> update_where P f rows = rows"
  by (induction rows) auto

lemma count_where_0: "count_where P rows = 0 \<longleftrightarrow> (\<forall>r \<in> set rows. \<not> P r)"
  by (auto simp: count_where_def filter_empty_conv)

lemma find_update_where:
  "(\<And>r. P r \<Longrightarrow> Q (f r) = Q r) \<Longrightarrow>
     find Q (update_where P f rows) = map_option (\<lambda>r. if P r then f r else r) (find Q rows)"
  by (induction rows) auto

lemma map_update_where: "(\<And>r. P r \<Longrightarrow> k (f r) = k r) \<Longrightarrow> map k (update_where P f rows) = map k rows"
  by (induction rows) auto

lemma find_SomeD: "find P xs = Some x \<Longrightarrow> x \<in> set xs \<and> P x"
  by (auto simp: find_Some_iff)

lemma find_NoneD: "find P xs = None \<Longrightarrow> x \<in> set xs \<Longrightarrow> \<not> P x"
  by (auto simp: find_None_iff)

text \<open>Primary keys name one row.\<close>

lemma distinct_map_inject: "distinct (map k xs) \<Longrightarrow> x \<in> set xs \<Longrightarrow> y \<in> set xs \<Longrightarrow> k x = k y \<Longrightarrow> x = y"
  by (auto simp: distinct_map inj_on_def)

lemma find_key: "distinct (map k xs) \<Longrightarrow> x \<in> set xs \<Longrightarrow> find (\<lambda>y. k y = k x) xs = Some x"
  by (induction xs) (auto simp: image_iff)

text \<open>Writing one row back: the other rows, the order and every key the row keeps stay as they are.\<close>

lemma put_row:
  assumes "distinct (map k rows)" and "s \<in> set rows" and "k row = k s"
  shows "f row = f s \<Longrightarrow> map f (update_where (\<lambda>y. k y = k row) (\<lambda>_. row) rows) = map f rows"
    and "row \<in> set (update_where (\<lambda>y. k y = k row) (\<lambda>_. row) rows)"
    and "s' \<in> set rows \<Longrightarrow> s' \<noteq> s \<Longrightarrow> s' \<in> set (update_where (\<lambda>y. k y = k row) (\<lambda>_. row) rows)"
    and "y \<in> set (update_where (\<lambda>y. k y = k row) (\<lambda>_. row) rows) \<Longrightarrow> y = row \<or> y \<in> set rows \<and> y \<noteq> s"
    and "row = s \<Longrightarrow> update_where (\<lambda>y. k y = k row) (\<lambda>_. row) rows = rows"
proof -
  have only: "y = s" if "y \<in> set rows" "k y = k row" for y
    using distinct_map_inject [OF assms(1) that(1) assms(2)] that(2) assms(3) by simp
  show "map f (update_where (\<lambda>y. k y = k row) (\<lambda>_. row) rows) = map f rows" if "f row = f s"
    using only that by (auto simp: update_where_def)
  show "row \<in> set (update_where (\<lambda>y. k y = k row) (\<lambda>_. row) rows)"
    using assms by (auto simp: in_update_where intro!: bexI [of _ s])
  show "s' \<in> set (update_where (\<lambda>y. k y = k row) (\<lambda>_. row) rows)" if "s' \<in> set rows" "s' \<noteq> s"
    using that only by (auto simp: in_update_where intro!: bexI [of _ s'])
  show "y = row \<or> y \<in> set rows \<and> y \<noteq> s"
    if "y \<in> set (update_where (\<lambda>y. k y = k row) (\<lambda>_. row) rows)"
    using that assms(3) by (auto simp: in_update_where split: if_splits)
  show "update_where (\<lambda>y. k y = k row) (\<lambda>_. row) rows = rows" if "row = s"
    unfolding update_where_def using only that by (intro map_idI) auto
qed

lemma find_append:
  "find P (xs @ ys) = (case find P xs of None \<Rightarrow> find P ys | Some x \<Rightarrow> Some x)"
  by (induction xs) auto

section \<open>Normalisation\<close>

definition SUPPORTED_ACCOUNT_ACTION_TYPES :: "pystr list" where
  "SUPPORTED_ACCOUNT_ACTION_TYPES =
     [S ''send_private_message'', S ''publish_text_post'', S ''follow_user'', S ''unfollow_user'',
      S ''browse_online_users'', S ''request_text_match'', S ''request_friend'']"

definition row_action :: "pystr \<Rightarrow> py_error + pystr" where
  "row_action value =
     (let normalized = py_strip value in
      if normalized \<notin> set SUPPORTED_ACCOUNT_ACTION_TYPES
      then Inl (ValueError ''unsupported account action type'') else Inr normalized)"

fun allowed_loop :: "pystr list \<Rightarrow> pystr list \<Rightarrow> py_error + pystr list" where
  "allowed_loop normalized [] = Inr normalized"
| "allowed_loop normalized (v # vs) =
     and_then (row_action v) (\<lambda>a.
       allowed_loop (if a \<notin> set normalized then normalized @ [a] else normalized) vs)"

definition row_allowed_actions :: "pystr list \<Rightarrow> py_error + pystr list" where
  "row_allowed_actions vs = allowed_loop [] vs"

definition row_key :: "pystr \<Rightarrow> py_error + pystr" where
  "row_key value =
     (let normalized = py_strip value in
      if \<not> (8 \<le> length normalized \<and> length normalized \<le> 160) \<or> (\<exists>c \<in> set normalized. c < 32)
      then Inl (ValueError ''invalid account action idempotency key'') else Inr normalized)"

definition code_char :: "nat \<Rightarrow> bool" where
  "code_char c \<longleftrightarrow> 48 \<le> c \<and> c \<le> 57 \<or> 65 \<le> c \<and> c \<le> 90 \<or> 97 \<le> c \<and> c \<le> 122 \<or> c \<in> {95, 46, 45}"

definition row_error_code :: "pystr \<Rightarrow> pystr \<Rightarrow> py_error + pystr" where
  "row_error_code value fallback =
     (let stripped = py_lower (py_strip (if value = [] then fallback else value));
          normalized = (if stripped = [] then fallback else stripped) in
      if length normalized > 64 \<or> (\<exists>c \<in> set normalized. \<not> code_char c)
      then Inl (ValueError ''invalid stable error code'') else Inr normalized)"

fun targets_loop :: "pystr list \<Rightarrow> pystr list \<Rightarrow> py_error + pystr list" where
  "targets_loop normalized [] =
     (if length normalized > 100
      then Inl (ValueError ''autonomous target allowlist is too large'') else Inr normalized)"
| "targets_loop normalized (v # vs) =
     (let target = py_strip v in
      if target = [] \<or> length target > 128 \<or> (\<exists>c \<in> set target. c < 33)
         \<or> (\<exists>c \<in> set target. c \<in> {42, 63, 91, 93})
      then Inl (ValueError ''invalid autonomous target allowlist entry'')
      else targets_loop (if target \<notin> set normalized then normalized @ [target] else normalized) vs)"

definition row_targets :: "pystr list \<Rightarrow> py_error + pystr list" where
  "row_targets vs = targets_loop [] vs"

text \<open>\<^verbatim>\<open>_normalize_autonomy_targets((value,))[0]\<close>.\<close>

definition row_target :: "pystr \<Rightarrow> py_error + pystr" where
  "row_target value = and_then (row_targets [value]) (\<lambda>ts. Inr (hd ts))"

section \<open>The daily budget\<close>

datatype usage_category =
    Cat_reply | Cat_outreach | Cat_post | Cat_relationship | Cat_browse | Cat_match

definition usage_category :: "pystr \<Rightarrow> pystr \<Rightarrow> usage_category" where
  "usage_category type_text action =
     (let normalized_task = py_strip type_text; normalized_action = py_strip action in
      if normalized_task = S ''reply_to_message'' then Cat_reply
      else if normalized_task = S ''proactive_message'' then Cat_outreach
      else if normalized_task = S ''browse_online'' then Cat_browse
      else if normalized_task = S ''request_match'' then Cat_match
      else if normalized_action = S ''publish_text_post'' then Cat_post
      else Cat_relationship)"

fun usage_field :: "usage_category \<Rightarrow> usage_row \<Rightarrow> int" where
  "usage_field Cat_reply u = u_reply u"
| "usage_field Cat_outreach u = u_outreach u"
| "usage_field Cat_post u = u_post u"
| "usage_field Cat_relationship u = u_relationship u"
| "usage_field Cat_browse u = u_browse u"
| "usage_field Cat_match u = u_match u"

fun set_usage_field :: "usage_category \<Rightarrow> int \<Rightarrow> usage_row \<Rightarrow> usage_row" where
  "set_usage_field Cat_reply n u = u\<lparr>u_reply := n\<rparr>"
| "set_usage_field Cat_outreach n u = u\<lparr>u_outreach := n\<rparr>"
| "set_usage_field Cat_post n u = u\<lparr>u_post := n\<rparr>"
| "set_usage_field Cat_relationship n u = u\<lparr>u_relationship := n\<rparr>"
| "set_usage_field Cat_browse n u = u\<lparr>u_browse := n\<rparr>"
| "set_usage_field Cat_match n u = u\<lparr>u_match := n\<rparr>"

definition usage_count :: "usage_row option \<Rightarrow> usage_category \<Rightarrow> int" where
  "usage_count usage category = (case usage of None \<Rightarrow> 0 | Some u \<Rightarrow> usage_field category u)"

definition increment_usage :: "usage_category \<Rightarrow> usage_row \<Rightarrow> usage_row" where
  "increment_usage category u = set_usage_field category (usage_field category u + 1) u"

definition refund_usage :: "pystr \<Rightarrow> pystr \<Rightarrow> usage_row \<Rightarrow> py_error + usage_row" where
  "refund_usage type_text action u =
     (let category = usage_category type_text action in
      if u_total u \<le> 0 \<or> usage_field category u \<le> 0
      then Inl (RuntimeError ''cannot refund an unreserved autonomous action budget'')
      else Inr (set_usage_field category (usage_field category u - 1) (u\<lparr>u_total := u_total u - 1\<rparr>)))"

definition AUTONOMY_BROWSE_DAILY_LIMIT :: int where
  "AUTONOMY_BROWSE_DAILY_LIMIT = 8"

definition AUTONOMY_MATCH_DAILY_LIMIT :: int where
  "AUTONOMY_MATCH_DAILY_LIMIT = 6"

definition setting_total_limit :: "setting_row \<Rightarrow> int" where
  "setting_total_limit s = max 1 (if s_total_limit s = 0 then 1 else s_total_limit s)"

definition setting_category_limit :: "setting_row \<Rightarrow> usage_category \<Rightarrow> int" where
  "setting_category_limit s category =
     (let total = setting_total_limit s in
      case category of
        Cat_reply \<Rightarrow> min total (s_reply_limit s)
      | Cat_outreach \<Rightarrow> min total (s_reply_limit s)
      | Cat_post \<Rightarrow> min total (s_post_limit s)
      | Cat_relationship \<Rightarrow> min total (s_relationship_limit s)
      | Cat_browse \<Rightarrow> min total AUTONOMY_BROWSE_DAILY_LIMIT
      | Cat_match \<Rightarrow> min total AUTONOMY_MATCH_DAILY_LIMIT)"

definition daily_budget_available ::
  "usage_row option \<Rightarrow> setting_row \<Rightarrow> pystr \<Rightarrow> pystr \<Rightarrow> bool" where
  "daily_budget_available usage s type_text action =
     (let total_count = (case usage of None \<Rightarrow> 0 | Some u \<Rightarrow> u_total u) in
      if total_count \<ge> setting_total_limit s then False
      else
        let category = usage_category type_text action in
        usage_count usage category < setting_category_limit s category)"

text \<open>The category of a task row.\<close>

definition row_category :: "task_row \<Rightarrow> usage_category" where
  "row_category t = usage_category (task_type_value (t_type t)) (t_action t)"

lemma usage_field_set [simp]:
  "usage_field c (set_usage_field c' n u) = (if c = c' then n else usage_field c u)"
  by (cases c; cases c') simp_all

lemma usage_field_frame [simp]:
  "usage_field c (u\<lparr>u_total := n\<rparr>) = usage_field c u"
  "usage_field c (u\<lparr>u_last_action := a\<rparr>) = usage_field c u"
  "usage_field c (u\<lparr>u_updated_at := i\<rparr>) = usage_field c u"
  "usage_field c (u\<lparr>u_failed := n\<rparr>) = usage_field c u"
  "usage_field c (u\<lparr>u_unknown := n\<rparr>) = usage_field c u"
  by (cases c; simp)+

lemma set_usage_frame [simp]:
  "u_id (set_usage_field c n u) = u_id u" "u_owner (set_usage_field c n u) = u_owner u"
  "u_day (set_usage_field c n u) = u_day u" "u_total (set_usage_field c n u) = u_total u"
  "u_failed (set_usage_field c n u) = u_failed u" "u_unknown (set_usage_field c n u) = u_unknown u"
  "u_last_action (set_usage_field c n u) = u_last_action u"
  by (cases c; simp)+

lemma row_action_ok: "row_action v = Inr a \<Longrightarrow> a \<in> set SUPPORTED_ACCOUNT_ACTION_TYPES"
  by (auto simp: row_action_def Let_def split: if_splits)

lemma row_key_ok: "row_key v = Inr k \<Longrightarrow> 8 \<le> length k \<and> length k \<le> 160 \<and> row_key k = Inr k"
  by (auto simp: row_key_def Let_def split: if_splits)

lemma row_error_code_ok: "row_error_code v f = Inr c \<Longrightarrow> length c \<le> 64 \<and> (\<forall>x \<in> set c. code_char x)"
  by (auto simp: row_error_code_def Let_def split: if_splits)

end
