(* ===== verification/Action_Executions.thy ===== *)
theory Action_Executions
  imports Store_Rows "HOL-Library.Product_Lexorder" "HOL-Library.Option_ord"
begin

text \<open>
  \<^verbatim>\<open>AgentActionExecutionRepository\<close> of \<^verbatim>\<open>bbw_agent/repositories.py\<close>: the audit rows of account
  actions, their queue and their state machine.  The clock reading of \<^verbatim>\<open>utcnow()\<close> is the
  argument \<open>now\<close>, the fresh \<^verbatim>\<open>uuid4\<close> the argument \<open>new_id\<close>; \<open>locked\<close> says which rows
  other transactions hold, the rows \<^verbatim>\<open>SKIP LOCKED\<close> passes over.
\<close>

section \<open>Operations\<close>

definition AGENT_RUNNING_TIMEOUT :: int where
  "AGENT_RUNNING_TIMEOUT = minutes 15"

definition ACTION_EXECUTION_TIMEOUT_FAILURE_CODE :: pystr where
  "ACTION_EXECUTION_TIMEOUT_FAILURE_CODE = S ''execution_timeout_unknown''"

definition SUPPORTED_ACTION_APPROVAL_SOURCES :: "pystr set" where
  "SUPPORTED_ACTION_APPROVAL_SOURCES = {S ''user_explicit'', S ''user_allowlist''}"

definition SUPPORTED_ACTION_TRIGGER_SOURCES :: "pystr set" where
  "SUPPORTED_ACTION_TRIGGER_SOURCES = {S ''user'', S ''model'', S ''schedule'', S ''system''}"

definition exec_get :: "uuid \<Rightarrow> uuid \<Rightarrow> agent_db \<Rightarrow> execution_row option" where
  "exec_get owner eid d = find (\<lambda>x. x_owner x = owner \<and> x_id x = eid) (d_executions d)"

definition exec_find_key :: "uuid \<Rightarrow> pystr \<Rightarrow> pystr \<Rightarrow> agent_db \<Rightarrow> execution_row option" where
  "exec_find_key owner action key d =
     find (\<lambda>x. x_owner x = owner \<and> x_action x = action \<and> x_key x = key) (d_executions d)"

definition exec_get_by_idempotency ::
  "uuid \<Rightarrow> pystr \<Rightarrow> pystr \<Rightarrow> agent_db \<Rightarrow> py_error + execution_row option" where
  "exec_get_by_idempotency owner action key d =
     and_then (row_action action) (\<lambda>a. and_then (row_key key) (\<lambda>k. Inr (exec_find_key owner a k d)))"

text \<open>Writing the attributes of a loaded row back.\<close>

definition put_execution :: "execution_row \<Rightarrow> agent_db \<Rightarrow> agent_db" where
  "put_execution x d =
     d\<lparr>d_executions := update_where (\<lambda>y. x_id y = x_id x) (\<lambda>_. x) (d_executions d)\<rparr>"

definition stale_running :: "execution_row \<Rightarrow> instant \<Rightarrow> bool" where
  "stale_running x at \<longleftrightarrow>
     \<not> (x_status x \<noteq> X_RUNNING \<or> x_started_at x = None
        \<or> some_and (x_started_at x) (\<lambda>s. s > at - AGENT_RUNNING_TIMEOUT))"

definition timed_out_execution :: "instant \<Rightarrow> execution_row \<Rightarrow> execution_row" where
  "timed_out_execution at x =
     x\<lparr>x_status := X_MANUAL_REVIEW, x_error := Some ACTION_EXECUTION_TIMEOUT_FAILURE_CODE,
       x_result := None, x_completed_at := Some at, x_cancelled_at := None, x_updated_at := at\<rparr>"

definition mark_stale_running_row :: "execution_row \<Rightarrow> instant \<Rightarrow> agent_db \<Rightarrow> execution_row \<times> agent_db" where
  "mark_stale_running_row x at d =
     (if \<not> stale_running x at then (x, d)
      else let x' = timed_out_execution at x in (x', put_execution x' d))"

definition exec_enqueue ::
  "instant \<Rightarrow> uuid \<Rightarrow> uuid \<Rightarrow> uuid \<Rightarrow> pystr \<Rightarrow> pystr \<Rightarrow> int \<Rightarrow> pydict \<Rightarrow> pydict \<Rightarrow> pystr \<Rightarrow> pystr \<Rightarrow>
     agent_db \<Rightarrow> py_error + (execution_row \<times> bool) \<times> agent_db" where
  "exec_enqueue now new_id owner account action key version target_snapshot parameter_snapshot
       approval trigger d =
     and_then (row_action action) (\<lambda>a.
     and_then (row_key key) (\<lambda>k.
       if py_strip approval \<notin> SUPPORTED_ACTION_APPROVAL_SOURCES
       then Inl (ValueError ''unsupported account action approval source'')
       else if py_strip trigger \<notin> SUPPORTED_ACTION_TRIGGER_SOURCES
       then Inl (ValueError ''unsupported account action trigger source'')
       else if version < 1
       then Inl (ValueError ''execution setting version must be positive'')
       else
         (case exec_find_key owner a k d of
            None \<Rightarrow>
              (let x = \<lparr>x_id = new_id, x_owner = owner, x_account = account, x_action = a,
                        x_status = X_QUEUED, x_key = k, x_setting_version = version,
                        x_target_snapshot = target_snapshot,
                        x_parameter_snapshot = parameter_snapshot, x_approval = py_strip approval,
                        x_trigger = py_strip trigger, x_error = None, x_result = None,
                        x_queued_at = now, x_started_at = None, x_completed_at = None,
                        x_cancelled_at = None, x_created_at = now, x_updated_at = now\<rparr> in
               Inr ((x, True), d\<lparr>d_executions := d_executions d @ [x]\<rparr>))
          | Some existing \<Rightarrow>
              (let (x, d') = mark_stale_running_row existing now d in Inr ((x, False), d')))))"

definition mark_stale_running :: "instant \<Rightarrow> int \<Rightarrow> agent_db \<Rightarrow> nat \<times> agent_db" where
  "mark_stale_running now timeout d =
     (let P = (\<lambda>x. x_status x = X_RUNNING \<and> some_and (x_started_at x) (\<lambda>s. s \<le> now - timeout)) in
      (count_where P (d_executions d),
       d\<lparr>d_executions := update_where P (timed_out_execution now) (d_executions d)\<rparr>))"

definition started_execution :: "instant \<Rightarrow> execution_row \<Rightarrow> execution_row" where
  "started_execution now x =
     x\<lparr>x_status := X_RUNNING, x_started_at := Some now, x_completed_at := None,
       x_cancelled_at := None, x_error := None, x_updated_at := now\<rparr>"

definition exec_claim_next ::
  "(uuid \<Rightarrow> bool) \<Rightarrow> instant \<Rightarrow> agent_db \<Rightarrow> execution_row option \<times> agent_db" where
  "exec_claim_next locked now d =
     (case sort_key (\<lambda>x. (x_queued_at x, x_id x))
             (filter (\<lambda>x. x_status x = X_QUEUED \<and> \<not> locked (x_id x)) (d_executions d)) of
        [] \<Rightarrow> (None, d)
      | x # _ \<Rightarrow> (let x' = started_execution now x in (Some x', put_execution x' d)))"

definition exec_start ::
  "instant \<Rightarrow> uuid \<Rightarrow> uuid \<Rightarrow> agent_db \<Rightarrow> execution_row option \<times> agent_db" where
  "exec_start now owner eid d =
     (case exec_get owner eid d of
        None \<Rightarrow> (None, d)
      | Some x \<Rightarrow>
          if x_status x \<noteq> X_QUEUED then (None, d)
          else let x' = started_execution now x in (Some x', put_execution x' d))"

definition none_if_empty :: "pystr \<Rightarrow> pystr option" where
  "none_if_empty s = (if s = [] then None else Some s)"

definition exec_succeed ::
  "instant \<Rightarrow> uuid \<Rightarrow> uuid \<Rightarrow> pystr option \<Rightarrow> agent_db \<Rightarrow> execution_row option \<times> agent_db" where
  "exec_succeed now owner eid result d =
     (case exec_get owner eid d of
        None \<Rightarrow> (None, d)
      | Some x \<Rightarrow>
          if x_status x \<noteq> X_RUNNING then (None, d)
          else
            let x' = x\<lparr>x_status := X_SUCCEEDED,
                       x_result := none_if_empty (take 256 (py_strip (or_default result []))),
                       x_error := None, x_completed_at := Some now, x_cancelled_at := None,
                       x_updated_at := now\<rparr> in
            (Some x', put_execution x' d))"

text \<open>\<^verbatim>\<open>fail\<close> and \<^verbatim>\<open>mark_outcome_unknown\<close> close a running row with an error code; they differ in the
  status and in the fallback code.\<close>

definition exec_close ::
  "execution_status \<Rightarrow> pystr \<Rightarrow> instant \<Rightarrow> uuid \<Rightarrow> uuid \<Rightarrow> pystr \<Rightarrow> agent_db \<Rightarrow>
     py_error + execution_row option \<times> agent_db" where
  "exec_close status fallback now owner eid code d =
     (case exec_get owner eid d of
        None \<Rightarrow> Inr (None, d)
      | Some x \<Rightarrow>
          if x_status x \<noteq> X_RUNNING then Inr (None, d)
          else and_then (row_error_code code fallback) (\<lambda>c.
            let x' = x\<lparr>x_status := status, x_error := Some c, x_result := None,
                       x_completed_at := Some now, x_cancelled_at := None, x_updated_at := now\<rparr> in
            Inr (Some x', put_execution x' d)))"

definition exec_fail where
  "exec_fail = exec_close X_FAILED (S ''account_action_failed'')"

definition exec_mark_unknown where
  "exec_mark_unknown = exec_close X_MANUAL_REVIEW (S ''account_action_outcome_unknown'')"

definition exec_cancel_queued ::
  "instant \<Rightarrow> uuid \<Rightarrow> uuid \<Rightarrow> pystr \<Rightarrow> agent_db \<Rightarrow> py_error + execution_row option \<times> agent_db" where
  "exec_cancel_queued now owner eid code d =
     (case exec_get owner eid d of
        None \<Rightarrow> Inr (None, d)
      | Some x \<Rightarrow>
          if x_status x \<noteq> X_QUEUED then Inr (None, d)
          else and_then (row_error_code code (S ''user_cancelled'')) (\<lambda>c.
            let x' = x\<lparr>x_status := X_CANCELLED, x_error := Some c, x_result := None,
                       x_completed_at := Some now, x_cancelled_at := Some now, x_updated_at := now\<rparr> in
            Inr (Some x', put_execution x' d)))"

text \<open>\<^verbatim>\<open>_cancel_queued\<close>, for one owner or for all.\<close>

definition exec_cancel_all_queued ::
  "instant \<Rightarrow> uuid option \<Rightarrow> pystr \<Rightarrow> agent_db \<Rightarrow> py_error + nat \<times> agent_db" where
  "exec_cancel_all_queued now owner code d =
     and_then (row_error_code code (S ''account_action_cancelled'')) (\<lambda>c.
       let P = (\<lambda>x. x_status x = X_QUEUED \<and> (case owner of None \<Rightarrow> True | Some o' \<Rightarrow> x_owner x = o')) in
       Inr (count_where P (d_executions d),
            d\<lparr>d_executions := update_where P (\<lambda>x. x\<lparr>x_status := X_CANCELLED, x_error := Some c,
                 x_result := None, x_completed_at := Some now, x_cancelled_at := Some now,
                 x_updated_at := now\<rparr>) (d_executions d)\<rparr>))"

section \<open>The constraints of the table\<close>

definition execution_constraints :: "execution_row \<Rightarrow> bool" where
  "execution_constraints x \<longleftrightarrow>
     x_action x \<in> set SUPPORTED_ACCOUNT_ACTION_TYPES
     \<and> 8 \<le> length (x_key x) \<and> length (x_key x) \<le> 160
     \<and> x_setting_version x \<ge> 1
     \<and> x_approval x \<in> SUPPORTED_ACTION_APPROVAL_SOURCES
     \<and> x_trigger x \<in> SUPPORTED_ACTION_TRIGGER_SOURCES
     \<and> (x_status x = X_QUEUED \<and> x_started_at x = None \<and> x_completed_at x = None \<and> x_cancelled_at x = None
        \<or> x_status x = X_RUNNING \<and> x_started_at x \<noteq> None \<and> x_completed_at x = None \<and> x_cancelled_at x = None
        \<or> x_status x \<in> {X_SUCCEEDED, X_FAILED, X_MANUAL_REVIEW} \<and> x_started_at x \<noteq> None
            \<and> x_completed_at x \<noteq> None \<and> x_cancelled_at x = None
        \<or> x_status x = X_CANCELLED \<and> x_completed_at x \<noteq> None \<and> x_cancelled_at x \<noteq> None)
     \<and> (x_status x \<in> {X_FAILED, X_CANCELLED, X_MANUAL_REVIEW} \<and> x_error x \<noteq> None
        \<or> x_status x \<in> {X_QUEUED, X_RUNNING, X_SUCCEEDED} \<and> x_error x = None)"

definition execution_table_ok :: "agent_db \<Rightarrow> bool" where
  "execution_table_ok d \<longleftrightarrow>
     distinct (map x_id (d_executions d))
     \<and> distinct (map (\<lambda>x. (x_owner x, x_action x, x_key x)) (d_executions d))
     \<and> (\<forall>x \<in> set (d_executions d). execution_constraints x)"

text \<open>Which change of a row an operation may make.\<close>

fun execution_edge :: "execution_status \<Rightarrow> execution_status \<Rightarrow> bool" where
  "execution_edge X_QUEUED s \<longleftrightarrow> s \<in> {X_RUNNING, X_CANCELLED}"
| "execution_edge X_RUNNING s \<longleftrightarrow> s \<in> {X_SUCCEEDED, X_FAILED, X_MANUAL_REVIEW}"
| "execution_edge _ s \<longleftrightarrow> False"

definition execution_change :: "execution_row \<Rightarrow> execution_row \<Rightarrow> bool" where
  "execution_change x y \<longleftrightarrow>
     x = y \<or> execution_edge (x_status x) (x_status y)
       \<and> x_id y = x_id x \<and> x_owner y = x_owner x \<and> x_account y = x_account x \<and> x_action y = x_action x
       \<and> x_key y = x_key x \<and> x_setting_version y = x_setting_version x
       \<and> x_target_snapshot y = x_target_snapshot x \<and> x_parameter_snapshot y = x_parameter_snapshot x
       \<and> x_approval y = x_approval x \<and> x_trigger y = x_trigger x"

definition execution_progress :: "agent_db \<Rightarrow> agent_db \<Rightarrow> bool" where
  "execution_progress d d' \<longleftrightarrow>
     (\<forall>x \<in> set (d_executions d). \<exists>y \<in> set (d_executions d'). execution_change x y)"

text \<open>One repository call, by any transaction.\<close>

inductive exec_step :: "agent_db \<Rightarrow> agent_db \<Rightarrow> bool" where
  enqueue: "exec_enqueue now new_id owner account action key version ts ps approval trigger d = Inr (r, d')
    \<Longrightarrow> new_id \<notin> x_id ` set (d_executions d) \<Longrightarrow> exec_step d d'"
| stale: "mark_stale_running now timeout d = (n, d') \<Longrightarrow> exec_step d d'"
| claim: "exec_claim_next locked now d = (r', d') \<Longrightarrow> exec_step d d'"
| start: "exec_start now owner eid d = (r', d') \<Longrightarrow> exec_step d d'"
| succeed: "exec_succeed now owner eid result d = (r', d') \<Longrightarrow> exec_step d d'"
| fails: "exec_fail now owner eid code d = Inr (r', d') \<Longrightarrow> exec_step d d'"
| unknown: "exec_mark_unknown now owner eid code d = Inr (r', d') \<Longrightarrow> exec_step d d'"
| cancel: "exec_cancel_queued now owner eid code d = Inr (r', d') \<Longrightarrow> exec_step d d'"
| cancel_all: "exec_cancel_all_queued now owner' code d = Inr (n, d') \<Longrightarrow> exec_step d d'"

section \<open>Lemmas\<close>

lemma execution_change_refl [simp]: "execution_change x x"
  by (simp add: execution_change_def)

lemma execution_progress_refl [simp]: "execution_progress d d"
  unfolding execution_progress_def by (metis execution_change_refl)

lemma execution_change_key:
  "execution_change x y \<Longrightarrow> x_id y = x_id x \<and> x_owner y = x_owner x \<and> x_action y = x_action x \<and> x_key y = x_key x"
  by (auto simp: execution_change_def)

lemma update_executions_ok:
  assumes ok: "execution_table_ok d"
    and f: "\<And>x. x \<in> set (d_executions d) \<Longrightarrow> P x \<Longrightarrow> execution_change x (f x) \<and> execution_constraints (f x)"
  shows "execution_table_ok (d\<lparr>d_executions := update_where P f (d_executions d)\<rparr>)
    \<and> execution_progress d (d\<lparr>d_executions := update_where P f (d_executions d)\<rparr>)"
proof -
  let ?g = "\<lambda>x. if P x then f x else x"
  have "execution_change x (?g x) \<and> ?g x \<in> set (update_where P f (d_executions d))"
    if "x \<in> set (d_executions d)" for x
    using that f by (auto simp: in_update_where)
  then have "execution_progress d (d\<lparr>d_executions := update_where P f (d_executions d)\<rparr>)"
    unfolding execution_progress_def by fastforce
  moreover have "map x_id (update_where P f (d_executions d)) = map x_id (d_executions d)"
    using f execution_change_key by (auto simp: update_where_def)
  moreover have "map (\<lambda>x. (x_owner x, x_action x, x_key x)) (update_where P f (d_executions d))
      = map (\<lambda>x. (x_owner x, x_action x, x_key x)) (d_executions d)"
    using f execution_change_key by (auto simp: update_where_def)
  ultimately show ?thesis
    using ok f by (auto simp: execution_table_ok_def in_update_where)
qed

lemma put_execution_ok:
  assumes ok: "execution_table_ok d" and x: "x \<in> set (d_executions d)"
    and ch: "execution_change x x'" and c: "execution_constraints x'"
  shows "execution_table_ok (put_execution x' d) \<and> execution_progress d (put_execution x' d)"
  unfolding put_execution_def
proof (rule update_executions_ok [OF ok])
  fix y assume "y \<in> set (d_executions d)" "x_id y = x_id x'"
  then have "y = x"
    using ok x execution_change_key [OF ch] distinct_map_inject
    unfolding execution_table_ok_def by metis
  with ch c show "execution_change y x' \<and> execution_constraints x'" by simp
qed

lemma exec_get_in: "exec_get owner eid d = Some x \<Longrightarrow> x \<in> set (d_executions d) \<and> x_owner x = owner \<and> x_id x = eid"
  unfolding exec_get_def by (drule find_SomeD) simp

lemma table_row: "execution_table_ok d \<Longrightarrow> x \<in> set (d_executions d) \<Longrightarrow> execution_constraints x"
  by (simp add: execution_table_ok_def)

text \<open>Each way of changing a row follows an edge and keeps the constraints.\<close>

lemma started_execution_ok:
  "execution_constraints x \<Longrightarrow> x_status x = X_QUEUED \<Longrightarrow>
     execution_change x (started_execution now x) \<and> execution_constraints (started_execution now x)"
  by (simp add: execution_constraints_def execution_change_def started_execution_def)

lemma timed_out_execution_ok:
  "execution_constraints x \<Longrightarrow> x_status x = X_RUNNING \<Longrightarrow>
     execution_change x (timed_out_execution now x) \<and> execution_constraints (timed_out_execution now x)"
  by (auto simp: execution_constraints_def execution_change_def timed_out_execution_def)

lemma exec_close_ok:
  assumes ok: "execution_table_ok d"
    and st: "status = X_FAILED \<or> status = X_MANUAL_REVIEW"
    and close: "exec_close status fallback now owner eid code d = Inr (r, d')"
  shows "execution_table_ok d' \<and> execution_progress d d'"
proof (cases "d' = d")
  case False
  then obtain x c where x: "exec_get owner eid d = Some x" "x_status x = X_RUNNING"
    and d': "d' = put_execution (x\<lparr>x_status := status, x_error := Some c, x_result := None,
      x_completed_at := Some now, x_cancelled_at := None, x_updated_at := now\<rparr>) d"
    using close by (auto simp: exec_close_def and_then_Inr_iff Let_def split: option.splits if_splits)
  note m = exec_get_in [OF x(1), THEN conjunct1]
  show ?thesis
    unfolding d' using x(2) st table_row [OF ok m]
    by (intro put_execution_ok [OF ok m]) (auto simp: execution_change_def execution_constraints_def)
qed (simp add: ok)

text \<open>Every call keeps the constraints, and every old row makes at most one legal transition.\<close>

lemma exec_step_ok:
  assumes "exec_step d d'" and ok: "execution_table_ok d"
  shows "execution_table_ok d' \<and> execution_progress d d'"
  using assms(1)
proof cases
  case (enqueue now new_id owner account action key version ts ps approval trigger r)
  show ?thesis
  proof (cases "exec_find_key owner (py_strip action) (py_strip key) d")
    case None
    then have free: "(owner, py_strip action, py_strip key)
        \<notin> (\<lambda>x. (x_owner x, x_action x, x_key x)) ` set (d_executions d)"
      unfolding exec_find_key_def find_None_iff by auto
    obtain x where d': "d' = d\<lparr>d_executions := d_executions d @ [x]\<rparr>" and x: "execution_constraints x"
      "x_id x = new_id" "x_owner x = owner" "x_action x = py_strip action" "x_key x = py_strip key"
      using enqueue None
      by (auto simp: exec_enqueue_def and_then_Inr_iff row_action_def row_key_def Let_def
          execution_constraints_def simp del: py_strip_Nil split: if_splits)
    then have "execution_table_ok d'"
      using ok free enqueue(2) by (simp add: execution_table_ok_def)
    moreover have "set (d_executions d) \<subseteq> set (d_executions d')" using d' by auto
    then have "execution_progress d d'"
      unfolding execution_progress_def by (meson execution_change_refl subsetD)
    ultimately show ?thesis ..
  next
    case (Some x)
    then have x: "x \<in> set (d_executions d)" unfolding exec_find_key_def by (blast dest: find_SomeD)
    show ?thesis
    proof (cases "stale_running x now")
      case True
      then have "d' = put_execution (timed_out_execution now x) d"
        using enqueue Some
        by (auto simp: exec_enqueue_def and_then_Inr_iff row_action_def row_key_def Let_def
            mark_stale_running_row_def split: if_splits)
      moreover have "x_status x = X_RUNNING" using True by (simp add: stale_running_def)
      ultimately show ?thesis
        using put_execution_ok [OF ok x] timed_out_execution_ok table_row [OF ok x] by blast
    next
      case False
      then have "d' = d"
        using enqueue Some
        by (auto simp: exec_enqueue_def and_then_Inr_iff row_action_def row_key_def Let_def
            mark_stale_running_row_def split: if_splits)
      with ok show ?thesis by simp
    qed
  qed
next
  case (stale now timeout n)
  then have "d' = d\<lparr>d_executions := update_where (\<lambda>x. x_status x = X_RUNNING
      \<and> some_and (x_started_at x) (\<lambda>s. s \<le> now - timeout)) (timed_out_execution now) (d_executions d)\<rparr>"
    by (simp add: mark_stale_running_def Let_def)
  then show ?thesis
    using timed_out_execution_ok table_row [OF ok]
    by (simp only:) (intro update_executions_ok [OF ok]; simp)
next
  case (claim locked now r')
  show ?thesis
  proof (cases "sort_key (\<lambda>x. (x_queued_at x, x_id x))
             (filter (\<lambda>x. x_status x = X_QUEUED \<and> \<not> locked (x_id x)) (d_executions d))")
    case Nil
    with claim ok show ?thesis by (simp add: exec_claim_next_def)
  next
    case (Cons x xs)
    then have "x \<in> set (sort_key (\<lambda>x. (x_queued_at x, x_id x))
        (filter (\<lambda>x. x_status x = X_QUEUED \<and> \<not> locked (x_id x)) (d_executions d)))"
      by (metis list.set_intros(1))
    then have x: "x \<in> set (d_executions d)" "x_status x = X_QUEUED" by simp_all
    moreover have "d' = put_execution (started_execution now x) d"
      using claim Cons by (simp add: exec_claim_next_def Let_def)
    ultimately show ?thesis
      using put_execution_ok [OF ok x(1)] started_execution_ok table_row [OF ok x(1)] by blast
  qed
next
  case (start now owner eid r')
  show ?thesis
  proof (cases "d' = d")
    case False
    then obtain x where x: "exec_get owner eid d = Some x" "x_status x = X_QUEUED"
      and d': "d' = put_execution (started_execution now x) d"
      using start by (auto simp: exec_start_def Let_def split: option.splits if_splits)
    note m = exec_get_in [OF x(1), THEN conjunct1]
    show ?thesis
      using put_execution_ok [OF ok m] started_execution_ok [OF table_row [OF ok m] x(2)] d' by blast
  qed (simp add: ok)
next
  case (succeed now owner eid result r')
  show ?thesis
  proof (cases "d' = d")
    case False
    then obtain x res where x: "exec_get owner eid d = Some x" "x_status x = X_RUNNING"
      and d': "d' = put_execution (x\<lparr>x_status := X_SUCCEEDED, x_result := res, x_error := None,
        x_completed_at := Some now, x_cancelled_at := None, x_updated_at := now\<rparr>) d"
      using succeed by (auto simp: exec_succeed_def Let_def split: option.splits if_splits)
    note m = exec_get_in [OF x(1), THEN conjunct1]
    show ?thesis
      unfolding d' using x(2) table_row [OF ok m]
      by (intro put_execution_ok [OF ok m])
        (auto simp: execution_change_def execution_constraints_def)
  qed (simp add: ok)
next
  case (fails now owner eid code r')
  then show ?thesis unfolding exec_fail_def by (intro exec_close_ok [OF ok]) auto
next
  case (unknown now owner eid code r')
  then show ?thesis unfolding exec_mark_unknown_def by (intro exec_close_ok [OF ok]) auto
next
  case (cancel now owner eid code r')
  show ?thesis
  proof (cases "d' = d")
    case False
    then obtain x c where x: "exec_get owner eid d = Some x" "x_status x = X_QUEUED"
      and d': "d' = put_execution (x\<lparr>x_status := X_CANCELLED, x_error := Some c, x_result := None,
        x_completed_at := Some now, x_cancelled_at := Some now, x_updated_at := now\<rparr>) d"
      using cancel
      by (auto simp: exec_cancel_queued_def and_then_Inr_iff Let_def split: option.splits if_splits)
    note m = exec_get_in [OF x(1), THEN conjunct1]
    show ?thesis
      unfolding d' using x(2) table_row [OF ok m]
      by (intro put_execution_ok [OF ok m])
        (auto simp: execution_change_def execution_constraints_def)
  qed (simp add: ok)
next
  case (cancel_all now owner' code n)
  then obtain c P where d': "d' = d\<lparr>d_executions := update_where P (\<lambda>x. x\<lparr>x_status := X_CANCELLED,
      x_error := Some c, x_result := None, x_completed_at := Some now, x_cancelled_at := Some now,
      x_updated_at := now\<rparr>) (d_executions d)\<rparr>" and P: "\<And>x. P x \<Longrightarrow> x_status x = X_QUEUED"
    by (auto simp: exec_cancel_all_queued_def and_then_Inr_iff Let_def)
  show ?thesis
    unfolding d' using P table_row [OF ok]
    by (intro update_executions_ok [OF ok])
      (auto simp: execution_change_def execution_constraints_def)
qed

lemma exec_steps_ok:
  "exec_step\<^sup>*\<^sup>* d d' \<Longrightarrow> execution_table_ok d \<Longrightarrow> execution_table_ok d'"
  by (induction rule: rtranclp_induct) (auto dest: exec_step_ok)

lemma execution_edge_terminal: "execution_edge st st' \<Longrightarrow> st \<in> {X_QUEUED, X_RUNNING}"
  by (cases st) simp_all

lemma closed_execution_step:
  "execution_progress d d' \<Longrightarrow> x \<in> set (d_executions d) \<Longrightarrow> x_status x \<notin> {X_QUEUED, X_RUNNING}
     \<Longrightarrow> x \<in> set (d_executions d')"
  unfolding execution_progress_def execution_change_def using execution_edge_terminal by blast

section \<open>Properties\<close>

text \<open>C37: Whatever calls of the repository follow each other, the audit table satisfies its CHECK and
  uniqueness constraints (timestamps and error code agree with the status, one row per owner, action
  and idempotency key), and the record of an action whose outcome was decided, succeeded, failed,
  cancelled or under manual review, is never changed or removed.\<close>

theorem execution_audit_final:
  assumes "execution_table_ok d" and "exec_step\<^sup>*\<^sup>* d d'"
  shows "execution_table_ok d'
    \<and> (\<forall>x \<in> set (d_executions d). x_status x \<notin> {X_QUEUED, X_RUNNING} \<longrightarrow> x \<in> set (d_executions d'))"
  using assms(2)
proof (induction rule: rtranclp_induct)
  case base
  then show ?case using assms(1) by blast
next
  case (step d1 d2)
  then have "execution_table_ok d2 \<and> execution_progress d1 d2" using exec_step_ok by blast
  with step.IH show ?case using closed_execution_step by blast
qed

definition sample_execution :: execution_row where
  "sample_execution = \<lparr>x_id = 1, x_owner = 7, x_account = 3, x_action = S ''follow_user'',
     x_status = X_FAILED, x_key = S ''key-0001'', x_setting_version = 1, x_target_snapshot = [],
     x_parameter_snapshot = [], x_approval = S ''user_allowlist'', x_trigger = S ''schedule'',
     x_error = Some (S ''rate_limited''), x_result = None, x_queued_at = 0, x_started_at = Some 1,
     x_completed_at = Some 2, x_cancelled_at = None, x_created_at = 0, x_updated_at = 2\<rparr>"

definition empty_db :: agent_db where
  "empty_db = \<lparr>d_tasks = [], d_executions = [], d_settings = [], d_usages = [], d_candidates = [],
     d_contacts = [], d_relations = [], d_conversations = [], d_messages = [], d_system = None,
     d_accounts = [], d_users = [], d_agents = [], d_exec_settings = [], d_connections = [],
     d_preferences = []\<rparr>"

theorem execution_audit_final_witness:
  "sample_execution \<in> set (d_executions
     (snd (mark_stale_running 9 0 (empty_db\<lparr>d_executions := [sample_execution]\<rparr>))))"
proof -
  let ?d = "empty_db\<lparr>d_executions := [sample_execution]\<rparr>"
  have "execution_table_ok ?d"
    by (simp add: execution_table_ok_def execution_constraints_def sample_execution_def empty_db_def
        SUPPORTED_ACCOUNT_ACTION_TYPES_def SUPPORTED_ACTION_APPROVAL_SOURCES_def
        SUPPORTED_ACTION_TRIGGER_SOURCES_def)
  moreover have "exec_step\<^sup>*\<^sup>* ?d (snd (mark_stale_running 9 0 ?d))"
    by (rule r_into_rtranclp, rule exec_step.stale) (rule prod.collapse [symmetric])
  ultimately show ?thesis
    using execution_audit_final [of ?d "snd (mark_stale_running 9 0 ?d)"]
    by (simp add: sample_execution_def)
qed

end
