(* ===== verification/Contact_Store.thy ===== *)
theory Contact_Store
  imports Action_Executions Orchestrator
begin

text \<open>
  The conversations and contacts of \<^verbatim>\<open>bbw_agent/repositories.py\<close>: message identities, the head of a
  conversation and the scan for unanswered messages of \<^verbatim>\<open>AgentAutonomyTaskRepository\<close>, and
  \<^verbatim>\<open>AgentContactPolicyRepository\<close>.  SQL text functions are written out: \<^verbatim>\<open>->>\<close> reads a JSON value as
  text, \<^verbatim>\<open>btrim\<close> removes blanks only.
\<close>

section \<open>Queries\<close>

text \<open>\<^verbatim>\<open>ORDER BY key DESC LIMIT 1\<close>.\<close>

definition latest_by :: "('a \<Rightarrow> 'k::linorder) \<Rightarrow> 'a list \<Rightarrow> 'a option" where
  "latest_by key xs = (case sort_key key xs of [] \<Rightarrow> None | ys \<Rightarrow> Some (last ys))"

lemma latest_by_None: "latest_by key xs = None \<longleftrightarrow> xs = []"
proof -
  have "sort_key key xs = [] \<longleftrightarrow> xs = []" by (metis length_0_conv length_sort)
  then show ?thesis by (cases "sort_key key xs") (auto simp: latest_by_def)
qed

lemma sorted_last: "sorted (map key ys) \<Longrightarrow> y \<in> set ys \<Longrightarrow> key y \<le> key (last ys)"
  by (induction ys) (auto split: if_splits)

lemma latest_by_Some: "latest_by key xs = Some x \<Longrightarrow> x \<in> set xs \<and> (\<forall>y \<in> set xs. key y \<le> key x)"
proof -
  assume l: "latest_by key xs = Some x"
  then have ne: "sort_key key xs \<noteq> []" and x: "x = last (sort_key key xs)"
    by (auto simp: latest_by_def split: list.splits)
  have "x \<in> set (sort_key key xs)" unfolding x by (rule last_in_set [OF ne])
  moreover have "\<forall>y \<in> set (sort_key key xs). key y \<le> key x"
    using sorted_last [of key "sort_key key xs"] x by simp
  ultimately show ?thesis by simp
qed

definition dict_key :: "pydict \<Rightarrow> string \<Rightarrow> pyval" where
  "dict_key d k = dict_get d (S k)"

definition json_text :: "pyval \<Rightarrow> pystr option" where
  "json_text v =
     (case v of PNone \<Rightarrow> None
      | PBool b \<Rightarrow> Some (if b then S ''true'' else S ''false'')
      | _ \<Rightarrow> Some (py_str v))"

definition coalesce :: "'a option \<Rightarrow> 'a \<Rightarrow> 'a" where
  "coalesce v d = (case v of None \<Rightarrow> d | Some x \<Rightarrow> x)"

section \<open>Messages\<close>

definition message_revoked :: "message_row \<Rightarrow> bool" where
  "message_revoked m \<longleftrightarrow>
     py_lower (m_status m) = S ''revoked''
     \<or> py_lower (py_strip (str_or_empty (dict_key (m_extra m) ''revoked''))) \<in> {S ''1'', S ''true''}"

definition row_message_identity :: "env \<Rightarrow> message_row \<Rightarrow> pystr" where
  "row_message_identity E m =
     autonomy_message_identity (sha256 E) (Some (S (m_provider m))) (m_upstream_id m)
       (Some (str_or_empty (dict_key (m_extra m) ''canonical_message_id'')))
       (Some (S (m_direction m))) (Some (m_type m)) (m_body m) (message_revoked m)"

record head_row =
  h_message :: uuid
  h_peer :: pystr
  h_identity :: pystr
  h_direction :: string
  h_type :: pystr
  h_body :: pystr
  h_occurred_at :: instant
  h_revoked :: bool
  h_title :: pystr

definition AUTONOMY_MESSAGE_PROVIDERS :: "string set" where
  "AUTONOMY_MESSAGE_PROVIDERS = {''web-local'', ''tim''}"

definition conversation_messages :: "uuid \<Rightarrow> pystr \<Rightarrow> agent_db \<Rightarrow> (message_row \<times> conversation_row) list" where
  "conversation_messages owner peer d =
     filter (\<lambda>(m, v). v_id v = m_conversation m \<and> m_owner m = owner \<and> v_owner v = owner
         \<and> m_provider m \<in> AUTONOMY_MESSAGE_PROVIDERS \<and> v_provider v \<in> AUTONOMY_MESSAGE_PROVIDERS
         \<and> m_provider m = v_provider v \<and> v_peer v = py_strip peer)
       (List.product (d_messages d) (d_conversations d))"

definition get_conversation_head :: "env \<Rightarrow> uuid \<Rightarrow> pystr \<Rightarrow> agent_db \<Rightarrow> head_row option" where
  "get_conversation_head E owner peer d =
     map_option (\<lambda>(m, v). \<lparr>h_message = m_id m, h_peer = v_peer v, h_identity = row_message_identity E m,
         h_direction = m_direction m, h_type = m_type m, h_body = or_default (m_body m) [],
         h_occurred_at = m_occurred_at m, h_revoked = message_revoked m,
         h_title = or_default (v_title v) []\<rparr>)
       (latest_by (\<lambda>(m, v). (m_occurred_at m, m_id m)) (conversation_messages owner peer d))"

text \<open>The WHERE clause of the scan for unanswered messages.\<close>

definition sql_btrim :: "pystr \<Rightarrow> pystr" where
  "sql_btrim s = rev (dropWhile (\<lambda>c. c = 32) (rev (dropWhile (\<lambda>c. c = 32) s)))"

definition later_exists :: "agent_db \<Rightarrow> message_row \<Rightarrow> bool" where
  "later_exists d m \<longleftrightarrow>
     (\<exists>l \<in> set (d_messages d). m_owner l = m_owner m \<and> m_conversation l = m_conversation m
        \<and> (m_occurred_at l > m_occurred_at m
           \<or> m_occurred_at l = m_occurred_at m \<and> m_id l > m_id m))"

definition scan_condition :: "agent_db \<Rightarrow> uuid option \<Rightarrow> message_row \<Rightarrow> conversation_row \<Rightarrow> bool" where
  "scan_condition d owner m v \<longleftrightarrow>
     v_id v = m_conversation m
     \<and> m_provider m \<in> AUTONOMY_MESSAGE_PROVIDERS \<and> v_provider v \<in> AUTONOMY_MESSAGE_PROVIDERS
     \<and> m_provider m = v_provider v
     \<and> m_direction m = ''incoming''
     \<and> py_lower (m_type m) \<in> {S ''text'', S ''timtextelem''}
     \<and> sql_btrim (coalesce (m_body m) []) \<noteq> []
     \<and> py_lower (m_status m) \<noteq> S ''revoked''
     \<and> py_lower (coalesce (json_text (dict_key (m_extra m) ''revoked'')) (S ''false''))
         \<notin> {S ''true'', S ''1''}
     \<and> py_lower (coalesce (json_text (dict_key (m_extra m) ''origin'')) []) \<noteq> S ''agent''
     \<and> \<not> prefix (S ''agent:'')
         (coalesce (json_text (dict_key (m_extra m) ''client_message_key''))
           (coalesce (json_text (dict_key (m_extra m) ''client_message_id'')) []))
     \<and> \<not> later_exists d m
     \<and> (case owner of None \<Rightarrow> True | Some u \<Rightarrow> m_owner m = u)"

definition unanswered_inbound_candidates :: "env \<Rightarrow> uuid option \<Rightarrow> int \<Rightarrow> agent_db \<Rightarrow> head_row list" where
  "unanswered_inbound_candidates E owner limit d =
     (let rows = take (nat (min (max 1 limit) 50))
            (sort_key (\<lambda>(m, v). (m_occurred_at m, m_id m))
              (filter (\<lambda>(m, v). scan_condition d owner m v)
                (List.product (d_messages d) (d_conversations d)))) in
      List.map_filter (\<lambda>(m, v).
          let peer = py_strip (v_peer v); sender = py_strip (or_default (m_sender m) []) in
          if peer = [] \<or> sender \<noteq> [] \<and> sender \<noteq> peer then None
          else Some \<lparr>h_message = m_id m, h_peer = peer, h_identity = row_message_identity E m,
                     h_direction = ''incoming'', h_type = m_type m, h_body = or_default (m_body m) [],
                     h_occurred_at = m_occurred_at m, h_revoked = False,
                     h_title = or_default (v_title v) []\<rparr>)
        rows)"

section \<open>Relationships\<close>

definition relation_exists :: "agent_db \<Rightarrow> uuid \<Rightarrow> pystr \<Rightarrow> string set \<Rightarrow> bool" where
  "relation_exists d owner subject kinds \<longleftrightarrow>
     (\<exists>r \<in> set (d_relations d). r_owner r = owner \<and> r_subject r = subject \<and> r_kind r \<in> kinds
        \<and> r_status r = ''active'' \<and> r_ended_at r = None)"

definition target_is_blocked :: "uuid \<Rightarrow> pystr \<Rightarrow> agent_db \<Rightarrow> py_error + bool" where
  "target_is_blocked owner uid d =
     and_then (row_target uid) (\<lambda>target.
       Inr (relation_exists d owner target {''blacklist'', ''blacklisted_by''}))"

definition relationship_is_active :: "uuid \<Rightarrow> pystr \<Rightarrow> agent_db \<Rightarrow> bool" where
  "relationship_is_active owner uid d = relation_exists d owner uid {''follow'', ''following''}"


section \<open>What is known of a contact\<close>

definition normalize_peer :: "pystr \<Rightarrow> py_error + pystr" where
  "normalize_peer value = row_target value"

definition contact_get :: "uuid \<Rightarrow> pystr \<Rightarrow> agent_db \<Rightarrow> contact_row option" where
  "contact_get owner peer d = find (\<lambda>k. k_owner k = owner \<and> k_peer k = peer) (d_contacts d)"

definition nulls_last_desc :: "instant option \<Rightarrow> int \<times> int" where
  "nulls_last_desc v = (case v of None \<Rightarrow> (1, 0) | Some t \<Rightarrow> (0, - t))"

definition peer_conversations :: "uuid \<Rightarrow> pystr \<Rightarrow> agent_db \<Rightarrow> conversation_row list" where
  "peer_conversations owner peer d =
     sort_key (\<lambda>v. (nulls_last_desc (v_last_message_at v), - v_updated_at v))
       (filter (\<lambda>v. v_owner v = owner \<and> v_peer v = peer) (d_conversations d))"

definition contact_messages :: "uuid \<Rightarrow> uuid set \<Rightarrow> agent_db \<Rightarrow> message_row list" where
  "contact_messages owner ids d =
     filter (\<lambda>m. m_owner m = owner \<and> m_conversation m \<in> ids
         \<and> m_direction m \<in> {''incoming'', ''outgoing''}
         \<and> py_lower (m_status m) \<noteq> S ''revoked''
         \<and> py_lower (coalesce (json_text (dict_key (m_extra m) ''revoked'')) (S ''false''))
             \<notin> {S ''true'', S ''1''})
       (d_messages d)"

definition max_option :: "int list \<Rightarrow> int option" where
  "max_option xs = (if xs = [] then None else Some (Max (set xs)))"

definition conversation_titles :: "conversation_row list \<Rightarrow> pystr list" where
  "conversation_titles rows =
     map (take 200) (filter (\<lambda>t. t \<noteq> []) (map (\<lambda>v. py_strip (or_default (v_title v) [])) rows))"

record contact_state =
  st_signals :: relationship_signals
  st_conversations :: "uuid list"
  st_titles :: "pystr list"

definition conversation_state ::
  "uuid \<Rightarrow> pystr \<Rightarrow> agent_db \<Rightarrow> py_error + contact_state option" where
  "conversation_state owner peer_uid d =
     and_then (normalize_peer peer_uid) (\<lambda>peer.
       let rows = peer_conversations owner peer d in
       if rows = [] then Inr None
       else
         let titles = conversation_titles rows;
             messages = contact_messages owner (v_id ` set rows) d;
             incoming = filter (\<lambda>m. m_direction m = ''incoming'') messages;
             outgoing = filter (\<lambda>m. m_direction m = ''outgoing'') messages;
             latest = latest_by (\<lambda>m. (m_occurred_at m, m_created_at m, m_id m)) messages in
         and_then (post_init_signals
           \<lparr>total_message_count = int (length messages),
            incoming_message_count = int (length incoming),
            outgoing_message_count = int (length outgoing),
            last_incoming_at = max_option (map m_occurred_at incoming),
            last_outgoing_at = max_option (map m_occurred_at outgoing),
            latest_direction = (case latest of None \<Rightarrow> [] | Some m \<Rightarrow> S (m_direction m)),
            latest_message_at = map_option m_occurred_at latest,
            sig_blocked = relation_exists d owner peer {''blacklist'', ''blacklisted_by''},
            conversation_available =
              \<not> (\<exists>t \<in> set titles. \<exists>marker \<in> set UNAVAILABLE_CONVERSATION_MARKERS. py_contains marker t)\<rparr>)
         (\<lambda>signals. Inr (Some \<lparr>st_signals = signals, st_conversations = map v_id rows,
                             st_titles = titles\<rparr>)))"

definition relationship_stage ::
  "uuid \<Rightarrow> pystr \<Rightarrow> contact_row option \<Rightarrow> instant \<Rightarrow> agent_db \<Rightarrow> py_error + pystr option" where
  "relationship_stage owner peer policy now d =
     and_then (conversation_state owner peer d) (\<lambda>state.
       case state of
         None \<Rightarrow> Inr None
       | Some st \<Rightarrow>
           and_then (derive_relationship_stage (st_signals st) now
               (case policy of None \<Rightarrow> CONTACT_MODE_SUGGEST_ONLY | Some k \<Rightarrow> k_mode k)
               (case policy of None \<Rightarrow> None | Some k \<Rightarrow> k_stage_override k)) (\<lambda>stage.
             Inr (Some stage)))"

section \<open>Configuring a contact\<close>

text \<open>A request names some fields; a value is a scalar or a list of scalars.  The text of a non-empty
  list starts with a bracket, which no mode or stage does.\<close>

datatype field_value = Scalar pyval | Items "pyval list"

definition field_text :: "field_value \<Rightarrow> pystr" where
  "field_text v = (case v of Scalar x \<Rightarrow> str_or_empty x | Items xs \<Rightarrow> if xs = [] then [] else [91])"

record contact_update =
  n_mode :: "pystr option"
  n_stage :: "pystr option option"
  n_paused :: "bool option"
  n_delay :: "int option"
  n_age :: "int option"
  n_terms :: "pystr list option"

definition check_mode :: "field_value option \<Rightarrow> py_error + pystr option" where
  "check_mode v =
     (case v of None \<Rightarrow> Inr None
      | Some raw \<Rightarrow>
          (let mode = py_lower (py_strip (field_text raw)) in
           if mode \<notin> set CONTACT_POLICY_MODES
           then Inl (ValueError ''unsupported contact policy mode'') else Inr (Some mode)))"

definition check_stage :: "field_value option \<Rightarrow> py_error + pystr option option" where
  "check_stage v =
     (case v of None \<Rightarrow> Inr None
      | Some raw \<Rightarrow>
          (let stage = none_if_empty (py_lower (py_strip (field_text raw))) in
           if some_and stage (\<lambda>s. s \<notin> set RELATIONSHIP_STAGES)
           then Inl (ValueError ''unsupported relationship stage override'') else Inr (Some stage)))"

definition check_paused :: "field_value option \<Rightarrow> py_error + bool option" where
  "check_paused v =
     (case v of None \<Rightarrow> Inr None
      | Some (Scalar (PBool b)) \<Rightarrow> Inr (Some b)
      | _ \<Rightarrow> Inl (ValueError ''contact policy paused state is invalid''))"

definition check_int :: "string \<Rightarrow> string \<Rightarrow> int \<Rightarrow> int \<Rightarrow> field_value option \<Rightarrow> py_error + int option" where
  "check_int invalid outside lo hi v =
     (case v of None \<Rightarrow> Inr None
      | Some (Scalar (PInt i)) \<Rightarrow>
          if \<not> (lo \<le> i \<and> i \<le> hi) then Inl (ValueError outside) else Inr (Some i)
      | _ \<Rightarrow> Inl (ValueError invalid))"

fun terms_loop :: "pystr list \<Rightarrow> pyval list \<Rightarrow> py_error + pystr list" where
  "terms_loop ts [] =
     (if length ts > 20 then Inl (ValueError ''too many contact address terms'') else Inr ts)"
| "terms_loop ts (raw # raws) =
     (let t = py_strip (str_or_empty raw) in
      if t \<notin> set RELATIONSHIP_ADDRESS_TERMS
      then Inl (ValueError ''contact address term is unsupported'')
      else terms_loop (if t \<notin> set ts then ts @ [t] else ts) raws)"

definition check_terms :: "field_value option \<Rightarrow> py_error + pystr list option" where
  "check_terms v =
     (case v of None \<Rightarrow> Inr None
      | Some (Items raws) \<Rightarrow> and_then (terms_loop [] raws) (\<lambda>ts. Inr (Some ts))
      | Some (Scalar _) \<Rightarrow> Inl (ValueError ''contact address terms must be an array''))"

definition contact_fields :: "pystr set" where
  "contact_fields = {S ''mode'', S ''stage_override'', S ''paused'', S ''minimum_reply_delay_seconds'',
     S ''maximum_reply_age_seconds'', S ''allow_address_terms''}"

definition normalized_updates :: "(pystr \<times> field_value) list \<Rightarrow> py_error + contact_update" where
  "normalized_updates updates =
     (if \<not> fst ` set updates \<subseteq> contact_fields
      then Inl (ValueError ''unsupported contact policy field'')
      else
        let field = (\<lambda>k. map_of updates (S k)) in
        and_then (check_mode (field ''mode'')) (\<lambda>mode.
        and_then (check_stage (field ''stage_override'')) (\<lambda>stage.
        and_then (check_paused (field ''paused'')) (\<lambda>paused.
        and_then (check_int ''contact reply delay is invalid''
            ''contact reply delay is outside the supported range'' 10 300
            (field ''minimum_reply_delay_seconds'')) (\<lambda>delay.
        and_then (check_int ''contact reply age is invalid''
            ''contact reply age is outside the supported range'' 60 7200
            (field ''maximum_reply_age_seconds'')) (\<lambda>age.
        and_then (check_terms (field ''allow_address_terms'')) (\<lambda>terms.
          if delay \<noteq> None \<and> age \<noteq> None \<and> the age < the delay
          then Inl (ValueError ''contact reply age must include the reply delay'')
          else Inr \<lparr>n_mode = mode, n_stage = stage, n_paused = paused, n_delay = delay, n_age = age,
                    n_terms = terms\<rparr>)))))))"

definition default_contact :: "uuid \<Rightarrow> uuid \<Rightarrow> pystr \<Rightarrow> instant \<Rightarrow> contact_row" where
  "default_contact new_id owner peer now =
     \<lparr>k_id = new_id, k_owner = owner, k_peer = peer, k_mode = CONTACT_MODE_SUGGEST_ONLY,
      k_stage_override = None, k_paused = False, k_min_delay = 30, k_max_age = 7200, k_terms = [],
      k_version = 1, k_updated_at = now\<rparr>"

definition apply_update :: "contact_update \<Rightarrow> contact_row \<Rightarrow> contact_row" where
  "apply_update n k =
     k\<lparr>k_mode := coalesce (n_mode n) (k_mode k),
       k_stage_override := coalesce (n_stage n) (k_stage_override k),
       k_paused := coalesce (n_paused n) (k_paused k),
       k_min_delay := coalesce (n_delay n) (k_min_delay k),
       k_max_age := coalesce (n_age n) (k_max_age k),
       k_terms := coalesce (n_terms n) (k_terms k)\<rparr>"

definition put_contact :: "contact_row \<Rightarrow> agent_db \<Rightarrow> agent_db" where
  "put_contact k d = d\<lparr>d_contacts := update_where (\<lambda>y. k_id y = k_id k) (\<lambda>_. k) (d_contacts d)\<rparr>"

definition insert_contact :: "uuid \<Rightarrow> uuid \<Rightarrow> pystr \<Rightarrow> instant \<Rightarrow> agent_db \<Rightarrow> bool \<times> agent_db" where
  "insert_contact new_id owner peer now d =
     (case contact_get owner peer d of
        None \<Rightarrow> (True, d\<lparr>d_contacts := d_contacts d @ [default_contact new_id owner peer now]\<rparr>)
      | Some _ \<Rightarrow> (False, d))"

definition configure_contact ::
  "instant \<Rightarrow> uuid \<Rightarrow> uuid \<Rightarrow> pystr \<Rightarrow> (pystr \<times> field_value) list \<Rightarrow> agent_db \<Rightarrow>
     py_error + (contact_row \<times> bool \<times> bool) \<times> agent_db" where
  "configure_contact now new_id owner peer_uid updates d =
     and_then (normalize_peer peer_uid) (\<lambda>peer.
     and_then (normalized_updates updates) (\<lambda>n.
       let (created, d1) = insert_contact new_id owner peer now d in
       case contact_get owner peer d1 of
         None \<Rightarrow> Inl (RuntimeError ''failed to create contact policy'')
       | Some row \<Rightarrow>
           if coalesce (n_age n) (k_max_age row) < coalesce (n_delay n) (k_min_delay row)
           then Inl (ValueError ''contact reply age must include the reply delay'')
           else
             let row' = apply_update n row;
                 changed = (created \<or> row' \<noteq> row);
                 row'' = (if changed
                          then row'\<lparr>k_version := (if created then k_version row else k_version row + 1),
                                    k_updated_at := now\<rparr>
                          else row') in
             Inr ((row'', created, changed), put_contact row'' d1)))"

section \<open>Lemmas\<close>

lemma coalesce_simps [simp]: "coalesce None d = d" "coalesce (Some x) d = x"
  by (simp_all add: coalesce_def)

definition contact_constraints :: "contact_row \<Rightarrow> bool" where
  "contact_constraints k \<longleftrightarrow>
     k_mode k \<in> set CONTACT_POLICY_MODES
     \<and> (case k_stage_override k of None \<Rightarrow> True | Some st \<Rightarrow> st \<in> set RELATIONSHIP_STAGES)
     \<and> 10 \<le> k_min_delay k \<and> k_min_delay k \<le> 300
     \<and> 60 \<le> k_max_age k \<and> k_max_age k \<le> 7200 \<and> k_min_delay k \<le> k_max_age k
     \<and> length (k_terms k) \<le> 20
     \<and> k_version k \<ge> 1"

definition contact_table_ok :: "agent_db \<Rightarrow> bool" where
  "contact_table_ok d \<longleftrightarrow>
     distinct (map k_id (d_contacts d))
     \<and> distinct (map (\<lambda>k. (k_owner k, k_peer k)) (d_contacts d))
     \<and> (\<forall>k \<in> set (d_contacts d). contact_constraints k)"

lemma terms_loop_length: "terms_loop ts raws = Inr us \<Longrightarrow> length us \<le> 20"
  by (induction ts raws rule: terms_loop.induct) (auto simp: Let_def split: if_splits)

lemma check_int_range: "check_int a b lo hi v = Inr (Some i) \<Longrightarrow> lo \<le> i \<and> i \<le> hi"
  by (auto simp: check_int_def split: option.splits field_value.splits pyval.splits if_splits)

lemma normalized_updates_ok:
  assumes "normalized_updates updates = Inr n"
  shows "\<forall>m. n_mode n = Some m \<longrightarrow> m \<in> set CONTACT_POLICY_MODES"
    and "\<forall>st. n_stage n = Some (Some st) \<longrightarrow> st \<in> set RELATIONSHIP_STAGES"
    and "\<forall>i. n_delay n = Some i \<longrightarrow> 10 \<le> i \<and> i \<le> 300"
    and "\<forall>i. n_age n = Some i \<longrightarrow> 60 \<le> i \<and> i \<le> 7200"
    and "\<forall>ts. n_terms n = Some ts \<longrightarrow> length ts \<le> 20"
proof -
  let ?f = "\<lambda>k. map_of updates (S k)"
  have parts: "check_mode (?f ''mode'') = Inr (n_mode n)"
    "check_stage (?f ''stage_override'') = Inr (n_stage n)"
    "check_int ''contact reply delay is invalid'' ''contact reply delay is outside the supported range''
       10 300 (?f ''minimum_reply_delay_seconds'') = Inr (n_delay n)"
    "check_int ''contact reply age is invalid'' ''contact reply age is outside the supported range''
       60 7200 (?f ''maximum_reply_age_seconds'') = Inr (n_age n)"
    "check_terms (?f ''allow_address_terms'') = Inr (n_terms n)"
    using assms by (auto simp: normalized_updates_def Let_def and_then_Inr_iff split: if_splits)
  show "\<forall>m. n_mode n = Some m \<longrightarrow> m \<in> set CONTACT_POLICY_MODES"
    using parts(1) by (auto simp: check_mode_def Let_def split: option.splits if_splits)
  show "\<forall>st. n_stage n = Some (Some st) \<longrightarrow> st \<in> set RELATIONSHIP_STAGES"
    using parts(2) by (auto simp: check_stage_def Let_def split: option.splits if_splits)
  show "\<forall>i. n_delay n = Some i \<longrightarrow> 10 \<le> i \<and> i \<le> 300"
    using parts(3) check_int_range by metis
  show "\<forall>i. n_age n = Some i \<longrightarrow> 60 \<le> i \<and> i \<le> 7200"
    using parts(4) check_int_range by metis
  show "\<forall>ts. n_terms n = Some ts \<longrightarrow> length ts \<le> 20"
    using parts(5) terms_loop_length
    by (auto simp: check_terms_def and_then_Inr_iff split: option.splits field_value.splits)
qed

lemma apply_update_idem [simp]: "apply_update n (apply_update n k) = apply_update n k"
  by (cases n) (simp add: apply_update_def coalesce_def split: option.split)

lemma apply_update_frame [simp]:
  "k_id (apply_update n k) = k_id k" "k_owner (apply_update n k) = k_owner k"
  "k_peer (apply_update n k) = k_peer k" "k_version (apply_update n k) = k_version k"
  "k_min_delay (apply_update n k) = coalesce (n_delay n) (k_min_delay k)"
  "k_max_age (apply_update n k) = coalesce (n_age n) (k_max_age k)"
  "apply_update n (k\<lparr>k_version := v, k_updated_at := u\<rparr>) = (apply_update n k)\<lparr>k_version := v, k_updated_at := u\<rparr>"
  by (simp_all add: apply_update_def)

lemma apply_update_constraints:
  assumes "normalized_updates updates = Inr n" "contact_constraints k"
    and "coalesce (n_delay n) (k_min_delay k) \<le> coalesce (n_age n) (k_max_age k)" "v \<ge> 1"
  shows "contact_constraints ((apply_update n k)\<lparr>k_version := v, k_updated_at := u\<rparr>)"
proof -
  note n = normalized_updates_ok [OF assms(1)]
  have "coalesce (n_mode n) (k_mode k) \<in> set CONTACT_POLICY_MODES"
    using n(1) assms(2) by (cases "n_mode n") (auto simp: contact_constraints_def)
  moreover have "case coalesce (n_stage n) (k_stage_override k) of
      None \<Rightarrow> True | Some st \<Rightarrow> st \<in> set RELATIONSHIP_STAGES"
    using n(2) assms(2) by (cases "n_stage n") (auto simp: contact_constraints_def split: option.splits)
  moreover have "10 \<le> coalesce (n_delay n) (k_min_delay k) \<and> coalesce (n_delay n) (k_min_delay k) \<le> 300"
    using n(3) assms(2) by (cases "n_delay n") (auto simp: contact_constraints_def)
  moreover have "60 \<le> coalesce (n_age n) (k_max_age k) \<and> coalesce (n_age n) (k_max_age k) \<le> 7200"
    using n(4) assms(2) by (cases "n_age n") (auto simp: contact_constraints_def)
  moreover have "length (coalesce (n_terms n) (k_terms k)) \<le> 20"
    using n(5) assms(2) by (cases "n_terms n") (auto simp: contact_constraints_def)
  ultimately show ?thesis
    using assms(3,4) by (simp add: contact_constraints_def apply_update_def)
qed

lemma default_contact_constraints: "contact_constraints (default_contact i owner peer now)"
  by (simp add: contact_constraints_def default_contact_def CONTACT_POLICY_MODES_def)

lemma contact_get_Some:
  "contact_get owner peer d = Some k \<Longrightarrow> k \<in> set (d_contacts d) \<and> k_owner k = owner \<and> k_peer k = peer"
  unfolding contact_get_def by (drule find_SomeD) simp

lemma insert_contact_ok:
  assumes "contact_table_ok d" "new_id \<notin> k_id ` set (d_contacts d)"
    and "insert_contact new_id owner peer now d = (created, d1)"
  shows "contact_table_ok d1" "set (d_contacts d) \<subseteq> set (d_contacts d1)"
    "created \<longleftrightarrow> contact_get owner peer d = None"
    "contact_get owner peer d1 = Some (case contact_get owner peer d of
        None \<Rightarrow> default_contact new_id owner peer now | Some k \<Rightarrow> k)"
proof -
  have all: "contact_table_ok d1 \<and> set (d_contacts d) \<subseteq> set (d_contacts d1)
    \<and> (created \<longleftrightarrow> contact_get owner peer d = None)
    \<and> contact_get owner peer d1 = Some (case contact_get owner peer d of
        None \<Rightarrow> default_contact new_id owner peer now | Some k \<Rightarrow> k)"
  proof (cases "contact_get owner peer d")
    case None
    then have "(owner, peer) \<notin> (\<lambda>k. (k_owner k, k_peer k)) ` set (d_contacts d)"
      unfolding contact_get_def find_None_iff by auto
    moreover have "find (\<lambda>k. k_owner k = owner \<and> k_peer k = peer)
        (d_contacts d @ [default_contact new_id owner peer now]) = Some (default_contact new_id owner peer now)"
      using None by (simp add: contact_get_def find_append default_contact_def)
    ultimately show ?thesis
      using assms None default_contact_constraints
      by (auto simp: insert_contact_def contact_table_ok_def contact_get_def default_contact_def)
  next
    case (Some k)
    with assms show ?thesis by (auto simp: insert_contact_def)
  qed
  then show "contact_table_ok d1" "set (d_contacts d) \<subseteq> set (d_contacts d1)"
    "created \<longleftrightarrow> contact_get owner peer d = None"
    "contact_get owner peer d1 = Some (case contact_get owner peer d of
        None \<Rightarrow> default_contact new_id owner peer now | Some k \<Rightarrow> k)" by blast+
qed

lemma put_contact_ok:
  assumes ok: "contact_table_ok d" and old: "contact_get owner peer d = Some k"
    and row: "k_id row = k_id k" "k_owner row = k_owner k" "k_peer row = k_peer k" "contact_constraints row"
  shows "contact_table_ok (put_contact row d)"
    and "contact_get owner peer (put_contact row d) = Some row"
    and "k' \<in> set (d_contacts d) \<Longrightarrow> k' \<noteq> k \<Longrightarrow> k' \<in> set (d_contacts (put_contact row d))"
    and "row = k \<Longrightarrow> put_contact row d = d"
proof -
  note k = contact_get_Some [OF old]
  have ids: "distinct (map k_id (d_contacts d))" using ok by (simp add: contact_table_ok_def)
  note put = put_row [OF ids conjunct1 [OF k] row(1)]
  have pairs: "map (\<lambda>k. (k_owner k, k_peer k)) (d_contacts (put_contact row d))
      = map (\<lambda>k. (k_owner k, k_peer k)) (d_contacts d)"
    using put(1) [of "\<lambda>k. (k_owner k, k_peer k)"] row by (simp add: put_contact_def)
  show "contact_table_ok (put_contact row d)"
    using ok row(4) put(1) [of k_id] pairs put(4) row(1)
    by (auto simp: contact_table_ok_def put_contact_def)
  have "find (\<lambda>y. (k_owner y, k_peer y) = (k_owner row, k_peer row)) (d_contacts (put_contact row d)) = Some row"
    using ok pairs put(2) by (intro find_key) (simp_all add: contact_table_ok_def put_contact_def)
  then show "contact_get owner peer (put_contact row d) = Some row"
    using k row by (simp add: contact_get_def)
  show "k' \<in> set (d_contacts (put_contact row d))" if "k' \<in> set (d_contacts d)" "k' \<noteq> k"
    using put(3) [OF that] by (simp add: put_contact_def)
  show "put_contact row d = d" if "row = k"
    using put(5) [OF that] by (simp add: put_contact_def)
qed

text \<open>The cases of a successful configuration.\<close>

lemma configure_contact_cases:
  assumes "configure_contact now new_id owner uid updates d = Inr ((row, created, changed), d')"
  obtains peer n d1 old where
    "normalize_peer uid = Inr peer" "normalized_updates updates = Inr n"
    "insert_contact new_id owner peer now d = (created, d1)"
    "contact_get owner peer d1 = Some old"
    "coalesce (n_delay n) (k_min_delay old) \<le> coalesce (n_age n) (k_max_age old)"
    "changed \<longleftrightarrow> created \<or> apply_update n old \<noteq> old"
    "row = (if changed then (apply_update n old)\<lparr>k_version := (if created then k_version old
              else k_version old + 1), k_updated_at := now\<rparr> else apply_update n old)"
    "d' = put_contact row d1"
proof -
  obtain peer n where p: "normalize_peer uid = Inr peer" and n: "normalized_updates updates = Inr n"
    using assms unfolding configure_contact_def and_then_Inr_iff by blast
  obtain c d1 where ins: "insert_contact new_id owner peer now d = (c, d1)" by (metis surj_pair)
  obtain old where old: "contact_get owner peer d1 = Some old"
    using assms p n ins by (cases "contact_get owner peer d1") (simp_all add: configure_contact_def)
  have ages: "\<not> coalesce (n_age n) (k_max_age old) < coalesce (n_delay n) (k_min_delay old)"
    using assms p n ins old by (auto simp: configure_contact_def)
  show thesis
    using assms p n ins old ages
    by (intro that [OF p n _ old]) (auto simp: configure_contact_def Let_def)
qed

section \<open>Properties\<close>

text \<open>Saving a contact policy keeps the table's constraints (mode, stage, delays inside their
  ranges, the age at least the delay) and touches only that contact's row; the version counts the
  real changes, so a task bound to a version notices every edit, and saving the same values again
  changes nothing.\<close>

theorem configure_contact_correct:
  assumes ok: "contact_table_ok d" and fresh: "new_id \<notin> k_id ` set (d_contacts d)"
    and conf: "configure_contact now new_id owner uid updates d = Inr ((row, created, changed), d')"
  shows "contact_table_ok d'
    \<and> contact_get owner (k_peer row) d' = Some row
    \<and> (created \<longleftrightarrow> contact_get owner (k_peer row) d = None)
    \<and> (\<forall>k \<in> set (d_contacts d). if (k_owner k, k_peer k) = (owner, k_peer row)
         then k_version row = (if changed then k_version k + 1 else k_version k) \<and> (changed \<longleftrightarrow> row \<noteq> k)
         else k \<in> set (d_contacts d'))
    \<and> (\<forall>now' id'. configure_contact now' id' owner uid updates d' = Inr ((row, False, False), d'))"
proof -
  obtain peer n d1 old where peer: "normalize_peer uid = Inr peer" and n: "normalized_updates updates = Inr n"
    and ins: "insert_contact new_id owner peer now d = (created, d1)"
    and old: "contact_get owner peer d1 = Some old"
    and ages: "coalesce (n_delay n) (k_min_delay old) \<le> coalesce (n_age n) (k_max_age old)"
    and ch: "changed \<longleftrightarrow> created \<or> apply_update n old \<noteq> old"
    and row: "row = (if changed then (apply_update n old)\<lparr>k_version := (if created then k_version old
              else k_version old + 1), k_updated_at := now\<rparr> else apply_update n old)"
    and d': "d' = put_contact row d1"
    using configure_contact_cases [OF conf] .
  note i = insert_contact_ok [OF ok fresh ins]
  note o' = contact_get_Some [OF old]
  have rk: "k_id row = k_id old" "k_owner row = k_owner old" "k_peer row = k_peer old"
    by (simp_all add: row)
  have v: "contact_constraints old" using i(1) o' by (simp add: contact_table_ok_def)
  then have "k_version old \<ge> 1" by (simp add: contact_constraints_def)
  then have rc: "contact_constraints row"
    using apply_update_constraints [OF n v ages] v ch by (auto simp: row)
  note p = put_contact_ok [OF i(1) old rk rc, folded d']
  have peer_row: "k_peer row = peer" using rk o' by simp
  have "apply_update n row = row" using ch by (auto simp: row)
  moreover have "coalesce (n_delay n) (k_min_delay row) \<le> coalesce (n_age n) (k_max_age row)"
    using ages by (cases "n_delay n"; cases "n_age n") (auto simp: row)
  ultimately have again: "configure_contact now' id' owner uid updates d' = Inr ((row, False, False), d')" for now' id'
    using p(2) peer n put_contact_ok(4) [OF p(1) p(2), of row] rc
    by (simp add: configure_contact_def insert_contact_def)
  have others: "if (k_owner k, k_peer k) = (owner, k_peer row)
      then k_version row = (if changed then k_version k + 1 else k_version k) \<and> (changed \<longleftrightarrow> row \<noteq> k)
      else k \<in> set (d_contacts d')" if k: "k \<in> set (d_contacts d)" for k
  proof (cases "(k_owner k, k_peer k) = (owner, k_peer row)")
    case True
    have "distinct (map (\<lambda>k. (k_owner k, k_peer k)) (d_contacts d))"
      using ok by (simp add: contact_table_ok_def)
    from find_key [OF this k]
    have "find (\<lambda>y. (k_owner y, k_peer y) = (k_owner k, k_peer k)) (d_contacts d) = Some k" .
    then have "contact_get owner peer d = Some k"
      using True peer_row by (simp add: contact_get_def)
    then have "old = k" "\<not> created" using i(3,4) old by auto
    show ?thesis
    proof (cases changed)
      case True
      then have "k_version row = k_version k + 1" using \<open>old = k\<close> \<open>\<not> created\<close> by (simp add: row)
      moreover from this have "row \<noteq> k" by auto
      ultimately show ?thesis using \<open>changed\<close> \<open>(k_owner k, k_peer k) = _\<close> by simp
    next
      case False
      then have "row = k" using ch \<open>old = k\<close> by (simp add: row)
      with False show ?thesis using \<open>(k_owner k, k_peer k) = _\<close> by simp
    qed
  next
    case False
    then have "k \<noteq> old" using o' peer_row by auto
    with False show ?thesis using p(3) k i(2) by auto
  qed
  have found: "contact_get owner (k_peer row) d' = Some row"
    by (simp only: peer_row p(2))
  have new: "created = (contact_get owner (k_peer row) d = None)"
    by (simp only: peer_row i(3))
  show ?thesis
    by (intro conjI ballI allI p(1) found new others again)
qed

definition sample_contact :: contact_row where
  "sample_contact = default_contact 5 7 (S ''42'') 3"

lemma sample_configure:
  "configure_contact 9 6 7 (S ''42'') [(S ''paused'', Scalar (PBool True))]
     (empty_db\<lparr>d_contacts := [sample_contact]\<rparr>)
   = Inr ((sample_contact\<lparr>k_paused := True, k_version := 2, k_updated_at := 9\<rparr>, False, True),
          empty_db\<lparr>d_contacts := [sample_contact\<lparr>k_paused := True, k_version := 2, k_updated_at := 9\<rparr>]\<rparr>)"
proof -
  have "normalize_peer (S ''42'') = Inr (S ''42'')"
    by (simp add: normalize_peer_def row_target_def row_targets_def S_def py_strip_def py_space_def)
  moreover have "normalized_updates [(S ''paused'', Scalar (PBool True))]
      = Inr \<lparr>n_mode = None, n_stage = None, n_paused = Some True, n_delay = None, n_age = None, n_terms = None\<rparr>"
    by (simp add: normalized_updates_def contact_fields_def check_mode_def check_stage_def
        check_paused_def check_int_def check_terms_def)
  ultimately show ?thesis
    by (simp add: configure_contact_def insert_contact_def contact_get_def sample_contact_def
        default_contact_def empty_db_def apply_update_def put_contact_def Let_def)
qed

theorem configure_contact_correct_witness:
  "configure_contact 11 8 7 (S ''42'') [(S ''paused'', Scalar (PBool True))]
     (empty_db\<lparr>d_contacts := [sample_contact\<lparr>k_paused := True, k_version := 2, k_updated_at := 9\<rparr>]\<rparr>)
   = Inr ((sample_contact\<lparr>k_paused := True, k_version := 2, k_updated_at := 9\<rparr>, False, False),
          empty_db\<lparr>d_contacts := [sample_contact\<lparr>k_paused := True, k_version := 2, k_updated_at := 9\<rparr>]\<rparr>)"
proof -
  have "contact_table_ok (empty_db\<lparr>d_contacts := [sample_contact]\<rparr>)"
    by (simp add: contact_table_ok_def sample_contact_def default_contact_constraints)
  moreover have "6 \<notin> k_id ` set (d_contacts (empty_db\<lparr>d_contacts := [sample_contact]\<rparr>))"
    by (simp add: sample_contact_def default_contact_def)
  ultimately show ?thesis using configure_contact_correct [OF _ _ sample_configure] by blast
qed


definition plain_env :: env where
  "plain_env = \<lparr>nfkc = \<lambda>s. s, category = \<lambda>_. CHR ''L'', unicode_word = \<lambda>_. True, sha256 = \<lambda>s. s,
     uuid_str = unary, zones = \<lambda>_. fixed_offset_zone 0, lease_seconds = 60\<rparr>"

definition sample_message :: message_row where
  "sample_message = \<lparr>m_id = 1, m_owner = 7, m_conversation = 2, m_provider = ''tim'', m_upstream_id = None,
     m_sender = None, m_direction = ''incoming'', m_type = S ''text'', m_body = Some (S ''hello''),
     m_status = S ''sent'', m_extra = [], m_occurred_at = 5, m_created_at = 5\<rparr>"

definition sample_conversation :: conversation_row where
  "sample_conversation = \<lparr>v_id = 2, v_owner = 7, v_provider = ''tim'', v_peer = S ''42'', v_title = None,
     v_last_message_at = Some 5, v_updated_at = 5\<rparr>"

definition sample_chat :: agent_db where
  "sample_chat = empty_db\<lparr>d_messages := [sample_message], d_conversations := [sample_conversation]\<rparr>"

lemma sample_scan:
  "hd (unanswered_inbound_candidates plain_env (Some 7) 10 sample_chat)
     \<in> set (unanswered_inbound_candidates plain_env (Some 7) 10 sample_chat)
   \<and> h_peer (hd (unanswered_inbound_candidates plain_env (Some 7) 10 sample_chat)) = S ''42''"
proof -
  have "scan_condition sample_chat (Some 7) sample_message sample_conversation"
    by (simp add: scan_condition_def sample_chat_def sample_message_def sample_conversation_def
        AUTONOMY_MESSAGE_PROVIDERS_def later_exists_def dict_key_def dict_get_def json_text_def
        S_def py_lower_def lower_cp_def sql_btrim_def)
  moreover have "py_strip (S ''42'') = S ''42''" by (simp add: S_def py_strip_def py_space_def)
  ultimately show ?thesis
    by (simp add: unanswered_inbound_candidates_def sample_chat_def sample_message_def
        sample_conversation_def List.map_filter_def Let_def)
qed


end
