(* ===== verification/Discovery_Candidates.thy ===== *)
theory Discovery_Candidates
  imports Contact_Store
begin

text \<open>
  \<^verbatim>\<open>AgentDiscoveryCandidateRepository\<close> of \<^verbatim>\<open>bbw_agent/repositories.py\<close>: what the agent remembers of
  the users it discovered.  The i-th fresh \<^verbatim>\<open>uuid4\<close> of a call is \<open>ids i\<close>.
\<close>

section \<open>Operations\<close>

definition PROFILE_FIELDS :: "string list" where
  "PROFILE_FIELDS =
     [''uid'', ''id'', ''nickname'', ''name'', ''city'', ''gender'', ''sex'', ''property'', ''age'',
      ''signature'', ''online'', ''is_online'', ''is_following'', ''is_friend'', ''is_friend_apply'',
      ''has_incoming_friend_apply'', ''friend_apply_status'', ''incoming_friend_apply_status'',
      ''is_follower'', ''is_fans'']"

definition candidate_target :: "pyval \<Rightarrow> py_error + pystr" where
  "candidate_target value =
     (let target = py_strip (str_or_empty value) in
      if target = [] \<or> length target > 128 \<or> (\<exists>c \<in> set target. c < 33)
      then Inl (ValueError ''invalid discovery candidate target'') else Inr target)"

definition snapshot_field :: "pydict \<Rightarrow> string \<Rightarrow> (pystr \<times> pyval) option" where
  "snapshot_field candidate field =
     (if field \<in> {''uid'', ''id''} then None
      else case map_of candidate (S field) of
             None \<Rightarrow> None
           | Some value \<Rightarrow>
               (case value of
                  PStr s \<Rightarrow> Some (S field, PStr (take 1000 s))
                | POther s b \<Rightarrow> None
                | _ \<Rightarrow> Some (S field, value)))"

definition candidate_snapshot :: "pydict \<Rightarrow> pystr \<Rightarrow> pydict" where
  "candidate_snapshot candidate target =
     [(S ''uid'', PStr target), (S ''id'', PStr target)]
     @ List.map_filter (snapshot_field candidate) PROFILE_FIELDS"

text \<open>\<^verbatim>\<open>a or b\<close>.\<close>

definition py_or :: "pyval \<Rightarrow> pyval \<Rightarrow> pyval" where
  "py_or a b = (if truthy a then a else b)"

definition remembered_row :: "uuid \<Rightarrow> uuid \<Rightarrow> pystr \<Rightarrow> pystr \<Rightarrow> instant \<Rightarrow> pydict \<Rightarrow> candidate_row" where
  "remembered_row new_id owner target source now candidate =
     \<lparr>c_id = new_id, c_owner = owner, c_target = target, c_source = source,
      c_display = none_if_empty (take 160 (py_strip (str_or_empty
        (py_or (dict_key candidate ''nickname'') (dict_key candidate ''name''))))),
      c_profile = candidate_snapshot candidate target, c_first_seen = now, c_last_seen = now,
      c_last_interaction = None, c_last_action = None, c_updated_at = now\<rparr>"

text \<open>\<^verbatim>\<open>INSERT ... ON CONFLICT DO UPDATE\<close>.\<close>

definition upsert_candidate :: "candidate_row \<Rightarrow> agent_db \<Rightarrow> agent_db" where
  "upsert_candidate row d =
     (let same = (\<lambda>c. c_owner c = c_owner row \<and> c_target c = c_target row) in
      if find same (d_candidates d) = None
      then d\<lparr>d_candidates := d_candidates d @ [row]\<rparr>
      else d\<lparr>d_candidates := update_where same (\<lambda>c. c\<lparr>c_source := c_source row,
               c_display := c_display row, c_profile := c_profile row,
               c_last_seen := c_last_seen row, c_updated_at := c_updated_at row\<rparr>) (d_candidates d)\<rparr>)"

text \<open>The loop: \<open>seen\<close> are the targets of this call, \<open>i\<close> counts the statements.  An element that is
  not a mapping is \<^verbatim>\<open>None\<close>.\<close>

fun remember_loop ::
  "(nat \<Rightarrow> uuid) \<Rightarrow> uuid \<Rightarrow> pystr \<Rightarrow> instant \<Rightarrow> pydict option list \<Rightarrow> pystr list \<Rightarrow> nat \<Rightarrow> agent_db \<Rightarrow>
     nat \<times> agent_db" where
  "remember_loop ids owner source now [] seen i d = (i, d)"
| "remember_loop ids owner source now (c # cs) seen i d =
     (case c of
        None \<Rightarrow> remember_loop ids owner source now cs seen i d
      | Some candidate \<Rightarrow>
          (case candidate_target (py_or (dict_key candidate ''uid'')
                  (py_or (dict_key candidate ''user_id'') (dict_key candidate ''id''))) of
             Inl _ \<Rightarrow> remember_loop ids owner source now cs seen i d
           | Inr target \<Rightarrow>
               if target \<in> set seen then remember_loop ids owner source now cs seen i d
               else remember_loop ids owner source now cs (target # seen) (i + 1)
                      (upsert_candidate (remembered_row (ids i) owner target source now candidate) d)))"

definition remember_many ::
  "(nat \<Rightarrow> uuid) \<Rightarrow> uuid \<Rightarrow> pydict option list \<Rightarrow> pystr option \<Rightarrow> instant \<Rightarrow> agent_db \<Rightarrow>
     py_error + nat \<times> agent_db" where
  "remember_many ids owner candidates source now d =
     (let normalized_source = py_lower (py_strip (or_default source (S ''online''))) in
      if normalized_source \<notin> {S ''online'', S ''match''}
      then Inl (ValueError ''invalid discovery candidate source'')
      else Inr (remember_loop ids owner normalized_source now (take 50 candidates) [] 0 d))"

definition candidate_get :: "uuid \<Rightarrow> pystr \<Rightarrow> agent_db \<Rightarrow> py_error + candidate_row option" where
  "candidate_get owner uid d =
     and_then (candidate_target (PStr uid)) (\<lambda>target.
       Inr (find (\<lambda>c. c_owner c = owner \<and> c_target c = target) (d_candidates d)))"

definition list_recent_eligible ::
  "uuid \<Rightarrow> instant \<Rightarrow> instant \<Rightarrow> int \<Rightarrow> pydict option \<Rightarrow> pydict option \<Rightarrow> agent_db \<Rightarrow> candidate_row list" where
  "list_recent_eligible owner seen_after interaction_before limit owner_profile pref d =
     (let rows = take (nat (min (max 1 limit) 50))
            (sort_key (\<lambda>c. (- c_last_seen c, c_id c))
              (filter (\<lambda>c. c_owner c = owner \<and> c_last_seen c \<ge> seen_after
                 \<and> (case c_last_interaction c of None \<Rightarrow> True | Some t \<Rightarrow> t \<le> interaction_before))
                (d_candidates d))) in
      case owner_profile of
        None \<Rightarrow> rows
      | Some profile \<Rightarrow>
          filter (\<lambda>c. compat_allowed (agent_candidate_compatibility (Some profile) (Some (c_profile c))
             (PStr (c_target c)) pref)) rows)"

definition mark_interaction ::
  "uuid \<Rightarrow> pystr \<Rightarrow> pystr \<Rightarrow> instant \<Rightarrow> agent_db \<Rightarrow> py_error + bool \<times> agent_db" where
  "mark_interaction owner uid action at d =
     and_then (candidate_target (PStr uid)) (\<lambda>target.
     and_then (row_action action) (\<lambda>a.
       let P = (\<lambda>c. c_owner c = owner \<and> c_target c = target) in
       Inr (count_where P (d_candidates d) \<noteq> 0,
            d\<lparr>d_candidates := update_where P (\<lambda>c. c\<lparr>c_last_interaction := Some at,
                c_last_action := Some a, c_updated_at := at\<rparr>) (d_candidates d)\<rparr>)))"

section \<open>Lemmas\<close>

definition candidate_row_ok :: "candidate_row \<Rightarrow> bool" where
  "candidate_row_ok c \<longleftrightarrow>
     candidate_target (PStr (c_target c)) = Inr (c_target c)
     \<and> set (candidate_identities (c_profile c)) = {c_target c}
     \<and> c_source c \<in> {S ''online'', S ''match''}"

definition candidate_table_ok :: "agent_db \<Rightarrow> bool" where
  "candidate_table_ok d \<longleftrightarrow>
     distinct (map (\<lambda>c. (c_owner c, c_target c)) (d_candidates d))
     \<and> (\<forall>c \<in> set (d_candidates d). candidate_row_ok c)"

lemma candidate_target_idem:
  "candidate_target v = Inr t \<Longrightarrow> candidate_target (PStr t) = Inr t \<and> py_strip t = t \<and> t \<noteq> []"
  by (auto simp: candidate_target_def str_or_empty_def Let_def split: if_splits)

lemma snapshot_other_keys:
  "k \<in> {''user_id'', ''userId''} \<Longrightarrow> map_of (List.map_filter (snapshot_field c) PROFILE_FIELDS) (S k) = None"
proof -
  assume k: "k \<in> {''user_id'', ''userId''}"
  have "fst ` set (List.map_filter (snapshot_field c) fs) \<subseteq> S ` set fs" for fs
    by (induction fs) (auto simp: snapshot_field_def split: option.splits pyval.splits)
  moreover have "S k \<notin> S ` set PROFILE_FIELDS" using k by (auto simp: PROFILE_FIELDS_def)
  ultimately show ?thesis by (auto simp: map_of_eq_None_iff)
qed

text \<open>The stored profile always names the target, so a remembered user passes the identity check.\<close>

lemma snapshot_identity:
  assumes "py_strip t = t" "t \<noteq> []"
  shows "set (candidate_identities (candidate_snapshot c t)) = {t}"
  using assms snapshot_other_keys [of "''user_id''" c] snapshot_other_keys [of "''userId''" c]
  by (simp add: candidate_identities_def candidate_snapshot_def dict_get_def)

lemma upsert_candidate_ok:
  assumes ok: "candidate_table_ok d" and row: "candidate_row_ok row"
  shows "candidate_table_ok (upsert_candidate row d)"
proof (cases "find (\<lambda>c. c_owner c = c_owner row \<and> c_target c = c_target row) (d_candidates d)")
  case None
  then have "(c_owner row, c_target row) \<notin> (\<lambda>c. (c_owner c, c_target c)) ` set (d_candidates d)"
    unfolding find_None_iff by auto
  then show ?thesis
    using ok row None by (auto simp: upsert_candidate_def candidate_table_ok_def)
next
  case (Some c)
  let ?P = "\<lambda>c. c_owner c = c_owner row \<and> c_target c = c_target row"
  let ?f = "\<lambda>c. c\<lparr>c_source := c_source row, c_display := c_display row, c_profile := c_profile row,
    c_last_seen := c_last_seen row, c_updated_at := c_updated_at row\<rparr>"
  have "map (\<lambda>c. (c_owner c, c_target c)) (update_where ?P ?f (d_candidates d))
      = map (\<lambda>c. (c_owner c, c_target c)) (d_candidates d)"
    by (auto simp: update_where_def)
  moreover have "candidate_row_ok (?f c)" if "c_target c = c_target row" for c
    using row that by (simp add: candidate_row_ok_def)
  then have "\<forall>c \<in> set (update_where ?P ?f (d_candidates d)). candidate_row_ok c"
    using ok by (auto simp: in_update_where candidate_table_ok_def)
  ultimately show ?thesis
    using ok Some by (simp add: upsert_candidate_def candidate_table_ok_def)
qed

lemma remembered_row_ok:
  assumes "candidate_target v = Inr t" "source \<in> {S ''online'', S ''match''}"
  shows "candidate_row_ok (remembered_row i owner t source now c)"
  using candidate_target_idem [OF assms(1)] assms(2) snapshot_identity
  by (auto simp: candidate_row_ok_def remembered_row_def)

lemma remember_loop_ok:
  "candidate_table_ok d \<Longrightarrow> source \<in> {S ''online'', S ''match''} \<Longrightarrow>
     candidate_table_ok (snd (remember_loop ids owner source now cs seen i d))"
proof (induction cs arbitrary: seen i d)
  case (Cons c cs)
  then show ?case
    using upsert_candidate_ok remembered_row_ok
    by (auto split: option.split sum.split)
qed simp

lemma mark_interaction_ok:
  assumes ok: "candidate_table_ok d" and "mark_interaction owner uid action at d = Inr (b, d')"
  shows "candidate_table_ok d'"
proof -
  let ?ks = "\<lambda>cs. map (\<lambda>c. (c_owner c, c_target c)) cs"
  have "?ks (update_where P (\<lambda>c. c\<lparr>c_last_interaction := Some at, c_last_action := Some a,
      c_updated_at := at\<rparr>) (d_candidates d)) = ?ks (d_candidates d)" for P a
    by (auto simp: update_where_def)
  moreover have "candidate_row_ok (c\<lparr>c_last_interaction := i, c_last_action := a, c_updated_at := u\<rparr>)
      = candidate_row_ok c" for c i a u
    by (simp add: candidate_row_ok_def)
  ultimately show ?thesis
    using assms
    by (auto simp: mark_interaction_def and_then_Inr_iff Let_def candidate_table_ok_def in_update_where)
qed

section \<open>Properties\<close>

text \<open>However often the agent remembers scan results and marks interactions, it keeps one row per
  owner and target, and every stored profile names exactly the row's own (normalised) target: the
  identity check of the compatibility decision never refuses a remembered user, and never accepts
  the profile of another one.\<close>

theorem remembered_profiles_identified:
  assumes ok: "candidate_table_ok d" and rem: "remember_many ids owner candidates source now d = Inr (n, d')"
    and mark: "mark_interaction owner' uid action at d' = Inr (b, d'')"
    and c: "c \<in> set (d_candidates d'')"
  shows "candidate_table_ok d''
    \<and> candidate_identity (c_profile c) t
        = (if t = [] then Inl ''candidate_target_missing''
           else if t = c_target c then Inr () else Inl ''candidate_identity_mismatch'')"
proof -
  let ?source = "py_lower (py_strip (or_default source (S ''online'')))"
  have src: "?source \<in> {S ''online'', S ''match''}"
    by (rule ccontr) (use rem in \<open>simp add: remember_many_def Let_def\<close>)
  with rem have "Inr (remember_loop ids owner ?source now (take 50 candidates) [] 0 d)
      = (Inr (n, d') :: py_error + nat \<times> agent_db)"
    unfolding remember_many_def Let_def by (simp only: if_True if_False not_True_eq_False)
  then have "candidate_table_ok d'"
    using remember_loop_ok [OF ok src] by (metis snd_conv sum.inject(2))
  then have ok'': "candidate_table_ok d''" using mark by (rule mark_interaction_ok)
  then have ids: "set (candidate_identities (c_profile c)) = {c_target c}"
    using c by (simp add: candidate_table_ok_def candidate_row_ok_def)
  then have "candidate_identities (c_profile c) \<noteq> []" by (metis empty_set insert_not_empty)
  with ids have "candidate_identity (c_profile c) t
      = (if t = [] then Inl ''candidate_target_missing''
         else if t = c_target c then Inr () else Inl ''candidate_identity_mismatch'')"
    by (cases "t = c_target c") (simp_all add: candidate_identity_def)
  with ok'' show ?thesis by (rule conjI)
qed

lemma sample_remember:
  "remember_many (\<lambda>i. i) 7 [Some [(S ''user_id'', PStr (S ''42''))], None] None 3 empty_db
     = Inr (1, empty_db\<lparr>d_candidates := [remembered_row 0 7 (S ''42'') (S ''online'') 3
                            [(S ''user_id'', PStr (S ''42''))]]\<rparr>)"
proof -
  have "candidate_target (py_or (dict_key [(S ''user_id'', PStr (S ''42''))] ''uid'')
      (py_or (dict_key [(S ''user_id'', PStr (S ''42''))] ''user_id'')
             (dict_key [(S ''user_id'', PStr (S ''42''))] ''id''))) = Inr (S ''42'')"
    by (simp add: py_or_def dict_key_def dict_get_def candidate_target_def str_or_empty_def
        S_def py_strip_def py_space_def)
  moreover have "py_lower (py_strip (S ''online'')) = S ''online''"
    by (simp add: S_def py_strip_def py_space_def lower_cp_def)
  ultimately show ?thesis
    by (simp add: remember_many_def upsert_candidate_def empty_db_def)
qed

theorem remembered_profiles_identified_witness:
  "candidate_identity (candidate_snapshot [(S ''user_id'', PStr (S ''42''))] (S ''42'')) (S ''42'') = Inr ()"
proof -
  let ?row = "remembered_row 0 7 (S ''42'') (S ''online'') 3 [(S ''user_id'', PStr (S ''42''))]"
  let ?d = "empty_db\<lparr>d_candidates := [?row]\<rparr>"
  have "candidate_table_ok empty_db" by (simp add: candidate_table_ok_def empty_db_def)
  moreover have "mark_interaction 8 (S ''42'') (S ''follow_user'') 9 ?d = Inr (False, ?d)"
    by (simp add: mark_interaction_def candidate_target_def str_or_empty_def row_action_def
        SUPPORTED_ACCOUNT_ACTION_TYPES_def S_def py_strip_def py_space_def remembered_row_def count_where_def)
  ultimately have "candidate_identity (c_profile ?row) (S ''42'') = Inr ()"
    using remembered_profiles_identified [OF _ sample_remember, of 8 "S ''42''" "S ''follow_user''" 9
        False ?d ?row "S ''42''"] by (simp add: remembered_row_def)
  then show ?thesis by (simp add: remembered_row_def)
qed

end
