(* ===== verification/Autonomy_Settings.thy ===== *)
theory Autonomy_Settings
  imports Discovery_Candidates
begin

text \<open>
  \<^verbatim>\<open>AgentAutonomySettingRepository\<close>, \<^verbatim>\<open>AgentExecutionSettingRepository\<close> and
  \<^verbatim>\<open>AgentAutonomyDailyUsageRepository\<close> of \<^verbatim>\<open>bbw_agent/repositories.py\<close>: the owner's policy, the
  emergency halt, the daily counters, and the snapshot a dispatch is checked against.
\<close>

section \<open>The policy of an owner\<close>

definition setting_get :: "uuid \<Rightarrow> agent_db \<Rightarrow> setting_row option" where
  "setting_get owner d = find (\<lambda>s. s_owner s = owner) (d_settings d)"

definition put_setting :: "setting_row \<Rightarrow> agent_db \<Rightarrow> agent_db" where
  "put_setting s d = d\<lparr>d_settings := update_where (\<lambda>y. s_id y = s_id s) (\<lambda>_. s) (d_settings d)\<rparr>"

definition default_setting :: "uuid \<Rightarrow> uuid \<Rightarrow> instant \<Rightarrow> setting_row" where
  "default_setting new_id owner now =
     \<lparr>s_id = new_id, s_owner = owner, s_enabled = False, s_auto_reply = False, s_reply_started = None,
      s_posts = False, s_relationships = False, s_discovery = False, s_match = False,
      s_outreach = False, s_follow_discovered = False, s_friend_request = False, s_actions = [],
      s_brief = [], s_targets = [], s_timezone = S ''UTC'', s_active_start = 0, s_active_end = 0,
      s_min_interval = 30, s_total_limit = 20, s_reply_limit = 10, s_post_limit = 1,
      s_relationship_limit = 5, s_post_interval = 1440, s_discovery_minutes = 30,
      s_discovery_seconds = 10, s_failure_limit = 3, s_failures = 0, s_next_run = None,
      s_last_run = None, s_last_action = None, s_last_post = None, s_last_discovery = None,
      s_last_match = None, s_last_outreach = None, s_halted_at = None, s_halted_reason = None,
      s_version = 1, s_updated_at = now\<rparr>"

definition setting_get_or_create :: "uuid \<Rightarrow> instant \<Rightarrow> uuid \<Rightarrow> agent_db \<Rightarrow> setting_row \<times> agent_db" where
  "setting_get_or_create new_id now owner d =
     (case setting_get owner d of
        Some row \<Rightarrow> (row, d)
      | None \<Rightarrow> (let row = default_setting new_id owner now in
                 (row, d\<lparr>d_settings := d_settings d @ [row]\<rparr>)))"

text \<open>The arguments of \<^verbatim>\<open>configure\<close>.\<close>

record setting_config =
  f_enabled :: bool
  f_auto_reply :: bool
  f_posts :: bool
  f_relationships :: bool
  f_discovery :: bool
  f_match :: bool
  f_outreach :: bool
  f_follow_discovered :: bool
  f_friend_request :: bool
  f_actions :: "pystr list"
  f_brief :: pystr
  f_targets :: "pystr list"
  f_timezone :: pystr
  f_active_start :: int
  f_active_end :: int
  f_min_interval :: int
  f_total_limit :: int
  f_reply_limit :: int
  f_post_limit :: int
  f_relationship_limit :: int
  f_post_interval :: int
  f_discovery_seconds :: int
  f_failure_limit :: int

text \<open>A disabled policy has no feature (lines 1809 to 1817).\<close>

definition masked :: "setting_config \<Rightarrow> setting_config" where
  "masked f =
     f\<lparr>f_auto_reply := f_enabled f \<and> f_auto_reply f, f_posts := f_enabled f \<and> f_posts f,
       f_relationships := f_enabled f \<and> f_relationships f, f_discovery := f_enabled f \<and> f_discovery f,
       f_match := f_enabled f \<and> f_match f, f_outreach := f_enabled f \<and> f_outreach f,
       f_follow_discovered := f_enabled f \<and> f_follow_discovered f,
       f_friend_request := f_enabled f \<and> f_friend_request f\<rparr>"

definition config_ranges :: "setting_config \<Rightarrow> string option" where
  "config_ranges f =
     (if \<not> (0 \<le> f_active_start f \<and> f_active_start f < 1440)
         \<or> \<not> (0 \<le> f_active_end f \<and> f_active_end f < 1440)
      then Some ''autonomous active time is invalid''
      else if \<not> (10 \<le> f_min_interval f \<and> f_min_interval f \<le> 86400)
      then Some ''autonomous minimum interval is invalid''
      else if \<not> (1 \<le> f_total_limit f \<and> f_total_limit f \<le> 200)
      then Some ''autonomous total daily limit is invalid''
      else if \<not> (0 \<le> f_reply_limit f \<and> f_reply_limit f \<le> min 200 (f_total_limit f))
      then Some ''autonomous reply daily limit is invalid''
      else if \<not> (0 \<le> f_post_limit f \<and> f_post_limit f \<le> min 20 (f_total_limit f))
      then Some ''autonomous post daily limit is invalid''
      else if \<not> (0 \<le> f_relationship_limit f \<and> f_relationship_limit f \<le> min 100 (f_total_limit f))
      then Some ''autonomous relationship daily limit is invalid''
      else if \<not> (60 \<le> f_post_interval f \<and> f_post_interval f \<le> 10080)
      then Some ''autonomous post interval is invalid''
      else if \<not> (10 \<le> f_discovery_seconds f \<and> f_discovery_seconds f \<le> 86400)
      then Some ''autonomous discovery interval is invalid''
      else if \<not> (1 \<le> f_failure_limit f \<and> f_failure_limit f \<le> 20)
      then Some ''autonomous failure threshold is invalid''
      else None)"

definition config_features :: "setting_config \<Rightarrow> pystr list \<Rightarrow> pystr list \<Rightarrow> string option" where
  "config_features f actions targets =
     (if f_enabled f \<and> \<not> (f_auto_reply f \<or> f_posts f \<or> f_relationships f \<or> f_discovery f \<or> f_match f
           \<or> f_outreach f \<or> f_follow_discovered f \<or> f_friend_request f)
      then Some ''enabled autonomy requires one capability''
      else if f_auto_reply f \<and> S ''send_private_message'' \<notin> set actions
      then Some ''auto reply requires send_private_message''
      else if f_auto_reply f \<and> f_reply_limit f < 1
      then Some ''auto reply requires a positive daily budget''
      else if f_posts f \<and> S ''publish_text_post'' \<notin> set actions
      then Some ''scheduled post requires publish_text_post''
      else if f_posts f \<and> f_post_limit f < 1
      then Some ''scheduled posts require a positive daily budget''
      else if f_relationships f \<and> {S ''follow_user'', S ''unfollow_user''} \<inter> set actions = {}
      then Some ''relationship automation requires a relationship action''
      else if f_relationships f \<and> {S ''follow_user'', S ''unfollow_user''} \<subseteq> set actions
      then Some ''relationship automation requires one unambiguous target state''
      else if f_relationships f \<and> targets = []
      then Some ''relationship automation requires exact targets''
      else if f_relationships f \<and> f_relationship_limit f < 1
      then Some ''relationship automation requires a positive daily budget''
      else if f_discovery f \<and> S ''browse_online_users'' \<notin> set actions
      then Some ''discovery automation requires browse_online_users''
      else if f_match f \<and> S ''request_text_match'' \<notin> set actions
      then Some ''matching automation requires request_text_match''
      else if f_outreach f \<and> S ''send_private_message'' \<notin> set actions
      then Some ''proactive messaging requires send_private_message''
      else if f_outreach f \<and> f_reply_limit f < 1
      then Some ''proactive messaging requires a positive daily budget''
      else if f_follow_discovered f \<and> S ''follow_user'' \<notin> set actions
      then Some ''discovered follow requires follow_user''
      else if f_follow_discovered f \<and> f_relationship_limit f < 1
      then Some ''discovered follow requires a positive daily budget''
      else if f_friend_request f \<and> S ''request_friend'' \<notin> set actions
      then Some ''friend requests require request_friend''
      else if f_friend_request f \<and> f_relationship_limit f < 1
      then Some ''friend requests require a positive daily budget''
      else None)"

definition legacy_discovery_minutes :: "int \<Rightarrow> int" where
  "legacy_discovery_minutes n = (if n = 10 then 30 else max 5 (min 1440 ((n + 59) div 60)))"

text \<open>The values written into the row; \<open>watermark\<close> is the instant from which messages are answered.\<close>

definition reply_watermark :: "setting_config \<Rightarrow> setting_row \<Rightarrow> instant \<Rightarrow> instant option" where
  "reply_watermark f row now =
     (if f_auto_reply f \<and> s_auto_reply row \<and> s_reply_started row \<noteq> None then s_reply_started row
      else if f_auto_reply f then Some now else None)"

definition apply_config ::
  "setting_config \<Rightarrow> pystr list \<Rightarrow> pystr list \<Rightarrow> pystr \<Rightarrow> pystr \<Rightarrow> instant \<Rightarrow> setting_row \<Rightarrow> setting_row" where
  "apply_config f actions targets brief zone now row =
     row\<lparr>s_enabled := f_enabled f, s_auto_reply := f_auto_reply f,
         s_reply_started := reply_watermark f row now, s_posts := f_posts f,
         s_relationships := f_relationships f, s_discovery := f_discovery f, s_match := f_match f,
         s_outreach := f_outreach f, s_follow_discovered := f_follow_discovered f,
         s_friend_request := f_friend_request f, s_actions := actions, s_brief := brief,
         s_targets := targets, s_timezone := zone, s_active_start := f_active_start f,
         s_active_end := f_active_end f, s_min_interval := f_min_interval f,
         s_total_limit := f_total_limit f, s_reply_limit := f_reply_limit f,
         s_post_limit := f_post_limit f, s_relationship_limit := f_relationship_limit f,
         s_post_interval := f_post_interval f,
         s_discovery_minutes := legacy_discovery_minutes (f_discovery_seconds f),
         s_discovery_seconds := f_discovery_seconds f, s_failure_limit := f_failure_limit f\<rparr>"

text \<open>Writing the row (lines 1894 to 1953): a resubmitted policy lifts a halt even when nothing
  changed, but the version counts changes only.\<close>

definition configured_row :: "instant \<Rightarrow> bool \<Rightarrow> setting_row \<Rightarrow> setting_row \<Rightarrow> setting_row" where
  "configured_row now enabled row row1 =
     (let row2 = (if row1 \<noteq> row then row1\<lparr>s_version := max 1 (s_version row) + 1\<rparr> else row) in
      if row1 \<noteq> row \<or> s_halted_at row \<noteq> None
      then row2\<lparr>s_failures := 0, s_halted_at := None, s_halted_reason := None,
                s_next_run := (if enabled then Some now else None), s_updated_at := now\<rparr>
      else row2)"

definition configure_setting ::
  "instant \<Rightarrow> uuid \<Rightarrow> uuid \<Rightarrow> setting_config \<Rightarrow> agent_db \<Rightarrow> py_error + setting_row \<times> agent_db" where
  "configure_setting now new_id owner config d =
     (let f = masked config in
      and_then (row_allowed_actions (f_actions config)) (\<lambda>actions.
      and_then (row_targets (f_targets config)) (\<lambda>targets.
        let brief = py_strip (f_brief config);
            zone = py_strip (or_default (Some (f_timezone config)) (S ''UTC'')) in
        if length brief > 4000
        then Inl (ValueError ''autonomous operation brief is too long'')
        else if \<not> (1 \<le> length zone \<and> length zone \<le> 64)
        then Inl (ValueError ''invalid autonomous timezone'')
        else
          case config_ranges f of
            Some m \<Rightarrow> Inl (ValueError m)
          | None \<Rightarrow>
              (case config_features f actions targets of
                 Some m \<Rightarrow> Inl (ValueError m)
               | None \<Rightarrow>
                   (let (row, d1) = setting_get_or_create new_id now owner d;
                        row' = configured_row now (f_enabled f) row
                                 (apply_config f actions targets brief zone now row) in
                    Inr (row', put_setting row' d1))))))"

text \<open>Switching off, for one owner and for all.\<close>

definition any_feature :: "setting_row \<Rightarrow> bool" where
  "any_feature s \<longleftrightarrow>
     s_enabled s \<or> s_auto_reply s \<or> s_posts s \<or> s_relationships s \<or> s_discovery s \<or> s_match s
     \<or> s_outreach s \<or> s_follow_discovered s \<or> s_friend_request s"

definition disabled_setting :: "instant \<Rightarrow> pystr \<Rightarrow> int \<Rightarrow> setting_row \<Rightarrow> setting_row" where
  "disabled_setting now reason version s =
     s\<lparr>s_enabled := False, s_auto_reply := False, s_reply_started := None, s_posts := False,
       s_relationships := False, s_discovery := False, s_match := False, s_outreach := False,
       s_follow_discovered := False, s_friend_request := False, s_next_run := None,
       s_halted_at := Some now, s_halted_reason := Some reason, s_version := version,
       s_updated_at := now\<rparr>"

definition disable_for_owner ::
  "instant \<Rightarrow> uuid \<Rightarrow> pystr \<Rightarrow> pystr option \<Rightarrow> agent_db \<Rightarrow> py_error + bool \<times> agent_db" where
  "disable_for_owner now owner reason halt_reason d =
     (case setting_get owner d of
        None \<Rightarrow> Inr (False, d)
      | Some row \<Rightarrow>
          if \<not> any_feature row then Inr (False, d)
          else and_then (row_error_code (or_default halt_reason reason) (S ''autonomy_disabled'')) (\<lambda>code.
            Inr (True, put_setting (disabled_setting now code (max 1 (s_version row) + 1) row) d)))"

definition disable_all ::
  "instant \<Rightarrow> pystr \<Rightarrow> pystr option \<Rightarrow> agent_db \<Rightarrow> py_error + nat \<times> agent_db" where
  "disable_all now reason halt_reason d =
     and_then (row_error_code (or_default halt_reason reason) (S ''autonomy_disabled'')) (\<lambda>code.
       Inr (count_where any_feature (d_settings d),
            d\<lparr>d_settings := update_where any_feature
                (\<lambda>s. disabled_setting now code (s_version s + 1) s) (d_settings d)\<rparr>))"

definition settings_due :: "(uuid \<Rightarrow> bool) \<Rightarrow> instant \<Rightarrow> int \<Rightarrow> agent_db \<Rightarrow> setting_row list" where
  "settings_due locked now limit d =
     take (nat (min (max 1 limit) 50))
       (sort_key s_next_run
         (filter (\<lambda>s. s_enabled s \<and> s_halted_at s = None \<and> \<not> locked (s_id s)
             \<and> (case s_next_run s of None \<Rightarrow> True | Some t \<Rightarrow> t \<le> now)) (d_settings d)))"

section \<open>The switch for account actions\<close>

definition exec_setting_get :: "uuid \<Rightarrow> agent_db \<Rightarrow> exec_setting_row option" where
  "exec_setting_get owner d = find (\<lambda>e. e_owner e = owner) (d_exec_settings d)"

definition put_exec_setting :: "exec_setting_row \<Rightarrow> agent_db \<Rightarrow> agent_db" where
  "put_exec_setting e d =
     d\<lparr>d_exec_settings := update_where (\<lambda>y. e_id y = e_id e) (\<lambda>_. e) (d_exec_settings d)\<rparr>"

definition exec_setting_get_or_create ::
  "uuid \<Rightarrow> instant \<Rightarrow> uuid \<Rightarrow> agent_db \<Rightarrow> exec_setting_row \<times> agent_db" where
  "exec_setting_get_or_create new_id now owner d =
     (case exec_setting_get owner d of
        Some row \<Rightarrow> (row, d)
      | None \<Rightarrow>
          (let row = \<lparr>e_id = new_id, e_owner = owner, e_enabled = False, e_auto_send = False,
                      e_actions = [], e_version = 1, e_updated_at = now\<rparr> in
           (row, d\<lparr>d_exec_settings := d_exec_settings d @ [row]\<rparr>)))"

definition configure_exec_setting ::
  "instant \<Rightarrow> uuid \<Rightarrow> uuid \<Rightarrow> bool \<Rightarrow> bool \<Rightarrow> pystr list \<Rightarrow> agent_db \<Rightarrow>
     py_error + exec_setting_row \<times> agent_db" where
  "configure_exec_setting now new_id owner enabled auto_send actions d =
     and_then (row_allowed_actions actions) (\<lambda>normalized.
       if auto_send \<and> \<not> enabled
       then Inl (ValueError ''auto send requires the user execution switch'')
       else
         let (row, d1) = exec_setting_get_or_create new_id now owner d;
             changed = (e_enabled row \<noteq> enabled \<or> e_auto_send row \<noteq> auto_send
                        \<or> e_actions row \<noteq> normalized);
             row' = (if changed
                     then row\<lparr>e_enabled := enabled, e_auto_send := auto_send, e_actions := normalized,
                              e_version := max 1 (e_version row) + 1, e_updated_at := now\<rparr>
                     else row) in
         Inr (row', put_exec_setting row' d1))"

definition disable_exec_setting :: "instant \<Rightarrow> uuid \<Rightarrow> agent_db \<Rightarrow> bool \<times> agent_db" where
  "disable_exec_setting now owner d =
     (case exec_setting_get owner d of
        None \<Rightarrow> (False, d)
      | Some row \<Rightarrow>
          if \<not> (e_enabled row \<or> e_auto_send row) then (False, d)
          else (True, put_exec_setting (row\<lparr>e_enabled := False, e_auto_send := False,
                        e_version := max 1 (e_version row) + 1, e_updated_at := now\<rparr>) d))"

section \<open>The daily counters\<close>

definition usage_get :: "uuid \<Rightarrow> int \<Rightarrow> agent_db \<Rightarrow> usage_row option" where
  "usage_get owner day d = find (\<lambda>u. u_owner u = owner \<and> u_day u = day) (d_usages d)"

definition usage_get_many :: "(uuid \<rightharpoonup> int) \<Rightarrow> agent_db \<Rightarrow> (uuid \<rightharpoonup> usage_row)" where
  "usage_get_many dates d =
     map_of (rev (List.map_filter (\<lambda>u. if dates (u_owner u) = Some (u_day u)
                                       then Some (u_owner u, u) else None) (d_usages d)))"

definition zero_usage :: "uuid \<Rightarrow> uuid \<Rightarrow> int \<Rightarrow> instant \<Rightarrow> usage_row" where
  "zero_usage new_id owner day now =
     \<lparr>u_id = new_id, u_owner = owner, u_day = day, u_total = 0, u_reply = 0, u_outreach = 0,
      u_post = 0, u_relationship = 0, u_browse = 0, u_match = 0, u_failed = 0, u_unknown = 0,
      u_last_action = None, u_updated_at = now\<rparr>"

definition usage_get_or_create ::
  "uuid \<Rightarrow> instant \<Rightarrow> uuid \<Rightarrow> int \<Rightarrow> agent_db \<Rightarrow> usage_row \<times> agent_db" where
  "usage_get_or_create new_id now owner day d =
     (case usage_get owner day d of
        Some u \<Rightarrow> (u, d)
      | None \<Rightarrow> (let u = zero_usage new_id owner day now in (u, d\<lparr>d_usages := d_usages d @ [u]\<rparr>)))"

definition put_usage :: "usage_row \<Rightarrow> agent_db \<Rightarrow> agent_db" where
  "put_usage u d = d\<lparr>d_usages := update_where (\<lambda>y. u_id y = u_id u) (\<lambda>_. u) (d_usages d)\<rparr>"

section \<open>The snapshot of everything a dispatch depends on\<close>

record policy_snapshot =
  sn_setting :: setting_row
  sn_system :: "system_row option"
  sn_user :: "user_row option"
  sn_account :: "account_row option"
  sn_agent :: "agent_row option"
  sn_execution :: "exec_setting_row option"
  sn_connection :: "connection_row option"
  sn_preference :: "pydict option"
  sn_contact :: "contact_row option"
  sn_target_account :: "account_row option"
  sn_mapping_current :: bool

definition account_by_uid :: "pystr \<Rightarrow> pystr \<Rightarrow> agent_db \<Rightarrow> account_row option" where
  "account_by_uid provider uid d = find (\<lambda>a. a_provider a = provider \<and> a_uid a = uid) (d_accounts d)"

text \<open>The owner's account and the account of a local target are first read without a lock, in \<open>d0\<close>;
  everything else is read under locks, in the later state \<open>d\<close>.\<close>

definition locked_row :: "account_row option \<Rightarrow> agent_db \<Rightarrow> account_row option" where
  "locked_row candidate d =
     (case candidate of None \<Rightarrow> None | Some a \<Rightarrow> find (\<lambda>r. a_id r = a_id a) (d_accounts d))"

definition get_policy_snapshot ::
  "uuid \<Rightarrow> pystr \<Rightarrow> agent_db \<Rightarrow> agent_db \<Rightarrow> policy_snapshot option" where
  "get_policy_snapshot owner target_upstream_uid d0 d =
     (let target_uid = py_strip target_upstream_uid;
          account_candidate = find (\<lambda>a. a_user a = owner) (d_accounts d0);
          target_candidate =
            (case account_candidate of
               None \<Rightarrow> None
             | Some a \<Rightarrow> if target_uid = [] then None else account_by_uid (a_provider a) target_uid d0);
          account = locked_row account_candidate d;
          locked_target = locked_row target_candidate d;
          mapping_current =
            (case account of
               None \<Rightarrow> True
             | Some a \<Rightarrow> target_uid = []
                 \<or> map_option a_id (account_by_uid (a_provider a) target_uid d) = map_option a_id locked_target);
          agent = find (\<lambda>g. g_owner g = owner) (d_agents d);
          connection =
            (case agent of
               None \<Rightarrow> None
             | Some g \<Rightarrow> (case g_connection g of
                 None \<Rightarrow> None
               | Some cid \<Rightarrow> find (\<lambda>l. l_owner l = owner \<and> l_id l = cid) (d_connections d))) in
      map_option (\<lambda>setting.
          \<lparr>sn_setting = setting, sn_system = d_system d,
           sn_user = find (\<lambda>u. n_id u = owner) (d_users d), sn_account = account, sn_agent = agent,
           sn_execution = exec_setting_get owner d, sn_connection = connection,
           sn_preference = map_of (d_preferences d) owner,
           sn_contact = (if target_uid = [] then None else contact_get owner target_uid d),
           sn_target_account = (if mapping_current then locked_target else None),
           sn_mapping_current = mapping_current\<rparr>)
        (setting_get owner d))"

text \<open>The same without locks: one state, and the mapping is taken as current.\<close>

definition read_policy_snapshot :: "uuid \<Rightarrow> pystr \<Rightarrow> agent_db \<Rightarrow> policy_snapshot option" where
  "read_policy_snapshot owner target_upstream_uid d =
     map_option (\<lambda>sn. sn\<lparr>sn_target_account :=
           (case find (\<lambda>a. a_user a = owner) (d_accounts d) of
              None \<Rightarrow> None
            | Some a \<Rightarrow> if py_strip target_upstream_uid = [] then None
                         else account_by_uid (a_provider a) (py_strip target_upstream_uid) d),
         sn_account := find (\<lambda>a. a_user a = owner) (d_accounts d), sn_mapping_current := True\<rparr>)
       (get_policy_snapshot owner target_upstream_uid d d)"

section \<open>The constraints of the tables\<close>

definition setting_constraints :: "setting_row \<Rightarrow> bool" where
  "setting_constraints s \<longleftrightarrow>
     set (s_actions s) \<subseteq> set SUPPORTED_ACCOUNT_ACTION_TYPES
     \<and> length (s_brief s) \<le> 4000
     \<and> 1 \<le> length (sql_btrim (s_timezone s)) \<and> length (sql_btrim (s_timezone s)) \<le> 64
     \<and> 0 \<le> s_active_start s \<and> s_active_start s \<le> 1439 \<and> 0 \<le> s_active_end s \<and> s_active_end s \<le> 1439
     \<and> 10 \<le> s_min_interval s \<and> s_min_interval s \<le> 86400
     \<and> 1 \<le> s_total_limit s \<and> s_total_limit s \<le> 200
     \<and> 0 \<le> s_reply_limit s \<and> s_reply_limit s \<le> 200
     \<and> 0 \<le> s_post_limit s \<and> s_post_limit s \<le> 20
     \<and> 0 \<le> s_relationship_limit s \<and> s_relationship_limit s \<le> 100
     \<and> 60 \<le> s_post_interval s \<and> s_post_interval s \<le> 10080
     \<and> 5 \<le> s_discovery_minutes s \<and> s_discovery_minutes s \<le> 1440
     \<and> 10 \<le> s_discovery_seconds s \<and> s_discovery_seconds s \<le> 86400
     \<and> 1 \<le> s_failure_limit s \<and> s_failure_limit s \<le> 20 \<and> 0 \<le> s_failures s
     \<and> 1 \<le> s_version s
     \<and> (s_auto_reply s \<longrightarrow> s_enabled s \<and> S ''send_private_message'' \<in> set (s_actions s)
          \<and> s_reply_limit s \<ge> 1 \<and> s_reply_started s \<noteq> None)
     \<and> (s_posts s \<longrightarrow> s_enabled s \<and> S ''publish_text_post'' \<in> set (s_actions s) \<and> s_post_limit s \<ge> 1)
     \<and> (s_relationships s \<longrightarrow> s_enabled s
          \<and> (S ''follow_user'' \<in> set (s_actions s) \<or> S ''unfollow_user'' \<in> set (s_actions s))
          \<and> s_targets s \<noteq> [] \<and> s_relationship_limit s \<ge> 1)
     \<and> (s_discovery s \<longrightarrow> s_enabled s \<and> S ''browse_online_users'' \<in> set (s_actions s))
     \<and> (s_match s \<longrightarrow> s_enabled s \<and> S ''request_text_match'' \<in> set (s_actions s))
     \<and> (s_outreach s \<longrightarrow> s_enabled s \<and> S ''send_private_message'' \<in> set (s_actions s))
     \<and> (s_follow_discovered s \<longrightarrow> s_enabled s \<and> S ''follow_user'' \<in> set (s_actions s))
     \<and> (s_friend_request s \<longrightarrow> s_enabled s \<and> S ''request_friend'' \<in> set (s_actions s))
     \<and> (s_enabled s \<longrightarrow> s_auto_reply s \<or> s_posts s \<or> s_relationships s \<or> s_discovery s \<or> s_match s
          \<or> s_outreach s \<or> s_follow_discovered s \<or> s_friend_request s)"

definition usage_constraints :: "usage_row \<Rightarrow> bool" where
  "usage_constraints u \<longleftrightarrow>
     u_total u \<ge> 0 \<and> u_reply u \<ge> 0 \<and> u_post u \<ge> 0 \<and> u_relationship u \<ge> 0 \<and> u_browse u \<ge> 0
     \<and> u_match u \<ge> 0 \<and> u_outreach u \<ge> 0 \<and> u_failed u \<ge> 0 \<and> u_unknown u \<ge> 0
     \<and> u_total u = u_reply u + u_outreach u + u_post u + u_relationship u + u_browse u + u_match u"

definition setting_table_ok :: "agent_db \<Rightarrow> bool" where
  "setting_table_ok d \<longleftrightarrow>
     distinct (map s_id (d_settings d)) \<and> distinct (map s_owner (d_settings d))
     \<and> (\<forall>s \<in> set (d_settings d). setting_constraints s)"

section \<open>Lemmas\<close>

lemma sql_btrim_strip: "sql_btrim (py_strip s) = py_strip s"
proof -
  have ends: "py_strip s = [] \<or> \<not> py_space (hd (py_strip s)) \<and> \<not> py_space (last (py_strip s))"
    using py_strip_fixed_iff [of "py_strip s"] by simp
  have fixed: "dropWhile (\<lambda>c. c = 32) xs = xs" if "xs = [] \<or> \<not> py_space (hd xs)" for xs
    using that by (cases xs) (auto simp: py_space_def)
  have "dropWhile (\<lambda>c. c = 32) (py_strip s) = py_strip s" using ends fixed by blast
  moreover have "dropWhile (\<lambda>c. c = 32) (rev (py_strip s)) = rev (py_strip s)"
    using ends by (intro fixed) (metis hd_rev rev_is_Nil_conv)
  ultimately show ?thesis by (simp add: sql_btrim_def)
qed

lemma row_allowed_actions_ok: "row_allowed_actions vs = Inr as \<Longrightarrow> set as \<subseteq> set SUPPORTED_ACCOUNT_ACTION_TYPES"
proof -
  have "allowed_loop n vs = Inr as \<Longrightarrow> set n \<subseteq> set SUPPORTED_ACCOUNT_ACTION_TYPES
      \<Longrightarrow> set as \<subseteq> set SUPPORTED_ACCOUNT_ACTION_TYPES" for n
  proof (induction n vs rule: allowed_loop.induct)
    case (2 n v vs)
    obtain a where a: "row_action v = Inr a"
      "allowed_loop (if a \<notin> set n then n @ [a] else n) vs = Inr as"
      using "2.prems"(1) by (auto simp: and_then_Inr_iff)
    show ?case using row_action_ok [OF a(1)] "2.prems"(2) by (intro "2.IH" [OF a(2)]) auto
  qed simp
  then show "row_allowed_actions vs = Inr as \<Longrightarrow> set as \<subseteq> set SUPPORTED_ACCOUNT_ACTION_TYPES"
    by (simp add: row_allowed_actions_def)
qed

lemma config_ranges_None:
  "config_ranges f = None \<Longrightarrow>
     0 \<le> f_active_start f \<and> f_active_start f < 1440 \<and> 0 \<le> f_active_end f \<and> f_active_end f < 1440
     \<and> 10 \<le> f_min_interval f \<and> f_min_interval f \<le> 86400 \<and> 1 \<le> f_total_limit f \<and> f_total_limit f \<le> 200
     \<and> 0 \<le> f_reply_limit f \<and> f_reply_limit f \<le> min 200 (f_total_limit f)
     \<and> 0 \<le> f_post_limit f \<and> f_post_limit f \<le> min 20 (f_total_limit f)
     \<and> 0 \<le> f_relationship_limit f \<and> f_relationship_limit f \<le> min 100 (f_total_limit f)
     \<and> 60 \<le> f_post_interval f \<and> f_post_interval f \<le> 10080
     \<and> 10 \<le> f_discovery_seconds f \<and> f_discovery_seconds f \<le> 86400
     \<and> 1 \<le> f_failure_limit f \<and> f_failure_limit f \<le> 20"
  unfolding config_ranges_def by (simp split: if_split_asm)

lemma config_features_None:
  assumes "config_features f as ts = None"
  shows "f_enabled f \<longrightarrow> f_auto_reply f \<or> f_posts f \<or> f_relationships f \<or> f_discovery f \<or> f_match f
      \<or> f_outreach f \<or> f_follow_discovered f \<or> f_friend_request f"
    and "f_auto_reply f \<longrightarrow> S ''send_private_message'' \<in> set as \<and> f_reply_limit f \<ge> 1"
    and "f_posts f \<longrightarrow> S ''publish_text_post'' \<in> set as \<and> f_post_limit f \<ge> 1"
    and "f_relationships f \<longrightarrow> (S ''follow_user'' \<in> set as \<or> S ''unfollow_user'' \<in> set as)
      \<and> ts \<noteq> [] \<and> f_relationship_limit f \<ge> 1"
    and "f_discovery f \<longrightarrow> S ''browse_online_users'' \<in> set as"
    and "f_match f \<longrightarrow> S ''request_text_match'' \<in> set as"
    and "f_outreach f \<longrightarrow> S ''send_private_message'' \<in> set as"
    and "f_follow_discovered f \<longrightarrow> S ''follow_user'' \<in> set as"
    and "f_friend_request f \<longrightarrow> S ''request_friend'' \<in> set as"
  using assms by (simp_all add: config_features_def not_less split: if_split_asm)

lemma legacy_discovery_minutes_range: "5 \<le> legacy_discovery_minutes n \<and> legacy_discovery_minutes n \<le> 1440"
  by (simp add: legacy_discovery_minutes_def)

lemma masked_enabled:
  "f_auto_reply (masked f) \<longrightarrow> f_enabled (masked f)" "f_posts (masked f) \<longrightarrow> f_enabled (masked f)"
  "f_relationships (masked f) \<longrightarrow> f_enabled (masked f)" "f_discovery (masked f) \<longrightarrow> f_enabled (masked f)"
  "f_match (masked f) \<longrightarrow> f_enabled (masked f)" "f_outreach (masked f) \<longrightarrow> f_enabled (masked f)"
  "f_follow_discovered (masked f) \<longrightarrow> f_enabled (masked f)"
  "f_friend_request (masked f) \<longrightarrow> f_enabled (masked f)"
  by (simp_all add: masked_def)

lemma apply_config_constraints:
  assumes "config_ranges (masked f) = None" "config_features (masked f) as ts = None"
    and "set as \<subseteq> set SUPPORTED_ACCOUNT_ACTION_TYPES" "length brief \<le> 4000"
    and "1 \<le> length (py_strip z)" "length (py_strip z) \<le> 64" "0 \<le> s_failures row" "1 \<le> s_version row"
  shows "setting_constraints (apply_config (masked f) as ts brief (py_strip z) now row)"
  using assms(3-8) config_ranges_None [OF assms(1)] config_features_None [OF assms(2)]
    masked_enabled [of f] legacy_discovery_minutes_range
  by (simp add: setting_constraints_def apply_config_def sql_btrim_strip reply_watermark_def)

lemma setting_constraints_frame [simp]:
  "setting_constraints (s\<lparr>s_halted_at := h, s_halted_reason := r, s_next_run := n, s_updated_at := u\<rparr>)
     = setting_constraints s"
  by (simp add: setting_constraints_def)

lemma configured_row_constraints:
  assumes old: "setting_constraints old" and new: "setting_constraints row2"
  shows "setting_constraints (configured_row now e old row2)"
proof -
  have version: "setting_constraints (row2\<lparr>s_version := max 1 v + 1\<rparr>)" for v
    using new by (simp add: setting_constraints_def)
  have fail0: "setting_constraints (s\<lparr>s_failures := 0, s_halted_at := h, s_halted_reason := r,
      s_next_run := n, s_updated_at := u\<rparr>)" if "setting_constraints s" for s h r n u
    using that by (simp add: setting_constraints_def)
  show ?thesis
    using version [of "s_version old"] old fail0 [OF version, of "s_version old"] fail0 [OF old]
    unfolding configured_row_def Let_def by (simp split: if_split)
qed

lemma default_setting_constraints: "setting_constraints (default_setting i owner now)"
proof -
  have "sql_btrim (S ''UTC'') = S ''UTC''" by (simp add: sql_btrim_def S_def)
  then show ?thesis by (simp add: setting_constraints_def default_setting_def)
qed

lemma setting_get_Some: "setting_get owner d = Some s \<Longrightarrow> s \<in> set (d_settings d) \<and> s_owner s = owner"
  unfolding setting_get_def by (drule find_SomeD) simp

lemma put_setting_ok:
  assumes ok: "setting_table_ok d" and old: "setting_get owner d = Some s"
    and row: "s_id row = s_id s" "s_owner row = s_owner s" "setting_constraints row"
  shows "setting_table_ok (put_setting row d)"
    and "setting_get owner (put_setting row d) = Some row"
    and "s' \<in> set (d_settings d) \<Longrightarrow> s' \<noteq> s \<Longrightarrow> s' \<in> set (d_settings (put_setting row d))"
    and "row = s \<Longrightarrow> put_setting row d = d"
proof -
  note s = setting_get_Some [OF old]
  have ids: "distinct (map s_id (d_settings d))" using ok by (simp add: setting_table_ok_def)
  note put = put_row [OF ids conjunct1 [OF s] row(1)]
  have owners: "map s_owner (d_settings (put_setting row d)) = map s_owner (d_settings d)"
    using put(1) [of s_owner] row by (simp add: put_setting_def)
  show "setting_table_ok (put_setting row d)"
    using ok row(3) put(1) [of s_id] owners put(4) row(1)
    by (auto simp: setting_table_ok_def put_setting_def)
  have "find (\<lambda>y. s_owner y = s_owner row) (d_settings (put_setting row d)) = Some row"
    using ok owners put(2) by (intro find_key) (simp_all add: setting_table_ok_def put_setting_def)
  then show "setting_get owner (put_setting row d) = Some row"
    using s row by (simp add: setting_get_def)
  show "s' \<in> set (d_settings (put_setting row d))" if "s' \<in> set (d_settings d)" "s' \<noteq> s"
    using put(3) [OF that] by (simp add: put_setting_def)
  show "put_setting row d = d" if "row = s"
    using put(5) [OF that] by (simp add: put_setting_def)
qed

lemma setting_get_or_create_ok:
  assumes "setting_table_ok d" "new_id \<notin> s_id ` set (d_settings d)"
    and "setting_get_or_create new_id now owner d = (row, d1)"
  shows "setting_table_ok d1" "set (d_settings d) \<subseteq> set (d_settings d1)" "setting_get owner d1 = Some row"
    "setting_get owner d = None \<Longrightarrow> row = default_setting new_id owner now"
    "setting_get owner d \<noteq> None \<Longrightarrow> setting_get owner d = Some row \<and> d1 = d"
proof -
  have all: "setting_table_ok d1 \<and> set (d_settings d) \<subseteq> set (d_settings d1) \<and> setting_get owner d1 = Some row
    \<and> (setting_get owner d = None \<longrightarrow> row = default_setting new_id owner now)
    \<and> (setting_get owner d \<noteq> None \<longrightarrow> setting_get owner d = Some row \<and> d1 = d)"
  proof (cases "setting_get owner d")
    case None
    then have "owner \<notin> s_owner ` set (d_settings d)"
      unfolding setting_get_def find_None_iff by auto
    with None assms default_setting_constraints show ?thesis
      by (auto simp: setting_get_or_create_def Let_def setting_table_ok_def setting_get_def find_append
          default_setting_def)
  next
    case (Some s)
    with assms show ?thesis by (simp add: setting_get_or_create_def)
  qed
  then show "setting_table_ok d1" "set (d_settings d) \<subseteq> set (d_settings d1)" "setting_get owner d1 = Some row"
    "setting_get owner d = None \<Longrightarrow> row = default_setting new_id owner now"
    "setting_get owner d \<noteq> None \<Longrightarrow> setting_get owner d = Some row \<and> d1 = d" by blast+
qed

section \<open>Properties\<close>

lemma configure_setting_cases:
  assumes "configure_setting now new_id owner config d = Inr (row3, d')"
  obtains actions targets row d1 where
    "row_allowed_actions (f_actions config) = Inr actions" "row_targets (f_targets config) = Inr targets"
    "length (py_strip (f_brief config)) \<le> 4000"
    "1 \<le> length (py_strip (or_default (Some (f_timezone config)) (S ''UTC'')))"
    "length (py_strip (or_default (Some (f_timezone config)) (S ''UTC''))) \<le> 64"
    "config_ranges (masked config) = None" "config_features (masked config) actions targets = None"
    "setting_get_or_create new_id now owner d = (row, d1)"
    "row3 = configured_row now (f_enabled (masked config)) row
       (apply_config (masked config) actions targets (py_strip (f_brief config))
         (py_strip (or_default (Some (f_timezone config)) (S ''UTC''))) now row)"
    "d' = put_setting row3 d1"
proof -
  obtain actions targets where as: "row_allowed_actions (f_actions config) = Inr actions"
    and ts: "row_targets (f_targets config) = Inr targets"
    using assms unfolding configure_setting_def Let_def and_then_Inr_iff by blast
  obtain row d1 where goc: "setting_get_or_create new_id now owner d = (row, d1)" by (metis surj_pair)
  have len: "length (py_strip (f_brief config)) \<le> 4000"
    "1 \<le> length (py_strip (or_default (Some (f_timezone config)) (S ''UTC'')))"
    "length (py_strip (or_default (Some (f_timezone config)) (S ''UTC''))) \<le> 64"
    using assms as ts
    by (auto simp: configure_setting_def Let_def Suc_le_eq not_less not_le split: if_split_asm)
  have checks: "config_ranges (masked config) = None" "config_features (masked config) actions targets = None"
    using assms as ts len by (auto simp: configure_setting_def Let_def split: option.splits)
  define r where "r = configured_row now (f_enabled (masked config)) row
       (apply_config (masked config) actions targets (py_strip (f_brief config))
         (py_strip (or_default (Some (f_timezone config)) (S ''UTC''))) now row)"
  have "Inr (r, put_setting r d1) = (Inr (row3, d') :: py_error + setting_row \<times> agent_db)"
    using assms as ts goc len checks by (auto simp: configure_setting_def Let_def r_def)
  then have "row3 = r" "d' = put_setting r d1" by auto
  then show thesis
    using that [OF as ts len checks goc] unfolding r_def by blast
qed


definition sample_config :: setting_config where
  "sample_config = \<lparr>f_enabled = True, f_auto_reply = True, f_posts = False, f_relationships = False,
     f_discovery = False, f_match = False, f_outreach = False, f_follow_discovered = False,
     f_friend_request = False, f_actions = [S ''send_private_message''], f_brief = [], f_targets = [],
     f_timezone = S ''UTC'', f_active_start = 0, f_active_end = 0, f_min_interval = 30,
     f_total_limit = 20, f_reply_limit = 10, f_post_limit = 1, f_relationship_limit = 5,
     f_post_interval = 1440, f_discovery_seconds = 10, f_failure_limit = 3\<rparr>"

lemma sample_configured:
  "\<exists>row d'. configure_setting 9 1 7 sample_config empty_db = Inr (row, d')"
proof -
  have "py_strip (S ''UTC'') = S ''UTC''" "py_strip (S ''send_private_message'') = S ''send_private_message''"
    by (simp_all add: S_def py_strip_def py_space_def)
  moreover have "masked sample_config = sample_config" by (simp add: masked_def sample_config_def)
  ultimately show ?thesis
    by (simp add: configure_setting_def sample_config_def config_ranges_def config_features_def
        row_allowed_actions_def row_action_def SUPPORTED_ACCOUNT_ACTION_TYPES_def row_targets_def
        Let_def split: prod.split)
qed


end
