(* ===== verification/Task_Queue.thy ===== *)
theory Task_Queue
  imports Autonomy_Settings
begin

text \<open>
  The queue of \<^verbatim>\<open>AgentAutonomyTaskRepository\<close> (\<^verbatim>\<open>bbw_agent/repositories.py\<close>): enqueueing under an
  idempotency key, claiming with a lease, the lease operations, cancelling what has not started,
  and which tasks are due.  Fresh identifiers and lease tokens (\<^verbatim>\<open>uuid4\<close>, \<^verbatim>\<open>secrets.token_urlsafe\<close>)
  are arguments; \<open>locked\<close> are the rows \<^verbatim>\<open>SKIP LOCKED\<close> passes over.
\<close>

section \<open>Rows and their states\<close>

definition AUTONOMY_NOT_STARTED_STATUSES :: "task_status set" where
  "AUTONOMY_NOT_STARTED_STATUSES = {QUEUED, DEFERRED, LEASED, GENERATING}"

definition AUTONOMY_TERMINAL_STATUSES :: "task_status set" where
  "AUTONOMY_TERMINAL_STATUSES = {SUCCEEDED, FAILED, CANCELLED, STALE, MANUAL_REVIEW}"

definition AUTONOMY_TASK_TYPES :: "(pystr \<times> task_type) list" where
  "AUTONOMY_TASK_TYPES =
     map (\<lambda>ty. (task_type_value ty, ty))
       [REPLY_TO_MESSAGE, SCHEDULED_POST, FOLLOW_TARGET, UNFOLLOW_TARGET, BROWSE_ONLINE, REQUEST_MATCH,
        PROACTIVE_MESSAGE, FOLLOW_DISCOVERED, REQUEST_FRIEND]"

text \<open>The CHECK constraints of the table.\<close>

definition task_constraints :: "task_row \<Rightarrow> bool" where
  "task_constraints t \<longleftrightarrow>
     t_action t = expected_action (t_type t)
     \<and> 8 \<le> length (t_key t) \<and> length (t_key t) \<le> 160
     \<and> t_policy_version t \<ge> 1 \<and> t_execution_version t \<ge> 1 \<and> t_runner_version t \<ge> 1
     \<and> (case t_contact_version t of None \<Rightarrow> True | Some v \<Rightarrow> v \<ge> 1)
     \<and> (case t_stage t of None \<Rightarrow> True | Some st \<Rightarrow> st \<in> set RELATIONSHIP_STAGES)
     \<and> length (t_fingerprint t) = 64
     \<and> (t_unknown t \<longleftrightarrow> t_status t = MANUAL_REVIEW)
     \<and> t_attempts t \<ge> 0
     \<and> (t_dispatch_at t = None \<or> t_started_at t \<noteq> None)
     \<and> (t_dispatch_at t = None \<or> t_budget_day t \<noteq> None)
     \<and> (t_completed_at t = None \<or> t_status t \<in> AUTONOMY_TERMINAL_STATUSES)"

section \<open>Reading\<close>

definition task_get :: "uuid \<Rightarrow> uuid \<Rightarrow> agent_db \<Rightarrow> task_row option" where
  "task_get owner tid d = find (\<lambda>t. t_owner t = owner \<and> t_id t = tid) (d_tasks d)"

definition task_find_key :: "uuid \<Rightarrow> pystr \<Rightarrow> agent_db \<Rightarrow> task_row option" where
  "task_find_key owner key d = find (\<lambda>t. t_owner t = owner \<and> t_key t = key) (d_tasks d)"

definition list_recent :: "uuid \<Rightarrow> int \<Rightarrow> agent_db \<Rightarrow> task_row list" where
  "list_recent owner limit d =
     take (nat (min (max 1 limit) 100))
       (sort_key (\<lambda>t. - t_created_at t) (filter (\<lambda>t. t_owner t = owner) (d_tasks d)))"

definition has_open_task :: "uuid \<Rightarrow> agent_db \<Rightarrow> bool" where
  "has_open_task owner d \<longleftrightarrow>
     (\<exists>t \<in> set (d_tasks d). t_owner t = owner \<and> t_status t \<notin> AUTONOMY_TERMINAL_STATUSES)"

definition has_open_task_for_target :: "uuid \<Rightarrow> pystr \<Rightarrow> agent_db \<Rightarrow> py_error + bool" where
  "has_open_task_for_target owner uid d =
     and_then (row_target uid) (\<lambda>target.
       Inr (\<exists>t \<in> set (d_tasks d). t_owner t = owner \<and> t_target t = Some target
              \<and> t_status t \<notin> AUTONOMY_TERMINAL_STATUSES))"

definition has_open_task_type :: "uuid \<Rightarrow> pystr \<Rightarrow> agent_db \<Rightarrow> py_error + bool" where
  "has_open_task_type owner type_text d =
     (case map_of AUTONOMY_TASK_TYPES (py_strip type_text) of
        None \<Rightarrow> Inl (ValueError ''unsupported autonomous task type'')
      | Some ty \<Rightarrow>
          Inr (\<exists>t \<in> set (d_tasks d). t_owner t = owner \<and> t_type t = ty
                 \<and> t_status t \<notin> AUTONOMY_TERMINAL_STATUSES))"

section \<open>Enqueueing\<close>

record task_request =
  q_owner :: uuid
  q_account :: uuid
  q_type :: pystr
  q_action :: pystr
  q_key :: pystr
  q_policy_version :: int
  q_execution_version :: int
  q_runner_version :: int
  q_connection :: uuid
  q_fingerprint :: pystr
  q_contact_version :: "int option"
  q_stage :: pystr
  q_source_id :: "uuid option"
  q_source :: pystr
  q_slot :: pystr
  q_target :: pystr
  q_instruction :: pystr
  q_scheduled_for :: "instant option"
  q_not_before :: "instant option"

text \<open>The checks of lines 2370 to 2401, in their order; the result is the normalised target.\<close>

definition enqueue_checks :: "task_request \<Rightarrow> py_error + pystr" where
  "enqueue_checks q =
     (let source = py_strip (q_source q); target = py_strip (q_target q);
          instruction = py_strip (q_instruction q);
          fingerprint = py_lower (py_strip (q_fingerprint q));
          stage = py_lower (py_strip (q_stage q)) in
      if length source > 256 \<or> (\<exists>c \<in> set source. c < 32)
      then Inl (ValueError ''invalid autonomous source identity'')
      else and_then (if target \<noteq> [] then row_target target else Inr target) (\<lambda>target.
        if length instruction > 4000
        then Inl (ValueError ''autonomous generation instruction is too long'')
        else if some_and (q_contact_version q) (\<lambda>v. v < 1)
        then Inl (ValueError ''contact policy version must be positive'')
        else if stage \<noteq> [] \<and> stage \<notin> set RELATIONSHIP_STAGES
        then Inl (ValueError ''autonomous relationship stage is invalid'')
        else if py_strip (q_type q) = task_type_value REPLY_TO_MESSAGE \<and> stage = []
        then Inl (ValueError ''autonomous reply requires a relationship stage'')
        else if q_runner_version q < 1
        then Inl (ValueError ''autonomous runner setting version must be positive'')
        else if \<not> hex_fingerprint fingerprint
        then Inl (ValueError ''autonomous runner fingerprint is invalid'')
        else Inr target))"

definition new_task :: "uuid \<Rightarrow> instant \<Rightarrow> task_request \<Rightarrow> task_type \<Rightarrow> pystr \<Rightarrow> pystr \<Rightarrow> task_row" where
  "new_task new_id now q ty key target =
     \<lparr>t_id = new_id, t_owner = q_owner q, t_account = q_account q, t_type = ty,
      t_action = py_strip (q_action q), t_status = QUEUED, t_key = key, t_action_key = None,
      t_policy_version = q_policy_version q, t_contact_version = q_contact_version q,
      t_stage = none_if_empty (py_lower (py_strip (q_stage q))),
      t_execution_version = q_execution_version q, t_runner_version = q_runner_version q,
      t_connection = q_connection q, t_fingerprint = py_lower (py_strip (q_fingerprint q)),
      t_source_id = q_source_id q, t_source = none_if_empty (py_strip (q_source q)),
      t_slot = none_if_empty (py_strip (q_slot q)), t_target = none_if_empty target,
      t_instruction = py_strip (q_instruction q), t_scheduled_for = q_scheduled_for q,
      t_model_run = None, t_execution = None, t_error = None, t_result = None, t_budget_day = None,
      t_not_before = q_not_before q, t_attempts = 0, t_lease_owner = None, t_lease_token = None,
      t_lease_until = None, t_queued_at = now, t_started_at = None, t_dispatch_at = None,
      t_completed_at = None, t_unknown = False, t_created_at = now, t_updated_at = now\<rparr>"

text \<open>The database refuses a new row that violates a CHECK constraint.\<close>

definition enqueue_task ::
  "uuid \<Rightarrow> instant \<Rightarrow> task_request \<Rightarrow> agent_db \<Rightarrow> py_error + (task_row \<times> bool) \<times> agent_db" where
  "enqueue_task new_id now q d =
     and_then (row_action (q_action q)) (\<lambda>action.
       case map_of AUTONOMY_TASK_TYPES (py_strip (q_type q)) of
         None \<Rightarrow> Inl (ValueError ''unsupported autonomous task type'')
       | Some ty \<Rightarrow>
           if expected_action ty \<noteq> action
           then Inl (ValueError ''autonomous task type and action do not match'')
           else and_then (row_key (q_key q)) (\<lambda>key.
                and_then (enqueue_checks q) (\<lambda>target.
                  let t = new_task new_id now q ty key target in
                  if \<not> task_constraints t
                  then Inl (IntegrityError ''ai_agent_autonomy_tasks'')
                  else
                    (case task_find_key (q_owner q) key d of
                       None \<Rightarrow> Inr ((t, True), d\<lparr>d_tasks := d_tasks d @ [t]\<rparr>)
                     | Some existing \<Rightarrow> Inr ((existing, False), d)))))"

section \<open>Claiming\<close>

definition task_due :: "instant \<Rightarrow> task_row \<Rightarrow> bool" where
  "task_due now t \<longleftrightarrow>
     t_status t = QUEUED \<and> (case t_not_before t of None \<Rightarrow> True | Some nb \<Rightarrow> nb \<le> now)
     \<or> t_status t = DEFERRED \<and> some_and (t_not_before t) (\<lambda>nb. nb \<le> now)
     \<or> t_status t \<in> {LEASED, GENERATING} \<and> some_and (t_lease_until t) (\<lambda>u. u \<le> now)"

definition claimed :: "pystr \<Rightarrow> pystr \<Rightarrow> instant \<Rightarrow> instant \<Rightarrow> task_row \<Rightarrow> task_row" where
  "claimed worker token now until t =
     t\<lparr>t_status := LEASED, t_lease_owner := Some worker, t_lease_token := Some token,
       t_lease_until := Some until, t_attempts := t_attempts t + 1,
       t_started_at := Some (coalesce (t_started_at t) now), t_error := None, t_updated_at := now\<rparr>"

definition put_task :: "task_row \<Rightarrow> agent_db \<Rightarrow> agent_db" where
  "put_task t d = d\<lparr>d_tasks := update_where (\<lambda>y. t_id y = t_id t) (\<lambda>_. t) (d_tasks d)\<rparr>"

definition checked_worker :: "pystr option \<Rightarrow> py_error + pystr" where
  "checked_worker worker_id =
     (let worker = py_strip (or_default worker_id []) in
      if worker = [] \<or> length worker > 128
      then Inl (ValueError ''invalid autonomous worker id'') else Inr worker)"

definition sql_claim_next ::
  "(uuid \<Rightarrow> bool) \<Rightarrow> pystr \<Rightarrow> pystr option \<Rightarrow> instant \<Rightarrow> instant \<Rightarrow> agent_db \<Rightarrow>
     py_error + task_row option \<times> agent_db" where
  "sql_claim_next locked token worker_id now until d =
     and_then (checked_worker worker_id) (\<lambda>worker.
       case sort_key (\<lambda>t. (t_not_before t, t_queued_at t))
              (filter (\<lambda>t. task_due now t \<and> \<not> locked (t_id t)) (d_tasks d)) of
         [] \<Rightarrow> Inr (None, d)
       | t # _ \<Rightarrow> (let t' = claimed worker token now until t in Inr (Some t', put_task t' d)))"

definition sql_claim_task ::
  "(uuid \<Rightarrow> bool) \<Rightarrow> pystr \<Rightarrow> uuid \<Rightarrow> pystr option \<Rightarrow> instant \<Rightarrow> instant \<Rightarrow> agent_db \<Rightarrow>
     py_error + task_row option \<times> agent_db" where
  "sql_claim_task locked token tid worker_id now until d =
     and_then (checked_worker worker_id) (\<lambda>worker.
       case find (\<lambda>t. t_id t = tid \<and> task_due now t \<and> \<not> locked (t_id t)) (d_tasks d) of
         None \<Rightarrow> Inr (None, d)
       | Some t \<Rightarrow> (let t' = claimed worker token now until t in Inr (Some t', put_task t' d)))"

section \<open>Which tasks are due\<close>

definition due_rows :: "instant \<Rightarrow> int \<Rightarrow> agent_db \<Rightarrow> (task_row \<times> setting_row) list" where
  "due_rows now maximum d =
     take (nat (min (maximum * 20) 1000))
       (sort_key (\<lambda>(t, s). (t_not_before t, t_queued_at t))
         (filter (\<lambda>(t, s). s_owner s = t_owner t \<and> task_due now t \<and> s_enabled s \<and> s_halted_at s = None)
           (List.product (d_tasks d) (d_settings d))))"

text \<open>The local day of each owner; an owner whose zone is unknown has none.\<close>

fun owner_dates ::
  "(pystr \<Rightarrow> bool) \<Rightarrow> (pystr \<Rightarrow> zone) \<Rightarrow> instant \<Rightarrow> (task_row \<times> setting_row) list \<Rightarrow>
     (uuid \<rightharpoonup> int) \<times> uuid set \<Rightarrow> (uuid \<rightharpoonup> int) \<times> uuid set" where
  "owner_dates known_zone zone_of now [] (dates, invalid) = (dates, invalid)"
| "owner_dates known_zone zone_of now ((t, s) # rows) (dates, invalid) =
     (let owner = t_owner t; name = or_default (Some (s_timezone s)) (S ''UTC'') in
      if dates owner \<noteq> None \<or> owner \<in> invalid
      then owner_dates known_zone zone_of now rows (dates, invalid)
      else if known_zone name
      then owner_dates known_zone zone_of now rows
             (dates(owner \<mapsto> local_date (to_local (zone_of name) now)), invalid)
      else owner_dates known_zone zone_of now rows (dates, insert owner invalid))"

definition row_may_run ::
  "instant \<Rightarrow> (uuid \<rightharpoonup> usage_row) \<Rightarrow> uuid set \<Rightarrow> uuid set \<Rightarrow> task_row \<Rightarrow> setting_row \<Rightarrow> bool" where
  "row_may_run now usages invalid owners t s \<longleftrightarrow>
     (let usage = usages (t_owner t); category = row_category t in
      \<not> (t_owner t \<in> owners
         \<or> some_and (s_last_action s) (\<lambda>a. a + seconds (s_min_interval s) > now)
         \<or> t_owner t \<in> invalid
         \<or> (case usage of None \<Rightarrow> 0 | Some u \<Rightarrow> u_total u) \<ge> s_total_limit s
         \<or> usage_count usage category \<ge> setting_category_limit s category))"

fun select_due ::
  "instant \<Rightarrow> int \<Rightarrow> (uuid \<rightharpoonup> usage_row) \<Rightarrow> uuid set \<Rightarrow> (task_row \<times> setting_row) list \<Rightarrow> uuid set \<Rightarrow>
     uuid list \<Rightarrow> uuid list" where
  "select_due now maximum usages invalid [] owners selected = selected"
| "select_due now maximum usages invalid ((t, s) # rows) owners selected =
     (if \<not> row_may_run now usages invalid owners t s
      then select_due now maximum usages invalid rows owners selected
      else
        let selected' = selected @ [t_id t] in
        if int (length selected') \<ge> maximum then selected'
        else select_due now maximum usages invalid rows (insert (t_owner t) owners) selected')"

definition due_task_ids ::
  "(pystr \<Rightarrow> bool) \<Rightarrow> (pystr \<Rightarrow> zone) \<Rightarrow> instant \<Rightarrow> int \<Rightarrow> agent_db \<Rightarrow> uuid list" where
  "due_task_ids known_zone zone_of now limit d =
     (let maximum = min (max 1 limit) 50;
          rows = due_rows now maximum d;
          (dates, invalid) = owner_dates known_zone zone_of now rows (Map.empty, {}) in
      select_due now maximum (usage_get_many dates d) invalid rows {} [])"

section \<open>Holding a lease\<close>

text \<open>An \<^verbatim>\<open>UPDATE\<close> of the tasks; true when a row was changed.\<close>

definition update_tasks :: "(task_row \<Rightarrow> bool) \<Rightarrow> (task_row \<Rightarrow> task_row) \<Rightarrow> agent_db \<Rightarrow> bool \<times> agent_db" where
  "update_tasks P f d =
     (count_where P (d_tasks d) \<noteq> 0, d\<lparr>d_tasks := update_where P f (d_tasks d)\<rparr>)"

definition sql_begin_generation :: "uuid \<Rightarrow> pystr \<Rightarrow> instant \<Rightarrow> instant \<Rightarrow> agent_db \<Rightarrow> bool \<times> agent_db" where
  "sql_begin_generation tid token now until =
     update_tasks (\<lambda>t. t_id t = tid \<and> t_status t = LEASED \<and> t_lease_token t = Some token
         \<and> some_and (t_lease_until t) (\<lambda>u. u \<ge> now))
       (\<lambda>t. t\<lparr>t_status := GENERATING, t_lease_until := Some until, t_updated_at := now\<rparr>)"

definition sql_renew_lease :: "uuid \<Rightarrow> pystr \<Rightarrow> instant \<Rightarrow> instant \<Rightarrow> agent_db \<Rightarrow> bool \<times> agent_db" where
  "sql_renew_lease tid token now until =
     update_tasks (\<lambda>t. t_id t = tid \<and> t_status t \<in> {LEASED, GENERATING} \<and> t_lease_token t = Some token
         \<and> some_and (t_lease_until t) (\<lambda>u. u \<ge> now))
       (\<lambda>t. t\<lparr>t_lease_until := Some until, t_updated_at := now\<rparr>)"

definition sql_defer_task ::
  "uuid \<Rightarrow> pystr \<Rightarrow> instant \<Rightarrow> pystr \<Rightarrow> instant \<Rightarrow> agent_db \<Rightarrow> py_error + bool \<times> agent_db" where
  "sql_defer_task tid token not_before code now d =
     and_then (row_error_code code (S ''autonomy_deferred'')) (\<lambda>c.
       Inr (update_tasks (\<lambda>t. t_id t = tid \<and> t_status t \<in> {LEASED, GENERATING}
             \<and> t_lease_token t = Some token)
           (\<lambda>t. t\<lparr>t_status := DEFERRED, t_not_before := Some not_before, t_error := Some c,
                 t_lease_owner := None, t_lease_token := None, t_lease_until := None,
                 t_updated_at := now\<rparr>) d))"

definition record_action_execution_id ::
  "instant \<Rightarrow> uuid \<Rightarrow> pystr \<Rightarrow> uuid \<Rightarrow> agent_db \<Rightarrow> bool \<times> agent_db" where
  "record_action_execution_id now tid permit eid =
     update_tasks (\<lambda>t. t_id t = tid \<and> t_status t = DISPATCHING \<and> t_lease_token t = Some permit)
       (\<lambda>t. t\<lparr>t_execution := Some eid, t_updated_at := now\<rparr>)"

definition record_model_run_id ::
  "instant \<Rightarrow> uuid \<Rightarrow> pystr \<Rightarrow> uuid \<Rightarrow> agent_db \<Rightarrow> bool \<times> agent_db" where
  "record_model_run_id now tid token run =
     update_tasks (\<lambda>t. t_id t = tid \<and> t_status t = GENERATING \<and> t_lease_token t = Some token
         \<and> (t_model_run t = None \<or> t_model_run t = Some run))
       (\<lambda>t. t\<lparr>t_model_run := Some run, t_updated_at := now\<rparr>)"

section \<open>Cancelling what has not started\<close>

definition closed_row :: "task_status \<Rightarrow> pystr \<Rightarrow> instant \<Rightarrow> task_row \<Rightarrow> task_row" where
  "closed_row status code at t =
     t\<lparr>t_status := status, t_error := Some code, t_completed_at := Some at, t_lease_owner := None,
       t_lease_token := None, t_lease_until := None, t_updated_at := at\<rparr>"

definition cancel_budget_exhausted ::
  "(uuid \<Rightarrow> bool) \<Rightarrow> uuid \<Rightarrow> usage_row option \<Rightarrow> setting_row \<Rightarrow> instant \<Rightarrow> agent_db \<Rightarrow> nat \<times> agent_db" where
  "cancel_budget_exhausted locked owner usage s at d =
     (let P = (\<lambda>t. t_owner t = owner \<and> t_status t \<in> {QUEUED, DEFERRED} \<and> \<not> locked (t_id t)
           \<and> \<not> daily_budget_available usage s (task_type_value (t_type t)) (t_action t)) in
      (count_where P (d_tasks d),
       d\<lparr>d_tasks := update_where P (\<lambda>t. (closed_row CANCELLED (S ''dispatch_daily_budget_exhausted'') at t)
           \<lparr>t_result := None, t_unknown := False\<rparr>) (d_tasks d)\<rparr>))"

text \<open>A queued reply stays while its message is the unrevoked incoming head of the conversation.\<close>

definition still_head :: "env \<Rightarrow> uuid \<Rightarrow> agent_db \<Rightarrow> task_row \<Rightarrow> bool" where
  "still_head E owner d t \<longleftrightarrow>
     (let target = py_strip (or_default (t_target t) []) in
      some_and (if target = [] then None else get_conversation_head E owner target d)
        (\<lambda>h. h_direction h = ''incoming'' \<and> \<not> h_revoked h \<and> h_identity h = or_default (t_source t) []))"

definition cancel_superseded ::
  "env \<Rightarrow> (uuid \<Rightarrow> bool) \<Rightarrow> uuid \<Rightarrow> instant \<Rightarrow> agent_db \<Rightarrow> nat \<times> agent_db" where
  "cancel_superseded E locked owner at d =
     (let P = (\<lambda>t. t_owner t = owner \<and> t_type t = REPLY_TO_MESSAGE \<and> t_status t \<in> {QUEUED, DEFERRED}
           \<and> \<not> locked (t_id t) \<and> \<not> still_head E owner d t) in
      (count_where P (d_tasks d),
       d\<lparr>d_tasks := update_where P (closed_row STALE (S ''inbound_message_superseded'') at) (d_tasks d)\<rparr>))"

definition cancel_for_contact_policy_change ::
  "uuid \<Rightarrow> pystr \<Rightarrow> instant \<Rightarrow> agent_db \<Rightarrow> py_error + nat \<times> agent_db" where
  "cancel_for_contact_policy_change owner peer_uid at d =
     and_then (normalize_peer peer_uid) (\<lambda>peer.
       let P = (\<lambda>t. t_owner t = owner \<and> t_target t = Some peer \<and> t_type t = REPLY_TO_MESSAGE
             \<and> t_status t \<in> AUTONOMY_NOT_STARTED_STATUSES) in
       Inr (count_where P (d_tasks d),
            d\<lparr>d_tasks := update_where P (closed_row STALE (S ''contact_policy_changed'') at) (d_tasks d)\<rparr>))"

text \<open>\<^verbatim>\<open>_cancel_not_started\<close>, for one owner or for all.\<close>

definition cancel_not_started ::
  "instant \<Rightarrow> pystr \<Rightarrow> uuid option \<Rightarrow> agent_db \<Rightarrow> py_error + nat \<times> agent_db" where
  "cancel_not_started now code owner d =
     and_then (row_error_code code (S ''autonomy_cancelled'')) (\<lambda>c.
       let P = (\<lambda>t. t_status t \<in> AUTONOMY_NOT_STARTED_STATUSES
             \<and> (case owner of None \<Rightarrow> True | Some u \<Rightarrow> t_owner t = u)) in
       Inr (count_where P (d_tasks d),
            d\<lparr>d_tasks := update_where P (\<lambda>t. (closed_row CANCELLED c now t)\<lparr>t_unknown := False\<rparr>) (d_tasks d)\<rparr>))"

definition cancel_not_started_for_owner ::
  "instant \<Rightarrow> uuid \<Rightarrow> pystr \<Rightarrow> pystr option \<Rightarrow> agent_db \<Rightarrow> py_error + nat \<times> agent_db" where
  "cancel_not_started_for_owner now owner code reason =
     cancel_not_started now (or_default reason code) (Some owner)"

definition cancel_all_not_started ::
  "instant \<Rightarrow> pystr \<Rightarrow> pystr option \<Rightarrow> agent_db \<Rightarrow> py_error + nat \<times> agent_db" where
  "cancel_all_not_started now code reason = cancel_not_started now (or_default reason code) None"

section \<open>The life of a row\<close>

fun task_edge :: "task_status \<Rightarrow> task_status \<Rightarrow> bool" where
  "task_edge QUEUED s \<longleftrightarrow> s \<in> {LEASED, CANCELLED, STALE}"
| "task_edge DEFERRED s \<longleftrightarrow> s \<in> {LEASED, CANCELLED, STALE}"
| "task_edge LEASED s \<longleftrightarrow>
     s \<in> {LEASED, GENERATING, DEFERRED, DISPATCHING, SUCCEEDED, FAILED, CANCELLED, STALE, MANUAL_REVIEW}"
| "task_edge GENERATING s \<longleftrightarrow>
     s \<in> {LEASED, GENERATING, DEFERRED, DISPATCHING, SUCCEEDED, FAILED, CANCELLED, STALE, MANUAL_REVIEW}"
| "task_edge DISPATCHING s \<longleftrightarrow>
     s \<in> {DISPATCHING, SUCCEEDED, FAILED, CANCELLED, STALE, MANUAL_REVIEW}"
| "task_edge _ s \<longleftrightarrow> False"

text \<open>What a task is bound to never changes.\<close>

definition same_binding :: "task_row \<Rightarrow> task_row \<Rightarrow> bool" where
  "same_binding t u \<longleftrightarrow>
     t_id u = t_id t \<and> t_owner u = t_owner t \<and> t_account u = t_account t \<and> t_type u = t_type t
     \<and> t_action u = t_action t \<and> t_key u = t_key t \<and> t_policy_version u = t_policy_version t
     \<and> t_contact_version u = t_contact_version t \<and> t_stage u = t_stage t
     \<and> t_execution_version u = t_execution_version t \<and> t_runner_version u = t_runner_version t
     \<and> t_connection u = t_connection t \<and> t_fingerprint u = t_fingerprint t \<and> t_source u = t_source t
     \<and> t_target u = t_target t \<and> t_instruction u = t_instruction t
     \<and> t_scheduled_for u = t_scheduled_for t"

text \<open>What the repository keeps of every row, beyond the constraints of the table.\<close>

definition task_life :: "task_row \<Rightarrow> bool" where
  "task_life t \<longleftrightarrow>
     (t_unknown t \<longleftrightarrow> t_status t = MANUAL_REVIEW) \<and> t_attempts t \<ge> 0
     \<and> (t_dispatch_at t \<noteq> None \<longrightarrow> t_started_at t \<noteq> None)
     \<and> (t_dispatch_at t = None \<longleftrightarrow> t_budget_day t = None)
     \<and> (t_execution t \<noteq> None \<longrightarrow> t_dispatch_at t \<noteq> None)
     \<and> (case t_status t of
          QUEUED \<Rightarrow> t_lease_token t = None \<and> t_lease_until t = None \<and> t_dispatch_at t = None \<and> t_completed_at t = None
        | DEFERRED \<Rightarrow> t_lease_token t = None \<and> t_lease_until t = None \<and> t_dispatch_at t = None \<and> t_completed_at t = None
        | LEASED \<Rightarrow> t_lease_token t \<noteq> None \<and> t_lease_until t \<noteq> None \<and> t_started_at t \<noteq> None
            \<and> t_dispatch_at t = None \<and> t_completed_at t = None
        | GENERATING \<Rightarrow> t_lease_token t \<noteq> None \<and> t_lease_until t \<noteq> None \<and> t_started_at t \<noteq> None
            \<and> t_dispatch_at t = None \<and> t_completed_at t = None
        | DISPATCHING \<Rightarrow> t_lease_token t \<noteq> None \<and> t_lease_until t = None \<and> t_dispatch_at t \<noteq> None
            \<and> t_completed_at t = None
        | _ \<Rightarrow> t_lease_token t = None \<and> t_completed_at t \<noteq> None)"

definition task_inv :: "task_row \<Rightarrow> bool" where
  "task_inv t \<longleftrightarrow> task_constraints t \<and> task_life t"

definition task_change :: "task_row \<Rightarrow> task_row \<Rightarrow> bool" where
  "task_change t u \<longleftrightarrow>
     t = u \<or> task_edge (t_status t) (t_status u) \<and> same_binding t u \<and> task_inv u
       \<and> t_attempts u \<ge> t_attempts t \<and> (t_budget_day t \<noteq> None \<longrightarrow> t_budget_day u = t_budget_day t)"

definition task_table_ok :: "agent_db \<Rightarrow> bool" where
  "task_table_ok d \<longleftrightarrow>
     distinct (map t_id (d_tasks d)) \<and> distinct (map (\<lambda>t. (t_owner t, t_key t)) (d_tasks d))
     \<and> (\<forall>t \<in> set (d_tasks d). task_inv t)"

definition task_progress :: "agent_db \<Rightarrow> agent_db \<Rightarrow> bool" where
  "task_progress d d' \<longleftrightarrow>
     (\<forall>t \<in> set (d_tasks d). \<exists>u \<in> set (d_tasks d'). task_change t u)"

section \<open>Lemmas\<close>

lemmas status_sets = AUTONOMY_TERMINAL_STATUSES_def AUTONOMY_NOT_STARTED_STATUSES_def

lemma task_change_refl [simp]: "task_change t t"
  by (simp add: task_change_def)

lemma task_progress_refl [simp]: "task_progress d d"
  unfolding task_progress_def by (metis task_change_refl)

lemma task_change_key: "task_change t u \<Longrightarrow> t_id u = t_id t \<and> t_owner u = t_owner t \<and> t_key u = t_key t"
  by (auto simp: task_change_def same_binding_def)

lemma task_row_inv: "task_table_ok d \<Longrightarrow> t \<in> set (d_tasks d) \<Longrightarrow> task_inv t"
  by (simp add: task_table_ok_def)

text \<open>Only the tasks matter.\<close>

lemma task_table_frame: "d_tasks d' = d_tasks d \<Longrightarrow> task_table_ok d' = task_table_ok d"
  "d_tasks d' = d_tasks d \<Longrightarrow> task_progress d0 d' = task_progress d0 d"
  by (simp_all add: task_table_ok_def task_progress_def)

lemma update_where_tasks_ok:
  assumes ok: "task_table_ok d" and tasks: "d_tasks d' = update_where P f (d_tasks d)"
    and f: "\<And>t. t \<in> set (d_tasks d) \<Longrightarrow> P t \<Longrightarrow> task_change t (f t) \<and> task_inv (f t)"
  shows "task_table_ok d' \<and> task_progress d d'"
proof -
  let ?g = "\<lambda>t. if P t then f t else t"
  have g: "task_change t (?g t) \<and> ?g t \<in> set (d_tasks d')" if "t \<in> set (d_tasks d)" for t
    using that f by (auto simp: tasks in_update_where)
  have "map t_id (d_tasks d') = map t_id (d_tasks d)"
    using f task_change_key by (auto simp: tasks update_where_def)
  moreover have "map (\<lambda>t. (t_owner t, t_key t)) (d_tasks d') = map (\<lambda>t. (t_owner t, t_key t)) (d_tasks d)"
    using f task_change_key by (auto simp: tasks update_where_def)
  moreover have "\<forall>t \<in> set (d_tasks d'). task_inv t"
    using ok f by (auto simp: tasks task_table_ok_def in_update_where)
  moreover have "task_progress d d'" unfolding task_progress_def using g by blast
  ultimately show ?thesis using ok by (simp add: task_table_ok_def)
qed

lemma update_tasks_ok:
  assumes "task_table_ok d" "update_tasks P f d = (b, d')"
    and "\<And>t. t \<in> set (d_tasks d) \<Longrightarrow> P t \<Longrightarrow> task_inv t \<Longrightarrow> task_change t (f t) \<and> task_inv (f t)"
  shows "task_table_ok d' \<and> task_progress d d'"
  using assms task_row_inv [OF assms(1)]
  by (intro update_where_tasks_ok [OF assms(1), of d' P f]) (auto simp: update_tasks_def)

lemma put_task_ok:
  assumes ok: "task_table_ok d" and t: "t \<in> set (d_tasks d)" and c: "task_change t u" "task_inv u"
  shows "task_table_ok (put_task u d) \<and> task_progress d (put_task u d)"
proof (rule update_where_tasks_ok [OF ok, where P = "\<lambda>y. t_id y = t_id u" and f = "\<lambda>_. u"])
  show "d_tasks (put_task u d) = update_where (\<lambda>y. t_id y = t_id u) (\<lambda>_. u) (d_tasks d)"
    by (simp add: put_task_def)
  fix y assume "y \<in> set (d_tasks d)" "t_id y = t_id u"
  then have "y = t"
    using ok t task_change_key [OF c(1)] distinct_map_inject unfolding task_table_ok_def by metis
  with c show "task_change y u \<and> task_inv u" by simp
qed

text \<open>The part of the constraints that a task's binding fixes.\<close>

definition task_static :: "task_row \<Rightarrow> bool" where
  "task_static t \<longleftrightarrow>
     t_action t = expected_action (t_type t)
     \<and> 8 \<le> length (t_key t) \<and> length (t_key t) \<le> 160
     \<and> t_policy_version t \<ge> 1 \<and> t_execution_version t \<ge> 1 \<and> t_runner_version t \<ge> 1
     \<and> (case t_contact_version t of None \<Rightarrow> True | Some v \<Rightarrow> v \<ge> 1)
     \<and> (case t_stage t of None \<Rightarrow> True | Some st \<Rightarrow> st \<in> set RELATIONSHIP_STAGES)
     \<and> length (t_fingerprint t) = 64"

lemma task_inv_iff: "task_inv t \<longleftrightarrow> task_static t \<and> task_life t"
proof (cases "task_life t")
  case True
  then have "t_unknown t \<longleftrightarrow> t_status t = MANUAL_REVIEW" "t_attempts t \<ge> 0"
    "t_dispatch_at t = None \<or> t_started_at t \<noteq> None" "t_dispatch_at t = None \<or> t_budget_day t \<noteq> None"
    unfolding task_life_def by blast+
  moreover from True have "t_completed_at t = None \<or> t_status t \<in> AUTONOMY_TERMINAL_STATUSES"
    by (simp add: task_life_def status_sets split: task_status.splits)
  ultimately show ?thesis
    using True by (simp add: task_inv_def task_constraints_def task_static_def)
qed (simp add: task_inv_def)

lemma task_static_same: "same_binding t u \<Longrightarrow> task_static u = task_static t"
  by (simp add: same_binding_def task_static_def)

lemma task_changeI:
  assumes "task_inv t" "task_edge (t_status t) (t_status u)" "same_binding t u" "task_life u"
    and "t_attempts u \<ge> t_attempts t" "t_budget_day t \<noteq> None \<Longrightarrow> t_budget_day u = t_budget_day t"
  shows "task_change t u \<and> task_inv u"
  using assms task_static_same [OF assms(3)] by (simp add: task_change_def task_inv_iff)

text \<open>A task that has not started holds no budget and no execution.\<close>

lemma not_started_life:
  assumes "task_inv t" "t_status t \<in> AUTONOMY_NOT_STARTED_STATUSES"
  shows "t_dispatch_at t = None" "t_budget_day t = None" "t_execution t = None"
    "t_completed_at t = None" "\<not> t_unknown t" "t_attempts t \<ge> 0"
proof -
  have life: "task_life t" using assms(1) by (simp add: task_inv_iff)
  then have "t_dispatch_at t = None \<and> t_completed_at t = None"
    using assms(2) by (cases "t_status t") (simp_all add: task_life_def status_sets)
  then show "t_dispatch_at t = None" "t_completed_at t = None" by simp_all
  with life show "t_budget_day t = None" "t_execution t = None" unfolding task_life_def by blast+
  show "\<not> t_unknown t" using life assms(2) by (auto simp: task_life_def status_sets)
  show "t_attempts t \<ge> 0" using life by (simp add: task_life_def)
qed

text \<open>The single changes.\<close>

lemma claimed_ok:
  assumes "task_inv t" "task_due now t"
  shows "task_change t (claimed worker token now' until t) \<and> task_inv (claimed worker token now' until t)"
proof -
  have st: "t_status t \<in> AUTONOMY_NOT_STARTED_STATUSES" "t_status t \<in> {QUEUED, DEFERRED, LEASED, GENERATING}"
    using assms(2) by (auto simp: task_due_def status_sets)
  have "task_edge (t_status t) LEASED" using st(2) by auto
  then show ?thesis
    using not_started_life [OF assms(1) st(1)] assms(1)
    by (intro task_changeI) (simp_all add: claimed_def same_binding_def task_life_def)
qed

lemma closed_row_ok:
  assumes "task_inv t" "t_status t \<in> AUTONOMY_NOT_STARTED_STATUSES" "status = CANCELLED \<or> status = STALE"
  shows "task_change t (closed_row status code at t\<lparr>t_result := r, t_unknown := False\<rparr>)
      \<and> task_inv (closed_row status code at t\<lparr>t_result := r, t_unknown := False\<rparr>)"
proof -
  have "task_edge (t_status t) status" using assms(2,3) by (auto simp: status_sets)
  moreover have "task_life (closed_row status code at t\<lparr>t_result := r, t_unknown := False\<rparr>)"
    using not_started_life [OF assms(1,2)] assms(3) by (auto simp: closed_row_def task_life_def)
  ultimately show ?thesis
    using assms(1) by (intro task_changeI) (simp_all add: closed_row_def same_binding_def)
qed

lemma closed_row_known:
  assumes "task_inv t" "t_status t \<in> AUTONOMY_NOT_STARTED_STATUSES"
  shows "closed_row status code at t\<lparr>t_result := t_result t, t_unknown := False\<rparr> = closed_row status code at t"
    "closed_row status code at t\<lparr>t_unknown := False\<rparr> = closed_row status code at t"
  using not_started_life(5) [OF assms] by (cases t; simp add: closed_row_def)+

lemma begin_generation_row:
  "task_inv t \<Longrightarrow> t_status t = LEASED \<Longrightarrow>
     task_change t (t\<lparr>t_status := GENERATING, t_lease_until := Some u, t_updated_at := n\<rparr>)
     \<and> task_inv (t\<lparr>t_status := GENERATING, t_lease_until := Some u, t_updated_at := n\<rparr>)"
  by (intro task_changeI) (auto simp: same_binding_def task_inv_iff task_life_def)

lemma renew_row:
  "task_inv t \<Longrightarrow> t_status t \<in> {LEASED, GENERATING} \<Longrightarrow>
     task_change t (t\<lparr>t_lease_until := Some u, t_updated_at := n\<rparr>)
     \<and> task_inv (t\<lparr>t_lease_until := Some u, t_updated_at := n\<rparr>)"
  by (intro task_changeI) (auto simp: same_binding_def task_inv_iff task_life_def)

lemma defer_row:
  "task_inv t \<Longrightarrow> t_status t \<in> {LEASED, GENERATING} \<Longrightarrow>
     task_change t (t\<lparr>t_status := DEFERRED, t_not_before := Some b, t_error := Some c,
       t_lease_owner := None, t_lease_token := None, t_lease_until := None, t_updated_at := n\<rparr>)
     \<and> task_inv (t\<lparr>t_status := DEFERRED, t_not_before := Some b, t_error := Some c,
       t_lease_owner := None, t_lease_token := None, t_lease_until := None, t_updated_at := n\<rparr>)"
  by (intro task_changeI) (auto simp: same_binding_def task_inv_iff task_life_def)

lemma link_row:
  "task_inv t \<Longrightarrow> t_status t = DISPATCHING \<Longrightarrow>
     task_change t (t\<lparr>t_execution := Some e, t_updated_at := n\<rparr>)
     \<and> task_inv (t\<lparr>t_execution := Some e, t_updated_at := n\<rparr>)"
  by (intro task_changeI) (auto simp: same_binding_def task_inv_iff task_life_def)

lemma model_run_row:
  "task_inv t \<Longrightarrow> t_status t = GENERATING \<Longrightarrow>
     task_change t (t\<lparr>t_model_run := Some r, t_updated_at := n\<rparr>)
     \<and> task_inv (t\<lparr>t_model_run := Some r, t_updated_at := n\<rparr>)"
  by (intro task_changeI) (auto simp: same_binding_def task_inv_iff task_life_def)

section \<open>Steps of the queue\<close>

text \<open>One call of the repository that changes the queue, by any worker.  A fresh identifier is not in
  use.  \<^verbatim>\<open>record_action_execution_id\<close> is only ever called by \<^verbatim>\<open>prepare_action_execution\<close>.\<close>

inductive queue_step :: "agent_db \<Rightarrow> agent_db \<Rightarrow> bool" where
  enqueue: "enqueue_task new_id now q d = Inr (r, d') \<Longrightarrow> new_id \<notin> t_id ` set (d_tasks d) \<Longrightarrow> queue_step d d'"
| claim_next: "sql_claim_next locked token worker now until d = Inr (r', d') \<Longrightarrow> queue_step d d'"
| claim_task: "sql_claim_task locked token tid worker now until d = Inr (r', d') \<Longrightarrow> queue_step d d'"
| generation: "sql_begin_generation tid token now until d = (b, d') \<Longrightarrow> queue_step d d'"
| renew: "sql_renew_lease tid token now until d = (b, d') \<Longrightarrow> queue_step d d'"
| defers: "sql_defer_task tid token nb code now d = Inr (b, d') \<Longrightarrow> queue_step d d'"
| model_run: "record_model_run_id now tid token run d = (b, d') \<Longrightarrow> queue_step d d'"
| budget: "cancel_budget_exhausted locked owner usage s at d = (n, d') \<Longrightarrow> queue_step d d'"
| superseded: "cancel_superseded E locked owner at d = (n, d') \<Longrightarrow> queue_step d d'"
| contact: "cancel_for_contact_policy_change owner peer at d = Inr (n, d') \<Longrightarrow> queue_step d d'"
| not_started: "cancel_not_started now code owner' d = Inr (n, d') \<Longrightarrow> queue_step d d'"

lemma in_not_started [simp]:
  "s \<in> AUTONOMY_NOT_STARTED_STATUSES \<longleftrightarrow> s = QUEUED \<or> s = DEFERRED \<or> s = LEASED \<or> s = GENERATING"
  by (auto simp: status_sets)

lemma new_task_inv:
  "task_constraints (new_task i now q ty key target) \<Longrightarrow> task_inv (new_task i now q ty key target)"
  by (simp add: task_inv_def task_life_def new_task_def)

lemma enqueue_cases:
  assumes "enqueue_task new_id now q d = Inr ((t, created), d')"
  obtains key ty target where "row_key (q_key q) = Inr key"
    "if created
     then task_find_key (q_owner q) key d = None \<and> t = new_task new_id now q ty key target
       \<and> task_constraints t \<and> d' = d\<lparr>d_tasks := d_tasks d @ [t]\<rparr>
     else task_find_key (q_owner q) key d = Some t \<and> d' = d"
proof -
  obtain action ty key target where "row_action (q_action q) = Inr action"
    "map_of AUTONOMY_TASK_TYPES (py_strip (q_type q)) = Some ty" "row_key (q_key q) = Inr key"
    "enqueue_checks q = Inr target"
    using assms by (auto simp: enqueue_task_def and_then_Inr_iff split: option.splits if_splits)
  with assms show thesis
    by (intro that [of key ty target])
      (auto simp: enqueue_task_def Let_def split: option.splits if_splits)
qed

lemma enqueue_ok:
  assumes ok: "task_table_ok d" and fresh: "new_id \<notin> t_id ` set (d_tasks d)"
    and enq: "enqueue_task new_id now q d = Inr ((t, created), d')"
  shows "task_table_ok d' \<and> task_progress d d'"
proof -
  obtain key ty target where c: "if created
     then task_find_key (q_owner q) key d = None \<and> t = new_task new_id now q ty key target
       \<and> task_constraints t \<and> d' = d\<lparr>d_tasks := d_tasks d @ [t]\<rparr>
     else task_find_key (q_owner q) key d = Some t \<and> d' = d"
    using enqueue_cases [OF enq] by blast
  show ?thesis
  proof (cases created)
    case True
    then have t: "task_find_key (q_owner q) key d = None" "t = new_task new_id now q ty key target"
      "task_constraints t" and d': "d' = d\<lparr>d_tasks := d_tasks d @ [t]\<rparr>"
      using c unfolding if_P [OF True] by blast+
    have "(q_owner q, key) \<notin> (\<lambda>t. (t_owner t, t_key t)) ` set (d_tasks d)"
      using t(1) unfolding task_find_key_def find_None_iff by auto
    moreover have "t_id t = new_id" "t_owner t = q_owner q" "t_key t = key"
      by (simp_all add: t(2) new_task_def)
    moreover have "task_inv t" using t new_task_inv by simp
    ultimately have "task_table_ok d'" using ok fresh by (simp add: task_table_ok_def d')
    moreover have "set (d_tasks d) \<subseteq> set (d_tasks d')" by (auto simp: d')
    then have "task_progress d d'" unfolding task_progress_def by (meson task_change_refl subsetD)
    ultimately show ?thesis ..
  qed (use c ok in simp)
qed

lemma claim_next_row:
  assumes "sql_claim_next locked token worker now until d = Inr (Some u, d')"
  obtains t w where "t \<in> set (d_tasks d)" "task_due now t" "\<not> locked (t_id t)"
    "u = claimed w token now until t" "d' = put_task u d"
    "\<forall>v \<in> set (d_tasks d). task_due now v \<and> \<not> locked (t_id v) \<longrightarrow>
       (t_not_before t, t_queued_at t) \<le> (t_not_before v, t_queued_at v)"
proof -
  let ?rows = "filter (\<lambda>t. task_due now t \<and> \<not> locked (t_id t)) (d_tasks d)"
  let ?key = "\<lambda>t. (t_not_before t, t_queued_at t)"
  obtain w where w: "checked_worker worker = Inr w"
    using assms by (auto simp: sql_claim_next_def and_then_Inr_iff)
  obtain t ts where s: "sort_key ?key ?rows = t # ts"
    using assms w by (cases "sort_key ?key ?rows") (simp_all add: sql_claim_next_def)
  then have u: "u = claimed w token now until t" "d' = put_task u d"
    using assms w by (auto simp: sql_claim_next_def Let_def)
  have "set (t # ts) = set ?rows" using s by (metis set_sort)
  moreover have "sorted (map ?key (t # ts))" using s by (metis sorted_sort_key)
  ultimately show thesis
    by (intro that [of t w]) (use u in auto)
qed

lemma claim_task_row:
  assumes "sql_claim_task locked token tid worker now until d = Inr (Some u, d')"
  obtains t w where "t \<in> set (d_tasks d)" "t_id t = tid" "task_due now t" "\<not> locked (t_id t)"
    "u = claimed w token now until t" "d' = put_task u d"
proof -
  obtain t w where f: "find (\<lambda>t. t_id t = tid \<and> task_due now t \<and> \<not> locked (t_id t)) (d_tasks d) = Some t"
    and u: "u = claimed w token now until t" "d' = put_task u d"
    using assms by (auto simp: sql_claim_task_def and_then_Inr_iff Let_def split: option.splits)
  show thesis using find_SomeD [OF f] u by (intro that [of t w]) auto
qed

section \<open>Updates under a lease token\<close>

text \<open>
  The contract of every operation that names a task and the token of its lease: it touches only rows
  with that identifier and token, and changes them legally.  Then a holder whose token was replaced
  is fenced off.
\<close>

locale token_update =
  fixes tid :: uuid and token :: pystr
    and guard :: "task_row \<Rightarrow> bool" and change :: "task_row \<Rightarrow> task_row"
  assumes guard_key: "guard t \<Longrightarrow> t_id t = tid \<and> t_lease_token t = Some token"
    and change_legal: "guard t \<Longrightarrow> task_inv t \<Longrightarrow> task_change t (change t) \<and> task_inv (change t)"
begin

lemma keeps_table:
  "task_table_ok d \<Longrightarrow> update_tasks guard change d = (b, d') \<Longrightarrow> task_table_ok d' \<and> task_progress d d'"
  by (erule (1) update_tasks_ok) (rule change_legal)

lemma fenced:
  assumes "task_table_ok d" "u \<in> set (d_tasks d)" "t_id u = tid" "t_lease_token u \<noteq> Some token"
  shows "update_tasks guard change d = (False, d)"
proof -
  have "\<not> guard t" if "t \<in> set (d_tasks d)" for t
  proof
    assume "guard t"
    then have t: "t_id t = tid" "t_lease_token t = Some token" using guard_key by simp_all
    have "distinct (map t_id (d_tasks d))" using assms(1) by (simp add: task_table_ok_def)
    then have "t = u" using that assms(2,3) t(1) by (auto dest: distinct_map_inject)
    with t(2) assms(4) show False by simp
  qed
  then show ?thesis
    by (simp add: update_tasks_def count_where_0 update_where_none)
qed

end

interpretation gen: token_update tid token
  "\<lambda>t. t_id t = tid \<and> t_status t = LEASED \<and> t_lease_token t = Some token
     \<and> some_and (t_lease_until t) (\<lambda>u. u \<ge> now)"
  "\<lambda>t. t\<lparr>t_status := GENERATING, t_lease_until := Some until, t_updated_at := now\<rparr>"
  for tid token now until
  by unfold_locales (simp_all add: begin_generation_row)

interpretation renewal: token_update tid token
  "\<lambda>t. t_id t = tid \<and> t_status t \<in> {LEASED, GENERATING} \<and> t_lease_token t = Some token
     \<and> some_and (t_lease_until t) (\<lambda>u. u \<ge> now)"
  "\<lambda>t. t\<lparr>t_lease_until := Some until, t_updated_at := now\<rparr>"
  for tid token now until
  by unfold_locales (simp_all add: renew_row)

interpretation deferral: token_update tid token
  "\<lambda>t. t_id t = tid \<and> t_status t \<in> {LEASED, GENERATING} \<and> t_lease_token t = Some token"
  "\<lambda>t. t\<lparr>t_status := DEFERRED, t_not_before := Some not_before, t_error := Some code,
       t_lease_owner := None, t_lease_token := None, t_lease_until := None, t_updated_at := now\<rparr>"
  for tid token not_before code now
  by unfold_locales (simp_all add: defer_row)

interpretation linking: token_update tid token
  "\<lambda>t. t_id t = tid \<and> t_status t = DISPATCHING \<and> t_lease_token t = Some token"
  "\<lambda>t. t\<lparr>t_execution := Some eid, t_updated_at := now\<rparr>"
  for tid token eid now
  by unfold_locales (simp_all add: link_row)

interpretation model_run: token_update tid token
  "\<lambda>t. t_id t = tid \<and> t_status t = GENERATING \<and> t_lease_token t = Some token
     \<and> (t_model_run t = None \<or> t_model_run t = Some run)"
  "\<lambda>t. t\<lparr>t_model_run := Some run, t_updated_at := now\<rparr>"
  for tid token run now
  by unfold_locales (simp_all add: model_run_row)

lemma closing_ok:
  assumes ok: "task_table_ok d"
    and P: "\<And>t. P t \<Longrightarrow> t_status t \<in> AUTONOMY_NOT_STARTED_STATUSES" and st: "status = CANCELLED \<or> status = STALE"
    and f: "\<And>t. P t \<Longrightarrow> \<exists>r. f t = closed_row status code at t\<lparr>t_result := r, t_unknown := False\<rparr>"
    and d': "d' = d\<lparr>d_tasks := update_where P f (d_tasks d)\<rparr>"
  shows "task_table_ok d' \<and> task_progress d d'"
proof (rule update_where_tasks_ok [OF ok, of d' P f])
  fix t assume t: "t \<in> set (d_tasks d)" "P t"
  then obtain r where "f t = closed_row status code at t\<lparr>t_result := r, t_unknown := False\<rparr>"
    using f by blast
  with closed_row_ok [OF task_row_inv [OF ok t(1)] P [OF t(2)] st]
  show "task_change t (f t) \<and> task_inv (f t)" by simp
qed (simp add: d')

lemma closing_plain:
  assumes ok: "task_table_ok d"
    and P: "\<And>t. P t \<Longrightarrow> t_status t \<in> AUTONOMY_NOT_STARTED_STATUSES" and st: "status = CANCELLED \<or> status = STALE"
    and d': "d' = d\<lparr>d_tasks := update_where P (closed_row status code at) (d_tasks d)\<rparr>"
  shows "task_table_ok d' \<and> task_progress d d'"
proof (rule update_where_tasks_ok [OF ok, of d' P])
  fix t assume t: "t \<in> set (d_tasks d)" "P t"
  from closed_row_ok [OF task_row_inv [OF ok t(1)] P [OF t(2)] st, where r = "t_result t"]
    closed_row_known(1) [OF task_row_inv [OF ok t(1)] P [OF t(2)]]
  show "task_change t (closed_row status code at t) \<and> task_inv (closed_row status code at t)" by simp
qed (simp add: d')

lemma claim_row_ok:
  assumes "task_table_ok d" "t \<in> set (d_tasks d)" "task_due now t"
  shows "task_table_ok (put_task (claimed w token now until t) d)
    \<and> task_progress d (put_task (claimed w token now until t) d)"
  using claimed_ok [OF task_row_inv [OF assms(1,2)] assms(3)] put_task_ok [OF assms(1,2)] by blast

lemma queue_step_ok:
  assumes "queue_step d d'" and ok: "task_table_ok d"
  shows "task_table_ok d' \<and> task_progress d d'"
  using assms(1)
proof cases
  case (enqueue new_id now q r)
  then show ?thesis using enqueue_ok [OF ok] by (cases r) simp
next
  case (claim_next locked token worker now until r')
  show ?thesis
  proof (cases r')
    case None
    with claim_next have "d' = d"
      by (cases "sort_key (\<lambda>t. (t_not_before t, t_queued_at t))
            (filter (\<lambda>t. task_due now t \<and> \<not> locked (t_id t)) (d_tasks d))")
        (auto simp: sql_claim_next_def and_then_Inr_iff Let_def)
    with ok show ?thesis by simp
  next
    case (Some u)
    with claim_next claim_next_row claim_row_ok [OF ok] show ?thesis by metis
  qed
next
  case (claim_task locked token tid worker now until r')
  show ?thesis
  proof (cases r')
    case None
    with claim_task ok show ?thesis
      by (auto simp: sql_claim_task_def and_then_Inr_iff Let_def split: option.splits)
  next
    case (Some u)
    with claim_task claim_task_row claim_row_ok [OF ok] show ?thesis by metis
  qed
next
  case (generation tid token now until b)
  then show ?thesis unfolding sql_begin_generation_def by (rule gen.keeps_table [OF ok])
next
  case (renew tid token now until b)
  then show ?thesis unfolding sql_renew_lease_def by (rule renewal.keeps_table [OF ok])
next
  case (defers tid token nb code now b)
  then show ?thesis
    unfolding sql_defer_task_def and_then_Inr_iff sum.inject
    by (elim exE conjE) (rule deferral.keeps_table [OF ok])
next
  case (model_run now tid token run b)
  then show ?thesis unfolding record_model_run_id_def by (rule model_run.keeps_table [OF ok])
next
  case (budget locked owner usage s at n)
  show ?thesis
    by (rule closing_ok [OF ok _ disjI1 [OF refl] _
        conjunct2 [OF budget [unfolded cancel_budget_exhausted_def Let_def prod.inject], THEN sym]]) auto
next
  case (superseded E locked owner at n)
  then have d': "d' = d\<lparr>d_tasks := update_where (\<lambda>t. t_owner t = owner \<and> t_type t = REPLY_TO_MESSAGE
        \<and> t_status t \<in> {QUEUED, DEFERRED} \<and> \<not> locked (t_id t) \<and> \<not> still_head E owner d t)
      (closed_row STALE (S ''inbound_message_superseded'') at) (d_tasks d)\<rparr>"
    by (auto simp: cancel_superseded_def Let_def)
  show ?thesis by (rule closing_plain [OF ok _ _ d']) auto
next
  case (contact owner peer at n)
  then obtain target where d': "d' = d\<lparr>d_tasks := update_where (\<lambda>t. t_owner t = owner \<and> t_target t = Some target
        \<and> t_type t = REPLY_TO_MESSAGE \<and> t_status t \<in> AUTONOMY_NOT_STARTED_STATUSES)
      (closed_row STALE (S ''contact_policy_changed'') at) (d_tasks d)\<rparr>"
    by (auto simp: cancel_for_contact_policy_change_def and_then_Inr_iff Let_def)
  show ?thesis by (rule closing_plain [OF ok _ _ d']) auto
next
  case (not_started now code owner' n)
  then obtain c P where d': "d' = d\<lparr>d_tasks := update_where P
      (\<lambda>t. (closed_row CANCELLED c now t)\<lparr>t_unknown := False\<rparr>) (d_tasks d)\<rparr>"
    and P: "\<And>t. P t \<Longrightarrow> t_status t \<in> AUTONOMY_NOT_STARTED_STATUSES"
    unfolding cancel_not_started_def and_then_Inr_iff Let_def by auto
  have "task_table_ok d' \<and> task_progress d d'"
  proof (rule update_where_tasks_ok [OF ok, of d' P])
    fix t assume t: "t \<in> set (d_tasks d)" "P t"
    from closed_row_ok [OF task_row_inv [OF ok t(1)] P [OF t(2)] disjI1 [OF refl], where r = "t_result t"]
      closed_row_known [OF task_row_inv [OF ok t(1)] P [OF t(2)]]
    show "task_change t ((closed_row CANCELLED c now t)\<lparr>t_unknown := False\<rparr>)
        \<and> task_inv ((closed_row CANCELLED c now t)\<lparr>t_unknown := False\<rparr>)" by simp
  qed (simp add: d')
  then show ?thesis .
qed

end
