(* ===== verification/Config_Fingerprint.thy ===== *)
theory Config_Fingerprint
  imports Store_Rows Orchestrator
begin

text \<open>
  \<^verbatim>\<open>bbw_agent/config_fingerprint.py\<close>: the fingerprint of a runner setting and its model connection, the
  SHA-256 of a canonical JSON text (sorted keys, no blanks, \<^verbatim>\<open>ensure_ascii=False\<close>).
\<close>

definition json_int :: "int \<Rightarrow> pystr" where
  "json_int i = py_str (PInt i)"

definition json_member :: "string \<Rightarrow> pystr \<Rightarrow> pystr" where
  "json_member k v = json_string (S k) @ 58 # v"

definition connection_payload :: "env \<Rightarrow> connection_row \<Rightarrow> pystr" where
  "connection_payload E l =
     123 # json_member ''base_url'' (json_string (l_base_url l))
     @ 44 # json_member ''enabled'' (json_bool (l_enabled l))
     @ 44 # json_member ''id'' (json_string (uuid_str E (l_id l)))
     @ 44 # json_member ''key_digest'' (json_string (sha256 E (l_key_json l)))
     @ 44 # json_member ''last_test_status'' (json_string (l_test_status l))
     @ 44 # json_member ''model'' (json_string (l_model l))
     @ 44 # json_member ''owner_user_id'' (json_string (uuid_str E (l_owner l)))
     @ 44 # json_member ''provider'' (json_string (l_provider l)) @ [125]"

definition runner_payload :: "env \<Rightarrow> agent_row \<Rightarrow> pystr" where
  "runner_payload E g =
     123 # json_member ''active_connection_id''
         (json_string (case g_connection g of None \<Rightarrow> [] | Some c \<Rightarrow> uuid_str E c))
     @ 44 # json_member ''context_message_limit'' (json_int (g_context_limit g))
     @ 44 # json_member ''custom_instructions'' (json_string (or_default (g_instructions g) []))
     @ 44 # json_member ''max_output_tokens'' (json_int (g_max_tokens g))
     @ 44 # json_member ''owner_user_id'' (json_string (uuid_str E (g_owner g)))
     @ 44 # json_member ''temperature_milli'' (json_int (g_temperature g))
     @ 44 # json_member ''user_enabled'' (json_bool (g_enabled g))
     @ 44 # json_member ''version'' (json_int (g_version g)) @ [125]"

definition fingerprint_payload :: "env \<Rightarrow> agent_row \<Rightarrow> connection_row \<Rightarrow> pystr" where
  "fingerprint_payload E g l =
     123 # json_member ''connection'' (connection_payload E l)
     @ 44 # json_member ''runner'' (runner_payload E g)
     @ 44 # json_member ''schema'' (json_int 1) @ [125]"

definition runner_configuration_fingerprint :: "env \<Rightarrow> agent_row \<Rightarrow> connection_row \<Rightarrow> pystr" where
  "runner_configuration_fingerprint E g l = sha256 E (fingerprint_payload E g l)"

end
