(* ===== verification/Dispatch_Store.thy ===== *)
theory Dispatch_Store
  imports Task_Queue Config_Fingerprint
begin

text \<open>
  The reservation of a dispatch: \<^verbatim>\<open>begin_dispatch\<close>, \<^verbatim>\<open>prepare_action_execution\<close> and
  \<^verbatim>\<open>lock_dispatch_permit\<close> of \<^verbatim>\<open>AgentAutonomyTaskRepository\<close>, with the gates they share.

  \<^verbatim>\<open>begin_dispatch\<close> turns a leased task into a dispatching one, counts the action in the budget
  of the day and hands out a permit; \<^verbatim>\<open>prepare_action_execution\<close> writes the audit row of the
  action and starts it; \<^verbatim>\<open>lock_dispatch_permit\<close> repeats every gate under locks right before the
  side effect.  The first reads of a call that takes locks happen in an earlier state \<open>d0\<close>.
\<close>

section \<open>Gates\<close>

definition DEFAULT_MINIMUM_REPLY_DELAY_SECONDS :: int where
  "DEFAULT_MINIMUM_REPLY_DELAY_SECONDS = 30"

definition DEFAULT_MAXIMUM_REPLY_AGE_SECONDS :: int where
  "DEFAULT_MAXIMUM_REPLY_AGE_SECONDS = 2 * 60 * 60"

text \<open>\<^verbatim>\<open>_contact_reply_gate_code\<close>: a reply needs the contact policy and the relationship stage it was
  queued under, and a policy that lets the agent reply by itself.\<close>

definition contact_reply_gate ::
  "task_row \<Rightarrow> policy_snapshot \<Rightarrow> instant \<Rightarrow> agent_db \<Rightarrow> py_error + decision_code option" where
  "contact_reply_gate t sn now d =
     (if t_type t \<noteq> REPLY_TO_MESSAGE then Inr None
      else
        let task_stage = py_strip (or_default (t_stage t) []) in
        if t_contact_version t \<noteq> map_option k_version (sn_contact sn) \<or> task_stage = []
        then Inr (Some POLICY_CHANGED)
        else and_then (relationship_stage (t_owner t) (or_default (t_target t) []) (sn_contact sn) now d)
          (\<lambda>current. Inr
            (case current of
               None \<Rightarrow> Some ACTION_NOT_ALLOWED
             | Some stage \<Rightarrow>
                 if stage \<noteq> task_stage then Some POLICY_CHANGED
                 else if \<not> contact_policy_allows_auto_reply (sn_contact sn \<noteq> None)
                        (case sn_contact sn of None \<Rightarrow> [] | Some k \<Rightarrow> k_mode k)
                        (case sn_contact sn of None \<Rightarrow> False | Some k \<Rightarrow> k_paused k) stage []
                 then Some ACTION_NOT_ALLOWED
                 else None)))"

text \<open>\<^verbatim>\<open>_reply_head_is_dispatchable\<close>; the conjunction is evaluated from left to right, so the delay is
  only looked at, and can only be refused, when everything before it holds.\<close>

definition reply_head_is_dispatchable ::
  "env \<Rightarrow> head_row option \<Rightarrow> pystr \<Rightarrow> instant \<Rightarrow> setting_row \<Rightarrow> contact_row option \<Rightarrow> py_error + bool" where
  "reply_head_is_dispatchable E head expected now s contact =
     (case head of
        None \<Rightarrow> Inr False
      | Some h \<Rightarrow>
          let max_age = (case contact of None \<Rightarrow> DEFAULT_MAXIMUM_REPLY_AGE_SECONDS | Some k \<Rightarrow> k_max_age k);
              min_delay = (case contact of None \<Rightarrow> DEFAULT_MINIMUM_REPLY_DELAY_SECONDS | Some k \<Rightarrow> k_min_delay k) in
          if \<not> (h_identity h = expected \<and> h_direction h = ''incoming'' \<and> \<not> h_revoked h
               \<and> py_lower (py_strip (h_type h)) \<in> {S ''text'', S ''timtextelem''}
               \<and> py_strip (h_body h) \<noteq> []
               \<and> reply_message_is_eligible (nfkc E) (category E) (Some (h_body h)) None (Some (h_peer h))
                   (Some (h_title h))
               \<and> reply_risk_boundary (Some (h_body h)) (Some (h_type h)) = []
               \<and> reply_message_is_fresh (h_occurred_at h) now (s_reply_started s) max_age)
          then Inr False
          else and_then (reply_not_before (h_occurred_at h) now min_delay) (\<lambda>at. Inr (at \<le> now)))"

record gate_request =
  gq_account :: uuid
  gq_policy_version :: int
  gq_execution_version :: int
  gq_runner_version :: int
  gq_connection :: uuid
  gq_fingerprint :: pystr
  gq_action :: pystr
  gq_target :: pystr

text \<open>The two requests the gate is asked about: the one of a reservation, and the one
  \<^verbatim>\<open>lock_dispatch_permit\<close> makes from the task.\<close>

definition reservation_gate :: "dispatch_request \<Rightarrow> gate_request" where
  "reservation_gate q =
     \<lparr>gq_account = req_account q, gq_policy_version = req_policy_version q,
      gq_execution_version = req_execution_version q, gq_runner_version = req_runner_version q,
      gq_connection = req_model_connection q, gq_fingerprint = req_fingerprint q,
      gq_action = req_action q, gq_target = req_target q\<rparr>"

definition permit_gate :: "task_row \<Rightarrow> gate_request" where
  "permit_gate t =
     \<lparr>gq_account = t_account t, gq_policy_version = t_policy_version t,
      gq_execution_version = t_execution_version t, gq_runner_version = t_runner_version t,
      gq_connection = t_connection t, gq_fingerprint = t_fingerprint t,
      gq_action = t_action t, gq_target = or_default (t_target t) []\<rparr>"

fun row_feature_enabled :: "setting_row \<Rightarrow> task_type \<Rightarrow> bool" where
  "row_feature_enabled s REPLY_TO_MESSAGE = s_auto_reply s"
| "row_feature_enabled s SCHEDULED_POST = s_posts s"
| "row_feature_enabled s FOLLOW_TARGET = s_relationships s"
| "row_feature_enabled s UNFOLLOW_TARGET = s_relationships s"
| "row_feature_enabled s BROWSE_ONLINE = s_discovery s"
| "row_feature_enabled s REQUEST_MATCH = s_match s"
| "row_feature_enabled s PROACTIVE_MESSAGE = s_outreach s"
| "row_feature_enabled s FOLLOW_DISCOVERED = s_follow_discovered s"
| "row_feature_enabled s REQUEST_FRIEND = s_friend_request s"

definition AUTONOMY_DYNAMIC_CANDIDATE_TASKS :: "task_type set" where
  "AUTONOMY_DYNAMIC_CANDIDATE_TASKS = {PROACTIVE_MESSAGE, FOLLOW_DISCOVERED, REQUEST_FRIEND}"

text \<open>The switches of lines 3259 to 3279.\<close>

definition access_granted ::
  "system_row \<Rightarrow> user_row \<Rightarrow> agent_row \<Rightarrow> exec_setting_row \<Rightarrow> setting_row \<Rightarrow> connection_row \<Rightarrow> bool" where
  "access_granted system user agent execution s connection \<longleftrightarrow>
     y_enabled system \<and> y_account_actions system \<and> y_autonomous system
     \<and> n_status user = ''active'' \<and> n_disabled_at user = None
     \<and> n_runner user \<and> n_account_actions user \<and> n_autonomous user
     \<and> g_enabled agent \<and> e_enabled execution \<and> s_enabled s
     \<and> l_enabled connection \<and> l_has_key connection \<and> l_test_status connection = S ''ok''"

text \<open>The identities and versions of lines 3280 to 3301.\<close>

definition bound_to_request ::
  "env \<Rightarrow> task_row \<Rightarrow> gate_request \<Rightarrow> account_row \<Rightarrow> agent_row \<Rightarrow> exec_setting_row \<Rightarrow> setting_row \<Rightarrow>
     connection_row \<Rightarrow> bool" where
  "bound_to_request E t q account agent execution s connection \<longleftrightarrow>
     t_account t = gq_account q \<and> a_id account = gq_account q
     \<and> s_version s = gq_policy_version q \<and> e_version execution = gq_execution_version q
     \<and> g_version agent = gq_runner_version q
     \<and> g_connection agent = Some (gq_connection q) \<and> l_id connection = gq_connection q
     \<and> runner_configuration_fingerprint E agent connection = gq_fingerprint q
     \<and> t_policy_version t = gq_policy_version q \<and> t_execution_version t = gq_execution_version q
     \<and> t_runner_version t = gq_runner_version q \<and> t_connection t = gq_connection q
     \<and> t_fingerprint t = gq_fingerprint q"

text \<open>The candidate check of a task whose target was discovered (lines 3336 to 3361).\<close>

definition candidate_gate ::
  "task_row \<Rightarrow> pystr \<Rightarrow> user_row \<Rightarrow> pydict option \<Rightarrow> agent_db \<Rightarrow> py_error + bool" where
  "candidate_gate t target user preference d =
     (if t_type t \<notin> AUTONOMY_DYNAMIC_CANDIDATE_TASKS then Inr True
      else and_then (if target = [] then Inr None else candidate_get (t_owner t) target d) (\<lambda>found.
        case found of
          None \<Rightarrow> Inr False
        | Some c \<Rightarrow>
            Inr (target = py_strip (or_default (t_target t) [])
                 \<and> compat_allowed (agent_candidate_compatibility (n_profile user) (Some (c_profile c))
                     (PStr target) preference))))"

definition dispatch_gate_code ::
  "env \<Rightarrow> instant \<Rightarrow> task_row \<Rightarrow> gate_request \<Rightarrow> policy_snapshot option \<Rightarrow> agent_db \<Rightarrow>
     py_error + decision_code option" where
  "dispatch_gate_code E now t q snapshot d =
     (case snapshot of
        None \<Rightarrow> Inr (Some ACCESS_REVOKED)
      | Some sn \<Rightarrow>
      (case (sn_system sn, sn_user sn, sn_account sn, sn_agent sn, sn_execution sn, sn_connection sn) of
        (Some system, Some user, Some account, Some agent, Some execution, Some connection) \<Rightarrow>
          (let s = sn_setting sn; target = py_strip (gq_target q) in
           if \<not> access_granted system user agent execution s connection then Inr (Some ACCESS_REVOKED)
           else if gq_action q = S ''send_private_message'' \<and> \<not> e_auto_send execution
           then Inr (Some ACCESS_REVOKED)
           else if \<not> bound_to_request E t q account agent execution s connection
           then Inr (Some POLICY_CHANGED)
           else if s_halted_at s \<noteq> None \<or> s_failures s \<ge> s_failure_limit s then Inr (Some HALTED)
           else if gq_action q \<notin> set (s_actions s) \<or> gq_action q \<notin> set (e_actions execution)
           then Inr (Some ACTION_NOT_ALLOWED)
           else if \<not> row_feature_enabled s (t_type t) then Inr (Some ACTION_NOT_ALLOWED)
           else and_then (contact_reply_gate t sn now d) (\<lambda>contact_code.
             if contact_code \<noteq> None then Inr contact_code
             else if t_type t \<in> {FOLLOW_TARGET, UNFOLLOW_TARGET} \<and> target \<notin> set (s_targets s)
             then Inr (Some ACTION_NOT_ALLOWED)
             else and_then (candidate_gate t target user (sn_preference sn) d) (\<lambda>compatible.
               if \<not> compatible then Inr (Some ACTION_NOT_ALLOWED)
               else if t_action t \<in> {S ''send_private_message'', S ''follow_user'', S ''unfollow_user'',
                         S ''request_friend''} \<and> target = []
               then Inr (Some ACTION_NOT_ALLOWED)
               else Inr None)))
      | _ \<Rightarrow> Inr (Some ACCESS_REVOKED)))"

section \<open>Reserving a dispatch\<close>

text \<open>A denial carries no permit; the usage row of the day is created before the budget is checked,
  and stays.\<close>

definition denied :: "decision_code \<Rightarrow> agent_db \<Rightarrow> py_error + dispatch_decision \<times> agent_db" where
  "denied code d = Inr (\<lparr>dec_code = code, permit_token = [], dec_retry_at = None\<rparr>, d)"

definition holds_lease :: "task_row \<Rightarrow> pystr \<Rightarrow> instant \<Rightarrow> bool" where
  "holds_lease t token now \<longleftrightarrow>
     t_status t \<in> {LEASED, GENERATING} \<and> t_lease_token t = Some token
     \<and> some_and (t_lease_until t) (\<lambda>u. now \<le> u)"

definition dispatching_row :: "dispatch_request \<Rightarrow> pystr \<Rightarrow> task_row \<Rightarrow> task_row" where
  "dispatching_row q permit t =
     t\<lparr>t_status := DISPATCHING, t_action_key := Some (req_key q), t_budget_day := Some (req_budget_day q),
       t_dispatch_at := Some (req_now q), t_lease_token := Some permit, t_lease_until := None,
       t_updated_at := req_now q\<rparr>"

definition reserved_usage :: "task_row \<Rightarrow> instant \<Rightarrow> usage_row \<Rightarrow> usage_row" where
  "reserved_usage t now u =
     (increment_usage (row_category t) (u\<lparr>u_total := u_total u + 1\<rparr>))
       \<lparr>u_last_action := Some now, u_updated_at := now\<rparr>"

text \<open>The budget, the interval and the reservation itself (lines 3194 to 3236).\<close>

definition reserve_budget ::
  "pystr \<Rightarrow> uuid \<Rightarrow> dispatch_request \<Rightarrow> task_row \<Rightarrow> setting_row \<Rightarrow> agent_db \<Rightarrow>
     py_error + dispatch_decision \<times> agent_db" where
  "reserve_budget permit new_usage_id q t s d =
     (let (u, d1) = usage_get_or_create new_usage_id (req_now q) (req_owner q) (req_budget_day q) d;
          previous_action = (if s_last_action s = None then u_last_action u else s_last_action s);
          retry_at = map_option (\<lambda>a. a + seconds (req_minimum_interval q)) previous_action in
      if u_total u \<ge> req_total_limit q then denied DAILY_BUDGET_EXHAUSTED d1
      else if usage_field (row_category t) u \<ge> req_action_limit q then denied DAILY_BUDGET_EXHAUSTED d1
      else if some_and retry_at (\<lambda>r. r > req_now q)
      then Inr (\<lparr>dec_code = MINIMUM_INTERVAL, permit_token = [], dec_retry_at = retry_at\<rparr>, d1)
      else
        let d2 = put_task (dispatching_row q permit t)
                  (put_setting (s\<lparr>s_last_action := Some (req_now q), s_last_run := Some (req_now q)\<rparr>)
                    (put_usage (reserved_usage t (req_now q) u) d1)) in
        and_then (post_init_decision \<lparr>dec_code = ALLOWED, permit_token = permit, dec_retry_at = None\<rparr>)
          (\<lambda>decision. Inr (decision, d2)))"

definition sql_begin_dispatch ::
  "env \<Rightarrow> pystr \<Rightarrow> uuid \<Rightarrow> agent_db \<Rightarrow> dispatch_request \<Rightarrow> agent_db \<Rightarrow>
     py_error + dispatch_decision \<times> agent_db" where
  "sql_begin_dispatch E permit new_usage_id d0 q d =
     (let snapshot = get_policy_snapshot (req_owner q) (req_target q) d0 d in
      case find (\<lambda>t. t_id t = req_task_id q \<and> t_owner t = req_owner q) (d_tasks d) of
        None \<Rightarrow> denied LEASE_LOST d
      | Some t \<Rightarrow>
          if \<not> holds_lease t (req_lease_token q) (req_now q) then denied LEASE_LOST d
          else and_then (dispatch_gate_code E (req_now q) t (reservation_gate q) snapshot d) (\<lambda>gate.
            case (gate, snapshot) of
              (Some code, _) \<Rightarrow> denied code d
            | (None, None) \<Rightarrow> Inl (RuntimeError ''AssertionError'')
            | (None, Some sn) \<Rightarrow>
                and_then
                  (if req_source q = [] then Inr True
                   else reply_head_is_dispatchable E
                          (get_conversation_head E (req_owner q) (or_default (t_target t) []) d)
                          (req_source q) (req_now q) (sn_setting sn) (sn_contact sn))
                  (\<lambda>dispatchable.
                    if \<not> dispatchable then denied SOURCE_STALE d
                    else reserve_budget permit new_usage_id q t (sn_setting sn) d)))"

section \<open>Preparing the audited execution\<close>

text \<open>Equality of two Python values, and of two dictionaries: \<^verbatim>\<open>True == 1\<close>, and a whole float equals
  the integer it prints as.\<close>

fun as_int :: "pyval \<Rightarrow> int option" where
  "as_int (PBool b) = Some (if b then 1 else 0)"
| "as_int (PInt i) = Some i"
| "as_int _ = None"

definition py_eq :: "pyval \<Rightarrow> pyval \<Rightarrow> bool" where
  "py_eq a b \<longleftrightarrow>
     (case (as_int a, as_int b) of
        (Some i, Some j) \<Rightarrow> i = j
      | (Some i, None) \<Rightarrow> (case b of PFloat s _ \<Rightarrow> s = py_str (PInt i) @ S ''.0'' | _ \<Rightarrow> False)
      | (None, Some j) \<Rightarrow> (case a of PFloat s _ \<Rightarrow> s = py_str (PInt j) @ S ''.0'' | _ \<Rightarrow> False)
      | (None, None) \<Rightarrow> a = b)"

definition dict_same :: "pydict \<Rightarrow> pydict \<Rightarrow> bool" where
  "dict_same a b \<longleftrightarrow>
     (\<forall>k \<in> fst ` set a \<union> fst ` set b.
        case (map_of a k, map_of b k) of (Some v, Some w) \<Rightarrow> py_eq v w | _ \<Rightarrow> False)"

record prepared_execution =
  pe_task :: uuid
  pe_owner :: uuid
  pe_execution :: uuid
  pe_status :: execution_status
  pe_error :: pystr
  pe_result :: pystr
  pe_should_execute :: bool

definition permitted_task :: "pystr \<Rightarrow> pystr \<Rightarrow> pystr \<Rightarrow> task_row \<Rightarrow> bool" where
  "permitted_task permit action key t \<longleftrightarrow>
     t_status t = DISPATCHING \<and> t_lease_token t = Some permit \<and> t_action t = action
     \<and> t_action_key t = Some key"

text \<open>Linking and starting (lines 3406 to 3455).\<close>

definition same_execution :: "task_row \<Rightarrow> execution_row \<Rightarrow> pydict \<Rightarrow> pydict \<Rightarrow> bool" where
  "same_execution t x target_snapshot parameter_snapshot \<longleftrightarrow>
     x_account x = t_account t \<and> x_setting_version x = t_execution_version t
     \<and> dict_same (x_target_snapshot x) target_snapshot
     \<and> dict_same (x_parameter_snapshot x) parameter_snapshot"

definition link_execution ::
  "instant \<Rightarrow> task_row \<Rightarrow> pystr \<Rightarrow> execution_row \<Rightarrow> agent_db \<Rightarrow> py_error + agent_db" where
  "link_execution now t permit x d =
     (case t_execution t of
        Some eid \<Rightarrow>
          if eid \<noteq> x_id x
          then Inl (RuntimeError ''autonomous task is linked to another action execution'')
          else Inr d
      | None \<Rightarrow>
          (let (linked, d1) = record_action_execution_id now (t_id t) permit (x_id x) d in
           if \<not> linked
           then Inl (RuntimeError ''autonomous action execution link was not persisted'')
           else Inr d1))"

definition prepared :: "task_row \<Rightarrow> execution_row \<Rightarrow> bool \<Rightarrow> prepared_execution" where
  "prepared t x should_execute =
     \<lparr>pe_task = t_id t, pe_owner = t_owner t, pe_execution = x_id x, pe_status = x_status x,
      pe_error = or_default (x_error x) [], pe_result = or_default (x_result x) [],
      pe_should_execute = should_execute\<rparr>"

definition prepare_action_execution ::
  "instant \<Rightarrow> uuid \<Rightarrow> pystr \<Rightarrow> pystr \<Rightarrow> pystr \<Rightarrow> pydict \<Rightarrow> pydict \<Rightarrow> agent_db \<Rightarrow>
     py_error + prepared_execution option \<times> agent_db" where
  "prepare_action_execution now new_id permit action action_key target_snapshot parameter_snapshot d =
     and_then (row_action action) (\<lambda>normalized_action.
     and_then (row_key action_key) (\<lambda>normalized_key.
       case find (permitted_task permit normalized_action normalized_key) (d_tasks d) of
         None \<Rightarrow> Inr (None, d)
       | Some t \<Rightarrow>
           and_then (exec_enqueue now new_id (t_owner t) (t_account t) normalized_action normalized_key
               (t_execution_version t) target_snapshot parameter_snapshot
               (S ''user_allowlist'') (S ''schedule'') d) (\<lambda>((x, created), d1).
             if \<not> same_execution t x target_snapshot parameter_snapshot
             then Inl (RuntimeError ''autonomous action idempotency snapshot conflict'')
             else and_then (link_execution now t permit x d1) (\<lambda>d2.
               if x_status x = X_QUEUED then
                 (case exec_start now (t_owner t) (x_id x) d2 of
                    (None, _) \<Rightarrow> Inl (RuntimeError ''autonomous action execution could not be started'')
                  | (Some x', d3) \<Rightarrow> Inr (Some (prepared t x' True), d3))
               else if created
               then Inl (RuntimeError ''new autonomous action execution has an invalid status'')
               else Inr (Some (prepared t x False), d2)))))"

section \<open>The last look before the side effect\<close>

record dispatch_context =
  dc_task :: uuid
  dc_owner :: uuid
  dc_account :: uuid
  dc_uid :: pystr
  dc_online_pool :: bool
  dc_policy_version :: int
  dc_execution_version :: int
  dc_action :: pystr
  dc_key :: pystr
  dc_execution :: uuid
  dc_source :: pystr

text \<open>The active hours of the setting; equal bounds mean the whole day.\<close>

definition within_active_hours :: "setting_row \<Rightarrow> int \<Rightarrow> bool" where
  "within_active_hours s minute \<longleftrightarrow>
     (s_active_start s \<noteq> s_active_end s \<longrightarrow>
       (if s_active_start s < s_active_end s
        then s_active_start s \<le> minute \<and> minute < s_active_end s
        else minute \<ge> s_active_start s \<or> minute < s_active_end s))"

text \<open>A post with the same digest succeeded in the last seven days.\<close>

definition duplicate_post :: "task_row \<Rightarrow> execution_row \<Rightarrow> pystr \<Rightarrow> instant \<Rightarrow> agent_db \<Rightarrow> bool" where
  "duplicate_post t x digest now d \<longleftrightarrow>
     (\<exists>y \<in> set (d_executions d). x_owner y = t_owner t \<and> x_id y \<noteq> x_id x
        \<and> x_action y = S ''publish_text_post'' \<and> x_status y = X_SUCCEEDED
        \<and> some_and (x_completed_at y) (\<lambda>c. c \<ge> now - days 7)
        \<and> json_text (dict_key (x_parameter_snapshot y) ''content_sha256'') = Some digest)"

definition running_execution ::
  "task_row \<Rightarrow> execution_row \<Rightarrow> pystr \<Rightarrow> pystr \<Rightarrow> pydict \<Rightarrow> pydict \<Rightarrow> bool" where
  "running_execution t x action key target_snapshot parameter_snapshot \<longleftrightarrow>
     t_execution t = Some (x_id x) \<and> x_action x = action \<and> x_key x = key \<and> x_status x = X_RUNNING
     \<and> same_execution t x target_snapshot parameter_snapshot"

text \<open>What the conversation must look like for a message (lines 3564 to 3581).\<close>

definition conversation_gate ::
  "env \<Rightarrow> task_row \<Rightarrow> instant \<Rightarrow> policy_snapshot \<Rightarrow> agent_db \<Rightarrow> py_error + bool" where
  "conversation_gate E t now sn d =
     (let head = get_conversation_head E (t_owner t) (or_default (t_target t) []) d in
      if t_type t = REPLY_TO_MESSAGE
      then reply_head_is_dispatchable E head (or_default (t_source t) []) now (sn_setting sn) (sn_contact sn)
      else Inr (\<not> (t_type t = PROACTIVE_MESSAGE \<and> head \<noteq> None)))"

text \<open>The three readings of the clock: for the duplicate search, in the gate, and for the rest.\<close>

definition lock_dispatch_permit ::
  "env \<Rightarrow> (pystr \<Rightarrow> bool) \<Rightarrow> instant \<times> instant \<times> instant \<Rightarrow> pystr \<Rightarrow> pystr \<Rightarrow> pystr \<Rightarrow> uuid \<Rightarrow> pydict \<Rightarrow>
     pydict \<Rightarrow> agent_db \<Rightarrow> agent_db \<Rightarrow> py_error + dispatch_context option" where
  "lock_dispatch_permit E known_zone clock3 permit action action_key eid target_snapshot
       parameter_snapshot d0 d =
     (case clock3 of (now_search, now_gate, now) \<Rightarrow>
     and_then (row_action action) (\<lambda>act.
     and_then (row_key action_key) (\<lambda>key.
       case find (permitted_task permit act key) (d_tasks d0) of
         None \<Rightarrow> Inr None
       | Some candidate \<Rightarrow>
           let snapshot = get_policy_snapshot (t_owner candidate) (or_default (t_target candidate) []) d0 d in
           (case find (\<lambda>t. t_id t = t_id candidate \<and> permitted_task permit act key t) (d_tasks d) of
              None \<Rightarrow> Inr None
            | Some t \<Rightarrow>
           (case exec_get (t_owner t) eid d of
              None \<Rightarrow> Inr None
            | Some x \<Rightarrow>
                if \<not> running_execution t x act key target_snapshot parameter_snapshot then Inr None
                else if act = S ''publish_text_post''
                  \<and> (let digest = str_or_empty (dict_key parameter_snapshot ''content_sha256'') in
                     digest = [] \<or> duplicate_post t x digest now_search d)
                then Inr None
                else and_then (dispatch_gate_code E now_gate t (permit_gate t) snapshot d) (\<lambda>gate.
                  case (gate, snapshot) of
                    (Some code, _) \<Rightarrow> Inr None
                  | (None, None) \<Rightarrow> Inl (RuntimeError ''AssertionError'')
                  | (None, Some sn) \<Rightarrow>
                      and_then (conversation_gate E t now sn d) (\<lambda>ok.
                        let s = sn_setting sn;
                            zone_name = or_default (Some (s_timezone s)) (S ''UTC'') in
                        if \<not> ok then Inr None
                        else if \<not> known_zone zone_name then Inr None
                        else if \<not> within_active_hours s (local_minute (to_local (zones E zone_name) now))
                        then Inr None
                        else (case (sn_account sn, sn_user sn) of
                                (Some account, Some user) \<Rightarrow>
                                  Inr (Some \<lparr>dc_task = t_id t, dc_owner = t_owner t, dc_account = t_account t,
                                    dc_uid = a_uid account, dc_online_pool = n_online_pool user,
                                    dc_policy_version = t_policy_version t,
                                    dc_execution_version = t_execution_version t, dc_action = t_action t,
                                    dc_key = or_default (t_action_key t) [], dc_execution = x_id x,
                                    dc_source = or_default (t_source t) []\<rparr>)
                              | _ \<Rightarrow> Inl (RuntimeError ''AttributeError''))))))))
     )"

end
