(* ===== verification/Dispatch_Properties.thy ===== *)
theory Dispatch_Properties
  imports Dispatch_Store
begin

text \<open>
  What a reservation and a permit guarantee: the budget of the day is counted exactly once per
  reservation and never beyond its limits, a switched-off agent gets neither a reservation nor a
  permit, and an audited action is started at most once.
\<close>

section \<open>The daily counters as a table\<close>

definition usage_table_ok :: "agent_db \<Rightarrow> bool" where
  "usage_table_ok d \<longleftrightarrow>
     distinct (map u_id (d_usages d)) \<and> distinct (map (\<lambda>u. (u_owner u, u_day u)) (d_usages d))
     \<and> (\<forall>u \<in> set (d_usages d). usage_constraints u)"

text \<open>What has been counted for an owner on a day.\<close>

definition used_total :: "uuid \<Rightarrow> int \<Rightarrow> agent_db \<Rightarrow> int" where
  "used_total owner day d = (case usage_get owner day d of None \<Rightarrow> 0 | Some u \<Rightarrow> u_total u)"

definition used_count :: "uuid \<Rightarrow> int \<Rightarrow> usage_category \<Rightarrow> agent_db \<Rightarrow> int" where
  "used_count owner day c d = usage_count (usage_get owner day d) c"

lemma usage_get_Some:
  "usage_get owner day d = Some u \<Longrightarrow> u \<in> set (d_usages d) \<and> u_owner u = owner \<and> u_day u = day"
  unfolding usage_get_def by (drule find_SomeD) simp

lemma usage_get_key:
  "usage_table_ok d \<Longrightarrow> u \<in> set (d_usages d) \<Longrightarrow> usage_get (u_owner u) (u_day u) d = Some u"
  unfolding usage_get_def usage_table_ok_def
  using find_key [of "\<lambda>u. (u_owner u, u_day u)" "d_usages d" u] by (simp cong: conj_cong)

lemma usage_get_frame [frame_simps]:
  "d_usages d' = d_usages d \<Longrightarrow> usage_get owner day d' = usage_get owner day d"
  "d_usages d' = d_usages d \<Longrightarrow> usage_table_ok d' = usage_table_ok d"
  by (simp_all add: usage_get_def usage_table_ok_def)

lemma put_usage_ok:
  assumes ok: "usage_table_ok d" and old: "u \<in> set (d_usages d)"
    and row: "u_id v = u_id u" "u_owner v = u_owner u" "u_day v = u_day u" "usage_constraints v"
  shows "usage_table_ok (put_usage v d)"
    and "usage_get owner day (put_usage v d)
      = (if owner = u_owner u \<and> day = u_day u then Some v else usage_get owner day d)"
proof -
  have ids: "distinct (map u_id (d_usages d))" using ok by (simp add: usage_table_ok_def)
  note put = put_row [OF ids old row(1)]
  have keys: "map (\<lambda>u. (u_owner u, u_day u)) (d_usages (put_usage v d))
      = map (\<lambda>u. (u_owner u, u_day u)) (d_usages d)"
    using put(1) [of "\<lambda>u. (u_owner u, u_day u)"] row by (simp add: put_usage_def)
  show ok': "usage_table_ok (put_usage v d)"
    using ok row(1,4) put(1) [of u_id] put(4) keys by (auto simp: usage_table_ok_def put_usage_def)
  have v: "v \<in> set (d_usages (put_usage v d))" using put(2) by (simp add: put_usage_def)
  show "usage_get owner day (put_usage v d)
      = (if owner = u_owner u \<and> day = u_day u then Some v else usage_get owner day d)"
  proof (cases "owner = u_owner u \<and> day = u_day u")
    case True
    then show ?thesis using usage_get_key [OF ok' v] row by simp
  next
    case False
    have only: "y = u" if "y \<in> set (d_usages d)" "u_id y = u_id v" for y
      using distinct_map_inject [OF ids that(1) old] that(2) row(1) by simp
    have "find (\<lambda>y. u_owner y = owner \<and> u_day y = day) (update_where (\<lambda>y. u_id y = u_id v) (\<lambda>_. v) us)
        = find (\<lambda>y. u_owner y = owner \<and> u_day y = day) us" if "set us \<subseteq> set (d_usages d)" for us
      using that only False row(2,3) by (induction us) auto
    then show ?thesis unfolding usage_get_def put_usage_def using False by auto
  qed
qed

lemma usage_get_or_create_ok:
  assumes ok: "usage_table_ok d" and fresh: "new_id \<notin> u_id ` set (d_usages d)"
    and goc: "usage_get_or_create new_id now owner day d = (u, d1)"
  shows "usage_table_ok d1" "u \<in> set (d_usages d1)" "u_owner u = owner" "u_day u = day"
    and "\<exists>us. d1 = d\<lparr>d_usages := us\<rparr>"
    and "u_total u = used_total owner day d" "usage_field c u = used_count owner day c d"
    and "used_total o' day' d1 = used_total o' day' d" "used_count o' day' c d1 = used_count o' day' c d"
proof -
  have all: "usage_table_ok d1 \<and> u \<in> set (d_usages d1) \<and> u_owner u = owner \<and> u_day u = day
    \<and> (\<exists>us. d1 = d\<lparr>d_usages := us\<rparr>)
    \<and> u_total u = used_total owner day d \<and> (\<forall>c. usage_field c u = used_count owner day c d)
    \<and> (\<forall>o' day'. used_total o' day' d1 = used_total o' day' d
        \<and> (\<forall>c. used_count o' day' c d1 = used_count o' day' c d))"
  proof (cases "usage_get owner day d")
    case None
    have zero: "usage_field c (zero_usage new_id owner day now) = 0" for c
      by (cases c) (simp_all add: zero_usage_def)
    have u: "u = zero_usage new_id owner day now" "d1 = d\<lparr>d_usages := d_usages d @ [u]\<rparr>"
      using goc None by (auto simp: usage_get_or_create_def Let_def)
    have free: "(owner, day) \<notin> (\<lambda>u. (u_owner u, u_day u)) ` set (d_usages d)"
      using None unfolding usage_get_def find_None_iff by auto
    have get: "usage_get o' day' d1
        = (if usage_get o' day' d = None \<and> o' = owner \<and> day' = day then Some u else usage_get o' day' d)" for o' day'
      by (auto simp: usage_get_def u find_append zero_usage_def split: option.splits)
    have "usage_table_ok d1"
      using ok fresh free by (simp add: u usage_table_ok_def zero_usage_def usage_constraints_def)
    moreover have "used_total o' day' d1 = used_total o' day' d"
      "used_count o' day' c d1 = used_count o' day' c d" for o' day' c
      unfolding used_total_def used_count_def usage_count_def get
      using None by (auto simp: u(1) zero split: option.splits) (simp_all add: zero_usage_def)
    ultimately show ?thesis
      by (intro conjI allI exI [of _ "d_usages d @ [u]"])
        (simp_all add: u None used_total_def used_count_def usage_count_def zero, simp_all add: zero_usage_def)
  next
    case (Some v)
    then have "u = v" "d1 = d" using goc by (simp_all add: usage_get_or_create_def)
    with Some ok usage_get_Some [OF Some] show ?thesis
      by (intro conjI allI exI [of _ "d_usages d"])
        (simp_all add: used_total_def used_count_def usage_count_def)
  qed
  then show "usage_table_ok d1" "u \<in> set (d_usages d1)" "u_owner u = owner" "u_day u = day"
    "\<exists>us. d1 = d\<lparr>d_usages := us\<rparr>"
    "u_total u = used_total owner day d" "usage_field c u = used_count owner day c d"
    "used_total o' day' d1 = used_total o' day' d" "used_count o' day' c d1 = used_count o' day' c d"
    by simp_all
qed

lemma reserved_usage_row:
  "u_id (reserved_usage t now u) = u_id u" "u_owner (reserved_usage t now u) = u_owner u"
  "u_day (reserved_usage t now u) = u_day u" "u_total (reserved_usage t now u) = u_total u + 1"
  "usage_field c (reserved_usage t now u) = usage_field c u + (if c = row_category t then 1 else 0)"
  by (simp_all add: reserved_usage_def increment_usage_def)

lemma reserved_usage_constraints:
  "usage_constraints u \<Longrightarrow> usage_constraints (reserved_usage t now u)"
  by (cases "row_category t") (simp_all add: usage_constraints_def reserved_usage_def increment_usage_def)

section \<open>An open gate\<close>

text \<open>The gate passes only if every condition holds.\<close>

lemma gate_open:
  assumes "dispatch_gate_code E now t q snapshot d = Inr None"
  obtains sn system user account agent execution connection where
    "snapshot = Some sn" "sn_system sn = Some system" "sn_user sn = Some user"
    "sn_account sn = Some account" "sn_agent sn = Some agent" "sn_execution sn = Some execution"
    "sn_connection sn = Some connection"
    "access_granted system user agent execution (sn_setting sn) connection"
    "bound_to_request E t q account agent execution (sn_setting sn) connection"
    "s_halted_at (sn_setting sn) = None" "s_failures (sn_setting sn) < s_failure_limit (sn_setting sn)"
    "gq_action q \<in> set (s_actions (sn_setting sn))" "gq_action q \<in> set (e_actions execution)"
    "row_feature_enabled (sn_setting sn) (t_type t)"
    "contact_reply_gate t sn now d = Inr None"
    "t_type t \<in> {FOLLOW_TARGET, UNFOLLOW_TARGET} \<Longrightarrow> py_strip (gq_target q) \<in> set (s_targets (sn_setting sn))"
    "candidate_gate t (py_strip (gq_target q)) user (sn_preference sn) d = Inr True"
proof -
  obtain sn where sn: "snapshot = Some sn"
    using assms by (cases snapshot) (simp_all add: dispatch_gate_code_def)
  obtain system user account agent execution connection where some:
    "sn_system sn = Some system" "sn_user sn = Some user" "sn_account sn = Some account"
    "sn_agent sn = Some agent" "sn_execution sn = Some execution" "sn_connection sn = Some connection"
    using assms by (auto simp: dispatch_gate_code_def sn split: option.splits)
  note g = assms [unfolded dispatch_gate_code_def sn, simplified, unfolded some, simplified,
      unfolded Let_def, simplified]
  have "access_granted system user agent execution (sn_setting sn) connection"
    using g by (simp split: if_splits)
  moreover have "bound_to_request E t q account agent execution (sn_setting sn) connection"
    using g by (simp split: if_splits)
  moreover have "s_halted_at (sn_setting sn) = None \<and> s_failures (sn_setting sn) < s_failure_limit (sn_setting sn)"
    using g by (simp split: if_splits)
  moreover have "gq_action q \<in> set (s_actions (sn_setting sn)) \<and> gq_action q \<in> set (e_actions execution)"
    using g by (simp split: if_splits)
  moreover have "row_feature_enabled (sn_setting sn) (t_type t)"
    using g by (simp split: if_splits)
  moreover have "contact_reply_gate t sn now d = Inr None"
    using g by (auto simp: and_then_Inr_iff split: if_splits)
  moreover have "t_type t \<in> {FOLLOW_TARGET, UNFOLLOW_TARGET} \<Longrightarrow>
      py_strip (gq_target q) \<in> set (s_targets (sn_setting sn))"
    using g by (auto simp: and_then_Inr_iff split: if_splits)
  moreover have "candidate_gate t (py_strip (gq_target q)) user (sn_preference sn) d = Inr True"
    using g by (auto simp: and_then_Inr_iff split: if_splits)
  ultimately show thesis using that sn some by blast
qed

lemma snapshot_setting:
  "get_policy_snapshot owner target d0 d = Some sn \<Longrightarrow> setting_get owner d = Some (sn_setting sn)"
  by (auto simp: get_policy_snapshot_def Let_def)

lemma snapshot_system: "get_policy_snapshot owner target d0 d = Some sn \<Longrightarrow> sn_system sn = d_system d"
  by (auto simp: get_policy_snapshot_def Let_def)

lemma snapshot_user:
  "get_policy_snapshot owner target d0 d = Some sn \<Longrightarrow> sn_user sn = find (\<lambda>u. n_id u = owner) (d_users d)"
  by (auto simp: get_policy_snapshot_def Let_def)

section \<open>The two outcomes of a reservation\<close>

lemma reserve_budget_allowed:
  assumes "reserve_budget permit nid q t s d = Inr (dec, d')" "dec_code dec = ALLOWED"
    and "usage_get_or_create nid (req_now q) (req_owner q) (req_budget_day q) d = (u, d1)"
  shows "permit_token dec = permit \<and> permit \<noteq> []"
    and "u_total u < req_total_limit q" "usage_field (row_category t) u < req_action_limit q"
    and "s_last_action s = Some a \<Longrightarrow> a + seconds (req_minimum_interval q) \<le> req_now q"
    and "d' = put_task (dispatching_row q permit t)
       (put_setting (s\<lparr>s_last_action := Some (req_now q), s_last_run := Some (req_now q)\<rparr>)
         (put_usage (reserved_usage t (req_now q) u) d1))"
  using assms
  by (auto simp: reserve_budget_def Let_def denied_def and_then_Inr_iff post_init_decision_def
      split: if_splits)

lemma reserve_budget_denied:
  assumes "reserve_budget permit nid q t s d = Inr (dec, d')" "dec_code dec \<noteq> ALLOWED"
    and "usage_get_or_create nid (req_now q) (req_owner q) (req_budget_day q) d = (u, d1)"
  shows "d' = d1 \<and> permit_token dec = []"
  using assms
  by (auto simp: reserve_budget_def Let_def denied_def and_then_Inr_iff post_init_decision_def
      split: if_splits)

lemma begin_dispatch_allowed:
  assumes "sql_begin_dispatch E permit nid d0 q d = Inr (dec, d')" "dec_code dec = ALLOWED"
  obtains t sn where
    "find (\<lambda>t. t_id t = req_task_id q \<and> t_owner t = req_owner q) (d_tasks d) = Some t"
    "holds_lease t (req_lease_token q) (req_now q)"
    "get_policy_snapshot (req_owner q) (req_target q) d0 d = Some sn"
    "dispatch_gate_code E (req_now q) t (reservation_gate q) (Some sn) d = Inr None"
    "req_source q \<noteq> [] \<longrightarrow> reply_head_is_dispatchable E
        (get_conversation_head E (req_owner q) (or_default (t_target t) []) d)
        (req_source q) (req_now q) (sn_setting sn) (sn_contact sn) = Inr True"
    "reserve_budget permit nid q t (sn_setting sn) d = Inr (dec, d')"
proof -
  let ?snap = "get_policy_snapshot (req_owner q) (req_target q) d0 d"
  obtain t where t: "find (\<lambda>t. t_id t = req_task_id q \<and> t_owner t = req_owner q) (d_tasks d) = Some t"
    "holds_lease t (req_lease_token q) (req_now q)"
    using assms by (auto simp: sql_begin_dispatch_def denied_def Let_def split: option.splits if_splits)
  note b = assms(1) [unfolded sql_begin_dispatch_def Let_def, simplified, unfolded t(1), simplified, simplified t(2), simplified]
  obtain gate where gate: "dispatch_gate_code E (req_now q) t (reservation_gate q) ?snap d = Inr gate"
    using b by (auto simp: and_then_Inr_iff)
  have "\<exists>code. gate = Some code \<and> code = ALLOWED \<or> gate = None"
    using b gate assms(2) by (cases gate) (auto simp: denied_def)
  moreover have "gate \<noteq> Some ALLOWED"
    using gate
    by (auto simp: dispatch_gate_code_def and_then_Inr_iff contact_reply_gate_def Let_def
        split: option.splits if_splits)
  ultimately have none: "gate = None" by blast
  obtain sn where sn: "?snap = Some sn" using b gate none by (cases ?snap) auto
  note b' = b [unfolded sn, unfolded gate [unfolded none sn], simplified]
  have head: "(if req_source q = [] then Inr True
      else reply_head_is_dispatchable E (get_conversation_head E (req_owner q) (or_default (t_target t) []) d)
        (req_source q) (req_now q) (sn_setting sn) (sn_contact sn)) = Inr True"
    using b' assms(2) by (auto simp: and_then_Inr_iff denied_def split: if_splits)
  have res: "reserve_budget permit nid q t (sn_setting sn) d = Inr (dec, d')"
    using b' unfolding head by simp
  have head': "req_source q \<noteq> [] \<longrightarrow> reply_head_is_dispatchable E
      (get_conversation_head E (req_owner q) (or_default (t_target t) []) d)
      (req_source q) (req_now q) (sn_setting sn) (sn_contact sn) = Inr True"
    using head by auto
  show thesis by (rule that [OF t sn gate [unfolded none sn] head' res])
qed

lemma begin_dispatch_denied:
  assumes "sql_begin_dispatch E permit nid d0 q d = Inr (dec, d')" "dec_code dec \<noteq> ALLOWED"
    and "usage_get_or_create nid (req_now q) (req_owner q) (req_budget_day q) d = (u, d1)"
  shows "(d' = d \<or> d' = d1) \<and> permit_token dec = []"
proof -
  let ?snap = "get_policy_snapshot (req_owner q) (req_target q) d0 d"
  have leaves: ?thesis if "denied code d = Inr (dec, d')" for code
    using that by (auto simp: denied_def)
  show ?thesis
  proof (cases "find (\<lambda>t. t_id t = req_task_id q \<and> t_owner t = req_owner q) (d_tasks d)")
    case None
    with assms(1) show ?thesis by (intro leaves [of LEASE_LOST]) (simp add: sql_begin_dispatch_def Let_def)
  next
    case (Some t)
    show ?thesis
    proof (cases "holds_lease t (req_lease_token q) (req_now q)")
      case False
      with assms(1) Some show ?thesis
        by (intro leaves [of LEASE_LOST]) (simp add: sql_begin_dispatch_def Let_def)
    next
      case True
      note b = assms(1) [unfolded sql_begin_dispatch_def Let_def Some, simplified, simplified True, simplified]
      obtain gate where gate: "dispatch_gate_code E (req_now q) t (reservation_gate q) ?snap d = Inr gate"
        using b by (auto simp: and_then_Inr_iff)
      note b' = b [unfolded gate, simplified]
      show ?thesis
      proof (cases gate)
        case (Some code)
        with b' show ?thesis by (intro leaves [of code]) simp
      next
        case None
        then obtain sn where sn: "?snap = Some sn" using b' by (cases ?snap) simp_all
        from b' [unfolded None sn] have "denied SOURCE_STALE d = Inr (dec, d')
            \<or> reserve_budget permit nid q t (sn_setting sn) d = Inr (dec, d')"
          by (auto simp: and_then_Inr_iff split: if_splits)
        then show ?thesis using leaves reserve_budget_denied [OF _ assms(2,3)] by blast
      qed
    qed
  qed
qed

lemma dispatching_row_ok:
  assumes "task_inv t" "holds_lease t token now"
  shows "task_change t (dispatching_row q permit t) \<and> task_inv (dispatching_row q permit t)"
proof -
  have st: "t_status t = LEASED \<or> t_status t = GENERATING" using assms(2) by (auto simp: holds_lease_def)
  note life = not_started_life [OF assms(1)]
  show ?thesis
  proof (rule task_changeI [OF assms(1)])
    show "task_edge (t_status t) (t_status (dispatching_row q permit t))"
      using st by (auto simp: dispatching_row_def)
    show "task_life (dispatching_row q permit t)"
      using assms(1) st life by (auto simp: task_inv_iff task_life_def dispatching_row_def)
  qed (use st life in \<open>auto simp: dispatching_row_def same_binding_def\<close>)
qed

lemma put_frames [frame_simps]:
  "d_usages (put_task t d) = d_usages d" "d_settings (put_task t d) = d_settings d"
  "d_executions (put_task t d) = d_executions d"
  "d_tasks (put_setting s d) = d_tasks d" "d_usages (put_setting s d) = d_usages d"
  "d_executions (put_setting s d) = d_executions d"
  "d_tasks (put_usage u d) = d_tasks d" "d_settings (put_usage u d) = d_settings d"
  "d_executions (put_usage u d) = d_executions d"
  by (simp_all add: put_task_def put_setting_def put_usage_def)

lemma put_task_frame:
  "d_tasks d' = d_tasks d \<Longrightarrow> d_tasks (put_task t d') = d_tasks (put_task t d)"
  by (simp add: put_task_def)

lemma put_task_in:
  "task_table_ok d \<Longrightarrow> t \<in> set (d_tasks d) \<Longrightarrow> t_id u = t_id t \<Longrightarrow> u \<in> set (d_tasks (put_task u d))"
  using put_row(2) [of t_id "d_tasks d" t u] by (simp add: put_task_def task_table_ok_def)

text \<open>Everything a successful reservation changes.\<close>

definition reservation_of ::
  "env \<Rightarrow> pystr \<Rightarrow> agent_db \<Rightarrow> dispatch_request \<Rightarrow> task_row \<Rightarrow> policy_snapshot \<Rightarrow> agent_db \<Rightarrow> agent_db \<Rightarrow> bool" where
  "reservation_of E permit d0 q t sn d d' \<longleftrightarrow>
     t \<in> set (d_tasks d) \<and> t_id t = req_task_id q \<and> t_owner t = req_owner q
     \<and> holds_lease t (req_lease_token q) (req_now q)
     \<and> get_policy_snapshot (req_owner q) (req_target q) d0 d = Some sn
     \<and> dispatch_gate_code E (req_now q) t (reservation_gate q) (Some sn) d = Inr None
     \<and> (req_source q \<noteq> [] \<longrightarrow> reply_head_is_dispatchable E
         (get_conversation_head E (req_owner q) (or_default (t_target t) []) d)
         (req_source q) (req_now q) (sn_setting sn) (sn_contact sn) = Inr True)
     \<and> used_total (req_owner q) (req_budget_day q) d < req_total_limit q
     \<and> used_count (req_owner q) (req_budget_day q) (row_category t) d < req_action_limit q
     \<and> (\<forall>a. s_last_action (sn_setting sn) = Some a \<longrightarrow> a + seconds (req_minimum_interval q) \<le> req_now q)
     \<and> d_tasks d' = d_tasks (put_task (dispatching_row q permit t) d)
     \<and> d_executions d' = d_executions d
     \<and> d_settings d' = d_settings (put_setting ((sn_setting sn)\<lparr>s_last_action := Some (req_now q),
         s_last_run := Some (req_now q)\<rparr>) d)
     \<and> usage_table_ok d'
     \<and> (\<forall>o' day. used_total o' day d' = used_total o' day d
         + (if o' = req_owner q \<and> day = req_budget_day q then 1 else 0))
     \<and> (\<forall>o' day c. used_count o' day c d' = used_count o' day c d
         + (if o' = req_owner q \<and> day = req_budget_day q \<and> c = row_category t then 1 else 0))
     \<and> (\<forall>o' day. usage_get o' day d \<noteq> None \<longrightarrow> usage_get o' day d' \<noteq> None)
     \<and> usage_get (req_owner q) (req_budget_day q) d' \<noteq> None"

lemma reservation_effect:
  assumes usages: "usage_table_ok d" and fresh: "nid \<notin> u_id ` set (d_usages d)"
    and res0: "sql_begin_dispatch E permit nid d0 q d = Inr (dec, d')" and ok: "dec_code dec = ALLOWED"
  obtains t sn where "permit_token dec = permit" "reservation_of E permit d0 q t sn d d'"
proof -
  obtain t sn where
    t: "find (\<lambda>t. t_id t = req_task_id q \<and> t_owner t = req_owner q) (d_tasks d) = Some t"
    "holds_lease t (req_lease_token q) (req_now q)"
    and sn: "get_policy_snapshot (req_owner q) (req_target q) d0 d = Some sn"
    "dispatch_gate_code E (req_now q) t (reservation_gate q) (Some sn) d = Inr None"
    "req_source q \<noteq> [] \<longrightarrow> reply_head_is_dispatchable E
        (get_conversation_head E (req_owner q) (or_default (t_target t) []) d)
        (req_source q) (req_now q) (sn_setting sn) (sn_contact sn) = Inr True"
    and res: "reserve_budget permit nid q t (sn_setting sn) d = Inr (dec, d')"
    by (rule begin_dispatch_allowed [OF res0 ok])
  obtain u d1 where goc: "usage_get_or_create nid (req_now q) (req_owner q) (req_budget_day q) d = (u, d1)"
    by fastforce
  note u = usage_get_or_create_ok [OF usages fresh goc] and r = reserve_budget_allowed [OF res ok goc]
  obtain us where d1: "d1 = d\<lparr>d_usages := us\<rparr>" using u(5) by blast
  let ?v = "reserved_usage t (req_now q) u"
  have v: "usage_constraints ?v"
    using u(1,2) by (intro reserved_usage_constraints) (simp add: usage_table_ok_def)
  note pu = put_usage_ok [OF u(1,2) reserved_usage_row(1-3) v]
  have same: "d_usages d' = d_usages (put_usage ?v d1)" by (simp add: r(5) frame_simps)
  have get: "usage_get o' day d' = (if o' = req_owner q \<and> day = req_budget_day q then Some ?v
      else usage_get o' day d1)" for o' day
    using pu(2) usage_get_frame(1) [OF same] u(3,4) by simp
  have tot: "used_total o' day d' = used_total o' day d
        + (if o' = req_owner q \<and> day = req_budget_day q then 1 else 0)" for o' day
    using u(6) u(8) [of o' day] by (auto simp: used_total_def get reserved_usage_row)
  have cnt: "used_count o' day c d' = used_count o' day c d
        + (if o' = req_owner q \<and> day = req_budget_day q \<and> c = row_category t then 1 else 0)" for o' day c
    using u(7) [of c] u(9) [of o' day c]
    by (auto simp: used_count_def usage_count_def get reserved_usage_row)
  have keeps: "usage_get o' day d' \<noteq> None" if "usage_get o' day d \<noteq> None" for o' day
  proof -
    have "usage_get o' day d1 \<noteq> None"
      using that goc by (auto simp: usage_get_or_create_def usage_get_def find_append Let_def split: option.splits)
    then show ?thesis by (simp add: get)
  qed
  have table: "usage_table_ok d'" using pu(1) usage_get_frame(2) [OF same] by simp
  have m: "t \<in> set (d_tasks d)" "t_id t = req_task_id q" "t_owner t = req_owner q"
    using find_SomeD [OF t(1)] by simp_all
  have d': "d_tasks d' = d_tasks (put_task (dispatching_row q permit t) d)" "d_executions d' = d_executions d"
    "d_settings d' = d_settings (put_setting ((sn_setting sn)\<lparr>s_last_action := Some (req_now q),
        s_last_run := Some (req_now q)\<rparr>) d)"
    by (simp_all add: r(5) frame_simps d1) (simp_all add: put_task_def put_setting_def put_usage_def)
  have lims: "used_total (req_owner q) (req_budget_day q) d < req_total_limit q"
    "used_count (req_owner q) (req_budget_day q) (row_category t) d < req_action_limit q"
    using r(2,3) u(6) u(7) [of "row_category t"] by simp_all
  have some: "usage_get (req_owner q) (req_budget_day q) d' \<noteq> None" by (simp add: get)
  have interval: "\<forall>a. s_last_action (sn_setting sn) = Some a \<longrightarrow> a + seconds (req_minimum_interval q) \<le> req_now q"
    using r(4) by blast
  have "reservation_of E permit d0 q t sn d d'"
    unfolding reservation_of_def
    by (intro conjI m t(2) sn lims interval d' table some) (simp_all add: tot cnt keeps)
  then show thesis by (rule that [OF conjunct1 [OF r(1)]])
qed

section \<open>Properties of the reservation\<close>

text \<open>C6: A reservation is granted only to the holder of an unexpired lease, while the owner's agent is
  switched on, not halted, unchanged since the task was queued and its feature enabled, when the minimum
  interval has passed and both the total and the category budget of the day have room.  It then counts
  exactly one action, in the total and in the task's category of that day, and moves that task to
  dispatching under the permit.  A refusal hands out no permit and changes no task, no setting and no
  counter.\<close>

theorem reservation_counted_once:
  assumes tables: "task_table_ok d" "usage_table_ok d" "setting_table_ok d" and fresh: "nid \<notin> u_id ` set (d_usages d)"
    and res: "sql_begin_dispatch E permit nid d0 q d = Inr (dec, d')"
  shows "if dec_code dec = ALLOWED
     then (\<exists>t s. t \<in> set (d_tasks d) \<and> t_id t = req_task_id q \<and> holds_lease t (req_lease_token q) (req_now q)
        \<and> setting_get (req_owner q) d = Some s \<and> s_enabled s \<and> s_halted_at s = None
        \<and> s_failures s < s_failure_limit s \<and> s_version s = t_policy_version t
        \<and> row_feature_enabled s (t_type t) \<and> req_action q \<in> set (s_actions s)
        \<and> (\<forall>a. s_last_action s = Some a \<longrightarrow> a + seconds (req_minimum_interval q) \<le> req_now q)
        \<and> used_total (req_owner q) (req_budget_day q) d < req_total_limit q
        \<and> used_count (req_owner q) (req_budget_day q) (row_category t) d < req_action_limit q
        \<and> used_total (req_owner q) (req_budget_day q) d' = used_total (req_owner q) (req_budget_day q) d + 1
        \<and> (\<forall>c. used_count (req_owner q) (req_budget_day q) c d'
              = used_count (req_owner q) (req_budget_day q) c d + (if c = row_category t then 1 else 0))
        \<and> dispatching_row q (permit_token dec) t \<in> set (d_tasks d'))
     else permit_token dec = [] \<and> d_tasks d' = d_tasks d \<and> d_settings d' = d_settings d
        \<and> (\<forall>o' day. used_total o' day d' = used_total o' day d
            \<and> (\<forall>c. used_count o' day c d' = used_count o' day c d))"
proof (cases "dec_code dec = ALLOWED")
  case True
  obtain t sn where permit: "permit_token dec = permit" and r: "reservation_of E permit d0 q t sn d d'"
    by (rule reservation_effect [OF tables(2) fresh res True])
  have t: "t \<in> set (d_tasks d)" "t_id t = req_task_id q" "holds_lease t (req_lease_token q) (req_now q)"
    and sn: "get_policy_snapshot (req_owner q) (req_target q) d0 d = Some sn"
      "dispatch_gate_code E (req_now q) t (reservation_gate q) (Some sn) d = Inr None"
    using r by (simp_all add: reservation_of_def)
  note gate = gate_open [OF sn(2)]
  have open_gate: "s_enabled (sn_setting sn) \<and> s_halted_at (sn_setting sn) = None
      \<and> s_failures (sn_setting sn) < s_failure_limit (sn_setting sn)
      \<and> s_version (sn_setting sn) = t_policy_version t \<and> row_feature_enabled (sn_setting sn) (t_type t)
      \<and> req_action q \<in> set (s_actions (sn_setting sn))"
    by (rule gate) (simp add: access_granted_def bound_to_request_def reservation_gate_def)
  have "dispatching_row q permit t \<in> set (d_tasks (put_task (dispatching_row q permit t) d))"
    by (rule put_task_in [OF tables(1) t(1)]) (simp add: dispatching_row_def)
  then show ?thesis
    unfolding if_P [OF True] permit
    using t open_gate r snapshot_setting [OF sn(1)]
    by (intro exI [of _ t] exI [of _ "sn_setting sn"]) (simp add: reservation_of_def)
next
  case False
  obtain u d1 where goc: "usage_get_or_create nid (req_now q) (req_owner q) (req_budget_day q) d = (u, d1)"
    by fastforce
  note u = usage_get_or_create_ok [OF tables(2) fresh goc]
  obtain us where d1: "d1 = d\<lparr>d_usages := us\<rparr>" using u(5) by blast
  from begin_dispatch_denied [OF res False goc] u(8,9) show ?thesis
    unfolding if_not_P [OF False] by (auto simp: d1)
qed

text \<open>Switched off: by the owner, by an administrator, by the account's suspension or by a halt.\<close>

definition agent_switched_on :: "uuid \<Rightarrow> agent_db \<Rightarrow> bool" where
  "agent_switched_on owner d \<longleftrightarrow>
     (\<exists>s system user. setting_get owner d = Some s \<and> d_system d = Some system
        \<and> find (\<lambda>u. n_id u = owner) (d_users d) = Some user
        \<and> s_enabled s \<and> s_halted_at s = None \<and> s_failures s < s_failure_limit s
        \<and> y_enabled system \<and> y_account_actions system \<and> y_autonomous system
        \<and> n_status user = ''active'' \<and> n_disabled_at user = None
        \<and> n_runner user \<and> n_account_actions user \<and> n_autonomous user)"

lemma gate_switched_on:
  assumes sn: "get_policy_snapshot owner target d0 d = Some sn"
    and gate: "dispatch_gate_code E now t q (Some sn) d = Inr None"
  shows "agent_switched_on owner d"
proof (rule gate_open [OF gate])
  fix sn' system user account agent execution connection
  assume "Some sn = Some sn'" "sn_system sn' = Some system" "sn_user sn' = Some user"
    "access_granted system user agent execution (sn_setting sn') connection"
    "s_halted_at (sn_setting sn') = None" "s_failures (sn_setting sn') < s_failure_limit (sn_setting sn')"
  with snapshot_setting [OF sn] snapshot_system [OF sn] snapshot_user [OF sn] show ?thesis
    unfolding agent_switched_on_def access_granted_def
    by (intro exI [of _ "sn_setting sn"] exI [of _ system] exI [of _ user]) simp
qed

text \<open>What a permit that is still good says.\<close>

lemma lock_permit_cases:
  assumes "lock_dispatch_permit E known_zone (now_search, now_gate, now) permit action action_key eid
      target_snapshot parameter_snapshot d0 d = Inr (Some ctx)"
  obtains candidate t x sn act key where
    "row_action action = Inr act" "row_key action_key = Inr key"
    "candidate \<in> set (d_tasks d0)" "t_id candidate = t_id t" "permitted_task permit act key t"
    "t \<in> set (d_tasks d)" "exec_get (t_owner t) eid d = Some x"
    "running_execution t x act key target_snapshot parameter_snapshot"
    "act = S ''publish_text_post'' \<longrightarrow>
       str_or_empty (dict_key parameter_snapshot ''content_sha256'') \<noteq> []
       \<and> \<not> duplicate_post t x (str_or_empty (dict_key parameter_snapshot ''content_sha256'')) now_search d"
    "get_policy_snapshot (t_owner candidate) (or_default (t_target candidate) []) d0 d = Some sn"
    "dispatch_gate_code E now_gate t (permit_gate t) (Some sn) d = Inr None"
    "conversation_gate E t now sn d = Inr True"
    "within_active_hours (sn_setting sn)
       (local_minute (to_local (zones E (or_default (Some (s_timezone (sn_setting sn))) (S ''UTC''))) now))"
    "dc_task ctx = t_id t" "dc_owner ctx = t_owner t" "dc_account ctx = t_account t" "dc_action ctx = t_action t"
    "dc_execution ctx = x_id x" "dc_policy_version ctx = t_policy_version t"
proof -
  obtain act key where ak: "row_action action = Inr act" "row_key action_key = Inr key"
    using assms by (auto simp: lock_dispatch_permit_def and_then_Inr_iff)
  note l1 = assms [unfolded lock_dispatch_permit_def ak, simplified]
  obtain candidate where c: "find (permitted_task permit act key) (d_tasks d0) = Some candidate"
    using l1 by (cases "find (permitted_task permit act key) (d_tasks d0)") simp_all
  note l2 = l1 [unfolded c Let_def, simplified]
  let ?find = "find (\<lambda>t. t_id t = t_id candidate \<and> permitted_task permit act key t) (d_tasks d)"
  obtain t where t: "?find = Some t" using l2 by (cases ?find) simp_all
  note l3 = l2 [unfolded t, simplified]
  obtain x where x: "exec_get (t_owner t) eid d = Some x"
    using l3 by (cases "exec_get (t_owner t) eid d") simp_all
  note l4 = l3 [unfolded x, simplified]
  have run: "running_execution t x act key target_snapshot parameter_snapshot"
    using l4 by (simp split: if_splits)
  have post: "act = S ''publish_text_post'' \<longrightarrow>
       str_or_empty (dict_key parameter_snapshot ''content_sha256'') \<noteq> []
       \<and> \<not> duplicate_post t x (str_or_empty (dict_key parameter_snapshot ''content_sha256'')) now_search d"
    using l4 by (auto split: if_splits)
  let ?snap = "get_policy_snapshot (t_owner candidate) (or_default (t_target candidate) []) d0 d"
  obtain gate where gate: "dispatch_gate_code E now_gate t (permit_gate t) ?snap d = Inr gate"
    using l4 by (auto simp: and_then_Inr_iff split: if_splits)
  have l5: "(case (gate, ?snap) of (Some code, _) \<Rightarrow> Inr None
      | (None, None) \<Rightarrow> Inl (RuntimeError ''AssertionError'')
      | (None, Some sn) \<Rightarrow>
          and_then (conversation_gate E t now sn d) (\<lambda>ok.
            if \<not> ok then Inr None
            else if \<not> known_zone (or_default (Some (s_timezone (sn_setting sn))) (S ''UTC'')) then Inr None
            else if \<not> within_active_hours (sn_setting sn) (local_minute
                (to_local (zones E (or_default (Some (s_timezone (sn_setting sn))) (S ''UTC''))) now))
            then Inr None
            else (case (sn_account sn, sn_user sn) of
                    (Some account, Some user) \<Rightarrow>
                      Inr (Some \<lparr>dc_task = t_id t, dc_owner = t_owner t, dc_account = t_account t,
                        dc_uid = a_uid account, dc_online_pool = n_online_pool user,
                        dc_policy_version = t_policy_version t,
                        dc_execution_version = t_execution_version t, dc_action = t_action t,
                        dc_key = or_default (t_action_key t) [], dc_execution = x_id x,
                        dc_source = or_default (t_source t) []\<rparr>)
                  | _ \<Rightarrow> Inl (RuntimeError ''AttributeError'')))) = Inr (Some ctx)"
    using l4 run post gate by (simp split: if_splits)
  have none: "gate = None" using l5 by (cases gate) simp_all
  obtain sn where sn: "?snap = Some sn" using l5 none by (cases ?snap) simp_all
  note l6 = l5 [unfolded none sn, simplified]
  have conv: "conversation_gate E t now sn d = Inr True"
    using l6 by (auto simp: and_then_Inr_iff split: if_splits)
  note l7 = l6 [unfolded conv, simplified]
  have active: "within_active_hours (sn_setting sn) (local_minute
      (to_local (zones E (or_default (Some (s_timezone (sn_setting sn))) (S ''UTC''))) now))"
    using l7 by (simp split: if_splits)
  have ctx: "dc_task ctx = t_id t" "dc_owner ctx = t_owner t" "dc_account ctx = t_account t"
    "dc_action ctx = t_action t" "dc_execution ctx = x_id x" "dc_policy_version ctx = t_policy_version t"
    using l7 by (auto split: if_splits option.splits)
  note m = find_SomeD [OF t] find_SomeD [OF c]
  have ids: "candidate \<in> set (d_tasks d0)" "t_id candidate = t_id t" "permitted_task permit act key t"
    "t \<in> set (d_tasks d)" using m by simp_all
  show thesis
    by (rule that [OF ak ids x run post sn gate [unfolded none sn] conv active ctx])
qed

lemma task_owner_constant:
  assumes "task_progress d0 d" "task_table_ok d" "c \<in> set (d_tasks d0)" "t \<in> set (d_tasks d)" "t_id c = t_id t"
  shows "task_change c t"
proof -
  obtain u where u: "u \<in> set (d_tasks d)" "task_change c u"
    using assms(1,3) unfolding task_progress_def by blast
  have "distinct (map t_id (d_tasks d))" using assms(2) by (simp add: task_table_ok_def)
  moreover have "t_id u = t_id t" using task_change_key [OF u(2)] assms(5) by simp
  ultimately have "u = t" using u(1) assms(4) by (blast dest: distinct_map_inject)
  with u(2) show ?thesis by simp
qed

text \<open>C7: Once an owner's agent is off (switched off by the owner, halted, or withdrawn by an administrator
  or by the suspension of the account), no reservation is granted for the owner, and no permit handed out
  earlier survives the check made right before the side effect.\<close>

theorem kill_switch_immediate:
  assumes off: "\<not> agent_switched_on owner d" and table: "task_table_ok d" and later: "task_progress d0 d"
  shows "(\<forall>E permit nid q dec d'. req_owner q = owner
      \<and> sql_begin_dispatch E permit nid d0 q d = Inr (dec, d') \<longrightarrow> dec_code dec \<noteq> ALLOWED)
    \<and> (\<forall>E known_zone clock3 permit action key eid ts ps ctx.
      lock_dispatch_permit E known_zone clock3 permit action key eid ts ps d0 d = Inr (Some ctx)
      \<longrightarrow> dc_owner ctx \<noteq> owner)"
proof
  show "\<forall>E permit nid q dec d'. req_owner q = owner
      \<and> sql_begin_dispatch E permit nid d0 q d = Inr (dec, d') \<longrightarrow> dec_code dec \<noteq> ALLOWED"
  proof (intro allI impI notI, elim conjE)
    fix E permit nid q dec d'
    assume "req_owner q = owner" and res: "sql_begin_dispatch E permit nid d0 q d = Inr (dec, d')"
      and ok: "dec_code dec = ALLOWED"
    from begin_dispatch_allowed [OF res ok] off \<open>req_owner q = owner\<close> show False
      using gate_switched_on by metis
  qed
  show "\<forall>E known_zone clock3 permit action key eid ts ps ctx.
      lock_dispatch_permit E known_zone clock3 permit action key eid ts ps d0 d = Inr (Some ctx)
      \<longrightarrow> dc_owner ctx \<noteq> owner"
  proof (intro allI impI notI)
    fix E known_zone clock3 permit action key eid ts ps ctx
    assume lock: "lock_dispatch_permit E known_zone clock3 permit action key eid ts ps d0 d = Inr (Some ctx)"
      and owner: "dc_owner ctx = owner"
    obtain n1 n2 n3 where clock: "clock3 = (n1, n2, n3)" by (cases clock3)
    show False
    proof (rule lock_permit_cases [OF lock [unfolded clock]])
      fix candidate t x sn act k
      assume c: "candidate \<in> set (d_tasks d0)" "t_id candidate = t_id t" and t: "t \<in> set (d_tasks d)"
        and sn: "get_policy_snapshot (t_owner candidate) (or_default (t_target candidate) []) d0 d = Some sn"
          "dispatch_gate_code E n2 t (permit_gate t) (Some sn) d = Inr None"
        and o': "dc_owner ctx = t_owner t"
      have "t_owner candidate = t_owner t"
        using task_change_key [OF task_owner_constant [OF later table c(1) t c(2)]] by simp
      then show False using gate_switched_on [OF sn] off owner o' by simp
    qed
  qed
qed


section \<open>A concrete agent\<close>

text \<open>An agent that may request text matches, with one leased and one dispatching task.\<close>

definition sample_env :: env where
  "sample_env = plain_env\<lparr>sha256 := \<lambda>_. replicate 64 97\<rparr>"

definition leased_task :: task_row where
  "leased_task = \<lparr>t_id = 1, t_owner = 7, t_account = 3, t_type = REQUEST_MATCH,
     t_action = S ''request_text_match'', t_status = LEASED, t_key = S ''task-0001'', t_action_key = None,
     t_policy_version = 1, t_contact_version = None, t_stage = None, t_execution_version = 1,
     t_runner_version = 1, t_connection = 4, t_fingerprint = replicate 64 97, t_source_id = None,
     t_source = None, t_slot = None, t_target = None, t_instruction = [], t_scheduled_for = None,
     t_model_run = None, t_execution = None, t_error = None, t_result = None, t_budget_day = None,
     t_not_before = None, t_attempts = 1, t_lease_owner = Some (S ''w''), t_lease_token = Some (S ''lease''),
     t_lease_until = Some 100, t_queued_at = 1, t_started_at = Some 2, t_dispatch_at = None,
     t_completed_at = None, t_unknown = False, t_created_at = 1, t_updated_at = 2\<rparr>"

definition dispatching_task :: task_row where
  "dispatching_task = leased_task\<lparr>t_id := 2, t_key := S ''task-0002'', t_status := DISPATCHING,
     t_action_key := Some (S ''action-2''), t_budget_day := Some 0, t_dispatch_at := Some 3,
     t_lease_token := Some (S ''permit''), t_lease_until := None, t_execution := Some 1\<rparr>"

definition running_row :: execution_row where
  "running_row = sample_execution\<lparr>x_action := S ''request_text_match'', x_key := S ''action-2'',
     x_status := X_RUNNING, x_error := None, x_completed_at := None\<rparr>"

definition match_setting :: setting_row where
  "match_setting = (default_setting 1 7 0)\<lparr>s_enabled := True, s_match := True,
     s_actions := [S ''request_text_match'']\<rparr>"

definition agent_office :: agent_db where
  "agent_office = empty_db\<lparr>d_tasks := [leased_task, dispatching_task], d_executions := [running_row],
     d_settings := [match_setting],
     d_usages := [(zero_usage 1 7 0 0)\<lparr>u_total := 1, u_match := 1\<rparr>],
     d_system := Some \<lparr>y_enabled = True, y_account_actions = True, y_autonomous = True\<rparr>,
     d_accounts := [\<lparr>a_id = 3, a_user = 7, a_provider = S ''beibeiwu'', a_uid = S ''70''\<rparr>],
     d_users := [\<lparr>n_id = 7, n_status = ''active'', n_disabled_at = None, n_runner = True,
       n_account_actions = True, n_autonomous = True, n_profile = None, n_online_pool = False\<rparr>],
     d_agents := [\<lparr>g_id = 1, g_owner = 7, g_enabled = True, g_connection = Some 4, g_version = 1,
       g_context_limit = 20, g_instructions = None, g_max_tokens = 500, g_temperature = 700\<rparr>],
     d_exec_settings := [\<lparr>e_id = 1, e_owner = 7, e_enabled = True, e_auto_send = False,
       e_actions = [S ''request_text_match''], e_version = 1, e_updated_at = 0\<rparr>],
     d_connections := [\<lparr>l_id = 4, l_owner = 7, l_enabled = True, l_key_json = S ''key'', l_has_key = True,
       l_test_status = S ''ok'', l_provider = S ''p'', l_base_url = S ''u'', l_model = S ''m''\<rparr>]\<rparr>"

definition match_request :: dispatch_request where
  "match_request = \<lparr>req_task_id = 1, req_owner = 7, req_account = 3, req_lease_token = S ''lease'',
     req_action = S ''request_text_match'', req_key = S ''action-1'', req_policy_version = 1,
     req_execution_version = 1, req_runner_version = 1, req_model_connection = 4,
     req_fingerprint = replicate 64 97, req_source = [], req_target = [], req_budget_day = 0,
     req_total_limit = 20, req_action_limit = 6, req_minimum_interval = 30, req_now = 50\<rparr>"

lemmas office_rows = leased_task_def dispatching_task_def running_row_def sample_execution_def match_setting_def
  default_setting_def zero_usage_def

lemma office_tables:
  "task_table_ok agent_office" "usage_table_ok agent_office" "setting_table_ok agent_office"
  "execution_table_ok agent_office"
proof -
  have "task_inv leased_task" "task_inv dispatching_task"
    by (simp_all add: task_inv_iff task_static_def task_life_def leased_task_def dispatching_task_def)
  then show "task_table_ok agent_office"
    by (simp add: task_table_ok_def agent_office_def empty_db_def) (simp add: leased_task_def dispatching_task_def)
  show "usage_table_ok agent_office"
    by (simp add: usage_table_ok_def agent_office_def empty_db_def usage_constraints_def zero_usage_def)
  have "setting_constraints match_setting"
    using default_setting_constraints [of 1 7 0]
    by (simp add: setting_constraints_def match_setting_def default_setting_def
        SUPPORTED_ACCOUNT_ACTION_TYPES_def)
  then show "setting_table_ok agent_office"
    by (simp add: setting_table_ok_def agent_office_def empty_db_def)
  have "execution_constraints running_row"
    by (simp add: execution_constraints_def running_row_def sample_execution_def
        SUPPORTED_ACCOUNT_ACTION_TYPES_def SUPPORTED_ACTION_APPROVAL_SOURCES_def
        SUPPORTED_ACTION_TRIGGER_SOURCES_def)
  then show "execution_table_ok agent_office"
    by (simp add: execution_table_ok_def agent_office_def empty_db_def)
qed

lemma office_gate:
  "get_policy_snapshot 7 [] agent_office agent_office = Some
     \<lparr>sn_setting = match_setting, sn_system = d_system agent_office,
      sn_user = Some (hd (d_users agent_office)), sn_account = Some (hd (d_accounts agent_office)),
      sn_agent = Some (hd (d_agents agent_office)), sn_execution = Some (hd (d_exec_settings agent_office)),
      sn_connection = Some (hd (d_connections agent_office)), sn_preference = None, sn_contact = None,
      sn_target_account = None, sn_mapping_current = True\<rparr>"
  by (simp add: get_policy_snapshot_def Let_def agent_office_def empty_db_def locked_row_def
      setting_get_def exec_setting_get_def match_setting_def default_setting_def)

lemma office_open:
  assumes "gq_account q = 3" "gq_policy_version q = 1" "gq_execution_version q = 1" "gq_runner_version q = 1"
    "gq_connection q = 4" "gq_fingerprint q = replicate 64 97" "gq_action q = S ''request_text_match''"
    "gq_target q = []" and t: "t = leased_task \<or> t = dispatching_task"
  shows "dispatch_gate_code sample_env now t q (get_policy_snapshot 7 [] agent_office agent_office) agent_office
    = Inr None"
proof -
  have f: "runner_configuration_fingerprint sample_env g l = replicate 64 97" for g l
    by (simp add: runner_configuration_fingerprint_def sample_env_def)
  have ty: "t_type t = REQUEST_MATCH" "t_action t = S ''request_text_match''" "t_account t = 3"
    "t_policy_version t = 1" "t_execution_version t = 1" "t_runner_version t = 1" "t_connection t = 4"
    "t_fingerprint t = replicate 64 97"
    using t by (auto simp: leased_task_def dispatching_task_def)
  have s: "s_version match_setting = 1" "s_halted_at match_setting = None" "s_failures match_setting = 0"
    "s_failure_limit match_setting = 3" "s_actions match_setting = [S ''request_text_match'']"
    "s_match match_setting" "s_enabled match_setting"
    by (simp_all add: match_setting_def default_setting_def)
  show ?thesis
    unfolding office_gate dispatch_gate_code_def option.case Let_def
    by (simp add: access_granted_def bound_to_request_def assms(1-8) ty s f agent_office_def empty_db_def
        contact_reply_gate_def candidate_gate_def AUTONOMY_DYNAMIC_CANDIDATE_TASKS_def
       )
qed

lemma office_reserves:
  "\<exists>d'. sql_begin_dispatch sample_env (S ''new'') 2 agent_office match_request agent_office
     = Inr (\<lparr>dec_code = ALLOWED, permit_token = S ''new'', dec_retry_at = None\<rparr>, d')"
proof -
  have g: "dispatch_gate_code sample_env 50 leased_task (reservation_gate match_request)
      (get_policy_snapshot 7 [] agent_office agent_office) agent_office = Inr None"
    by (rule office_open) (simp_all add: reservation_gate_def match_request_def)
  have f: "find (\<lambda>t. t_id t = 1 \<and> t_owner t = 7) (d_tasks agent_office) = Some leased_task"
    by (simp add: agent_office_def empty_db_def leased_task_def)
  have h: "holds_lease leased_task (S ''lease'') 50" by (simp add: holds_lease_def leased_task_def)
  have c: "row_category leased_task = Cat_match"
    by (simp add: row_category_def usage_category_def leased_task_def S_def py_strip_def py_space_def)
  have r: "req_task_id match_request = 1" "req_owner match_request = 7" "req_target match_request = []"
    "req_lease_token match_request = S ''lease''" "req_now match_request = 50" "req_source match_request = []"
    "req_budget_day match_request = 0" "req_total_limit match_request = 20"
    "req_action_limit match_request = 6" "req_minimum_interval match_request = 30"
    by (simp_all add: match_request_def)
  have u: "usage_get_or_create 2 50 7 0 agent_office
      = ((zero_usage 1 7 0 0)\<lparr>u_total := 1, u_match := 1\<rparr>, agent_office)"
    by (simp add: usage_get_or_create_def usage_get_def agent_office_def empty_db_def zero_usage_def)
  have s: "s_last_action match_setting = None" by (simp add: match_setting_def default_setting_def)
  have z: "usage_field Cat_match ((zero_usage 1 7 0 0)\<lparr>u_total := 1, u_match := 1\<rparr>) = 1"
    "u_total ((zero_usage 1 7 0 0)\<lparr>u_total := 1, u_match := 1\<rparr>) = 1"
    "u_last_action ((zero_usage 1 7 0 0)\<lparr>u_total := 1, u_match := 1\<rparr>) = None"
    by (simp_all add: zero_usage_def)
  show ?thesis
    unfolding sql_begin_dispatch_def Let_def r f option.case if_not_P [OF iffD2 [OF not_not h]] g
    by (simp add: office_gate reserve_budget_def Let_def r u [unfolded One_nat_def] s c
        z [unfolded One_nat_def] post_init_decision_def)
qed

theorem reservation_counted_once_witness:
  "\<exists>d'. sql_begin_dispatch sample_env (S ''new'') 2 agent_office match_request agent_office
      = Inr (\<lparr>dec_code = ALLOWED, permit_token = S ''new'', dec_retry_at = None\<rparr>, d')
    \<and> used_total 7 0 d' = 2"
proof -
  obtain d' where d': "sql_begin_dispatch sample_env (S ''new'') 2 agent_office match_request agent_office
     = Inr (\<lparr>dec_code = ALLOWED, permit_token = S ''new'', dec_retry_at = None\<rparr>, d')"
    using office_reserves by blast
  have "2 \<notin> u_id ` set (d_usages agent_office)" by (simp add: agent_office_def empty_db_def zero_usage_def)
  moreover have "used_total 7 0 agent_office = 1"
    by (simp add: used_total_def usage_get_def agent_office_def empty_db_def zero_usage_def)
  moreover have "req_owner match_request = 7" "req_budget_day match_request = 0"
    by (simp_all add: match_request_def)
  ultimately have "used_total 7 0 d' = 2"
    using reservation_counted_once [OF office_tables(1-3) _ d'] by auto
  with d' show ?thesis by blast
qed

lemma office_permit:
  "\<exists>ctx. lock_dispatch_permit sample_env (\<lambda>_. True) (50, 50, 50) (S ''permit'') (S ''request_text_match'')
      (S ''action-2'') 1 [] [] agent_office agent_office = Inr (Some ctx) \<and> dc_task ctx = 2 \<and> dc_owner ctx = 7"
proof -
  have a: "row_action (S ''request_text_match'') = Inr (S ''request_text_match'')"
    by (simp add: row_action_def S_def py_strip_def py_space_def SUPPORTED_ACCOUNT_ACTION_TYPES_def)
  have k: "row_key (S ''action-2'') = Inr (S ''action-2'')"
    by (simp add: row_key_def S_def py_strip_def py_space_def Let_def)
  let ?perm = "permitted_task (S ''permit'') (S ''request_text_match'') (S ''action-2'')"
  have p: "\<not> ?perm leased_task" "?perm dispatching_task"
    by (simp_all add: permitted_task_def dispatching_task_def leased_task_def)
  have f: "find ?perm (d_tasks agent_office) = Some dispatching_task"
    "find (\<lambda>t. t_id t = t_id dispatching_task \<and> ?perm t) (d_tasks agent_office) = Some dispatching_task"
    by (simp_all add: agent_office_def empty_db_def p)
  have t: "t_owner dispatching_task = 7" "or_default (t_target dispatching_task) [] = []"
    by (simp_all add: dispatching_task_def leased_task_def)
  have x: "exec_get 7 1 agent_office = Some running_row"
    by (simp add: exec_get_def agent_office_def empty_db_def running_row_def sample_execution_def)
  have r: "running_execution dispatching_task running_row (S ''request_text_match'') (S ''action-2'') [] []"
    by (simp add: running_execution_def same_execution_def dict_same_def running_row_def sample_execution_def
        dispatching_task_def leased_task_def)
  have g: "dispatch_gate_code sample_env 50 dispatching_task (permit_gate dispatching_task)
      (get_policy_snapshot 7 [] agent_office agent_office) agent_office = Inr None"
    by (rule office_open) (simp_all add: permit_gate_def dispatching_task_def leased_task_def)
  have c: "conversation_gate sample_env dispatching_task 50 sn agent_office = Inr True" for sn
    by (simp add: conversation_gate_def dispatching_task_def leased_task_def)
  have h: "within_active_hours match_setting m" for m
    by (simp add: within_active_hours_def match_setting_def default_setting_def)
  show ?thesis
    unfolding lock_dispatch_permit_def prod.case a k and_then_simps f option.case Let_def t x
    using r by (simp add: g [unfolded office_gate] office_gate c h)
      (simp add: agent_office_def empty_db_def dispatching_task_def leased_task_def)
qed


text \<open>Switching the agent of the same office off.\<close>

theorem kill_switch_immediate_witness:
  "\<exists>d. disable_for_owner 60 7 (S ''owner_off'') None agent_office = Inr (True, d)
    \<and> (\<forall>dec d'. sql_begin_dispatch sample_env (S ''new'') 2 d match_request d = Inr (dec, d')
        \<longrightarrow> dec_code dec \<noteq> ALLOWED)"
proof -
  have code: "row_error_code (S ''owner_off'') (S ''autonomy_disabled'') = Inr (S ''owner_off'')"
    by (simp add: row_error_code_def S_def py_strip_def py_space_def py_lower_def lower_cp_def code_char_def)
  let ?row = "disabled_setting 60 (S ''owner_off'') 2 match_setting"
  let ?d = "put_setting ?row agent_office"
  have dis: "disable_for_owner 60 7 (S ''owner_off'') None agent_office = Inr (True, ?d)"
    using code
    by (simp add: disable_for_owner_def setting_get_def agent_office_def empty_db_def any_feature_def
        match_setting_def default_setting_def)
  have off: "\<not> agent_switched_on 7 ?d"
    by (simp add: agent_switched_on_def setting_get_def put_setting_def agent_office_def empty_db_def
        disabled_setting_def match_setting_def default_setting_def)
  have table: "task_table_ok ?d"
    using office_tables(1) task_table_frame(1) [of ?d agent_office] by (simp add: put_setting_def)
  have "req_owner match_request = 7" by (simp add: match_request_def)
  then have "dec_code dec \<noteq> ALLOWED"
    if "sql_begin_dispatch sample_env (S ''new'') 2 ?d match_request ?d = Inr (dec, d')" for dec d'
    using kill_switch_immediate [OF off table task_progress_refl, THEN conjunct1, rule_format] that by metis
  with dis show ?thesis by metis
qed

end
