(* ===== verification/Task_Finish.thy ===== *)
theory Task_Finish
  imports Dispatch_Properties
begin

text \<open>
  The end of a task: \<^verbatim>\<open>finish_task\<close> and \<^verbatim>\<open>mark_expired_dispatching_unknown\<close> of
  \<^verbatim>\<open>AgentAutonomyTaskRepository\<close>.  Both reconcile the verdict on the task with the audit row of
  its action, close the task, count failures and halts in the setting and settle the budget of the day.

  A \<open>verdict\<close> holds the local variables the code rewrites while it reconciles.  The repository of
  executions reads the clock itself; \<open>now_x\<close> is its reading.
\<close>

section \<open>Verdicts\<close>

record verdict =
  vd_status :: task_status
  vd_code :: pystr
  vd_result :: pystr
  vd_unknown :: bool
  vd_count :: bool
  vd_reset :: bool
  vd_halt :: bool

text \<open>Something that must not be: a person has to look at it, and the agent stops.\<close>

definition review :: "pystr \<Rightarrow> verdict" where
  "review code = \<lparr>vd_status = MANUAL_REVIEW, vd_code = code, vd_result = [], vd_unknown = True,
     vd_count = True, vd_reset = False, vd_halt = True\<rparr>"

definition requested_verdict :: "task_completion \<Rightarrow> py_error + verdict" where
  "requested_verdict c =
     (if comp_status c \<notin> AUTONOMY_TERMINAL_STATUSES
      then Inl (ValueError ''invalid autonomous terminal status'')
      else and_then (if comp_status c \<noteq> SUCCEEDED
                     then row_error_code (comp_error_code c) (S ''autonomy_task_failed'') else Inr []) (\<lambda>code.
        Inr \<lparr>vd_status = comp_status c, vd_code = code, vd_result = take 256 (comp_result_id c),
             vd_unknown = outcome_unknown c, vd_count = count_failure c \<or> outcome_unknown c,
             vd_reset = reset_failures c, vd_halt = force_halt c\<rparr>))"

definition LOCAL_SOURCE_STALE :: pystr where
  "LOCAL_SOURCE_STALE = S ''local_message_source_stale''"

text \<open>\<^verbatim>\<open>str(row.stable_error_code or fallback)[:64]\<close>.\<close>

definition execution_error :: "execution_row \<Rightarrow> pystr \<Rightarrow> pystr" where
  "execution_error x fallback = take 64 (or_default (x_error x) fallback)"

text \<open>The audit row belongs to the task.\<close>

definition execution_bound :: "task_row \<Rightarrow> execution_row \<Rightarrow> bool" where
  "execution_bound t x \<longleftrightarrow>
     x_account x = t_account t \<and> x_action x = t_action t \<and> t_action_key t = Some (x_key x)
     \<and> x_setting_version x = t_execution_version t"

text \<open>The verdict a closed audit row dictates.\<close>

definition audit_verdict :: "execution_row \<Rightarrow> verdict" where
  "audit_verdict x =
     (case x_status x of
        X_SUCCEEDED \<Rightarrow> \<lparr>vd_status = SUCCEEDED, vd_code = [], vd_result = take 256 (or_default (x_result x) []),
          vd_unknown = False, vd_count = False, vd_reset = True, vd_halt = False\<rparr>
      | X_FAILED \<Rightarrow>
          (let err = execution_error x (S ''account_action_failed'');
               status = (if err = LOCAL_SOURCE_STALE then STALE else FAILED) in
           \<lparr>vd_status = status, vd_code = err, vd_result = [], vd_unknown = False,
            vd_count = (status = FAILED), vd_reset = False, vd_halt = False\<rparr>)
      | X_MANUAL_REVIEW \<Rightarrow> review (execution_error x (S ''account_action_outcome_unknown''))
      | _ \<Rightarrow> review (S ''execution_audit_state_mismatch''))"

text \<open>A task that was dispatching but never prepared its execution has done nothing (lines 3758 to 3771).\<close>

definition unprepared_verdict :: "verdict \<Rightarrow> verdict" where
  "unprepared_verdict v =
     \<lparr>vd_status = FAILED,
      vd_code = (if vd_status v \<in> {FAILED, CANCELLED, STALE} \<and> \<not> vd_unknown v \<and> vd_code v \<noteq> []
                 then vd_code v else S ''action_execution_not_prepared''),
      vd_result = [], vd_unknown = False, vd_count = True, vd_reset = False, vd_halt = False\<rparr>"

text \<open>An execution still queued is cancelled (lines 3783 to 3819).\<close>

definition settle_queued ::
  "instant \<Rightarrow> task_row \<Rightarrow> execution_row \<Rightarrow> verdict \<Rightarrow> agent_db \<Rightarrow> py_error + verdict \<times> agent_db" where
  "settle_queued now_x t x v d =
     and_then (exec_cancel_queued now_x (t_owner t) (x_id x)
         (if \<not> vd_unknown v \<and> vd_code v \<noteq> [] then vd_code v else S ''action_execution_not_started'') d)
       (\<lambda>(cancelled, d'). Inr
         (case cancelled of
            None \<Rightarrow> review (S ''execution_audit_sync_failed'')
          | Some y \<Rightarrow>
              if vd_status v = SUCCEEDED \<or> vd_unknown v
              then review (S ''execution_audit_state_mismatch'')
              else \<lparr>vd_status = CANCELLED, vd_code = execution_error y (S ''action_execution_not_started''),
                    vd_result = [], vd_unknown = False, vd_count = False, vd_reset = False, vd_halt = False\<rparr>,
          d'))"

text \<open>A running execution is closed the way the verdict says, and the audit row decides (lines 3820 to 3914).\<close>

definition synchronize ::
  "instant \<Rightarrow> task_row \<Rightarrow> execution_row \<Rightarrow> verdict \<Rightarrow> agent_db \<Rightarrow>
     py_error + execution_row option \<times> agent_db" where
  "synchronize now_x t x v =
     (if vd_status v = SUCCEEDED
      then (\<lambda>d. Inr (exec_succeed now_x (t_owner t) (x_id x) (none_if_empty (vd_result v)) d))
      else if vd_status v = MANUAL_REVIEW \<and> vd_unknown v
      then exec_mark_unknown now_x (t_owner t) (x_id x) (vd_code v)
      else if vd_status v = FAILED \<and> \<not> vd_unknown v
      then exec_fail now_x (t_owner t) (x_id x) (vd_code v)
      else if vd_status v = STALE \<and> \<not> vd_unknown v \<and> vd_code v = LOCAL_SOURCE_STALE
      then exec_fail now_x (t_owner t) (x_id x) (vd_code v)
      else exec_mark_unknown now_x (t_owner t) (x_id x) (S ''execution_audit_state_mismatch''))"

definition settle_running ::
  "instant \<Rightarrow> task_row \<Rightarrow> execution_row \<Rightarrow> verdict \<Rightarrow> agent_db \<Rightarrow> py_error + verdict \<times> agent_db" where
  "settle_running now_x t x v d =
     and_then (synchronize now_x t x v d) (\<lambda>(synchronized, d'). Inr
       (case synchronized of None \<Rightarrow> review (S ''execution_audit_sync_failed'') | Some y \<Rightarrow> audit_verdict y, d'))"

text \<open>An execution that is already closed must agree with the verdict (lines 3915 to 3988).\<close>

fun expected_execution_status :: "task_status \<Rightarrow> execution_status option" where
  "expected_execution_status SUCCEEDED = Some X_SUCCEEDED"
| "expected_execution_status FAILED = Some X_FAILED"
| "expected_execution_status STALE = Some X_FAILED"
| "expected_execution_status CANCELLED = Some X_CANCELLED"
| "expected_execution_status MANUAL_REVIEW = Some X_MANUAL_REVIEW"
| "expected_execution_status _ = None"

definition settle_closed :: "execution_row \<Rightarrow> verdict \<Rightarrow> verdict" where
  "settle_closed x v =
     (if expected_execution_status (vd_status v) \<noteq> Some (x_status x)
      then review (S ''execution_audit_state_mismatch'')
      else if x_status x = X_FAILED \<and> vd_status v = STALE
         \<and> execution_error x (S ''account_action_failed'') \<noteq> LOCAL_SOURCE_STALE
      then review (S ''execution_audit_state_mismatch'')
      else if x_status x = X_CANCELLED
      then v\<lparr>vd_code := execution_error x (S ''account_action_cancelled''), vd_result := [],
             vd_unknown := False, vd_count := False, vd_reset := False, vd_halt := False\<rparr>
      else audit_verdict x)"

definition settle ::
  "instant \<Rightarrow> task_row \<Rightarrow> verdict \<Rightarrow> agent_db \<Rightarrow> py_error + verdict \<times> agent_db" where
  "settle now_x t v d =
     (case t_execution t of
        None \<Rightarrow> Inr (if t_status t = DISPATCHING then unprepared_verdict v else v, d)
      | Some eid \<Rightarrow>
          (case exec_get (t_owner t) eid d of
             None \<Rightarrow> Inr (review (S ''execution_audit_mismatch''), d)
           | Some x \<Rightarrow>
               if \<not> execution_bound t x then Inr (review (S ''execution_audit_mismatch''), d)
               else if x_status x = X_QUEUED then settle_queued now_x t x v d
               else if x_status x = X_RUNNING then settle_running now_x t x v d
               else Inr (settle_closed x v, d)))"

section \<open>Closing the task\<close>

definition finished_row :: "verdict \<Rightarrow> instant \<Rightarrow> task_row \<Rightarrow> task_row" where
  "finished_row v now t =
     t\<lparr>t_status := vd_status v, t_error := none_if_empty (vd_code v), t_result := none_if_empty (vd_result v),
       t_unknown := vd_unknown v, t_completed_at := Some now, t_lease_owner := None, t_lease_token := None,
       t_lease_until := None, t_updated_at := now\<rparr>"

text \<open>\<^verbatim>\<open>_record_success_state\<close>: the timestamps in the setting, and the mark on the candidate.\<close>

definition success_setting :: "task_row \<Rightarrow> instant \<Rightarrow> setting_row \<Rightarrow> setting_row" where
  "success_setting t now s =
     (let s1 = (if t_action t = S ''publish_text_post'' then s\<lparr>s_last_post := Some now\<rparr> else s) in
      case t_type t of
        BROWSE_ONLINE \<Rightarrow> s1\<lparr>s_last_discovery := Some now\<rparr>
      | REQUEST_MATCH \<Rightarrow> s1\<lparr>s_last_match := Some now\<rparr>
      | PROACTIVE_MESSAGE \<Rightarrow> s1\<lparr>s_last_outreach := Some now\<rparr>
      | _ \<Rightarrow> s1)"

definition success_candidate :: "task_row \<Rightarrow> instant \<Rightarrow> agent_db \<Rightarrow> py_error + agent_db" where
  "success_candidate t now d =
     (if t_type t \<in> AUTONOMY_DYNAMIC_CANDIDATE_TASKS \<and> py_strip (or_default (t_target t) []) \<noteq> []
      then and_then (mark_interaction (t_owner t) (or_default (t_target t) []) (t_action t) now d)
             (\<lambda>(_, d'). Inr d')
      else Inr d)"

text \<open>The setting after the task (lines 4006 to 4028); \<open>retry_at\<close> is set only when the task may be
  retried, and \<open>reason\<close> stands in for an empty error code.\<close>

definition finished_setting ::
  "verdict \<Rightarrow> bool \<Rightarrow> instant option \<Rightarrow> pystr \<Rightarrow> instant \<Rightarrow> task_row \<Rightarrow> setting_row \<Rightarrow> setting_row" where
  "finished_setting v retry retry_at reason now t s =
     (let s1 = s\<lparr>s_last_run := Some now\<rparr>;
          s2 = (if vd_reset v then s1\<lparr>s_failures := 0\<rparr> else s1);
          s3 = (if vd_status v = SUCCEEDED then success_setting t now s2 else s2);
          s4 = (if vd_count v \<and> \<not> retry then s3\<lparr>s_failures := s_failures s3 + 1\<rparr> else s3);
          s5 = (if vd_halt v \<or> \<not> retry \<and> s_failures s4 \<ge> s_failure_limit s4
                then s4\<lparr>s_halted_at := Some now,
                        s_halted_reason := Some (or_default (none_if_empty (vd_code v)) reason),
                        s_next_run := None\<rparr>
                else if some_and retry_at (\<lambda>r. case s_next_run s4 of None \<Rightarrow> True | Some n \<Rightarrow> n < r)
                then s4\<lparr>s_next_run := retry_at\<rparr> else s4) in
      s5\<lparr>s_updated_at := now\<rparr>)"

text \<open>The counters of the day the action was reserved on (lines 4029 to 4055).\<close>

definition count_outcome :: "verdict \<Rightarrow> instant \<Rightarrow> usage_row \<Rightarrow> usage_row" where
  "count_outcome v now u =
     u\<lparr>u_failed := u_failed u + (if vd_count v then 1 else 0),
       u_unknown := u_unknown u + (if vd_unknown v then 1 else 0), u_updated_at := now\<rparr>"

definition settle_budget ::
  "verdict \<Rightarrow> bool \<Rightarrow> instant \<Rightarrow> task_row \<Rightarrow> agent_db \<Rightarrow> py_error + agent_db" where
  "settle_budget v refund now t d =
     (if (t_dispatch_at t = None) \<noteq> (t_budget_day t = None)
      then Inl (RuntimeError ''autonomous dispatch timestamp and reserved budget day disagree'')
      else case t_budget_day t of
        None \<Rightarrow> Inr d
      | Some day \<Rightarrow>
          (case usage_get (t_owner t) day d of
             None \<Rightarrow> Inl (RuntimeError ''reserved autonomous daily usage row is missing'')
           | Some u \<Rightarrow>
               and_then (if refund then refund_usage (task_type_value (t_type t)) (t_action t) u else Inr u)
                 (\<lambda>u'. Inr (put_usage (count_outcome v now u') d))))"

definition finish_setting ::
  "verdict \<Rightarrow> bool \<Rightarrow> instant option \<Rightarrow> pystr \<Rightarrow> instant \<Rightarrow> task_row \<Rightarrow> setting_row option \<Rightarrow> agent_db \<Rightarrow>
     py_error + agent_db" where
  "finish_setting v retry retry_at reason now t setting d =
     (case setting of
        None \<Rightarrow> Inr d
      | Some s \<Rightarrow>
          and_then (if vd_status v = SUCCEEDED then success_candidate t now d else Inr d) (\<lambda>d'.
            Inr (put_setting (finished_setting v retry retry_at reason now t s) d')))"

definition unfinished :: "uuid \<Rightarrow> pystr \<Rightarrow> task_row \<Rightarrow> bool" where
  "unfinished tid token t \<longleftrightarrow>
     t_id t = tid \<and> t_lease_token t = Some token \<and> t_status t \<notin> AUTONOMY_TERMINAL_STATUSES"

definition sql_finish_task ::
  "instant \<Rightarrow> uuid \<Rightarrow> pystr \<Rightarrow> task_completion \<Rightarrow> instant \<Rightarrow> agent_db \<Rightarrow> agent_db \<Rightarrow>
     py_error + bool \<times> agent_db" where
  "sql_finish_task now_x tid token c now d0 d =
     and_then (requested_verdict c) (\<lambda>requested.
       case find (unfinished tid token) (d_tasks d0) of
         None \<Rightarrow> Inr (False, d)
       | Some candidate \<Rightarrow>
           let setting = setting_get (t_owner candidate) d in
           (case find (unfinished tid token) (d_tasks d) of
              None \<Rightarrow> Inr (False, d)
            | Some t \<Rightarrow>
                and_then (settle now_x t requested d) (\<lambda>(v, d1).
                  let retry = (retryable c \<and> vd_status v = FAILED \<and> \<not> vd_unknown v
                               \<and> vd_code v = vd_code requested);
                      refund = (refund_budget c \<and> retry);
                      retry_at = (if retry then comp_retry_at c else None) in
                  and_then (finish_setting v retry retry_at (S ''autonomy_halted'') now t setting
                      (put_task (finished_row v now t) d1)) (\<lambda>d2.
                  and_then (settle_budget v refund now t d2) (\<lambda>d3.
                    if \<not> task_constraints (finished_row v now t)
                    then Inl (IntegrityError ''ai_agent_autonomy_tasks'')
                    else Inr (True, d3))))))"

section \<open>Dispatches whose worker was lost\<close>

text \<open>The verdict on a dispatching task whose worker did not come back (lines 4178 to 4286); a queued
  execution is cancelled and a running one marked as unknown on the way.\<close>

definition lost_verdict ::
  "instant \<Rightarrow> pystr \<Rightarrow> task_row \<Rightarrow> agent_db \<Rightarrow> py_error + verdict \<times> agent_db" where
  "lost_verdict now_x code t d =
     (case t_execution t of
        None \<Rightarrow> Inr (\<lparr>vd_status = FAILED, vd_code = S ''worker_lost_before_action_prepare'', vd_result = [],
                     vd_unknown = False, vd_count = True, vd_reset = False, vd_halt = False\<rparr>, d)
      | Some eid \<Rightarrow>
          (case exec_get (t_owner t) eid d of
             None \<Rightarrow> Inr (review (S ''execution_audit_mismatch''), d)
           | Some x \<Rightarrow>
               if \<not> execution_bound t x then Inr (review (S ''execution_audit_mismatch''), d)
               else (case x_status x of
                 X_QUEUED \<Rightarrow>
                   and_then (exec_cancel_queued now_x (t_owner t) (x_id x)
                       (S ''worker_lost_before_action_start'') d) (\<lambda>(cancelled, d').
                     case cancelled of
                       None \<Rightarrow> Inl (RuntimeError ''expired queued autonomous execution was not cancelled'')
                     | Some y \<Rightarrow> Inr (\<lparr>vd_status = CANCELLED,
                         vd_code = execution_error y (S ''account_action_cancelled''), vd_result = [],
                         vd_unknown = False, vd_count = False, vd_reset = False, vd_halt = False\<rparr>, d'))
               | X_RUNNING \<Rightarrow>
                   and_then (exec_mark_unknown now_x (t_owner t) (x_id x) code d) (\<lambda>(marked, d').
                     if marked = None
                     then Inl (RuntimeError ''expired autonomous execution audit was not updated'')
                     else Inr (review code, d'))
               | X_CANCELLED \<Rightarrow>
                   Inr (\<lparr>vd_status = CANCELLED, vd_code = execution_error x (S ''account_action_cancelled''),
                        vd_result = [], vd_unknown = False, vd_count = False, vd_reset = False,
                        vd_halt = False\<rparr>, d)
               | _ \<Rightarrow> Inr (audit_verdict x, d))))"

definition expire_task ::
  "instant \<Rightarrow> instant \<Rightarrow> pystr \<Rightarrow> task_row \<Rightarrow> setting_row option \<Rightarrow> agent_db \<Rightarrow> py_error + agent_db" where
  "expire_task now_x now code t setting d =
     and_then (lost_verdict now_x code t d) (\<lambda>(v, d1).
     and_then (finish_setting v False None code now t setting (put_task (finished_row v now t) d1)) (\<lambda>d2.
       if t_budget_day t = None
       then Inl (RuntimeError ''expired dispatched task is missing its reserved budget day'')
       else settle_budget v False now t d2))"

definition expired :: "instant \<Rightarrow> task_row \<Rightarrow> bool" where
  "expired before t \<longleftrightarrow> t_status t = DISPATCHING \<and> some_and (t_dispatch_at t) (\<lambda>s. s < before)"

fun expire_loop ::
  "(uuid \<Rightarrow> bool) \<Rightarrow> instant \<Rightarrow> instant \<Rightarrow> instant \<Rightarrow> pystr \<Rightarrow> (uuid \<times> uuid) list \<Rightarrow> nat \<Rightarrow> agent_db \<Rightarrow>
     py_error + nat \<times> agent_db" where
  "expire_loop locked now_x now before code [] changed d = Inr (changed, d)"
| "expire_loop locked now_x now before code ((tid, owner) # rest) changed d =
     (let setting = setting_get owner d in
      case find (\<lambda>t. t_id t = tid \<and> expired before t \<and> \<not> locked (t_id t)) (d_tasks d) of
        None \<Rightarrow> expire_loop locked now_x now before code rest changed d
      | Some t \<Rightarrow>
          and_then (expire_task now_x now code t setting d) (\<lambda>d'.
            expire_loop locked now_x now before code rest (changed + 1) d'))"

definition mark_expired_dispatching_unknown ::
  "(uuid \<Rightarrow> bool) \<Rightarrow> instant \<Rightarrow> instant \<Rightarrow> instant \<Rightarrow> pystr \<Rightarrow> agent_db \<Rightarrow> py_error + nat \<times> agent_db" where
  "mark_expired_dispatching_unknown locked now_x now before stable_error_code d =
     (let candidates = take 100 (map (\<lambda>t. (t_id t, t_owner t)) (filter (expired before) (d_tasks d))) in
      and_then (row_error_code stable_error_code (S ''worker_lost'')) (\<lambda>code.
        expire_loop locked now_x now before code candidates 0 d))"

end
