(* ===== verification/Finish_Properties.thy ===== *)
theory Finish_Properties
  imports Task_Finish
begin

text \<open>
  What closing a task guarantees: the task and its audit row end in states that agree, an unknown
  outcome halts the agent, and the verdicts are consistent whatever the audit row says.
\<close>

section \<open>Consistent verdicts\<close>

definition verdict_ok :: "verdict \<Rightarrow> bool" where
  "verdict_ok v \<longleftrightarrow>
     vd_status v \<in> AUTONOMY_TERMINAL_STATUSES
     \<and> (vd_unknown v \<longleftrightarrow> vd_status v = MANUAL_REVIEW)
     \<and> (vd_unknown v \<longrightarrow> vd_count v \<and> vd_halt v)
     \<and> (vd_status v = SUCCEEDED \<longrightarrow> \<not> vd_count v \<and> \<not> vd_halt v)"

lemma in_terminal [simp]:
  "s \<in> AUTONOMY_TERMINAL_STATUSES
     \<longleftrightarrow> s = SUCCEEDED \<or> s = FAILED \<or> s = CANCELLED \<or> s = STALE \<or> s = MANUAL_REVIEW"
  by (auto simp: status_sets)

lemma review_ok [simp]: "verdict_ok (review code)"
  by (simp add: verdict_ok_def review_def)

lemma audit_verdict_ok [simp]: "verdict_ok (audit_verdict x)"
  by (simp add: verdict_ok_def audit_verdict_def review_def Let_def split: execution_status.split)

lemma unprepared_verdict_ok [simp]: "verdict_ok (unprepared_verdict v)"
  by (simp add: verdict_ok_def unprepared_verdict_def)

text \<open>A stable code is accepted as it is by the repository's own normaliser.\<close>

lemma code_char_lower: "code_char c \<Longrightarrow> \<exists>c'. lower_cp c = [c'] \<and> code_char c'"
  by (auto simp: code_char_def lower_cp_def)

lemma code_char_no_space: "code_char c \<Longrightarrow> \<not> py_space c"
  by (auto simp: code_char_def py_space_def)

definition plain_code :: "pystr \<Rightarrow> bool" where
  "plain_code c \<longleftrightarrow> c \<noteq> [] \<and> length c \<le> 64 \<and> (\<forall>x \<in> set c. code_char x)"

lemma plain_strip:
  assumes "\<forall>x \<in> set c. \<not> py_space x"
  shows "py_strip c = c"
proof -
  have dw: "dropWhile py_space xs = xs" if "\<forall>x \<in> set xs. \<not> py_space x" for xs
    using that by (cases xs) auto
  from dw [of c] dw [of "rev c"] assms show ?thesis by (simp add: py_strip_def)
qed

lemma row_error_code_plain:
  assumes "plain_code c"
  shows "\<exists>c'. row_error_code c f = Inr c' \<and> plain_code c'"
proof -
  have "length (py_lower c) = length c \<and> (\<forall>x \<in> set (py_lower c). code_char x)"
    if "\<forall>x \<in> set c. code_char x" for c
    using that
  proof (induction c)
    case (Cons a c)
    then obtain a' where "lower_cp a = [a']" "code_char a'" using code_char_lower [of a] by auto
    with Cons show ?case by (simp add: py_lower_def)
  qed (simp add: py_lower_def)
  then have l: "length (py_lower c) = length c" "\<forall>x \<in> set (py_lower c). code_char x"
    using assms by (auto simp: plain_code_def)
  have "py_strip c = c"
    using assms code_char_no_space by (intro plain_strip) (auto simp: plain_code_def)
  then show ?thesis
    using assms l by (auto simp: row_error_code_def Let_def plain_code_def)
qed

lemma stable_plain: "stable_code c \<Longrightarrow> plain_code c"
  by (auto simp: stable_code_def plain_code_def code_char_def low_alnum_def split: list.splits)

definition verdict_codes :: "verdict \<Rightarrow> bool" where
  "verdict_codes v \<longleftrightarrow> (if vd_status v = SUCCEEDED then vd_code v = [] else plain_code (vd_code v))"

lemma requested_verdict_ok:
  assumes "post_init_completion c0 = Inr c"
  obtains v where "requested_verdict c = Inr v" "verdict_ok v"
    "vd_status v = comp_status c" "verdict_codes v"
proof -
  note p = post_init_completion_cases [OF completion_idem [OF assms]]
  have code0: "comp_error_code c = py_lower (py_strip (comp_error_code c))"
    using p(11) by (metis task_completion.select_convs(2) task_completion.surjective task_completion.update_convs(2,3))
  have c: "comp_status c \<in> TERMINAL_TASK_STATUSES" "outcome_unknown c \<longleftrightarrow> comp_status c = MANUAL_REVIEW"
    "comp_status c \<noteq> SUCCEEDED \<Longrightarrow> stable_code (comp_error_code c)"
    "outcome_unknown c \<Longrightarrow> count_failure c \<and> force_halt c"
    "comp_status c = SUCCEEDED \<Longrightarrow> \<not> count_failure c \<and> \<not> force_halt c"
    using p(1-6) code0 by metis+
  have t: "comp_status c \<in> AUTONOMY_TERMINAL_STATUSES" using c(1) by (auto simp: TERMINAL_TASK_STATUSES_def)
  obtain code where code: "(if comp_status c \<noteq> SUCCEEDED
      then row_error_code (comp_error_code c) (S ''autonomy_task_failed'') else Inr []) = Inr code"
    "if comp_status c = SUCCEEDED then code = [] else plain_code code"
    using row_error_code_plain [OF stable_plain] c(3) by (cases "comp_status c = SUCCEEDED") auto
  let ?v = "\<lparr>vd_status = comp_status c, vd_code = code, vd_result = take 256 (comp_result_id c),
             vd_unknown = outcome_unknown c, vd_count = count_failure c \<or> outcome_unknown c,
             vd_reset = reset_failures c, vd_halt = force_halt c\<rparr>"
  have "requested_verdict c = Inr ?v" using t code(1) by (simp add: requested_verdict_def)
  moreover have "verdict_ok ?v" using c t by (auto simp: verdict_ok_def)
  ultimately show thesis using code(2) by (intro that [of ?v]) (simp_all add: verdict_codes_def)
qed

section \<open>Reconciling with the audit row\<close>

text \<open>When the end of a task and the end of its audit row agree.\<close>

fun ends_agree :: "task_status \<Rightarrow> execution_status \<Rightarrow> bool" where
  "ends_agree SUCCEEDED s \<longleftrightarrow> s = X_SUCCEEDED"
| "ends_agree FAILED s \<longleftrightarrow> s = X_FAILED"
| "ends_agree STALE s \<longleftrightarrow> s = X_FAILED"
| "ends_agree CANCELLED s \<longleftrightarrow> s = X_CANCELLED"
| "ends_agree MANUAL_REVIEW s \<longleftrightarrow> s \<noteq> X_QUEUED \<and> s \<noteq> X_RUNNING"
| "ends_agree _ s \<longleftrightarrow> False"

lemma audit_verdict_agrees:
  "x_status y \<notin> {X_QUEUED, X_RUNNING} \<Longrightarrow> ends_agree (vd_status (audit_verdict y)) (x_status y)"
  by (cases "x_status y") (simp_all add: audit_verdict_def review_def Let_def)

lemma settle_closed_agrees:
  assumes "x_status x \<notin> {X_QUEUED, X_RUNNING}" "verdict_ok v"
  shows "ends_agree (vd_status (settle_closed x v)) (x_status x) \<and> verdict_ok (settle_closed x v)"
proof (cases "settle_closed x v = review (S ''execution_audit_state_mismatch'')")
  case True
  then show ?thesis using assms(1) by (simp add: review_def verdict_ok_def)
next
  case False
  then have "expected_execution_status (vd_status v) = Some (x_status x)"
    by (auto simp: settle_closed_def split: if_splits)
  then show ?thesis
    using False assms audit_verdict_agrees [OF assms(1)] audit_verdict_ok [of x]
    by (cases "vd_status v") (auto simp: settle_closed_def verdict_ok_def split: if_splits)
qed

text \<open>The execution of the task as it stands after a step of the audit.\<close>

definition audit_end :: "task_row \<Rightarrow> uuid \<Rightarrow> verdict \<Rightarrow> agent_db \<Rightarrow> bool" where
  "audit_end t eid v d \<longleftrightarrow>
     (\<exists>y. exec_get (t_owner t) eid d = Some y \<and> execution_bound t y \<and> ends_agree (vd_status v) (x_status y))"

lemma exec_get_put:
  assumes "execution_table_ok d" "exec_get owner eid d = Some x" "x_id y = x_id x" "x_owner y = x_owner x"
  shows "exec_get owner eid (put_execution y d) = Some y"
proof -
  note x = exec_get_in [OF assms(2)]
  have ids: "distinct (map x_id (d_executions d))" using assms(1) by (simp add: execution_table_ok_def)
  have "find (\<lambda>z. x_owner z = owner \<and> x_id z = eid) (update_where (\<lambda>z. x_id z = x_id y) (\<lambda>_. y) xs)
      = map_option (\<lambda>z. if x_id z = x_id y then y else z) (find (\<lambda>z. x_owner z = owner \<and> x_id z = eid) xs)"
    if "set xs \<subseteq> set (d_executions d)" for xs
    using that
  proof (induction xs)
    case (Cons z xs)
    have "z = x" if "x_id z = x_id x"
      using Cons.prems that x distinct_map_inject [OF ids, of z x] by simp
    with Cons x assms(3,4) show ?case by auto
  qed simp
  then show ?thesis using assms(2,3) unfolding exec_get_def put_execution_def by simp
qed

lemma bound_change: "execution_change x y \<Longrightarrow> execution_bound t y = execution_bound t x"
  by (auto simp: execution_change_def execution_bound_def)

text \<open>One audit operation on a row it applies to: it writes a row back along a legal edge.\<close>

definition audit_write ::
  "execution_row \<Rightarrow> execution_status set \<Rightarrow> execution_row option \<Rightarrow> agent_db \<Rightarrow> agent_db \<Rightarrow> bool" where
  "audit_write x fin r d d' \<longleftrightarrow>
     (\<exists>y. r = Some y \<and> d' = put_execution y d \<and> execution_change x y \<and> x_status y \<in> fin)"

lemma cancel_write:
  assumes "exec_get owner eid d = Some x" "x_status x = X_QUEUED"
  shows "exec_cancel_queued now owner eid code d = Inr (r, d') \<Longrightarrow> audit_write x {X_CANCELLED} r d d'"
    and "plain_code code \<Longrightarrow> \<exists>r d'. exec_cancel_queued now owner eid code d = Inr (r, d')"
  using assms row_error_code_plain [of code]
  by (auto simp: exec_cancel_queued_def and_then_Inr_iff Let_def audit_write_def execution_change_def)

lemma close_write:
  assumes "exec_get owner eid d = Some x" "x_status x = X_RUNNING"
    and "status = X_FAILED \<or> status = X_MANUAL_REVIEW"
  shows "exec_close status fallback now owner eid code d = Inr (r, d') \<Longrightarrow> audit_write x {status} r d d'"
    and "plain_code code \<Longrightarrow> \<exists>r d'. exec_close status fallback now owner eid code d = Inr (r, d')"
  using assms row_error_code_plain [of code]
  by (auto simp: exec_close_def and_then_Inr_iff Let_def audit_write_def execution_change_def)

lemma succeed_write:
  assumes "exec_get owner eid d = Some x" "x_status x = X_RUNNING"
  shows "exec_succeed now owner eid res d = (r, d') \<Longrightarrow> audit_write x {X_SUCCEEDED} r d d'"
  using assms by (auto simp: exec_succeed_def Let_def audit_write_def execution_change_def)

lemma audit_write_mono: "audit_write x A r d d' \<Longrightarrow> A \<subseteq> B \<Longrightarrow> audit_write x B r d d'"
  by (auto simp: audit_write_def)

lemma plain_codes:
  "plain_code (S ''execution_audit_state_mismatch'')" "plain_code (S ''action_execution_not_started'')"
  "plain_code (S ''worker_lost_before_action_start'')" "plain_code (S ''worker_lost'')"
  by (simp_all add: plain_code_def S_def code_char_def)

lemma synchronize_write:
  assumes "exec_get (t_owner t) (x_id x) d = Some x" "x_status x = X_RUNNING"
    and "synchronize now t x v d = Inr (r, d')"
  shows "audit_write x {X_SUCCEEDED, X_FAILED, X_MANUAL_REVIEW} r d d'"
proof -
  have "audit_write x {X_SUCCEEDED} r d d' \<or> audit_write x {X_FAILED} r d d' \<or> audit_write x {X_MANUAL_REVIEW} r d d'"
    using assms(3) succeed_write [OF assms(1,2)] close_write(1) [OF assms(1,2)]
    unfolding synchronize_def exec_fail_def exec_mark_unknown_def by (auto split: if_splits)
  then show ?thesis using audit_write_mono by (elim disjE) (erule audit_write_mono; simp)+
qed

lemma synchronize_total:
  assumes "exec_get (t_owner t) (x_id x) d = Some x" "x_status x = X_RUNNING"
    and "verdict_codes v"
  shows "\<exists>r d'. synchronize now t x v d = Inr (r, d')"
proof (cases "vd_status v = SUCCEEDED")
  case True
  then show ?thesis by (cases "exec_succeed now (t_owner t) (x_id x) (none_if_empty (vd_result v)) d")
    (simp add: synchronize_def)
next
  case False
  then show ?thesis
    using close_write(2) [OF assms(1,2), of X_FAILED] close_write(2) [OF assms(1,2), of X_MANUAL_REVIEW]
      assms(3) plain_codes(1)
    unfolding synchronize_def exec_fail_def exec_mark_unknown_def verdict_codes_def by presburger
qed

lemma audit_write_effect:
  assumes ok: "execution_table_ok d" and x: "exec_get owner eid d = Some x" and w: "audit_write x fin r d d'"
    and closed: "\<forall>y. execution_change x y \<and> x_status y \<in> fin \<longrightarrow> P y"
  obtains y where "r = Some y" "exec_get owner eid d' = Some y" "execution_change x y" "x_status y \<in> fin" "P y"
    "\<exists>xs. d' = d\<lparr>d_executions := xs\<rparr>"
proof -
  obtain y where y: "r = Some y" "d' = put_execution y d" "execution_change x y" "x_status y \<in> fin"
    using w by (auto simp: audit_write_def)
  have "exec_get owner eid d' = Some y"
    using exec_get_put [OF ok x] execution_change_key [OF y(3)] y(2) by simp
  then show thesis using that y closed by (auto simp: put_execution_def)
qed

text \<open>Reconciliation makes at most one audit step.\<close>

lemma synchronize_step: "synchronize now t x v d = Inr (r, d') \<Longrightarrow> exec_step d d'"
  by (auto simp: synchronize_def split: if_splits
      intro: exec_step.succeed exec_step.unknown exec_step.fails)

lemma settle_step: "settle now t v d = Inr (v', d') \<Longrightarrow> d' = d \<or> exec_step d d'"
  by (auto simp: settle_def settle_queued_def settle_running_def and_then_Inr_iff
      split: option.splits if_splits intro: exec_step.cancel synchronize_step)

lemma audit_frame: "audit_write x fin r d d' \<Longrightarrow> \<exists>xs. d' = d\<lparr>d_executions := xs\<rparr>"
  by (auto simp: audit_write_def put_execution_def)

text \<open>After it the verdict is consistent and agrees with the audit row of the task.\<close>

lemma settle_bound:
  assumes ok: "execution_table_ok d" and v: "verdict_ok v"
    and x: "t_execution t = Some eid" "exec_get (t_owner t) eid d = Some x" "execution_bound t x"
    and s: "settle now t v d = Inr (v', d')"
  shows "verdict_ok v' \<and> audit_end t eid v' d' \<and> (\<exists>xs. d' = d\<lparr>d_executions := xs\<rparr>)"
proof -
  have xid: "x_id x = eid" using exec_get_in [OF x(2)] by simp
  note get = x(2) [folded xid]
  consider (queued) "x_status x = X_QUEUED" | (running) "x_status x = X_RUNNING"
    | (closed) "x_status x \<notin> {X_QUEUED, X_RUNNING}" by blast
  then show ?thesis
  proof cases
    case queued
    then have q: "settle_queued now t x v d = Inr (v', d')" using s x by (simp add: settle_def)
    then obtain r where c: "exec_cancel_queued now (t_owner t) (x_id x)
        (if \<not> vd_unknown v \<and> vd_code v \<noteq> [] then vd_code v else S ''action_execution_not_started'') d = Inr (r, d')"
      by (auto simp: settle_queued_def and_then_Inr_iff)
    obtain y where y: "r = Some y" "exec_get (t_owner t) (x_id x) d' = Some y" "execution_change x y"
      "x_status y \<in> {X_CANCELLED}" "\<exists>xs. d' = d\<lparr>d_executions := xs\<rparr>"
      by (rule audit_write_effect [OF ok get cancel_write(1) [OF get queued c], of "\<lambda>_. True"]) auto
    have "v' = review (S ''execution_audit_state_mismatch'')
        \<or> v' = \<lparr>vd_status = CANCELLED, vd_code = execution_error y (S ''action_execution_not_started''),
             vd_result = [], vd_unknown = False, vd_count = False, vd_reset = False, vd_halt = False\<rparr>"
      using q c y(1) by (auto simp: settle_queued_def split: if_splits)
    then show ?thesis
      using y x(3) bound_change [OF y(3)] xid
      by (auto simp: audit_end_def verdict_ok_def review_def)
  next
    case running
    then have q: "settle_running now t x v d = Inr (v', d')" using s x by (simp add: settle_def)
    then obtain r where c: "synchronize now t x v d = Inr (r, d')"
      by (auto simp: settle_running_def and_then_Inr_iff)
    obtain y where y: "r = Some y" "exec_get (t_owner t) (x_id x) d' = Some y" "execution_change x y"
      "x_status y \<in> {X_SUCCEEDED, X_FAILED, X_MANUAL_REVIEW}" "\<exists>xs. d' = d\<lparr>d_executions := xs\<rparr>"
      by (rule audit_write_effect [OF ok get synchronize_write [OF get running c], of "\<lambda>_. True"]) auto
    have "v' = audit_verdict y" using q c y(1) by (auto simp: settle_running_def)
    moreover have "x_status y \<notin> {X_QUEUED, X_RUNNING}" using y(4) by auto
    ultimately show ?thesis
      using y(2,5) x(3) bound_change [OF y(3)] xid audit_verdict_agrees by (auto simp: audit_end_def)
  next
    case closed
    then have "v' = settle_closed x v" "d' = d" using s x by (auto simp: settle_def)
    then show ?thesis
      using settle_closed_agrees [OF closed v] x(2,3)
      by (auto simp: audit_end_def intro: exI [of _ "d_executions d"])
  qed
qed

lemma settle_unbound:
  assumes v: "verdict_ok v" and s: "settle now t v d = Inr (v', d')"
    and none: "\<And>eid x. t_execution t = Some eid \<Longrightarrow> exec_get (t_owner t) eid d = Some x \<Longrightarrow> \<not> execution_bound t x"
  shows "verdict_ok v' \<and> d' = d
    \<and> (t_execution t = None \<and> t_status t = DISPATCHING \<longrightarrow> vd_status v' = FAILED)
    \<and> (t_execution t \<noteq> None \<longrightarrow> vd_status v' = MANUAL_REVIEW)
    \<and> (t_execution t = None \<and> t_status t \<noteq> DISPATCHING \<longrightarrow> v' = v)"
proof (cases "t_execution t")
  case None
  with s have "v' = (if t_status t = DISPATCHING then unprepared_verdict v else v)" "d' = d"
    by (auto simp: settle_def)
  with None v show ?thesis by (simp add: unprepared_verdict_def verdict_ok_def)
next
  case (Some eid)
  have "v' = review (S ''execution_audit_mismatch'') \<and> d' = d"
  proof (cases "exec_get (t_owner t) eid d")
    case None
    with s Some show ?thesis by (simp add: settle_def)
  next
    case (Some x)
    with none s \<open>t_execution t = Some eid\<close> show ?thesis by (simp add: settle_def)
  qed
  with Some show ?thesis by (simp add: review_def verdict_ok_def)
qed

lemma settle_ok:
  assumes "execution_table_ok d" "verdict_ok v" "settle now t v d = Inr (v', d')"
  shows "verdict_ok v' \<and> (\<exists>xs. d' = d\<lparr>d_executions := xs\<rparr>) \<and> execution_table_ok d' \<and> execution_progress d d'"
proof -
  have "verdict_ok v' \<and> (\<exists>xs. d' = d\<lparr>d_executions := xs\<rparr>)"
  proof (cases "\<exists>eid x. t_execution t = Some eid \<and> exec_get (t_owner t) eid d = Some x \<and> execution_bound t x")
    case True
    then show ?thesis using settle_bound [OF assms(1,2) _ _ _ assms(3)] by blast
  next
    case False
    then have "verdict_ok v' \<and> d' = d" using settle_unbound [OF assms(2,3)] by blast
    then show ?thesis by (auto intro: exI [of _ "d_executions d"])
  qed
  moreover have "execution_table_ok d' \<and> execution_progress d d'"
    using settle_step [OF assms(3)] exec_step_ok assms(1) by auto
  ultimately show ?thesis by blast
qed

lemma settle_total:
  assumes "verdict_codes v"
  shows "\<exists>v' d'. settle now t v d = Inr (v', d')"
proof (cases "t_execution t")
  case (Some eid)
  show ?thesis
  proof (cases "exec_get (t_owner t) eid d")
    case (Some x)
    have xid: "x_id x = eid" using exec_get_in [OF Some] by simp
    note get = Some [folded xid]
    have "\<exists>v' d'. settle_queued now t x v d = Inr (v', d')" if q: "x_status x = X_QUEUED"
    proof -
      let ?code = "if \<not> vd_unknown v \<and> vd_code v \<noteq> [] then vd_code v else S ''action_execution_not_started''"
      have "plain_code ?code" using assms plain_codes(2) by (auto simp: verdict_codes_def split: if_splits)
      from cancel_write(2) [OF get q this] obtain r d' where
        "exec_cancel_queued now (t_owner t) (x_id x) ?code d = Inr (r, d')" by blast
      then show ?thesis by (simp add: settle_queued_def)
    qed
    moreover have "\<exists>v' d'. settle_running now t x v d = Inr (v', d')" if run: "x_status x = X_RUNNING"
    proof -
      obtain r d' where "synchronize now t x v d = Inr (r, d')" using synchronize_total [OF get run assms] by blast
      then show ?thesis by (simp add: settle_running_def)
    qed
    ultimately show ?thesis using \<open>t_execution t = Some eid\<close> Some by (simp add: settle_def)
  qed (simp add: settle_def Some)
qed (simp add: settle_def)

section \<open>Closing the row, the setting and the budget\<close>

lemma finished_row_ok:
  assumes inv: "task_inv t" and open_row: "t_status t \<notin> AUTONOMY_TERMINAL_STATUSES" "t_lease_token t \<noteq> None"
    and v: "verdict_ok v"
  shows "task_change t (finished_row v now t) \<and> task_inv (finished_row v now t)"
proof (rule task_changeI [OF inv])
  have st: "t_status t \<in> {LEASED, GENERATING, DISPATCHING}"
    using inv open_row by (cases "t_status t") (simp_all add: task_inv_iff task_life_def)
  show "task_edge (t_status t) (t_status (finished_row v now t))"
    using st v by (auto simp: finished_row_def verdict_ok_def)
  have life: "task_life t" using inv by (simp add: task_inv_iff)
  show "task_life (finished_row v now t)"
    using life v st
    by (cases "vd_status v") (auto simp: task_life_def finished_row_def verdict_ok_def)
qed (simp_all add: finished_row_def same_binding_def)

lemma finished_constraints: "task_inv (finished_row v now t) \<Longrightarrow> task_constraints (finished_row v now t)"
  by (simp add: task_inv_def)

lemma success_setting_frame [simp]:
  "s_id (success_setting t now s) = s_id s" "s_owner (success_setting t now s) = s_owner s"
  "s_failures (success_setting t now s) = s_failures s" "s_next_run (success_setting t now s) = s_next_run s"
  "s_failure_limit (success_setting t now s) = s_failure_limit s"
  "s_enabled (success_setting t now s) = s_enabled s" "s_halted_at (success_setting t now s) = s_halted_at s"
  "setting_constraints (success_setting t now s) = setting_constraints s"
  by (cases "t_type t"; simp add: success_setting_def Let_def setting_constraints_def)+

lemma finished_setting_frame:
  "s_id (finished_setting v retry at reason now t s) = s_id s"
  "s_owner (finished_setting v retry at reason now t s) = s_owner s"
  "s_failure_limit (finished_setting v retry at reason now t s) = s_failure_limit s"
  "s_enabled (finished_setting v retry at reason now t s) = s_enabled s"
  by (simp_all add: finished_setting_def Let_def)

lemma finished_setting_failures:
  "s_failures (finished_setting v retry at reason now t s)
     = (if vd_reset v then 0 else s_failures s) + (if vd_count v \<and> \<not> retry then 1 else 0)"
  by (cases retry; cases "vd_count v"; simp add: finished_setting_def Let_def)

lemma finished_setting_halted:
  "s_halted_at (finished_setting v retry at reason now t s)
     = (if vd_halt v \<or> \<not> retry \<and> s_failures (finished_setting v retry at reason now t s) \<ge> s_failure_limit s
        then Some now else s_halted_at s)"
  by (cases retry; cases "vd_count v"; simp add: finished_setting_def Let_def)

lemma setting_constraints_frames:
  "setting_constraints (r\<lparr>s_halted_at := h, s_halted_reason := w\<rparr>) = setting_constraints r"
  "setting_constraints (r\<lparr>s_next_run := nx\<rparr>) = setting_constraints r"
  "setting_constraints (r\<lparr>s_updated_at := i\<rparr>) = setting_constraints r"
  "setting_constraints (r\<lparr>s_last_run := nx\<rparr>) = setting_constraints r"
  "setting_constraints r \<Longrightarrow> n \<ge> 0 \<Longrightarrow> setting_constraints (r\<lparr>s_failures := n\<rparr>)"
  by (simp_all add: setting_constraints_def)

lemma finished_setting_constraints:
  assumes con: "setting_constraints s"
  shows "setting_constraints (finished_setting v retry at reason now t s)"
proof -
  define s2 where "s2 = (if vd_reset v then s\<lparr>s_last_run := Some now\<rparr>\<lparr>s_failures := 0\<rparr> else s\<lparr>s_last_run := Some now\<rparr>)"
  define s3 where "s3 = (if vd_status v = SUCCEEDED then success_setting t now s2 else s2)"
  define s4 where "s4 = (if vd_count v \<and> \<not> retry then s3\<lparr>s_failures := s_failures s3 + 1\<rparr> else s3)"
  have "setting_constraints s2"
    using con setting_constraints_frames(4,5) by (simp add: s2_def)
  then have c3: "setting_constraints s3" by (simp add: s3_def)
  then have "s_failures s3 \<ge> 0" by (simp add: setting_constraints_def)
  with c3 have "setting_constraints s4" using setting_constraints_frames(5) by (simp add: s4_def)
  then show ?thesis
    unfolding finished_setting_def Let_def
    by (fold s2_def, fold s3_def, fold s4_def) (simp add: setting_constraints_frames(1-3))
qed

lemma success_candidate_frame:
  "success_candidate t now d = Inr d' \<Longrightarrow> \<exists>cs. d' = d\<lparr>d_candidates := cs\<rparr>"
  by (auto simp: success_candidate_def mark_interaction_def and_then_Inr_iff Let_def split: if_splits
      intro: exI [of _ "d_candidates d"])

lemma finish_setting_effect:
  assumes "finish_setting v retry at reason now t setting d = Inr d'"
  shows "d_tasks d' = d_tasks d" "d_usages d' = d_usages d" "d_executions d' = d_executions d"
    and "d_settings d' = (case setting of None \<Rightarrow> d_settings d
      | Some s \<Rightarrow> d_settings (put_setting (finished_setting v retry at reason now t s) d))"
proof -
  have "d_tasks d' = d_tasks d \<and> d_usages d' = d_usages d \<and> d_executions d' = d_executions d
    \<and> d_settings d' = (case setting of None \<Rightarrow> d_settings d
      | Some s \<Rightarrow> d_settings (put_setting (finished_setting v retry at reason now t s) d))"
  proof (cases setting)
    case None
    with assms show ?thesis by (simp add: finish_setting_def)
  next
    case (Some s)
    then obtain d1 where d1: "(if vd_status v = SUCCEEDED then success_candidate t now d else Inr d) = Inr d1"
      and d': "d' = put_setting (finished_setting v retry at reason now t s) d1"
      using assms by (auto simp: finish_setting_def and_then_Inr_iff)
    obtain cs where "d1 = d\<lparr>d_candidates := cs\<rparr>"
    proof (cases "vd_status v = SUCCEEDED")
      case True
      with d1 that show ?thesis by (auto dest: success_candidate_frame)
    next
      case False
      with d1 that [of "d_candidates d"] show ?thesis by simp
    qed
    with Some show ?thesis by (simp add: d' put_setting_def)
  qed
  then show "d_tasks d' = d_tasks d" "d_usages d' = d_usages d" "d_executions d' = d_executions d"
    "d_settings d' = (case setting of None \<Rightarrow> d_settings d
      | Some s \<Rightarrow> d_settings (put_setting (finished_setting v retry at reason now t s) d))" by simp_all
qed

text \<open>The budget: at most one reserved action is handed back, in the task's own category.\<close>

lemma count_outcome_frame [simp]:
  "u_id (count_outcome v now u) = u_id u" "u_owner (count_outcome v now u) = u_owner u"
  "u_day (count_outcome v now u) = u_day u" "u_total (count_outcome v now u) = u_total u"
  "usage_field c (count_outcome v now u) = usage_field c u"
  by (simp_all add: count_outcome_def)

lemma refund_row:
  assumes "refund_usage (task_type_value (t_type t)) (t_action t) u = Inr u'"
  shows "u_id u' = u_id u" "u_owner u' = u_owner u" "u_day u' = u_day u" "u_total u' = u_total u - 1"
    "usage_field c u' = usage_field c u - (if c = row_category t then 1 else 0)"
    "usage_constraints u \<Longrightarrow> usage_constraints u'"
proof -
  have u': "u' = set_usage_field (row_category t) (usage_field (row_category t) u - 1) (u\<lparr>u_total := u_total u - 1\<rparr>)"
    and pos: "u_total u > 0" "usage_field (row_category t) u > 0"
    using assms by (auto simp: refund_usage_def Let_def row_category_def split: if_splits)
  show "u_id u' = u_id u" "u_owner u' = u_owner u" "u_day u' = u_day u" "u_total u' = u_total u - 1"
    "usage_field c u' = usage_field c u - (if c = row_category t then 1 else 0)"
    by (simp_all add: u')
  show "usage_constraints u'" if "usage_constraints u"
    using that pos by (cases "row_category t") (simp_all add: usage_constraints_def u')
qed

lemma count_outcome_constraints: "usage_constraints u \<Longrightarrow> usage_constraints (count_outcome v now u)"
  by (simp add: usage_constraints_def count_outcome_def)

lemma settle_budget_effect:
  assumes ok: "usage_table_ok d" and s: "settle_budget v refund now t d = Inr d'"
  shows "usage_table_ok d' \<and> d_tasks d' = d_tasks d \<and> d_settings d' = d_settings d
    \<and> d_executions d' = d_executions d
    \<and> (\<forall>o' day. (usage_get o' day d' = None) = (usage_get o' day d = None))
    \<and> (\<forall>o' day. used_total o' day d' = used_total o' day d
        - (if refund \<and> t_budget_day t = Some day \<and> o' = t_owner t then 1 else 0))
    \<and> (\<forall>o' day c. used_count o' day c d' = used_count o' day c d
        - (if refund \<and> t_budget_day t = Some day \<and> o' = t_owner t \<and> c = row_category t then 1 else 0))"
proof (cases "t_budget_day t")
  case None
  then have "d' = d" using s by (simp add: settle_budget_def split: if_splits)
  with None ok show ?thesis by simp
next
  case (Some day)
  obtain u where u: "usage_get (t_owner t) day d = Some u"
    using s Some by (auto simp: settle_budget_def split: option.splits if_splits)
  obtain u' where u': "(if refund then refund_usage (task_type_value (t_type t)) (t_action t) u else Inr u) = Inr u'"
    and d': "d' = put_usage (count_outcome v now u') d"
    using s Some u by (auto simp: settle_budget_def and_then_Inr_iff split: if_splits)
  note m = usage_get_Some [OF u]
  have con: "usage_constraints u" using ok m by (simp add: usage_table_ok_def)
  have row: "u_id u' = u_id u" "u_owner u' = u_owner u" "u_day u' = u_day u"
    "u_total u' = u_total u - (if refund then 1 else 0)" "usage_constraints u'"
    "\<And>c. usage_field c u' = usage_field c u - (if refund \<and> c = row_category t then 1 else 0)"
    using u' con refund_row [of t u u'] by (auto split: if_splits)
  note put = put_usage_ok [OF ok conjunct1 [OF m], of "count_outcome v now u'", simplified,
      OF row(1,2,3) count_outcome_constraints [OF row(5)]]
  have get: "usage_get o' day' d' = (if o' = t_owner t \<and> day' = day then Some (count_outcome v now u')
      else usage_get o' day' d)" for o' day'
    using put(2) m by (simp add: d')
  have "usage_table_ok d'" using put(1) by (simp add: d')
  moreover have "d_tasks d' = d_tasks d" "d_settings d' = d_settings d" "d_executions d' = d_executions d"
    by (simp_all add: d' frame_simps)
  moreover have "(usage_get o' day' d' = None) = (usage_get o' day' d = None)" for o' day'
    using u by (simp add: get)
  moreover have "used_total o' day' d' = used_total o' day' d
        - (if refund \<and> t_budget_day t = Some day' \<and> o' = t_owner t then 1 else 0)" for o' day'
    using u Some row(4) by (auto simp: used_total_def get)
  moreover have "used_count o' day' c d' = used_count o' day' c d
        - (if refund \<and> t_budget_day t = Some day' \<and> o' = t_owner t \<and> c = row_category t then 1 else 0)" for o' day' c
    using u Some row(6) by (auto simp: used_count_def usage_count_def get)
  ultimately show ?thesis by simp
qed

lemma settle_budget_total:
  assumes ok: "usage_table_ok d" and life: "(t_dispatch_at t = None) = (t_budget_day t = None)"
    and backed: "\<And>day. t_budget_day t = Some day \<Longrightarrow> usage_get (t_owner t) day d \<noteq> None"
    and held: "\<And>day. t_budget_day t = Some day \<Longrightarrow> refund \<Longrightarrow> used_count (t_owner t) day (row_category t) d \<ge> 1"
  shows "\<exists>d'. settle_budget v refund now t d = Inr d'"
proof (cases "t_budget_day t")
  case None
  with life show ?thesis by (simp add: settle_budget_def)
next
  case (Some day)
  then obtain u where u: "usage_get (t_owner t) day d = Some u" using backed by auto
  have con: "usage_constraints u" using ok usage_get_Some [OF u] by (simp add: usage_table_ok_def)
  have "\<exists>u'. (if refund then refund_usage (task_type_value (t_type t)) (t_action t) u else Inr u) = Inr u'"
  proof (cases refund)
    case True
    then have "usage_field (row_category t) u \<ge> 1"
      using held [OF Some True] u by (simp add: used_count_def usage_count_def)
    moreover from this con have "u_total u \<ge> 1"
      by (cases "row_category t") (simp_all add: usage_constraints_def)
    ultimately show ?thesis using True by (simp add: refund_usage_def Let_def row_category_def)
  qed simp
  with Some u life show ?thesis by (auto simp: settle_budget_def)
qed

section \<open>Everything a closed task changes\<close>

definition audit_settled :: "task_row \<Rightarrow> verdict \<Rightarrow> agent_db \<Rightarrow> agent_db \<Rightarrow> bool" where
  "audit_settled t v d d' \<longleftrightarrow>
     (d' = d \<or> exec_step d d') \<and> (\<exists>xs. d' = d\<lparr>d_executions := xs\<rparr>) \<and> verdict_ok v
     \<and> (t_execution t = None \<and> t_status t = DISPATCHING \<longrightarrow> vd_status v = FAILED)
     \<and> (\<forall>eid x. t_execution t = Some eid \<and> exec_get (t_owner t) eid d = Some x \<and> execution_bound t x
          \<longrightarrow> audit_end t eid v d')"

lemma settle_settled:
  assumes "execution_table_ok d" "verdict_ok v" "settle now t v d = Inr (v', d')"
  shows "audit_settled t v' d d'"
  unfolding audit_settled_def
proof (intro conjI allI impI, goal_cases)
  case 1
  then show ?case by (rule settle_step [OF assms(3)])
next
  case 2
  then show ?case using settle_ok [OF assms] by blast
next
  case 3
  then show ?case using settle_ok [OF assms] by blast
next
  case 4
  then show ?case using settle_unbound [OF assms(2,3)] by simp
next
  case (5 eid x)
  then show ?case using settle_bound [OF assms(1,2) _ _ _ assms(3)] by blast
qed

lemma lost_settled:
  assumes ok: "execution_table_ok d" and l: "lost_verdict now code t d = Inr (v, d')"
  shows "audit_settled t v d d'"
proof (cases "\<exists>eid x. t_execution t = Some eid \<and> exec_get (t_owner t) eid d = Some x \<and> execution_bound t x")
  case False
  have "d' = d \<and> (t_execution t = None \<longrightarrow> vd_status v = FAILED) \<and> verdict_ok v"
  proof (cases "t_execution t")
    case None
    with l have "v = \<lparr>vd_status = FAILED, vd_code = S ''worker_lost_before_action_prepare'', vd_result = [],
        vd_unknown = False, vd_count = True, vd_reset = False, vd_halt = False\<rparr>" "d' = d"
      by (auto simp: lost_verdict_def)
    then show ?thesis by (simp add: verdict_ok_def)
  next
    case (Some eid)
    with l False have "v = review (S ''execution_audit_mismatch'') \<and> d' = d"
      by (cases "exec_get (t_owner t) eid d") (auto simp: lost_verdict_def)
    with Some show ?thesis by simp
  qed
  with False show ?thesis unfolding audit_settled_def by (auto intro: exI [of _ "d_executions d"])
next
  case True
  then obtain eid x where x: "t_execution t = Some eid" "exec_get (t_owner t) eid d = Some x" "execution_bound t x"
    by blast
  have xid: "x_id x = eid" using exec_get_in [OF x(2)] by simp
  note get = x(2) [folded xid]
  have "(d' = d \<or> exec_step d d') \<and> (\<exists>xs. d' = d\<lparr>d_executions := xs\<rparr>) \<and> verdict_ok v \<and> audit_end t eid v d'"
  proof (cases "x_status x")
    case X_QUEUED
    then obtain r where c: "exec_cancel_queued now (t_owner t) (x_id x) (S ''worker_lost_before_action_start'') d = Inr (r, d')"
      and v: "case r of None \<Rightarrow> False | Some y \<Rightarrow> vd_status v = CANCELLED \<and> verdict_ok v"
      using l x by (auto simp: lost_verdict_def and_then_Inr_iff verdict_ok_def split: option.splits)
    obtain y where y: "r = Some y" "exec_get (t_owner t) (x_id x) d' = Some y" "execution_change x y"
      "x_status y \<in> {X_CANCELLED}" "\<exists>xs. d' = d\<lparr>d_executions := xs\<rparr>"
      by (rule audit_write_effect [OF ok get cancel_write(1) [OF get X_QUEUED c], of "\<lambda>_. True"]) auto
    show ?thesis
      using y v x(3) bound_change [OF y(3)] xid exec_step.cancel [OF c] by (auto simp: audit_end_def)
  next
    case X_RUNNING
    then obtain r where c: "exec_mark_unknown now (t_owner t) (x_id x) code d = Inr (r, d')" and v: "v = review code"
      using l x by (auto simp: lost_verdict_def and_then_Inr_iff split: if_splits)
    have w: "audit_write x {X_MANUAL_REVIEW} r d d'"
      using close_write(1) [OF get X_RUNNING] c unfolding exec_mark_unknown_def by blast
    obtain y where y: "r = Some y" "exec_get (t_owner t) (x_id x) d' = Some y" "execution_change x y"
      "x_status y \<in> {X_MANUAL_REVIEW}" "\<exists>xs. d' = d\<lparr>d_executions := xs\<rparr>"
      by (rule audit_write_effect [OF ok get w, of "\<lambda>_. True"]) auto
    have "vd_status v = MANUAL_REVIEW" by (simp add: v review_def)
    then show ?thesis
      using y x(3) bound_change [OF y(3)] xid exec_step.unknown [OF c] v by (auto simp: audit_end_def)
  next
    case X_CANCELLED
    then have "vd_status v = CANCELLED \<and> verdict_ok v \<and> d' = d"
      using l x by (auto simp: lost_verdict_def verdict_ok_def)
    then show ?thesis using x X_CANCELLED by (auto simp: audit_end_def intro: exI [of _ "d_executions d"])
  next
    case X_SUCCEEDED
    then have "v = audit_verdict x \<and> d' = d" using l x by (auto simp: lost_verdict_def)
    then show ?thesis
      using x X_SUCCEEDED audit_verdict_agrees [of x] by (auto simp: audit_end_def intro: exI [of _ "d_executions d"])
  next
    case X_FAILED
    then have "v = audit_verdict x \<and> d' = d" using l x by (auto simp: lost_verdict_def)
    then show ?thesis
      using x X_FAILED audit_verdict_agrees [of x] by (auto simp: audit_end_def intro: exI [of _ "d_executions d"])
  next
    case X_MANUAL_REVIEW
    then have "v = audit_verdict x \<and> d' = d" using l x by (auto simp: lost_verdict_def)
    then show ?thesis
      using x X_MANUAL_REVIEW audit_verdict_agrees [of x]
      by (auto simp: audit_end_def intro: exI [of _ "d_executions d"])
  qed
  with x show ?thesis unfolding audit_settled_def by simp
qed

text \<open>The whole effect of closing a task, by its worker or by the sweep.\<close>

definition closing :: "task_row \<Rightarrow> verdict \<Rightarrow> bool \<Rightarrow> instant \<Rightarrow> agent_db \<Rightarrow> agent_db \<Rightarrow> bool" where
  "closing t v refund now d d' \<longleftrightarrow>
     t \<in> set (d_tasks d) \<and> t_status t \<notin> AUTONOMY_TERMINAL_STATUSES \<and> t_lease_token t \<noteq> None \<and> verdict_ok v
     \<and> (refund \<longrightarrow> vd_status v = FAILED)
     \<and> d_tasks d' = d_tasks (put_task (finished_row v now t) d)
     \<and> (\<exists>d1. audit_settled t v d d1 \<and> d_executions d' = d_executions d1)
     \<and> (case setting_get (t_owner t) d of
          None \<Rightarrow> d_settings d' = d_settings d
        | Some s \<Rightarrow> \<exists>retry at reason. (vd_unknown v \<longrightarrow> \<not> retry)
            \<and> d_settings d' = d_settings (put_setting (finished_setting v retry at reason now t s) d))
     \<and> usage_table_ok d'
     \<and> (\<forall>o' day. (usage_get o' day d' = None) = (usage_get o' day d = None))
     \<and> (\<forall>o' day. used_total o' day d' = used_total o' day d
         - (if refund \<and> t_budget_day t = Some day \<and> o' = t_owner t then 1 else 0))
     \<and> (\<forall>o' day c. used_count o' day c d' = used_count o' day c d
         - (if refund \<and> t_budget_day t = Some day \<and> o' = t_owner t \<and> c = row_category t then 1 else 0))"

lemma closing_compose:
  assumes t: "t \<in> set (d_tasks d)" "t_status t \<notin> AUTONOMY_TERMINAL_STATUSES" "t_lease_token t \<noteq> None"
    and usages: "usage_table_ok d" and refund: "refund \<longrightarrow> vd_status v = FAILED"
    and retry: "vd_unknown v \<longrightarrow> \<not> retry"
    and settled: "audit_settled t v d d1"
    and set: "finish_setting v retry at reason now t (setting_get (t_owner t) d)
        (put_task (finished_row v now t) d1) = Inr d2"
    and budget: "settle_budget v refund now t d2 = Inr d3"
  shows "closing t v refund now d d3"
proof -
  obtain xs where d1: "d1 = d\<lparr>d_executions := xs\<rparr>" using settled by (auto simp: audit_settled_def)
  have frame: "d_tasks (put_task u d1) = d_tasks (put_task u d)" "d_usages d1 = d_usages d"
    "d_settings d1 = d_settings d" for u
    by (simp_all add: d1 put_task_def)
  note e = finish_setting_effect [OF set]
  have u2: "d_usages d2 = d_usages d" using e(2) frame(2) by (simp add: put_frames)
  have same: "used_total o' day d2 = used_total o' day d" "used_count o' day c d2 = used_count o' day c d"
    "usage_get o' day d2 = usage_get o' day d" for o' day c
    using usage_get_frame(1) [OF u2] by (simp_all add: used_total_def used_count_def)
  have u2ok: "usage_table_ok d2" using usages usage_get_frame(2) [OF u2] by simp
  note b = settle_budget_effect [OF u2ok budget]
  have settings: "case setting_get (t_owner t) d of
          None \<Rightarrow> d_settings d3 = d_settings d
        | Some s \<Rightarrow> \<exists>retry at reason. (vd_unknown v \<longrightarrow> \<not> retry)
            \<and> d_settings d3 = d_settings (put_setting (finished_setting v retry at reason now t s) d)"
  proof (cases "setting_get (t_owner t) d")
    case None
    then show ?thesis using e(4) b frame(3) by (simp add: put_frames)
  next
    case (Some s)
    then have "d_settings d3 = d_settings (put_setting (finished_setting v retry at reason now t s) d)"
      using e(4) b frame(3) by (simp add: put_setting_def put_frames)
    with Some retry show ?thesis by auto
  qed
  have ex: "d_executions d3 = d_executions d1" using b e(3) by (simp add: put_frames)
  have tasks: "d_tasks d3 = d_tasks (put_task (finished_row v now t) d)" using b e(1) frame(1) by simp
  have vok: "verdict_ok v" using settled by (simp add: audit_settled_def)
  show ?thesis
    unfolding closing_def
    by (intro conjI t vok refund tasks settings exI [of _ d1] settled ex) (use b same in simp_all)
qed

lemma finish_task_closing:
  assumes tables: "task_table_ok d" "execution_table_ok d" "usage_table_ok d" and later: "task_progress d0 d"
    and c: "post_init_completion c0 = Inr c"
    and fin: "sql_finish_task now_x tid token c now d0 d = Inr (b, d')"
  shows "if b then (\<exists>t v refund. t_id t = tid \<and> t_lease_token t = Some token \<and> closing t v refund now d d'
      \<and> (refund \<longrightarrow> retryable c)) else d' = d"
proof -
  obtain r where r: "requested_verdict c = Inr r" "verdict_ok r" "vd_status r = comp_status c"
    by (rule requested_verdict_ok [OF c])
  note f = fin [unfolded sql_finish_task_def r(1), simplified]
  show ?thesis
  proof (cases "find (unfinished tid token) (d_tasks d0)")
    case None
    with f show ?thesis by auto
  next
    case (Some candidate)
    note f1 = f [unfolded Some Let_def, simplified]
    show ?thesis
    proof (cases "find (unfinished tid token) (d_tasks d)")
      case None
      with f1 show ?thesis by auto
    next
      case (Some t)
      note f2 = f1 [unfolded Some, simplified]
      have m: "candidate \<in> set (d_tasks d0)" "t_id candidate = tid" "t \<in> set (d_tasks d)" "unfinished tid token t"
        using find_SomeD [OF \<open>find (unfinished tid token) (d_tasks d0) = Some candidate\<close>] find_SomeD [OF Some]
        by (simp_all add: unfinished_def)
      have ids: "t_id candidate = t_id t" using m by (simp add: unfinished_def)
      have owner: "t_owner candidate = t_owner t"
        using task_change_key [OF task_owner_constant [OF later tables(1) m(1,3) ids]] by simp
      obtain v d1 where s: "settle now_x t r d = Inr (v, d1)"
        using f2 by (auto simp: and_then_Inr_iff)
      let ?retry = "retryable c \<and> vd_status v = FAILED \<and> \<not> vd_unknown v \<and> vd_code v = vd_code r"
      let ?refund = "refund_budget c \<and> ?retry"
      obtain d2 where d2: "finish_setting v ?retry (if ?retry then comp_retry_at c else None)
            (S ''autonomy_halted'') now t (setting_get (t_owner t) d) (put_task (finished_row v now t) d1) = Inr d2"
        and d3: "settle_budget v ?refund now t d2 = Inr d'" and b: b
        using f2 [unfolded owner] s by (auto simp: and_then_Inr_iff split: if_splits)
      have "closing t v ?refund now d d'"
        by (rule closing_compose [OF m(3) _ _ tables(3) _ _ settle_settled [OF tables(2) r(2) s] d2 d3])
          (use m(4) in \<open>auto simp: unfinished_def\<close>)
      then show ?thesis
        unfolding if_P [OF b] using m(4) by (intro exI [of _ t] exI [of _ v] exI [of _ ?refund])
          (auto simp: unfinished_def)
    qed
  qed
qed

lemma expire_task_closing:
  assumes ok: "execution_table_ok d" "usage_table_ok d" and t: "t \<in> set (d_tasks d)" "t_status t = DISPATCHING"
      "t_lease_token t \<noteq> None"
    and e: "expire_task now_x now code t (setting_get (t_owner t) d) d = Inr d'"
  shows "\<exists>v. closing t v False now d d'"
proof -
  obtain v d1 d2 where l: "lost_verdict now_x code t d = Inr (v, d1)"
    and d2: "finish_setting v False None code now t (setting_get (t_owner t) d) (put_task (finished_row v now t) d1) = Inr d2"
    and d3: "settle_budget v False now t d2 = Inr d'"
    using e by (auto simp: expire_task_def and_then_Inr_iff split: if_splits)
  have "closing t v False now d d'"
    by (rule closing_compose [OF t(1) _ t(3) ok(2) _ _ lost_settled [OF ok(1) l] d2 d3]) (simp_all add: t(2))
  then show ?thesis ..
qed

lemma exec_get_frame: "d_executions d' = d_executions d \<Longrightarrow> exec_get owner eid d' = exec_get owner eid d"
  by (simp add: exec_get_def)

text \<open>What a closing says of the task and of the owner's setting.\<close>

lemma closing_row:
  assumes tables: "task_table_ok d" "setting_table_ok d" and c: "closing t v refund now d d'"
  shows "finished_row v now t \<in> set (d_tasks d')" "task_table_ok d' \<and> task_progress d d'"
    and "setting_table_ok d'"
    and "setting_get (t_owner t) d = Some s \<Longrightarrow> vd_unknown v \<Longrightarrow>
      \<exists>s'. setting_get (t_owner t) d' = Some s' \<and> s_halted_at s' = Some now \<and> s_failures s' \<ge> 1"
proof -
  have t: "t \<in> set (d_tasks d)" "t_status t \<notin> AUTONOMY_TERMINAL_STATUSES" "t_lease_token t \<noteq> None" "verdict_ok v"
    and tasks: "d_tasks d' = d_tasks (put_task (finished_row v now t) d)"
    using c unfolding closing_def by blast+
  have inv: "task_inv t" by (rule task_row_inv [OF tables(1) t(1)])
  show "finished_row v now t \<in> set (d_tasks d')"
    unfolding tasks by (rule put_task_in [OF tables(1) t(1)]) (simp add: finished_row_def)
  have "task_table_ok (put_task (finished_row v now t) d) \<and> task_progress d (put_task (finished_row v now t) d)"
    using finished_row_ok [OF inv t(2-4)] by (intro put_task_ok [OF tables(1) t(1)]) blast+
  then show "task_table_ok d' \<and> task_progress d d'" using task_table_frame [OF tasks] by simp
  have set: "case setting_get (t_owner t) d of
          None \<Rightarrow> d_settings d' = d_settings d
        | Some s \<Rightarrow> \<exists>retry at reason. (vd_unknown v \<longrightarrow> \<not> retry)
            \<and> d_settings d' = d_settings (put_setting (finished_setting v retry at reason now t s) d)"
    using c unfolding closing_def by blast
  have frame: "setting_table_ok a = setting_table_ok b" "setting_get o' a = setting_get o' b"
    if "d_settings a = d_settings b" for a b o'
    using that by (simp_all add: setting_table_ok_def setting_get_def)
  have put: "setting_table_ok d' \<and> (\<exists>s'. setting_get (t_owner t) d' = Some s'
      \<and> (vd_unknown v \<longrightarrow> s_halted_at s' = Some now \<and> s_failures s' \<ge> 1))"
    if s: "setting_get (t_owner t) d = Some s" for s
  proof -
    obtain retry at reason where r: "vd_unknown v \<longrightarrow> \<not> retry"
      "d_settings d' = d_settings (put_setting (finished_setting v retry at reason now t s) d)"
      using set s by auto
    let ?s = "finished_setting v retry at reason now t s"
    have con: "setting_constraints s" using tables(2) setting_get_Some [OF s] by (simp add: setting_table_ok_def)
    note p = put_setting_ok [OF tables(2) s finished_setting_frame(1,2) finished_setting_constraints [OF con]]
    have "s_failures s \<ge> 0" using con by (simp add: setting_constraints_def)
    then have "vd_unknown v \<longrightarrow> s_halted_at ?s = Some now \<and> s_failures ?s \<ge> 1"
      using r(1) t(4) by (auto simp: finished_setting_halted finished_setting_failures verdict_ok_def)
    then show ?thesis using p(1,2) frame [OF r(2)] by simp
  qed
  show "setting_table_ok d'"
  proof (cases "setting_get (t_owner t) d")
    case None
    with set frame(1) [of d' d] tables(2) show ?thesis by simp
  qed (use put in blast)
  show "\<exists>s'. setting_get (t_owner t) d' = Some s' \<and> s_halted_at s' = Some now \<and> s_failures s' \<ge> 1"
    if "setting_get (t_owner t) d = Some s" "vd_unknown v"
    using put [OF that(1)] that(2) by blast
qed

text \<open>C9: Closing a task never lets the task and the audit of its action disagree: the row ends in a terminal
  status that agrees with the final status of its execution, which is itself no longer queued or running;
  a dispatch that never prepared an execution ends as failed; an unknown outcome is exactly a manual
  review and halts the owner's agent; and at most one reserved action is refunded, only for a retryable
  failure.\<close>

theorem finish_agrees_with_audit:
  assumes tables: "task_table_ok d" "execution_table_ok d" "usage_table_ok d" "setting_table_ok d"
    and later: "task_progress d0 d" and c: "post_init_completion c0 = Inr c"
    and fin: "sql_finish_task now_x tid token c now d0 d = Inr (True, d')"
  shows "\<exists>t u. t \<in> set (d_tasks d) \<and> t_id t = tid \<and> t_lease_token t = Some token
      \<and> u \<in> set (d_tasks d') \<and> same_binding t u \<and> t_status u \<in> AUTONOMY_TERMINAL_STATUSES
      \<and> t_lease_token u = None \<and> t_completed_at u = Some now
      \<and> (\<forall>eid x. t_execution t = Some eid \<and> exec_get (t_owner t) eid d = Some x \<and> execution_bound t x
            \<longrightarrow> (\<exists>y. exec_get (t_owner t) eid d' = Some y \<and> execution_bound t y
                  \<and> ends_agree (t_status u) (x_status y)))
      \<and> (t_execution t = None \<and> t_status t = DISPATCHING \<longrightarrow> t_status u = FAILED)
      \<and> (t_unknown u \<longleftrightarrow> t_status u = MANUAL_REVIEW)
      \<and> (t_unknown u \<and> setting_get (t_owner t) d \<noteq> None \<longrightarrow> \<not> agent_switched_on (t_owner t) d')
      \<and> (\<forall>o' day. used_total o' day d' = used_total o' day d
          \<or> used_total o' day d' = used_total o' day d - 1 \<and> o' = t_owner t \<and> t_budget_day t = Some day
            \<and> retryable c \<and> t_status u = FAILED)"
proof -
  obtain t v refund where t: "t_id t = tid" "t_lease_token t = Some token"
    and cl: "closing t v refund now d d'" and ref: "refund \<longrightarrow> retryable c"
    using finish_task_closing [OF tables(1-3) later c fin] by auto
  note row = closing_row [OF tables(1,4) cl]
  have t': "t \<in> set (d_tasks d)" "verdict_ok v" and refund: "refund \<longrightarrow> vd_status v = FAILED"
    and total: "\<forall>o' day. used_total o' day d' = used_total o' day d
         - (if refund \<and> t_budget_day t = Some day \<and> o' = t_owner t then 1 else 0)"
    and audit: "\<exists>d1. audit_settled t v d d1 \<and> d_executions d' = d_executions d1"
    using cl unfolding closing_def by blast+
  obtain d1 where d1: "audit_settled t v d d1" "d_executions d' = d_executions d1" using audit by blast
  let ?u = "finished_row v now t"
  have u: "same_binding t ?u" "t_status ?u = vd_status v" "t_lease_token ?u = None" "t_unknown ?u = vd_unknown v"
    "t_completed_at ?u = Some now"
    by (simp_all add: finished_row_def same_binding_def)
  have agree: "\<forall>eid x. t_execution t = Some eid \<and> exec_get (t_owner t) eid d = Some x \<and> execution_bound t x
            \<longrightarrow> (\<exists>y. exec_get (t_owner t) eid d' = Some y \<and> execution_bound t y
                  \<and> ends_agree (vd_status v) (x_status y))"
    using d1 exec_get_frame [OF d1(2)] unfolding audit_settled_def audit_end_def by simp
  have unprep: "t_execution t = None \<and> t_status t = DISPATCHING \<longrightarrow> vd_status v = FAILED"
    using d1(1) by (simp add: audit_settled_def)
  have halt: "vd_unknown v \<and> setting_get (t_owner t) d \<noteq> None \<longrightarrow> \<not> agent_switched_on (t_owner t) d'"
    using row(4) by (auto simp: agent_switched_on_def)
  have tot: "\<forall>o' day. used_total o' day d' = used_total o' day d
          \<or> used_total o' day d' = used_total o' day d - 1 \<and> o' = t_owner t \<and> t_budget_day t = Some day
            \<and> retryable c \<and> vd_status v = FAILED"
    using total ref refund by auto
  have vs: "vd_status v \<in> AUTONOMY_TERMINAL_STATUSES" "vd_unknown v \<longleftrightarrow> vd_status v = MANUAL_REVIEW"
    using t'(2) by (simp_all only: verdict_ok_def)
  show ?thesis
    by (rule exI [of _ t], rule exI [of _ ?u], unfold u(2-5))
      (intro conjI t t'(1) row(1) u(1) vs refl agree unprep halt tot)
qed

lemma office_completion: "post_init_completion (completion SUCCEEDED []) = Inr (completion SUCCEEDED [])"
  by (simp add: post_init_completion_def completion_def TERMINAL_TASK_STATUSES_def)

lemma office_finishes:
  "\<exists>d'. sql_finish_task 60 2 (S ''permit'') (completion SUCCEEDED []) 60 agent_office agent_office = Inr (True, d')"
proof -
  have r: "requested_verdict (completion SUCCEEDED []) = Inr \<lparr>vd_status = SUCCEEDED, vd_code = [],
      vd_result = [], vd_unknown = False, vd_count = False, vd_reset = False, vd_halt = False\<rparr>"
    by (simp add: requested_verdict_def completion_def)
  have f: "find (unfinished 2 (S ''permit'')) (d_tasks agent_office) = Some dispatching_task"
    by (simp add: agent_office_def empty_db_def unfinished_def dispatching_task_def leased_task_def)
  have x: "exec_get 7 1 agent_office = Some running_row" "x_status running_row = X_RUNNING" "x_id running_row = 1"
    by (simp_all add: exec_get_def agent_office_def empty_db_def running_row_def sample_execution_def)
  have t: "t_owner dispatching_task = 7" "t_execution dispatching_task = Some 1"
    "t_budget_day dispatching_task = Some 0" "t_dispatch_at dispatching_task = Some 3"
    "execution_bound dispatching_task running_row"
    by (simp_all add: execution_bound_def dispatching_task_def leased_task_def running_row_def sample_execution_def)
  let ?v = "\<lparr>vd_status = SUCCEEDED, vd_code = [], vd_result = [], vd_unknown = False, vd_count = False,
      vd_reset = False, vd_halt = False\<rparr>"
  have codes: "verdict_codes ?v" by (simp add: verdict_codes_def)
  obtain v d1 where s: "settle 60 dispatching_task ?v agent_office = Inr (v, d1)"
    using settle_total [OF codes] by blast
  have vok: "verdict_ok ?v" by (simp add: verdict_ok_def)
  note so = settle_ok [OF office_tables(4) vok s]
  obtain xs where d1: "d1 = agent_office\<lparr>d_executions := xs\<rparr>" using so by blast
  have set: "setting_get 7 agent_office = Some match_setting"
    by (simp add: setting_get_def agent_office_def empty_db_def match_setting_def default_setting_def)
  have cand: "success_candidate dispatching_task 60 d = Inr d" for d
    by (simp add: success_candidate_def AUTONOMY_DYNAMIC_CANDIDATE_TASKS_def dispatching_task_def leased_task_def)
  obtain d2 where d2: "finish_setting v False None (S ''autonomy_halted'') 60 dispatching_task (Some match_setting)
      (put_task (finished_row v 60 dispatching_task) d1) = Inr d2"
    by (simp add: finish_setting_def cand)
  have u2: "d_usages d2 = d_usages agent_office"
    using finish_setting_effect(2) [OF d2] by (simp add: d1 put_task_def)
  have usage: "usage_table_ok d2" using office_tables(2) usage_get_frame(2) [OF u2] by simp
  have some: "usage_get 7 0 agent_office \<noteq> None"
    by (simp add: usage_get_def agent_office_def empty_db_def zero_usage_def)
  obtain d3 where d3: "settle_budget v False 60 dispatching_task d2 = Inr d3"
    using settle_budget_total [OF usage, of dispatching_task False v 60] t some usage_get_frame(1) [OF u2] by auto
  have "task_inv dispatching_task"
    by (rule task_row_inv [OF office_tables(1)]) (simp add: agent_office_def empty_db_def)
  then have con: "task_constraints (finished_row v 60 dispatching_task)"
    using finished_row_ok so
    by (intro finished_constraints) (auto simp: dispatching_task_def)
  have retry: "retryable (completion SUCCEEDED []) = False" "refund_budget (completion SUCCEEDED []) = False"
    by (simp_all add: completion_def)
  show ?thesis
    unfolding sql_finish_task_def r and_then_simps f option.case Let_def t(1) s prod.case set
    by (simp add: retry d2 d3 con)
qed

theorem finish_agrees_with_audit_witness:
  "\<exists>d'. sql_finish_task 60 2 (S ''permit'') (completion SUCCEEDED []) 60 agent_office agent_office = Inr (True, d')
    \<and> (\<exists>u \<in> set (d_tasks d'). t_id u = 2 \<and> t_status u \<in> AUTONOMY_TERMINAL_STATUSES)"
proof -
  obtain d' where d': "sql_finish_task 60 2 (S ''permit'') (completion SUCCEEDED []) 60 agent_office agent_office
      = Inr (True, d')"
    using office_finishes by blast
  from finish_agrees_with_audit [OF office_tables(1,4,2,3) task_progress_refl office_completion d']
  obtain t u where "t_id t = 2" "same_binding t u" "u \<in> set (d_tasks d')" "t_status u \<in> AUTONOMY_TERMINAL_STATUSES"
    by blast
  then have "t_id u = 2" by (simp add: same_binding_def)
  with \<open>u \<in> set (d_tasks d')\<close> \<open>t_status u \<in> AUTONOMY_TERMINAL_STATUSES\<close> d' show ?thesis by blast
qed

end
