(* ===== verification/Task_Ledger.thy ===== *)
theory Task_Ledger
  imports Finish_Properties
begin

text \<open>
  The repositories of \<^verbatim>\<open>bbw_agent/repositories.py\<close> together: a step is one committed call of the task
  queue, the audit of executions, the reservation, the closing of tasks or the policy of an owner, by
  any worker, in any order.  The ledger relates the tables: every reserved task is backed by a usage row
  of its day that still counts it, every linked execution exists and belongs to the task.
\<close>

section \<open>The ledger\<close>

text \<open>The tasks of an owner that hold a reservation of a category on a day.\<close>

definition held :: "uuid \<Rightarrow> int \<Rightarrow> usage_category \<Rightarrow> agent_db \<Rightarrow> uuid set" where
  "held owner day c d =
     t_id ` {t \<in> set (d_tasks d). t_status t = DISPATCHING \<and> t_owner t = owner
              \<and> t_budget_day t = Some day \<and> row_category t = c}"

definition task_linked :: "agent_db \<Rightarrow> task_row \<Rightarrow> bool" where
  "task_linked d t \<longleftrightarrow>
     (\<forall>eid. t_execution t = Some eid \<longrightarrow> (\<exists>x. exec_get (t_owner t) eid d = Some x \<and> execution_bound t x))"

definition task_backed :: "agent_db \<Rightarrow> task_row \<Rightarrow> bool" where
  "task_backed d t \<longleftrightarrow> (\<forall>day. t_budget_day t = Some day \<longrightarrow> usage_get (t_owner t) day d \<noteq> None)"

definition target_normal :: "task_row \<Rightarrow> bool" where
  "target_normal t \<longleftrightarrow> (\<forall>u. t_target t = Some u \<longrightarrow> row_target u = Inr u)"

definition ledger_ok :: "agent_db \<Rightarrow> bool" where
  "ledger_ok d \<longleftrightarrow>
     task_table_ok d \<and> execution_table_ok d \<and> usage_table_ok d \<and> setting_table_ok d
     \<and> (\<forall>t \<in> set (d_tasks d). task_linked d t \<and> task_backed d t \<and> target_normal t)
     \<and> (\<forall>owner day c. int (card (held owner day c d)) \<le> used_count owner day c d)"

lemma ledger_tables:
  assumes "ledger_ok d"
  shows "task_table_ok d" "execution_table_ok d" "usage_table_ok d" "setting_table_ok d"
  using assms by (simp_all add: ledger_ok_def)

lemma ledger_rows:
  assumes "ledger_ok d" "t \<in> set (d_tasks d)"
  shows "task_linked d t" "task_backed d t" "target_normal t" "task_inv t"
  using assms task_row_inv by (auto simp: ledger_ok_def)

lemma ledger_counts: "ledger_ok d \<Longrightarrow> int (card (held owner day c d)) \<le> used_count owner day c d"
  by (simp add: ledger_ok_def)

lemma finite_held [simp]: "finite (held owner day c d)"
  by (simp add: held_def)

lemma held_tasks: "d_tasks d' = d_tasks d \<Longrightarrow> held owner day c d' = held owner day c d"
  by (simp add: held_def)

text \<open>What one step may do to a row without touching its reservation.\<close>

definition quiet :: "task_row \<Rightarrow> task_row \<Rightarrow> bool" where
  "quiet t u \<longleftrightarrow>
     same_binding t u \<and> t_execution u = t_execution t \<and> t_budget_day u = t_budget_day t
     \<and> t_action_key u = t_action_key t \<and> (t_status u = DISPATCHING \<longrightarrow> u = t)"

definition fresh_row :: "task_row \<Rightarrow> bool" where
  "fresh_row t \<longleftrightarrow> t_status t = QUEUED \<and> t_execution t = None \<and> t_budget_day t = None \<and> target_normal t"

definition quiet_step :: "agent_db \<Rightarrow> agent_db \<Rightarrow> bool" where
  "quiet_step d d' \<longleftrightarrow>
     (\<exists>ts. d' = d\<lparr>d_tasks := ts\<rparr>)
     \<and> (\<forall>u \<in> set (d_tasks d'). fresh_row u \<or> (\<exists>t \<in> set (d_tasks d). quiet t u))"

lemma quiet_refl [simp]: "quiet t t"
  by (simp add: quiet_def same_binding_def)

lemma quiet_step_refl [simp]: "quiet_step d d"
  unfolding quiet_step_def by (metis agent_db.unfold_congs(1) agent_db.surjective quiet_refl
    agent_db.update_convs(1))

lemma quiet_row:
  assumes "quiet t u"
  shows "task_linked d u = task_linked d t" "task_backed d u = task_backed d t"
    "target_normal u = target_normal t" "row_category u = row_category t"
  using assms
  by (simp_all add: quiet_def same_binding_def task_linked_def task_backed_def target_normal_def
      execution_bound_def row_category_def)

lemma quiet_where:
  assumes "\<And>t. t \<in> set (d_tasks d) \<Longrightarrow> P t \<Longrightarrow> quiet t (f t)"
  shows "quiet_step d (d\<lparr>d_tasks := update_where P f (d_tasks d)\<rparr>)"
  using assms unfolding quiet_step_def
  by (auto simp: update_where_def) (metis quiet_refl)

lemma quiet_put:
  assumes "task_table_ok d" "t \<in> set (d_tasks d)" "quiet t u"
  shows "quiet_step d (put_task u d)"
  unfolding put_task_def
proof (rule quiet_where)
  fix y assume y: "y \<in> set (d_tasks d)" "t_id y = t_id u"
  have "t_id u = t_id t" using assms(3) by (simp add: quiet_def same_binding_def)
  then have "y = t"
    using assms(1,2) y distinct_map_inject unfolding task_table_ok_def by metis
  with assms(3) show "quiet y u" by simp
qed

lemma quiet_held: "quiet_step d d' \<Longrightarrow> held owner day c d' \<subseteq> held owner day c d"
  unfolding held_def quiet_step_def fresh_row_def quiet_def by (intro image_mono) auto

lemma quiet_step_ledger:
  assumes ok: "ledger_ok d" and q: "quiet_step d d'" and table: "task_table_ok d'"
  shows "ledger_ok d'"
proof -
  obtain ts where d': "d' = d\<lparr>d_tasks := ts\<rparr>" using q by (auto simp: quiet_step_def)
  have same: "d_executions d' = d_executions d" "d_usages d' = d_usages d" "d_settings d' = d_settings d"
    by (simp_all add: d')
  have ex: "exec_get o' e d' = exec_get o' e d" "usage_get o' day d' = usage_get o' day d" for o' e day
    by (simp_all add: exec_get_def usage_get_def same)
  have "task_linked d' u \<and> task_backed d' u \<and> target_normal u" if "u \<in> set (d_tasks d')" for u
  proof -
    have "fresh_row u \<or> (\<exists>t \<in> set (d_tasks d). quiet t u)" using q that by (simp add: quiet_step_def)
    then have "task_linked d u \<and> task_backed d u \<and> target_normal u"
      using ledger_rows [OF ok] quiet_row by (metis fresh_row_def option.distinct(1) task_backed_def task_linked_def)
    then show ?thesis by (simp add: task_linked_def task_backed_def ex)
  qed
  moreover have "int (card (held o' day c d')) \<le> used_count o' day c d'" for o' day c
  proof -
    have "card (held o' day c d') \<le> card (held o' day c d)"
      by (rule card_mono [OF finite_held quiet_held [OF q]])
    then show ?thesis using ledger_counts [OF ok, of o' day c] by (simp add: used_count_def ex)
  qed
  moreover have "execution_table_ok d'" "usage_table_ok d'" "setting_table_ok d'"
    using ledger_tables [OF ok] by (simp_all add: execution_table_ok_def usage_table_ok_def setting_table_ok_def same)
  ultimately show ?thesis using table by (simp add: ledger_ok_def)
qed

section \<open>The queue\<close>

lemma row_target_normal: "row_target v = Inr u \<Longrightarrow> row_target u = Inr u"
  by (auto simp: row_target_def row_targets_def Let_def split: if_splits)

lemma enqueue_fresh:
  assumes "enqueue_task nid now q d = Inr ((t, True), d')"
  shows "fresh_row t"
proof -
  obtain ty key target where t: "t = new_task nid now q ty key target" and c: "enqueue_checks q = Inr target"
    using assms
    by (auto simp: enqueue_task_def and_then_Inr_iff Let_def split: option.splits if_splits)
  have "target = [] \<or> row_target target = Inr target"
    using c row_target_normal
    by (auto simp: enqueue_checks_def and_then_Inr_iff Let_def split: if_splits)
  then show ?thesis
    by (auto simp: t fresh_row_def new_task_def target_normal_def none_if_empty_def)
qed

lemma quiet_closed:
  "t_status t \<noteq> DISPATCHING \<Longrightarrow> s \<noteq> DISPATCHING \<Longrightarrow> quiet t (closed_row s code at t)"
  "t_status t \<noteq> DISPATCHING \<Longrightarrow> s \<noteq> DISPATCHING \<Longrightarrow> quiet t ((closed_row s code at t)\<lparr>t_unknown := b\<rparr>)"
  "t_status t \<noteq> DISPATCHING \<Longrightarrow> s \<noteq> DISPATCHING \<Longrightarrow>
     quiet t ((closed_row s code at t)\<lparr>t_result := r, t_unknown := b\<rparr>)"
  by (simp_all add: quiet_def closed_row_def same_binding_def)

lemma quiet_claimed: "quiet t (claimed w token now until t)"
  by (simp add: quiet_def claimed_def same_binding_def)

lemma quiet_update:
  assumes "update_tasks P f d = (b, d')" "\<And>t. P t \<Longrightarrow> quiet t (f t)"
  shows "quiet_step d d'"
  using assms quiet_where [of d P f] by (auto simp: update_tasks_def)

lemma queue_step_quiet:
  assumes "queue_step d d'" and ok: "task_table_ok d"
  shows "quiet_step d d'"
  using assms(1)
proof cases
  case (enqueue new_id now q r)
  obtain t created where r: "r = (t, created)" by (cases r)
  show ?thesis
  proof (cases created)
    case True
    then have enq: "enqueue_task new_id now q d = Inr ((t, True), d')" using enqueue(1) r by simp
    have d': "d' = d\<lparr>d_tasks := d_tasks d @ [t]\<rparr>"
      using enqueue_cases [OF enq] by (metis (full_types))
    have "fresh_row u \<or> (\<exists>t \<in> set (d_tasks d). quiet t u)" if "u \<in> set (d_tasks d')" for u
      using that enqueue_fresh [OF enq] by (cases "u = t") (auto simp: d' intro: bexI [of _ u])
    then show ?thesis unfolding quiet_step_def using d' by blast
  next
    case False
    then have enq: "enqueue_task new_id now q d = Inr ((t, False), d')" using enqueue(1) r by simp
    have "d' = d" using enqueue_cases [OF enq] by (metis (full_types))
    then show ?thesis by simp
  qed
next
  case (claim_next locked token worker now until r')
  show ?thesis
  proof (cases r')
    case None
    with claim_next have "d' = d"
      by (cases "sort_key (\<lambda>t. (t_not_before t, t_queued_at t))
            (filter (\<lambda>t. task_due now t \<and> \<not> locked (t_id t)) (d_tasks d))")
        (auto simp: sql_claim_next_def and_then_Inr_iff Let_def)
    then show ?thesis by simp
  next
    case (Some u)
    with claim_next claim_next_row quiet_put [OF ok _ quiet_claimed] show ?thesis by metis
  qed
next
  case (claim_task locked token tid worker now until r')
  show ?thesis
  proof (cases r')
    case None
    with claim_task show ?thesis
      by (auto simp: sql_claim_task_def and_then_Inr_iff Let_def split: option.splits)
  next
    case (Some u)
    with claim_task claim_task_row quiet_put [OF ok _ quiet_claimed] show ?thesis by metis
  qed
next
  case (generation tid token now until b)
  then show ?thesis unfolding sql_begin_generation_def
    by (rule quiet_update) (simp add: quiet_def same_binding_def)
next
  case (renew tid token now until b)
  then show ?thesis unfolding sql_renew_lease_def
    by (rule quiet_update) (auto simp: quiet_def same_binding_def)
next
  case (defers tid token nb code now b)
  then obtain c where "update_tasks (\<lambda>t. t_id t = tid \<and> t_status t \<in> {LEASED, GENERATING}
             \<and> t_lease_token t = Some token)
           (\<lambda>t. t\<lparr>t_status := DEFERRED, t_not_before := Some nb, t_error := Some c,
                 t_lease_owner := None, t_lease_token := None, t_lease_until := None,
                 t_updated_at := now\<rparr>) d = (b, d')"
    unfolding sql_defer_task_def and_then_Inr_iff sum.inject by blast
  then show ?thesis by (rule quiet_update) (simp add: quiet_def same_binding_def)
next
  case (model_run now tid token run b)
  then show ?thesis unfolding record_model_run_id_def
    by (rule quiet_update) (simp add: quiet_def same_binding_def)
next
  case (budget locked owner usage s at n)
  show ?thesis
    unfolding conjunct2 [OF budget [unfolded cancel_budget_exhausted_def Let_def prod.inject], THEN sym]
    by (rule quiet_where, rule quiet_closed(3)) auto
next
  case (superseded E locked owner at n)
  then have d': "d' = d\<lparr>d_tasks := update_where (\<lambda>t. t_owner t = owner \<and> t_type t = REPLY_TO_MESSAGE
        \<and> t_status t \<in> {QUEUED, DEFERRED} \<and> \<not> locked (t_id t) \<and> \<not> still_head E owner d t)
      (closed_row STALE (S ''inbound_message_superseded'') at) (d_tasks d)\<rparr>"
    by (auto simp: cancel_superseded_def Let_def)
  show ?thesis unfolding d' by (rule quiet_where, rule quiet_closed(1)) auto
next
  case (contact owner peer at n)
  then obtain target where d': "d' = d\<lparr>d_tasks := update_where (\<lambda>t. t_owner t = owner \<and> t_target t = Some target
        \<and> t_type t = REPLY_TO_MESSAGE \<and> t_status t \<in> AUTONOMY_NOT_STARTED_STATUSES)
      (closed_row STALE (S ''contact_policy_changed'') at) (d_tasks d)\<rparr>"
    by (auto simp: cancel_for_contact_policy_change_def and_then_Inr_iff Let_def)
  show ?thesis unfolding d' by (rule quiet_where, rule quiet_closed(1)) auto
next
  case (not_started now code owner' n)
  then obtain c P where d': "d' = d\<lparr>d_tasks := update_where P
      (\<lambda>t. (closed_row CANCELLED c now t)\<lparr>t_unknown := False\<rparr>) (d_tasks d)\<rparr>"
    and P: "\<And>t. P t \<Longrightarrow> t_status t \<in> AUTONOMY_NOT_STARTED_STATUSES"
    unfolding cancel_not_started_def and_then_Inr_iff Let_def by auto
  show ?thesis unfolding d' using P by (intro quiet_where quiet_closed(2)) (auto dest: P)
qed

section \<open>The audit\<close>

lemma same_audit: "\<exists>xs. d = d\<lparr>d_executions := xs\<rparr>"
  by (rule exI [of _ "d_executions d"]) simp

lemma exec_step_frame: "exec_step d d' \<Longrightarrow> \<exists>xs. d' = d\<lparr>d_executions := xs\<rparr>"
proof (induction rule: exec_step.induct)
  case (enqueue now new_id owner account action key version ts ps approval trigger d r d')
  show ?case
  proof (cases "exec_find_key owner (py_strip action) (py_strip key) d")
    case None
    with enqueue(1) show ?thesis
      by (auto simp: exec_enqueue_def and_then_Inr_iff row_action_def row_key_def Let_def split: if_splits)
  next
    case (Some y)
    obtain x d2 where m: "mark_stale_running_row y now d = (x, d2)" by (metis surj_pair)
    then have "d' = d2"
      using enqueue(1) Some
      by (auto simp: exec_enqueue_def and_then_Inr_iff row_action_def row_key_def Let_def split: if_splits)
    with m show ?thesis
      by (auto simp: mark_stale_running_row_def put_execution_def Let_def
          intro: same_audit split: if_splits)
  qed
qed (auto simp: mark_stale_running_def exec_claim_next_def exec_start_def exec_succeed_def exec_fail_def
      exec_mark_unknown_def exec_close_def exec_cancel_queued_def exec_cancel_all_queued_def and_then_Inr_iff
      put_execution_def Let_def intro: same_audit split: option.splits if_splits list.splits)

lemma exec_get_progress:
  assumes tables: "execution_table_ok d" "execution_table_ok d'" and prog: "execution_progress d d'"
    and x: "exec_get owner eid d = Some x"
  obtains y where "exec_get owner eid d' = Some y" "execution_change x y"
proof -
  note m = exec_get_in [OF x]
  obtain y where y: "y \<in> set (d_executions d')" "execution_change x y"
    using prog m by (auto simp: execution_progress_def)
  have "x_id y = eid" "x_owner y = owner" using execution_change_key [OF y(2)] m by simp_all
  moreover have "distinct (map x_id (d_executions d'))" using tables(2) by (simp add: execution_table_ok_def)
  moreover obtain z where z: "exec_get owner eid d' = Some z"
    using y(1) calculation(1,2) unfolding exec_get_def
    by (cases "find (\<lambda>x. x_owner x = owner \<and> x_id x = eid) (d_executions d')") (auto dest: find_NoneD)
  ultimately have "exec_get owner eid d' = Some y"
    using exec_get_in [OF z] y(1) by (auto dest: distinct_map_inject)
  with y(2) that show thesis by blast
qed

text \<open>A step that changes the audit only.\<close>

lemma audit_ledger:
  assumes ok: "ledger_ok d" and d': "d' = d\<lparr>d_executions := xs\<rparr>"
    and table: "execution_table_ok d'" "execution_progress d d'"
  shows "ledger_ok d'"
proof -
  have ex: "usage_get o' day d' = usage_get o' day d" "d_tasks d' = d_tasks d" for o' day
    by (simp_all add: usage_get_def d')
  have "task_linked d' t" if t: "t \<in> set (d_tasks d)" for t
    unfolding task_linked_def
  proof (intro allI impI)
    fix eid assume "t_execution t = Some eid"
    then obtain x where x: "exec_get (t_owner t) eid d = Some x" "execution_bound t x"
      using ledger_rows(1) [OF ok t] by (auto simp: task_linked_def)
    obtain y where "exec_get (t_owner t) eid d' = Some y" "execution_change x y"
      by (rule exec_get_progress [OF ledger_tables(2) [OF ok] table x(1)])
    with x(2) bound_change show "\<exists>y. exec_get (t_owner t) eid d' = Some y \<and> execution_bound t y" by blast
  qed
  moreover have "held o' day c d' = held o' day c d" for o' day c by (rule held_tasks [OF ex(2)])
  moreover have "task_table_ok d'" "usage_table_ok d'" "setting_table_ok d'"
    using ledger_tables [OF ok] by (simp_all add: task_table_ok_def usage_table_ok_def setting_table_ok_def d')
  ultimately show ?thesis
    using table(1) ledger_rows(2,3) [OF ok] ledger_counts [OF ok]
    by (simp add: ledger_ok_def task_backed_def used_count_def ex)
qed

lemma exec_step_ledger: "exec_step d d' \<Longrightarrow> ledger_ok d \<Longrightarrow> ledger_ok d'"
  using exec_step_frame exec_step_ok ledger_tables(2) audit_ledger by metis

section \<open>The reservation\<close>

lemma reserved_row: "t_id (dispatching_row q permit t) = t_id t" "t_owner (dispatching_row q permit t) = t_owner t"
  "t_status (dispatching_row q permit t) = DISPATCHING" "t_execution (dispatching_row q permit t) = t_execution t"
  "t_budget_day (dispatching_row q permit t) = Some (req_budget_day q)"
  "row_category (dispatching_row q permit t) = row_category t"
  "t_target (dispatching_row q permit t) = t_target t"
  by (simp_all add: dispatching_row_def row_category_def)

lemma in_put_task: "u \<in> set (d_tasks (put_task v d)) \<Longrightarrow> u = v \<or> u \<in> set (d_tasks d) \<and> t_id u \<noteq> t_id v"
  by (auto simp: put_task_def in_update_where split: if_splits)

lemma reservation_ledger:
  assumes ok: "ledger_ok d" and res: "reservation_of E permit d0 q t sn d d'"
  shows "ledger_ok d'"
proof -
  let ?u = "dispatching_row q permit t"
  note r = res [unfolded reservation_of_def]
  have t: "t \<in> set (d_tasks d)" "t_owner t = req_owner q" "holds_lease t (req_lease_token q) (req_now q)"
    and tasks: "d_tasks d' = d_tasks (put_task ?u d)" and execs: "d_executions d' = d_executions d"
    and sn: "get_policy_snapshot (req_owner q) (req_target q) d0 d = Some sn"
    and usages: "usage_table_ok d'"
    and counts: "\<And>o' day c. used_count o' day c d' = used_count o' day c d
         + (if o' = req_owner q \<and> day = req_budget_day q \<and> c = row_category t then 1 else 0)"
    and keeps: "\<And>o' day. usage_get o' day d \<noteq> None \<Longrightarrow> usage_get o' day d' \<noteq> None"
    and created: "usage_get (req_owner q) (req_budget_day q) d' \<noteq> None"
    using r by blast+
  have settings: "d_settings d' = d_settings (put_setting ((sn_setting sn)\<lparr>s_last_action := Some (req_now q),
         s_last_run := Some (req_now q)\<rparr>) d)"
    using r by blast
  note rows = ledger_rows [OF ok]
  have c: "task_change t ?u" "task_inv ?u" using dispatching_row_ok [OF rows(4) [OF t(1)] t(3)] by blast+
  have table: "task_table_ok d'"
    using put_task_ok [OF ledger_tables(1) [OF ok] t(1) c] task_table_frame(1) [OF tasks] by simp
  have no_exec: "t_execution t = None"
    using not_started_life(3) [OF rows(4) [OF t(1)]] t(3) by (auto simp: holds_lease_def)
  have ex: "exec_get o' e d' = exec_get o' e d" for o' e by (rule exec_get_frame [OF execs])
  have row: "task_linked d' u \<and> task_backed d' u \<and> target_normal u" if u: "u \<in> set (d_tasks d')" for u
  proof (cases "u = ?u")
    case True
    then show ?thesis
      using created rows(3) [OF t(1)] t(2)
      by (simp add: task_linked_def task_backed_def target_normal_def reserved_row no_exec)
  next
    case False
    then have "u \<in> set (d_tasks d)" using in_put_task u tasks by metis
    then show ?thesis
      using rows(1-3) keeps by (simp add: task_linked_def task_backed_def ex)
  qed
  have held: "held o' day c d' \<subseteq> held o' day c d
      \<union> (if o' = req_owner q \<and> day = req_budget_day q \<and> c = row_category t then {t_id t} else {})" for o' day c
  proof
    fix i assume "i \<in> held o' day c d'"
    then obtain u where u: "u \<in> set (d_tasks d')" "i = t_id u" "t_status u = DISPATCHING" "t_owner u = o'"
      "t_budget_day u = Some day" "row_category u = c" by (auto simp: held_def)
    then have "u = ?u \<or> u \<in> set (d_tasks d)" using in_put_task tasks by metis
    with u t(2) show "i \<in> held o' day c d
      \<union> (if o' = req_owner q \<and> day = req_budget_day q \<and> c = row_category t then {t_id t} else {})"
      by (auto simp: reserved_row held_def)
  qed
  have count: "int (card (held o' day c d')) \<le> used_count o' day c d'" for o' day c
  proof -
    let ?new = "if o' = req_owner q \<and> day = req_budget_day q \<and> c = row_category t then {t_id t} else {}"
    have "finite (held o' day c d \<union> ?new)" by simp
    from card_mono [OF this held] card_Un_le [of "held o' day c d" ?new]
    have "card (held o' day c d') \<le> card (held o' day c d) + card ?new" by (rule order_trans)
    then show ?thesis using ledger_counts [OF ok, of o' day c] counts [of o' day c] by (auto split: if_splits)
  qed
  have set_row: "setting_get (req_owner q) d = Some (sn_setting sn)" by (rule snapshot_setting [OF sn])
  have "setting_constraints (sn_setting sn)"
    using ledger_tables(4) [OF ok] setting_get_Some [OF set_row] by (simp add: setting_table_ok_def)
  then have "setting_constraints ((sn_setting sn)\<lparr>s_last_action := Some (req_now q), s_last_run := Some (req_now q)\<rparr>)"
    by (simp add: setting_constraints_def)
  from put_setting_ok(1) [OF ledger_tables(4) [OF ok] set_row _ _ this]
  have "setting_table_ok d'" by (simp add: setting_table_ok_def settings)
  moreover have "execution_table_ok d'"
    using ledger_tables(2) [OF ok] by (simp add: execution_table_ok_def execs)
  ultimately show ?thesis using table usages row count by (simp add: ledger_ok_def)
qed

text \<open>A denied reservation at most creates the empty usage row of the day.\<close>

lemma created_ledger:
  assumes ok: "ledger_ok d" and fresh: "nid \<notin> u_id ` set (d_usages d)"
    and goc: "usage_get_or_create nid now owner day d = (u, d1)"
  shows "ledger_ok d1"
proof -
  note g = usage_get_or_create_ok [OF ledger_tables(3) [OF ok] fresh goc]
  obtain us where d1: "d1 = d\<lparr>d_usages := us\<rparr>" using g(5) by blast
  have keeps: "usage_get o' day' d1 \<noteq> None" if "usage_get o' day' d \<noteq> None" for o' day'
    using goc that
    by (cases "usage_get owner day d")
      (auto simp: usage_get_or_create_def Let_def usage_get_def find_append split: option.splits)
  have ex: "exec_get o' e d1 = exec_get o' e d" "d_tasks d1 = d_tasks d" for o' e
    by (simp_all add: exec_get_def d1)
  have "held o' day' c d1 = held o' day' c d" for o' day' c by (rule held_tasks [OF ex(2)])
  moreover have "task_table_ok d1" "execution_table_ok d1" "setting_table_ok d1"
    using ledger_tables [OF ok] by (simp_all add: task_table_ok_def execution_table_ok_def setting_table_ok_def d1)
  ultimately show ?thesis
    using g(1,9) ledger_rows(1-3) [OF ok] ledger_counts [OF ok] keeps
    by (simp add: ledger_ok_def task_linked_def task_backed_def ex)
qed

lemma begin_dispatch_ledger:
  assumes ok: "ledger_ok d" and fresh: "nid \<notin> u_id ` set (d_usages d)"
    and res: "sql_begin_dispatch E permit nid d0 q d = Inr (dec, d')"
  shows "ledger_ok d'"
proof (cases "dec_code dec = ALLOWED")
  case True
  obtain t sn where "reservation_of E permit d0 q t sn d d'"
    by (rule reservation_effect [OF ledger_tables(3) [OF ok] fresh res True])
  then show ?thesis by (rule reservation_ledger [OF ok])
next
  case False
  obtain u d1 where goc: "usage_get_or_create nid (req_now q) (req_owner q) (req_budget_day q) d = (u, d1)"
    by (metis surj_pair)
  from begin_dispatch_denied [OF res False goc] created_ledger [OF ok fresh goc] ok show ?thesis by blast
qed

section \<open>Preparing the execution\<close>

lemma enqueued_execution:
  assumes ok: "execution_table_ok d" and fresh: "nid \<notin> x_id ` set (d_executions d)"
    and enq: "exec_enqueue now nid owner account action key version ts ps approval trigger d = Inr ((x, created), d1)"
  shows "exec_step d d1" "exec_get owner (x_id x) d1 = Some x" "x_action x = py_strip action"
    "x_key x = py_strip key"
proof -
  show step: "exec_step d d1" by (rule exec_step.enqueue [OF enq fresh])
  have table: "execution_table_ok d1" using exec_step_ok [OF step ok] by blast
  have x: "x \<in> set (d_executions d1) \<and> x_owner x = owner \<and> x_action x = py_strip action \<and> x_key x = py_strip key"
  proof (cases "exec_find_key owner (py_strip action) (py_strip key) d")
    case None
    with enq show ?thesis
      by (auto simp: exec_enqueue_def and_then_Inr_iff row_action_def row_key_def Let_def split: if_splits)
  next
    case (Some y)
    then have y: "y \<in> set (d_executions d)" "x_owner y = owner" "x_action y = py_strip action"
      "x_key y = py_strip key"
      unfolding exec_find_key_def by (blast dest: find_SomeD)+
    obtain z d2 where m: "mark_stale_running_row y now d = (z, d2)" by (metis surj_pair)
    then have "x = z" "d1 = d2"
      using enq Some
      by (auto simp: exec_enqueue_def and_then_Inr_iff row_action_def row_key_def Let_def split: if_splits)
    with m y show ?thesis
      by (auto simp: mark_stale_running_row_def timed_out_execution_def put_execution_def in_update_where Let_def
          intro!: bexI [of _ y] split: if_splits)
  qed
  then have x': "x \<in> set (d_executions d1)" "x_owner x = owner" by blast+
  obtain z where z: "exec_get owner (x_id x) d1 = Some z"
    using x' unfolding exec_get_def
    by (cases "find (\<lambda>y. x_owner y = owner \<and> x_id y = x_id x) (d_executions d1)") (auto dest: find_NoneD)
  moreover have "distinct (map x_id (d_executions d1))" using table by (simp add: execution_table_ok_def)
  ultimately show "exec_get owner (x_id x) d1 = Some x"
    using exec_get_in [OF z] x'(1) by (auto dest: distinct_map_inject)
  show "x_action x = py_strip action" "x_key x = py_strip key" using x by blast+
qed

text \<open>Linking a task to an execution that belongs to it.\<close>

lemma link_ledger:
  assumes ok: "ledger_ok d" and t: "t \<in> set (d_tasks d)"
    and x: "exec_get (t_owner t) eid d = Some x" "execution_bound t x"
    and link: "record_action_execution_id now (t_id t) permit eid d = (b, d')"
  shows "ledger_ok d'"
proof -
  let ?P = "\<lambda>y. t_id y = t_id t \<and> t_status y = DISPATCHING \<and> t_lease_token y = Some permit"
  let ?f = "\<lambda>y. y\<lparr>t_execution := Some eid, t_updated_at := now\<rparr>"
  have d': "d' = d\<lparr>d_tasks := update_where ?P ?f (d_tasks d)\<rparr>"
    using link by (simp add: record_action_execution_id_def update_tasks_def)
  have table: "task_table_ok d'"
    using linking.keeps_table [OF ledger_tables(1) [OF ok] link [unfolded record_action_execution_id_def]] by blast
  have only: "y = t" if "y \<in> set (d_tasks d)" "t_id y = t_id t" for y
    using ledger_tables(1) [OF ok] that t distinct_map_inject unfolding task_table_ok_def by metis
  have ex: "exec_get o' e d' = exec_get o' e d" "usage_get o' day d' = usage_get o' day d" for o' e day
    by (simp_all add: exec_get_def usage_get_def d')
  have old: "u \<in> set (d_tasks d) \<or> u = ?f t" if "u \<in> set (d_tasks d')" for u
    using that only by (auto simp: d' in_update_where split: if_splits)
  have "task_linked d' u \<and> task_backed d' u \<and> target_normal u" if "u \<in> set (d_tasks d')" for u
    using old [OF that]
  proof
    assume "u \<in> set (d_tasks d)"
    then show ?thesis using ledger_rows(1-3) [OF ok] by (simp add: task_linked_def task_backed_def ex)
  next
    assume u: "u = ?f t"
    have "execution_bound u x" using x(2) by (simp add: u execution_bound_def)
    then show ?thesis
      using x(1) ledger_rows(2,3) [OF ok t] by (simp add: u task_linked_def task_backed_def target_normal_def ex)
  qed
  moreover have "held o' day c d' \<subseteq> held o' day c d" for o' day c
  proof
    fix i assume "i \<in> held o' day c d'"
    then obtain u where "u \<in> set (d_tasks d')" "i = t_id u" "t_status u = DISPATCHING" "t_owner u = o'"
      "t_budget_day u = Some day" "row_category u = c" by (auto simp: held_def)
    with old t show "i \<in> held o' day c d" by (fastforce simp: held_def row_category_def)
  qed
  then have "int (card (held o' day c d')) \<le> used_count o' day c d'" for o' day c
    using ledger_counts [OF ok, of o' day c] card_mono [OF finite_held, of "held o' day c d'" o' day c d]
    by (fastforce simp: used_count_def ex)
  moreover have "execution_table_ok d'" "usage_table_ok d'" "setting_table_ok d'"
    using ledger_tables [OF ok] by (simp_all add: execution_table_ok_def usage_table_ok_def setting_table_ok_def d')
  ultimately show ?thesis using table by (simp add: ledger_ok_def)
qed

text \<open>What a call that prepares an execution does: it finds or creates the audit row under the key, links
  it, and starts it when it is queued.\<close>

lemma prepare_cases:
  assumes ok: "execution_table_ok d" and fresh: "nid \<notin> x_id ` set (d_executions d)"
    and prep: "prepare_action_execution now nid permit action key ts ps d = Inr (r, d')"
  obtains (none) "r = None" "d' = d"
    | (some) t x created d1 d2 where
      "t \<in> set (d_tasks d)" "permitted_task permit (py_strip action) (py_strip key) t"
      "exec_step d d1" "exec_get (t_owner t) (x_id x) d1 = Some x"
      "exec_enqueue now nid (t_owner t) (t_account t) (py_strip action) (py_strip key)
         (t_execution_version t) ts ps (S ''user_allowlist'') (S ''schedule'') d = Inr ((x, created), d1)"
      "execution_bound t x" "link_execution now t permit x d1 = Inr d2"
      "if x_status x = X_QUEUED
       then \<exists>x'. exec_start now (t_owner t) (x_id x) d2 = (Some x', d') \<and> r = Some (prepared t x' True)
       else d' = d2 \<and> r = Some (prepared t x False)"
proof -
  obtain a k where ak: "row_action action = Inr a" "row_key key = Inr k"
    using prep unfolding prepare_action_execution_def and_then_Inr_iff by blast
  then have strip: "a = py_strip action" "k = py_strip key"
    by (auto simp: row_action_def row_key_def Let_def split: if_splits)
  show thesis
  proof (cases "find (permitted_task permit a k) (d_tasks d)")
    case None
    with prep ak show thesis by (intro none) (simp_all add: prepare_action_execution_def)
  next
    case (Some t)
    note t = find_SomeD [OF Some]
    obtain x created d1 where enq: "exec_enqueue now nid (t_owner t) (t_account t) a k (t_execution_version t) ts ps
        (S ''user_allowlist'') (S ''schedule'') d = Inr ((x, created), d1)"
      using prep by (auto simp: prepare_action_execution_def and_then_Inr_iff ak Some)
    have same: "same_execution t x ts ps"
      using prep enq by (auto simp: prepare_action_execution_def and_then_Inr_iff ak Some split: if_splits)
    obtain d2 where d2: "link_execution now t permit x d1 = Inr d2"
      using prep enq same by (auto simp: prepare_action_execution_def and_then_Inr_iff ak Some)
    note e = enqueued_execution [OF ok fresh enq]
    have bound: "execution_bound t x"
      using same t e(3,4) by (auto simp: same_execution_def permitted_task_def execution_bound_def strip)
    have last: "if x_status x = X_QUEUED
       then \<exists>x'. exec_start now (t_owner t) (x_id x) d2 = (Some x', d') \<and> r = Some (prepared t x' True)
       else d' = d2 \<and> r = Some (prepared t x False)"
      using prep enq same d2
      by (auto simp: prepare_action_execution_def ak Some split: if_splits option.splits prod.splits)
    show thesis
      by (rule some [OF _ _ e(1,2) _ bound d2 last]) (use t enq strip in simp_all)
  qed
qed

lemma link_execution_ledger:
  assumes ok: "ledger_ok d" and t: "t \<in> set (d_tasks d)"
    and x: "exec_get (t_owner t) (x_id x) d = Some x" "execution_bound t x"
    and l: "link_execution now t permit x d = Inr d'"
  shows "ledger_ok d'"
proof (cases "t_execution t")
  case None
  obtain b d2 where r: "record_action_execution_id now (t_id t) permit (x_id x) d = (b, d2)" by (metis surj_pair)
  then have "d' = d2" using l None by (auto simp: link_execution_def split: if_splits)
  with link_ledger [OF ok t x r] show ?thesis by simp
next
  case (Some eid)
  then have "d' = d" using l by (auto simp: link_execution_def split: if_splits)
  with ok show ?thesis by simp
qed

lemma prepare_ledger:
  assumes ok: "ledger_ok d" and fresh: "nid \<notin> x_id ` set (d_executions d)"
    and prep: "prepare_action_execution now nid permit action key ts ps d = Inr (r, d')"
  shows "ledger_ok d'"
proof (cases rule: prepare_cases [OF ledger_tables(2) [OF ok] fresh prep, case_names none some])
  case none
  with ok show ?thesis by simp
next
  case (some t x created d1 d2)
  have d1: "ledger_ok d1" by (rule exec_step_ledger [OF some(3) ok])
  have "d_tasks d1 = d_tasks d" using exec_step_frame [OF some(3)] by auto
  then have t1: "t \<in> set (d_tasks d1)" using some(1) by simp
  have d2: "ledger_ok d2" by (rule link_execution_ledger [OF d1 t1 some(4,6,7)])
  show ?thesis
  proof (cases "x_status x = X_QUEUED")
    case True
    then obtain x' where "exec_start now (t_owner t) (x_id x) d2 = (Some x', d')" using some(8) by auto
    then show ?thesis using exec_step_ledger [OF exec_step.start d2] by blast
  qed (use some(8) d2 in simp)
qed

section \<open>Closing tasks\<close>

text \<open>An open row that holds a budget day is dispatching.\<close>

lemma budget_dispatching:
  assumes "task_inv t" "t_status t \<notin> AUTONOMY_TERMINAL_STATUSES" "t_budget_day t \<noteq> None"
  shows "t_status t = DISPATCHING"
proof (rule ccontr)
  assume "t_status t \<noteq> DISPATCHING"
  then have "t_status t \<in> AUTONOMY_NOT_STARTED_STATUSES"
    using assms(2) by (cases "t_status t") (simp_all add: status_sets)
  then show False using not_started_life(2) [OF assms(1)] assms(3) by simp
qed

lemma finished_fields:
  "t_id (finished_row v now t) = t_id t" "t_owner (finished_row v now t) = t_owner t"
  "t_status (finished_row v now t) = vd_status v"
  "t_execution (finished_row v now t) = t_execution t" "t_budget_day (finished_row v now t) = t_budget_day t"
  "t_target (finished_row v now t) = t_target t" "execution_bound (finished_row v now t) x = execution_bound t x"
  by (simp_all add: finished_row_def execution_bound_def)

lemma closing_ledger:
  assumes ok: "ledger_ok d" and cl: "closing t v refund now d d'"
  shows "ledger_ok d'"
proof -
  let ?u = "finished_row v now t"
  note c = cl [unfolded closing_def]
  have t: "t \<in> set (d_tasks d)" "t_status t \<notin> AUTONOMY_TERMINAL_STATUSES" "verdict_ok v"
    and tasks: "d_tasks d' = d_tasks (put_task ?u d)"
    and audit: "\<exists>d1. audit_settled t v d d1 \<and> d_executions d' = d_executions d1"
    and usages: "usage_table_ok d'"
    and same: "\<And>o' day. (usage_get o' day d' = None) = (usage_get o' day d = None)"
    and counts: "\<And>o' day c. used_count o' day c d' = used_count o' day c d
         - (if refund \<and> t_budget_day t = Some day \<and> o' = t_owner t \<and> c = row_category t then 1 else 0)"
    using c by blast+
  note row = closing_row [OF ledger_tables(1,4) [OF ok] cl]
  have terminal: "vd_status v \<noteq> DISPATCHING" using t(3) by (auto simp: verdict_ok_def status_sets)
  obtain d1 where d1: "d1 = d \<or> exec_step d d1" "\<exists>xs. d1 = d\<lparr>d_executions := xs\<rparr>"
    and execs: "d_executions d' = d_executions d1"
    using audit unfolding audit_settled_def by blast
  have l1: "ledger_ok d1" using d1(1) exec_step_ledger ok by blast
  have tasks1: "d_tasks d1 = d_tasks d" using d1(2) by auto
  have ex: "exec_get o' e d' = exec_get o' e d1" for o' e by (rule exec_get_frame [OF execs])
  have old: "u = ?u \<or> u \<in> set (d_tasks d) \<and> t_id u \<noteq> t_id t" if "u \<in> set (d_tasks d')" for u
    using in_put_task that tasks by (metis finished_fields(1))
  have rows: "task_linked d' u \<and> task_backed d' u \<and> target_normal u" if u: "u \<in> set (d_tasks d')" for u
  proof -
    obtain w where w: "w \<in> set (d_tasks d)" "t_owner u = t_owner w" "t_execution u = t_execution w"
      "t_budget_day u = t_budget_day w" "t_target u = t_target w" "\<And>x. execution_bound u x = execution_bound w x"
    proof (cases "u = ?u")
      case True
      then show thesis using that [OF t(1)] by (simp add: finished_fields)
    next
      case False
      then show thesis using old [OF u] that by blast
    qed
    have "task_linked d1 w" using ledger_rows(1) [OF l1] w(1) tasks1 by simp
    then show ?thesis
      using ledger_rows(2,3) [OF ok w(1)] same
      by (simp add: task_linked_def task_backed_def target_normal_def w ex)
  qed
  have held: "held o' day c d' \<subseteq> held o' day c d - {t_id t}" for o' day c
  proof
    fix i assume "i \<in> held o' day c d'"
    then obtain u where u: "u \<in> set (d_tasks d')" "i = t_id u" "t_status u = DISPATCHING" "t_owner u = o'"
      "t_budget_day u = Some day" "row_category u = c" by (auto simp: held_def)
    then have "u \<in> set (d_tasks d) \<and> t_id u \<noteq> t_id t" using old terminal finished_fields(3) by metis
    with u show "i \<in> held o' day c d - {t_id t}" by (auto simp: held_def)
  qed
  have count: "int (card (held o' day c d')) \<le> used_count o' day c d'" for o' day c
  proof (cases "refund \<and> t_budget_day t = Some day \<and> o' = t_owner t \<and> c = row_category t")
    case True
    then have "t_status t = DISPATCHING"
      using budget_dispatching [OF ledger_rows(4) [OF ok t(1)] t(2)] by simp
    with True t(1) have i: "t_id t \<in> held o' day c d" by (auto simp: held_def)
    have "card (held o' day c d') \<le> card (held o' day c d - {t_id t})" by (rule card_mono [OF _ held]) simp
    also have "\<dots> = card (held o' day c d) - 1" using i by simp
    finally have "card (held o' day c d') \<le> card (held o' day c d) - 1" .
    moreover have "card (held o' day c d) \<ge> 1" using i by (metis One_nat_def Suc_leI card_gt_0_iff empty_iff finite_held)
    ultimately show ?thesis
      using True ledger_counts [OF ok, of o' day c] counts [of o' day c] by simp
  next
    case False
    have "card (held o' day c d') \<le> card (held o' day c d)"
      by (rule card_mono [OF finite_held]) (use held in blast)
    moreover have "used_count o' day c d' = used_count o' day c d"
      using counts [of o' day c] unfolding if_not_P [OF False] by simp
    ultimately show ?thesis using ledger_counts [OF ok, of o' day c] by simp
  qed
  have "execution_table_ok d'"
    using ledger_tables(2) [OF l1] by (simp add: execution_table_ok_def execs)
  then show ?thesis using row(2,3) usages rows count by (simp add: ledger_ok_def)
qed

lemma finish_ledger:
  assumes ok: "ledger_ok d" and later: "task_progress d0 d" and c: "post_init_completion c0 = Inr c"
    and fin: "sql_finish_task now_x tid token c now d0 d = Inr (b, d')"
  shows "ledger_ok d'"
  using finish_task_closing [OF ledger_tables(1-3) [OF ok] later c fin] closing_ledger [OF ok] ok
  by (cases b) auto

text \<open>The owners read with the candidates stay the owners of the tasks.\<close>

definition owners_known :: "(uuid \<times> uuid) list \<Rightarrow> agent_db \<Rightarrow> bool" where
  "owners_known cs d \<longleftrightarrow> (\<forall>(tid, owner) \<in> set cs. \<forall>t \<in> set (d_tasks d). t_id t = tid \<longrightarrow> t_owner t = owner)"

lemma owners_closing:
  assumes known: "owners_known cs d" and cl: "closing t v refund now d d'"
  shows "owners_known cs d'"
proof -
  have t: "t \<in> set (d_tasks d)" "d_tasks d' = d_tasks (put_task (finished_row v now t) d)"
    using cl unfolding closing_def by blast+
  have "\<exists>w \<in> set (d_tasks d). t_id u = t_id w \<and> t_owner u = t_owner w" if "u \<in> set (d_tasks d')" for u
    using in_put_task [of u "finished_row v now t" d] that t finished_fields(1,2) by metis
  then show ?thesis using known unfolding owners_known_def by fastforce
qed

lemma expired_closing:
  assumes ok: "ledger_ok d" and t: "t \<in> set (d_tasks d)" "expired before t"
    and e: "expire_task now_x now code t (setting_get (t_owner t) d) d = Inr d'"
  shows "\<exists>v. closing t v False now d d'"
proof -
  have st: "t_status t = DISPATCHING" using t(2) by (simp add: expired_def)
  then have "t_lease_token t \<noteq> None" using ledger_rows(4) [OF ok t(1)] by (simp add: task_inv_iff task_life_def)
  from expire_task_closing [OF ledger_tables(2,3) [OF ok] t(1) st this e] show ?thesis .
qed

lemma expire_loop_ledger:
  "expire_loop locked now_x now before code cs n d = Inr (m, d') \<Longrightarrow> ledger_ok d \<Longrightarrow> owners_known cs d
     \<Longrightarrow> ledger_ok d'"
proof (induction locked now_x now before code cs n d rule: expire_loop.induct)
  case (2 locked now_x now before code tid owner rest changed d)
  have known: "owners_known rest d" using "2.prems"(3) by (simp add: owners_known_def)
  show ?case
  proof (cases "find (\<lambda>t. t_id t = tid \<and> expired before t \<and> \<not> locked (t_id t)) (d_tasks d)")
    case None
    with 2 known show ?thesis by simp
  next
    case (Some t)
    note t = find_SomeD [OF Some]
    obtain d1 where d1: "expire_task now_x now code t (setting_get owner d) d = Inr d1"
      "expire_loop locked now_x now before code rest (changed + 1) d1 = Inr (m, d')"
      using "2.prems"(1) Some by (auto simp: and_then_Inr_iff)
    have "owner = t_owner t" using "2.prems"(3) t by (simp add: owners_known_def)
    with d1(1) have e: "expire_task now_x now code t (setting_get (t_owner t) d) d = Inr d1" by simp
    obtain v where v: "closing t v False now d d1"
      using expired_closing [OF "2.prems"(2) _ _ e] t by blast
    show ?thesis
      using "2.IH"(2) [OF refl Some d1(2) closing_ledger [OF "2.prems"(2) v] owners_closing [OF known v]]
      by simp
  qed
qed simp

lemma candidates_known:
  "distinct (map t_id (d_tasks d)) \<Longrightarrow>
     owners_known (take n (map (\<lambda>t. (t_id t, t_owner t)) (filter P (d_tasks d)))) d"
  using distinct_map_inject by (fastforce simp: owners_known_def dest!: in_set_takeD)

lemma expire_ledger:
  assumes ok: "ledger_ok d"
    and e: "mark_expired_dispatching_unknown locked now_x now before code d = Inr (n, d')"
  shows "ledger_ok d'"
proof -
  have "distinct (map t_id (d_tasks d))" using ledger_tables(1) [OF ok] by (simp add: task_table_ok_def)
  from candidates_known [OF this] expire_loop_ledger [OF _ ok] e show ?thesis
    by (auto simp: mark_expired_dispatching_unknown_def and_then_Inr_iff Let_def)
qed

section \<open>The policy of the owner\<close>

lemma settings_ledger:
  assumes ok: "ledger_ok d" and d': "d' = d\<lparr>d_settings := ss\<rparr>" and table: "setting_table_ok d'"
  shows "ledger_ok d'"
proof -
  have ex: "exec_get o' e d' = exec_get o' e d" "usage_get o' day d' = usage_get o' day d" for o' e day
    by (simp_all add: exec_get_def usage_get_def d')
  have "d_tasks d' = d_tasks d" by (simp add: d')
  moreover have "held o' day c d' = held o' day c d" for o' day c by (simp add: held_def d')
  moreover have "task_table_ok d'" "execution_table_ok d'" "usage_table_ok d'"
    using ledger_tables [OF ok] by (simp_all add: task_table_ok_def execution_table_ok_def usage_table_ok_def d')
  ultimately show ?thesis
    using table ledger_rows(1-3) [OF ok] ledger_counts [OF ok]
    by (simp add: ledger_ok_def task_linked_def task_backed_def used_count_def ex)
qed

lemma settings_only:
  "configure_setting now nid owner config d = Inr (row, d') \<Longrightarrow> \<exists>ss. d' = d\<lparr>d_settings := ss\<rparr>"
  "disable_for_owner now owner reason halt d = Inr (b, d') \<Longrightarrow> \<exists>ss. d' = d\<lparr>d_settings := ss\<rparr>"
  "disable_all now reason halt d = Inr (n, d') \<Longrightarrow> \<exists>ss. d' = d\<lparr>d_settings := ss\<rparr>"
proof -
  assume conf: "configure_setting now nid owner config d = Inr (row, d')"
  obtain old d1 where goc: "setting_get_or_create nid now owner d = (old, d1)" and d': "d' = put_setting row d1"
    by (rule configure_setting_cases [OF conf]) blast
  then show "\<exists>ss. d' = d\<lparr>d_settings := ss\<rparr>"
    by (auto simp: setting_get_or_create_def put_setting_def Let_def split: option.splits)
next
  have same: "\<exists>ss. d = d\<lparr>d_settings := ss\<rparr>" by (rule exI [of _ "d_settings d"]) simp
  show "disable_for_owner now owner reason halt d = Inr (b, d') \<Longrightarrow> \<exists>ss. d' = d\<lparr>d_settings := ss\<rparr>"
    "disable_all now reason halt d = Inr (n, d') \<Longrightarrow> \<exists>ss. d' = d\<lparr>d_settings := ss\<rparr>"
    using same
    by (auto simp: disable_for_owner_def disable_all_def and_then_Inr_iff put_setting_def
        split: option.splits if_splits)
qed

lemma configure_ledger:
  assumes ok: "ledger_ok d" and fresh: "nid \<notin> s_id ` set (d_settings d)"
    and conf: "configure_setting now nid owner config d = Inr (row, d')"
  shows "ledger_ok d'"
proof -
  obtain actions targets old d1 where as: "row_allowed_actions (f_actions config) = Inr actions"
    and len: "length (py_strip (f_brief config)) \<le> 4000"
      "1 \<le> length (py_strip (or_default (Some (f_timezone config)) (S ''UTC'')))"
      "length (py_strip (or_default (Some (f_timezone config)) (S ''UTC''))) \<le> 64"
    and checks: "config_ranges (masked config) = None" "config_features (masked config) actions targets = None"
    and goc: "setting_get_or_create nid now owner d = (old, d1)"
    and row: "row = configured_row now (f_enabled (masked config)) old
       (apply_config (masked config) actions targets (py_strip (f_brief config))
         (py_strip (or_default (Some (f_timezone config)) (S ''UTC''))) now old)"
    and d': "d' = put_setting row d1"
    by (rule configure_setting_cases [OF conf])
  note g = setting_get_or_create_ok [OF ledger_tables(4) [OF ok] fresh goc]
  have old: "setting_constraints old" using g(1) setting_get_Some [OF g(3)] by (simp add: setting_table_ok_def)
  then have "0 \<le> s_failures old" "1 \<le> s_version old" by (simp_all add: setting_constraints_def)
  then have "setting_constraints row"
    unfolding row
    by (intro configured_row_constraints [OF old]
        apply_config_constraints [OF checks row_allowed_actions_ok [OF as] len])
  moreover have "s_id row = s_id old" "s_owner row = s_owner old"
    by (simp_all add: row configured_row_def apply_config_def Let_def)
  ultimately have "setting_table_ok d'" using put_setting_ok(1) [OF g(1,3)] by (simp add: d')
  with settings_only(1) [OF conf] show ?thesis using settings_ledger [OF ok] by blast
qed

lemma disabled_setting_frame:
  "s_id (disabled_setting now code v s) = s_id s" "s_owner (disabled_setting now code v s) = s_owner s"
  "setting_constraints s \<Longrightarrow> v \<ge> 1 \<Longrightarrow> setting_constraints (disabled_setting now code v s)"
  by (simp_all add: disabled_setting_def setting_constraints_def)

lemma disable_ledger:
  assumes ok: "ledger_ok d"
  shows "disable_for_owner now owner reason halt d = Inr (b, d') \<Longrightarrow> ledger_ok d'"
    and "disable_all now reason halt d = Inr (n, d') \<Longrightarrow> ledger_ok d'"
proof -
  note table = ledger_tables(4) [OF ok]
  assume dis: "disable_for_owner now owner reason halt d = Inr (b, d')"
  show "ledger_ok d'"
  proof (cases "d' = d")
    case False
    then obtain s code where s: "setting_get owner d = Some s"
      and d': "d' = put_setting (disabled_setting now code (max 1 (s_version s) + 1) s) d"
      using dis by (auto simp: disable_for_owner_def and_then_Inr_iff split: option.splits if_splits)
    have "setting_constraints s" using table setting_get_Some [OF s] by (simp add: setting_table_ok_def)
    then have "setting_table_ok d'"
      unfolding d' using put_setting_ok(1) [OF table s] disabled_setting_frame by simp
    with settings_ledger [OF ok] d' show ?thesis by (simp add: put_setting_def)
  qed (use ok in simp)
next
  note table = ledger_tables(4) [OF ok]
  assume dis: "disable_all now reason halt d = Inr (n, d')"
  then obtain code where d': "d' = d\<lparr>d_settings := update_where any_feature
      (\<lambda>s. disabled_setting now code (s_version s + 1) s) (d_settings d)\<rparr>"
    by (auto simp: disable_all_def and_then_Inr_iff)
  have "map k (d_settings d') = map k (d_settings d)" if "k = s_id \<or> k = s_owner" for k
    using that disabled_setting_frame(1,2) by (auto simp: d' update_where_def)
  moreover have "setting_constraints s" if "s \<in> set (d_settings d')" for s
  proof -
    have "s \<in> set (update_where any_feature (\<lambda>s. disabled_setting now code (s_version s + 1) s) (d_settings d))"
      using that by (simp add: d')
    then obtain r where r: "r \<in> set (d_settings d)" "s = r \<or> s = disabled_setting now code (s_version r + 1) r"
      unfolding in_update_where by metis
    have con: "setting_constraints r" using table r(1) by (simp add: setting_table_ok_def)
    then have "s_version r + 1 \<ge> 1" by (simp add: setting_constraints_def)
    with r(2) con disabled_setting_frame(3) show ?thesis by blast
  qed
  ultimately have "setting_table_ok d'" using table by (simp add: setting_table_ok_def)
  with settings_ledger [OF ok d'] show "ledger_ok d'" by blast
qed

section \<open>Steps of the whole store\<close>

text \<open>Fresh identifiers are not in use; \<open>d0\<close> is an earlier state the transaction read before it locked
  its rows.\<close>

inductive store_step :: "agent_db \<Rightarrow> agent_db \<Rightarrow> bool" where
  queue: "queue_step d d' \<Longrightarrow> store_step d d'"
| audit: "exec_step d d' \<Longrightarrow> store_step d d'"
| reserve: "sql_begin_dispatch E permit nid d0 q d = Inr (dec, d') \<Longrightarrow> nid \<notin> u_id ` set (d_usages d)
    \<Longrightarrow> store_step d d'"
| prepare: "prepare_action_execution now nid permit action key ts ps d = Inr (r, d')
    \<Longrightarrow> nid \<notin> x_id ` set (d_executions d) \<Longrightarrow> store_step d d'"
| finish: "sql_finish_task now_x tid token c now d0 d = Inr (b, d') \<Longrightarrow> post_init_completion c0 = Inr c
    \<Longrightarrow> task_progress d0 d \<Longrightarrow> store_step d d'"
| expire: "mark_expired_dispatching_unknown locked now_x now before code d = Inr (n, d') \<Longrightarrow> store_step d d'"
| configure: "configure_setting now nid owner config d = Inr (row, d') \<Longrightarrow> nid \<notin> s_id ` set (d_settings d)
    \<Longrightarrow> store_step d d'"
| disable: "disable_for_owner now owner reason halt d = Inr (b, d') \<Longrightarrow> store_step d d'"
| disable_all: "disable_all now reason halt d = Inr (n, d') \<Longrightarrow> store_step d d'"

lemma store_step_ledger:
  assumes "store_step d d'" and ok: "ledger_ok d"
  shows "ledger_ok d'"
  using assms(1)
proof cases
  case queue
  then show ?thesis
    using quiet_step_ledger [OF ok] queue_step_quiet queue_step_ok ledger_tables(1) [OF ok] by metis
next
  case audit
  then show ?thesis using exec_step_ledger ok by blast
next
  case reserve
  then show ?thesis using begin_dispatch_ledger [OF ok] by blast
next
  case prepare
  then show ?thesis using prepare_ledger [OF ok] by blast
next
  case finish
  then show ?thesis using finish_ledger [OF ok] by blast
next
  case expire
  then show ?thesis using expire_ledger [OF ok] by blast
next
  case configure
  then show ?thesis using configure_ledger [OF ok] by blast
next
  case disable
  then show ?thesis using disable_ledger(1) [OF ok] by blast
next
  case disable_all
  then show ?thesis using disable_ledger(2) [OF ok] by blast
qed

lemma store_steps_ledger: "store_step\<^sup>*\<^sup>* d d' \<Longrightarrow> ledger_ok d \<Longrightarrow> ledger_ok d'"
  by (induction rule: rtranclp_induct) (auto dest: store_step_ledger)

end
