(* ===== verification/Ledger_Properties.thy ===== *)
theory Ledger_Properties
  imports Task_Ledger
begin

text \<open>
  What the ledger guarantees over every sequence of calls: the invariant itself, idempotent enqueueing,
  at most one start of an action, fencing of a worker that lost its lease, and closing that never raises.
\<close>

section \<open>What a step keeps\<close>

text \<open>Every row stays, bound as it was.\<close>

definition bindings_kept :: "agent_db \<Rightarrow> agent_db \<Rightarrow> bool" where
  "bindings_kept d d' \<longleftrightarrow> (\<forall>t \<in> set (d_tasks d). \<exists>u \<in> set (d_tasks d'). same_binding t u)"

lemma same_binding_refl [simp]: "same_binding t t"
  by (simp add: same_binding_def)

lemma same_binding_trans: "same_binding t u \<Longrightarrow> same_binding u v \<Longrightarrow> same_binding t v"
  by (simp add: same_binding_def)

lemma bindings_kept_refl [simp]: "bindings_kept d d"
  unfolding bindings_kept_def using same_binding_refl by blast

lemma bindings_kept_trans: "bindings_kept d d1 \<Longrightarrow> bindings_kept d1 d2 \<Longrightarrow> bindings_kept d d2"
  unfolding bindings_kept_def using same_binding_trans by blast

lemma progress_bindings: "task_progress d d' \<Longrightarrow> bindings_kept d d'"
  unfolding task_progress_def bindings_kept_def task_change_def using same_binding_refl by blast

lemma bindings_tasks: "d_tasks d' = d_tasks d \<Longrightarrow> bindings_kept d d'"
  by (simp add: bindings_kept_def) (metis same_binding_refl)

text \<open>The audit only moves forward.\<close>

definition audit_forward :: "agent_db \<Rightarrow> agent_db \<Rightarrow> bool" where
  "audit_forward d d' \<longleftrightarrow>
     (\<forall>x \<in> set (d_executions d). \<exists>y \<in> set (d_executions d').
        x_id y = x_id x \<and> x_owner y = x_owner x \<and> x_action y = x_action x \<and> x_key y = x_key x
        \<and> (x_status x \<noteq> X_QUEUED \<longrightarrow> x_status y \<noteq> X_QUEUED))"

lemma audit_forward_refl [simp]: "audit_forward d d"
  unfolding audit_forward_def by blast

lemma audit_forward_trans: "audit_forward d d1 \<Longrightarrow> audit_forward d1 d2 \<Longrightarrow> audit_forward d d2"
  unfolding audit_forward_def by (metis (no_types, lifting))

lemma audit_same_rows: "d_executions d' = d_executions d \<Longrightarrow> audit_forward d d'"
  unfolding audit_forward_def by auto

lemma edge_not_queued: "execution_edge s s' \<Longrightarrow> s' \<noteq> X_QUEUED"
  by (cases s) auto

lemma progress_forward: "execution_progress d d' \<Longrightarrow> audit_forward d d'"
  unfolding audit_forward_def
proof
  fix x assume "execution_progress d d'" "x \<in> set (d_executions d)"
  then obtain y where y: "y \<in> set (d_executions d')" "execution_change x y"
    by (auto simp: execution_progress_def)
  have "x_status x \<noteq> X_QUEUED \<longrightarrow> x_status y \<noteq> X_QUEUED"
    using y(2) edge_not_queued by (auto simp: execution_change_def)
  with y execution_change_key [OF y(2)]
  show "\<exists>y \<in> set (d_executions d'). x_id y = x_id x \<and> x_owner y = x_owner x \<and> x_action y = x_action x
      \<and> x_key y = x_key x \<and> (x_status x \<noteq> X_QUEUED \<longrightarrow> x_status y \<noteq> X_QUEUED)" by blast
qed

lemma exec_step_keeps:
  assumes "exec_step d d'" "ledger_ok d"
  shows "bindings_kept d d'" "audit_forward d d'"
proof -
  have "d_tasks d' = d_tasks d" using exec_step_frame [OF assms(1)] by auto
  then show "bindings_kept d d'" by (rule bindings_tasks)
  show "audit_forward d d'"
    using exec_step_ok [OF assms(1) ledger_tables(2) [OF assms(2)]] progress_forward by blast
qed

lemma closing_keeps:
  assumes ok: "ledger_ok d" and cl: "closing t v refund now d d'"
  shows "bindings_kept d d' \<and> audit_forward d d'"
proof -
  obtain d1 where d1: "d1 = d \<or> exec_step d d1" "d_executions d' = d_executions d1"
    using cl unfolding closing_def audit_settled_def by blast
  have "audit_forward d d1" using d1(1) exec_step_keeps(2) ok by auto
  then have "audit_forward d d'" using audit_same_rows [OF d1(2)] audit_forward_trans by blast
  then show ?thesis
    using closing_row(2) [OF ledger_tables(1,4) [OF ok] cl] progress_bindings by blast
qed

lemma expire_loop_keeps:
  "expire_loop locked now_x now before code cs n d = Inr (m, d') \<Longrightarrow> ledger_ok d \<Longrightarrow> owners_known cs d
     \<Longrightarrow> bindings_kept d d' \<and> audit_forward d d'"
proof (induction locked now_x now before code cs n d rule: expire_loop.induct)
  case (2 locked now_x now before code tid owner rest changed d)
  have known: "owners_known rest d" using "2.prems"(3) by (simp add: owners_known_def)
  show ?case
  proof (cases "find (\<lambda>t. t_id t = tid \<and> expired before t \<and> \<not> locked (t_id t)) (d_tasks d)")
    case None
    with 2 known show ?thesis by simp
  next
    case (Some t)
    note t = find_SomeD [OF Some]
    obtain d1 where d1: "expire_task now_x now code t (setting_get owner d) d = Inr d1"
      "expire_loop locked now_x now before code rest (changed + 1) d1 = Inr (m, d')"
      using "2.prems"(1) Some by (auto simp: and_then_Inr_iff)
    have "owner = t_owner t" using "2.prems"(3) t by (simp add: owners_known_def)
    with d1(1) have e: "expire_task now_x now code t (setting_get (t_owner t) d) d = Inr d1" by simp
    obtain v where v: "closing t v False now d d1"
      using expired_closing [OF "2.prems"(2) _ _ e] t by blast
    have "bindings_kept d1 d' \<and> audit_forward d1 d'"
      using "2.IH"(2) [OF refl Some d1(2) closing_ledger [OF "2.prems"(2) v] owners_closing [OF known v]]
      by simp
    with closing_keeps [OF "2.prems"(2) v] bindings_kept_trans audit_forward_trans show ?thesis by blast
  qed
qed simp

lemma link_execution_keeps:
  assumes ok: "ledger_ok d" and l: "link_execution now t permit x d = Inr d'"
  shows "bindings_kept d d'" "d_executions d' = d_executions d"
proof -
  have "d' = d \<or> (\<exists>b. record_action_execution_id now (t_id t) permit (x_id x) d = (b, d'))"
    using l by (auto simp: link_execution_def split: option.splits if_splits prod.splits)
  then have "bindings_kept d d' \<and> d_executions d' = d_executions d"
  proof
    assume "\<exists>b. record_action_execution_id now (t_id t) permit (x_id x) d = (b, d')"
    then obtain b where b: "record_action_execution_id now (t_id t) permit (x_id x) d = (b, d')" ..
    have "task_progress d d'"
      using linking.keeps_table [OF ledger_tables(1) [OF ok] b [unfolded record_action_execution_id_def]] by blast
    moreover have "d_executions d' = d_executions d"
      using b by (auto simp: record_action_execution_id_def update_tasks_def)
    ultimately show ?thesis using progress_bindings by blast
  qed simp
  then show "bindings_kept d d'" "d_executions d' = d_executions d" by blast+
qed

lemma prepare_keeps:
  assumes ok: "ledger_ok d" and fresh: "nid \<notin> x_id ` set (d_executions d)"
    and prep: "prepare_action_execution now nid permit action key ts ps d = Inr (r, d')"
  shows "bindings_kept d d' \<and> audit_forward d d'"
proof (cases rule: prepare_cases [OF ledger_tables(2) [OF ok] fresh prep, case_names none some])
  case (some t x created d1 d2)
  have d1: "ledger_ok d1" by (rule exec_step_ledger [OF some(3) ok])
  have "d_tasks d1 = d_tasks d" using exec_step_frame [OF some(3)] by auto
  then have t1: "t \<in> set (d_tasks d1)" using some(1) by simp
  have d2: "ledger_ok d2" by (rule link_execution_ledger [OF d1 t1 some(4,6,7)])
  note k1 = exec_step_keeps [OF some(3) ok]
  note k2 = link_execution_keeps [OF d1 some(7)]
  have "bindings_kept d2 d' \<and> audit_forward d2 d'"
  proof (cases "x_status x = X_QUEUED")
    case True
    then obtain x' where "exec_start now (t_owner t) (x_id x) d2 = (Some x', d')" using some(8) by auto
    then show ?thesis using exec_step_keeps [OF exec_step.start d2] by blast
  qed (use some(8) in simp)
  with k1 k2(1) audit_same_rows [OF k2(2)] bindings_kept_trans audit_forward_trans show ?thesis by blast
qed simp

lemma reservation_keeps:
  assumes ok: "ledger_ok d" and res: "reservation_of E permit d0 q t sn d d'"
  shows "bindings_kept d d' \<and> audit_forward d d'"
proof -
  have t: "t \<in> set (d_tasks d)" "holds_lease t (req_lease_token q) (req_now q)"
    "d_tasks d' = d_tasks (put_task (dispatching_row q permit t) d)" "d_executions d' = d_executions d"
    using res unfolding reservation_of_def by blast+
  have "task_progress d (put_task (dispatching_row q permit t) d)"
    using put_task_ok [OF ledger_tables(1) [OF ok] t(1)]
      dispatching_row_ok [OF ledger_rows(4) [OF ok t(1)] t(2)] by blast
  then have "task_progress d d'" using task_table_frame(2) [OF t(3)] by simp
  then show ?thesis using progress_bindings audit_same_rows [OF t(4)] by blast
qed

lemma begin_dispatch_keeps:
  assumes ok: "ledger_ok d" and fresh: "nid \<notin> u_id ` set (d_usages d)"
    and res: "sql_begin_dispatch E permit nid d0 q d = Inr (dec, d')"
  shows "bindings_kept d d' \<and> audit_forward d d'"
proof (cases "dec_code dec = ALLOWED")
  case True
  obtain t sn where "reservation_of E permit d0 q t sn d d'"
    by (rule reservation_effect [OF ledger_tables(3) [OF ok] fresh res True])
  then show ?thesis by (rule reservation_keeps [OF ok])
next
  case False
  obtain u d1 where goc: "usage_get_or_create nid (req_now q) (req_owner q) (req_budget_day q) d = (u, d1)"
    by (metis surj_pair)
  have "d_tasks d1 = d_tasks d" "d_executions d1 = d_executions d"
    using usage_get_or_create_ok(5) [OF ledger_tables(3) [OF ok] fresh goc] by auto
  then have "bindings_kept d d1 \<and> audit_forward d d1" using bindings_tasks audit_same_rows by blast
  with begin_dispatch_denied [OF res False goc] show ?thesis by auto
qed

lemma settings_keep: "\<exists>ss. d' = d\<lparr>d_settings := ss\<rparr> \<Longrightarrow> bindings_kept d d' \<and> audit_forward d d'"
  using bindings_tasks audit_same_rows by fastforce

lemma store_step_keeps:
  assumes "store_step d d'" and ok: "ledger_ok d"
  shows "bindings_kept d d' \<and> audit_forward d d'"
  using assms(1)
proof cases
  case queue
  have "d_executions d' = d_executions d"
    using queue_step_quiet [OF queue ledger_tables(1) [OF ok]] by (auto simp: quiet_step_def)
  then show ?thesis
    using queue_step_ok [OF queue ledger_tables(1) [OF ok]] progress_bindings audit_same_rows by blast
next
  case audit
  then show ?thesis using exec_step_keeps ok by blast
next
  case reserve
  then show ?thesis using begin_dispatch_keeps [OF ok] by blast
next
  case prepare
  then show ?thesis using prepare_keeps [OF ok] by blast
next
  case (finish now_x tid token c now d0 b c0)
  from finish_task_closing [OF ledger_tables(1-3) [OF ok] finish(3,2,1)] closing_keeps [OF ok]
  show ?thesis by (cases b) auto
next
  case (expire locked now_x now before code n)
  have "distinct (map t_id (d_tasks d))" using ledger_tables(1) [OF ok] by (simp add: task_table_ok_def)
  note known = candidates_known [OF this]
  obtain c where "expire_loop locked now_x now before c
      (take 100 (map (\<lambda>t. (t_id t, t_owner t)) (filter (expired before) (d_tasks d)))) 0 d = Inr (n, d')"
    using expire unfolding mark_expired_dispatching_unknown_def and_then_Inr_iff Let_def by blast
  from expire_loop_keeps [OF this ok known] show ?thesis .
next
  case configure
  show ?thesis by (rule settings_keep [OF settings_only(1) [OF configure(1)]])
next
  case disable
  show ?thesis by (rule settings_keep [OF settings_only(2) [OF disable]])
next
  case disable_all
  show ?thesis by (rule settings_keep [OF settings_only(3) [OF disable_all]])
qed

lemma store_steps_keep:
  assumes "store_step\<^sup>*\<^sup>* d d'" "ledger_ok d"
  shows "ledger_ok d' \<and> bindings_kept d d' \<and> audit_forward d d'"
  using assms
proof (induction rule: rtranclp_induct)
  case (step d1 d2)
  then show ?case
    using store_step_keeps [OF step.hyps(2)] store_step_ledger [OF step.hyps(2)]
      bindings_kept_trans audit_forward_trans by blast
qed simp

section \<open>The row a prepared execution stands for\<close>

lemma enqueued_existing:
  assumes y: "exec_find_key owner (py_strip action) (py_strip key) d = Some y"
    and enq: "exec_enqueue now nid owner account action key version ts ps approval trigger d = Inr ((x, created), d1)"
  shows "x_id x = x_id y \<and> (x_status y \<noteq> X_QUEUED \<longrightarrow> x_status x \<noteq> X_QUEUED)"
proof -
  obtain z d2 where m: "mark_stale_running_row y now d = (z, d2)" by (metis surj_pair)
  then have "x = z"
    using enq y
    by (auto simp: exec_enqueue_def and_then_Inr_iff row_action_def row_key_def Let_def split: if_splits)
  with m show ?thesis
    by (auto simp: mark_stale_running_row_def timed_out_execution_def Let_def split: if_splits)
qed

lemma find_key_row:
  assumes ok: "execution_table_ok d" and y: "y \<in> set (d_executions d)"
  shows "exec_find_key (x_owner y) (x_action y) (x_key y) d = Some y"
proof -
  obtain z where z: "exec_find_key (x_owner y) (x_action y) (x_key y) d = Some z"
    using y unfolding exec_find_key_def
    by (cases "find (\<lambda>x. x_owner x = x_owner y \<and> x_action x = x_action y \<and> x_key x = x_key y) (d_executions d)")
      (auto dest: find_NoneD)
  moreover have "distinct (map (\<lambda>x. (x_owner x, x_action x, x_key x)) (d_executions d))"
    using ok by (simp add: execution_table_ok_def)
  ultimately show ?thesis
    using find_SomeD [OF z [unfolded exec_find_key_def]] y by (auto dest: distinct_map_inject)
qed

lemma prepared_row:
  assumes ok: "ledger_ok d" and fresh: "nid \<notin> x_id ` set (d_executions d)"
    and prep: "prepare_action_execution now nid permit action key ts ps d = Inr (Some p, d')"
  shows "\<exists>x \<in> set (d_executions d'). x_id x = pe_execution p \<and> x_owner x = pe_owner p
    \<and> x_action x = py_strip action \<and> x_key x = py_strip key \<and> x_status x \<noteq> X_QUEUED"
proof (cases rule: prepare_cases [OF ledger_tables(2) [OF ok] fresh prep, case_names none some])
  case (some t x created d1 d2)
  note e = enqueued_execution [OF ledger_tables(2) [OF ok] fresh some(5)]
  have d1: "ledger_ok d1" by (rule exec_step_ledger [OF some(3) ok])
  have x: "x_action x = py_strip action" "x_key x = py_strip key" using e(3,4) by simp_all
  have g2: "exec_get (t_owner t) (x_id x) d2 = Some x"
    using some(4) exec_get_frame [OF link_execution_keeps(2) [OF d1 some(7)]] by simp
  show ?thesis
  proof (cases "x_status x = X_QUEUED")
    case True
    then obtain x' where st: "exec_start now (t_owner t) (x_id x) d2 = (Some x', d')" "p = prepared t x' True"
      using some(8) by auto
    have x': "x' = started_execution now x" "d' = put_execution x' d2"
      using st(1) g2 True by (auto simp: exec_start_def Let_def)
    have "x' \<in> set (d_executions d')"
      using exec_get_in [OF g2] by (auto simp: x' put_execution_def in_update_where started_execution_def)
    moreover have "x_owner x' = t_owner t" using exec_get_in [OF g2] by (simp add: x' started_execution_def)
    ultimately show ?thesis
      using x by (intro bexI [of _ x']) (simp_all add: st(2) prepared_def x'(1) started_execution_def)
  next
    case False
    then have "d' = d2" "p = prepared t x False" using some(8) by auto
    then show ?thesis
      using exec_get_in [OF g2] x False by (intro bexI [of _ x]) (simp_all add: prepared_def)
  qed
qed simp

lemma prepared_again:
  assumes ok: "ledger_ok d" and fresh: "nid \<notin> x_id ` set (d_executions d)"
    and prep: "prepare_action_execution now nid permit action key ts ps d = Inr (Some p, d')"
    and y: "y \<in> set (d_executions d)" "x_owner y = pe_owner p" "x_action y = py_strip action"
      "x_key y = py_strip key" "x_status y \<noteq> X_QUEUED"
  shows "\<not> pe_should_execute p \<and> pe_execution p = x_id y"
proof (cases rule: prepare_cases [OF ledger_tables(2) [OF ok] fresh prep, case_names none some])
  case (some t x created d1 d2)
  have owner: "t_owner t = pe_owner p" using some(8) by (auto simp: prepared_def split: if_splits)
  have "exec_find_key (t_owner t) (py_strip (py_strip action)) (py_strip (py_strip key)) d = Some y"
    using find_key_row [OF ledger_tables(2) [OF ok] y(1)] y(2-4) owner by simp
  from enqueued_existing [OF this some(5)] y(5) have "x_id x = x_id y" "x_status x \<noteq> X_QUEUED" by blast+
  then show ?thesis using some(8) by (auto simp: prepared_def)
qed simp

section \<open>Properties\<close>

text \<open>C11: Whatever calls of the repositories follow each other, by any workers and with any arguments, the
  tables stay consistent with each other: every task that reserved an action is backed by the usage row
  of its day, no more tasks hold a reservation of a category than that row counts, and every execution
  a task is linked to exists and carries its account, action, key and version.\<close>

theorem ledger_invariant:
  assumes "ledger_ok d" "store_step\<^sup>*\<^sup>* d d'"
  shows "ledger_ok d' \<and> (\<forall>t \<in> set (d_tasks d'). t_status t = DISPATCHING \<longrightarrow>
    (\<exists>day. t_budget_day t = Some day \<and> used_count (t_owner t) day (row_category t) d' \<ge> 1))"
proof -
  have ok: "ledger_ok d'" using store_steps_ledger [OF assms(2,1)] .
  have "\<exists>day. t_budget_day t = Some day \<and> used_count (t_owner t) day (row_category t) d' \<ge> 1"
    if t: "t \<in> set (d_tasks d')" "t_status t = DISPATCHING" for t
  proof -
    have "task_life t" using ledger_rows(4) [OF ok t(1)] by (simp add: task_inv_iff)
    then obtain day where day: "t_budget_day t = Some day"
      using t(2) by (auto simp: task_life_def)
    then have "t_id t \<in> held (t_owner t) day (row_category t) d'" using t by (auto simp: held_def)
    then have "card (held (t_owner t) day (row_category t) d') \<ge> 1"
      by (metis One_nat_def Suc_leI card_gt_0_iff empty_iff finite_held)
    with day ledger_counts [OF ok, of "t_owner t" day "row_category t"] show ?thesis by auto
  qed
  with ok show ?thesis by blast
qed

text \<open>Enqueueing is idempotent over the life of a task: after a task was enqueued under a key, every
  later call for the same owner and key, whatever happened in between, creates nothing, changes nothing
  and returns that task, still bound to the same account, action, policy version and target.\<close>

theorem enqueue_idempotent:
  assumes ok: "ledger_ok d" and fresh: "nid \<notin> t_id ` set (d_tasks d)"
    and first: "enqueue_task nid now q d = Inr ((t, created), d1)"
    and between: "store_step\<^sup>*\<^sup>* d1 d2"
    and again: "enqueue_task nid' now' q' d2 = Inr ((t', created'), d3)"
    and same: "q_owner q' = q_owner q" "py_strip (q_key q') = py_strip (q_key q)"
  shows "\<not> created' \<and> d3 = d2 \<and> same_binding t t' \<and> t' \<in> set (d_tasks d2)"
proof -
  have step: "store_step d d1" by (rule store_step.queue [OF queue_step.enqueue [OF first fresh]])
  have ok1: "ledger_ok d1" by (rule store_step_ledger [OF step ok])
  have later: "ledger_ok d2" "bindings_kept d1 d2" using store_steps_keep [OF between ok1] by blast+
  obtain key ty target where k: "row_key (q_key q) = Inr key" and c: "if created
     then task_find_key (q_owner q) key d = None \<and> t = new_task nid now q ty key target
       \<and> task_constraints t \<and> d1 = d\<lparr>d_tasks := d_tasks d @ [t]\<rparr>
     else task_find_key (q_owner q) key d = Some t \<and> d1 = d"
    using enqueue_cases [OF first] by blast
  have t: "t \<in> set (d_tasks d1)" "t_owner t = q_owner q" "t_key t = key"
    using c by (auto simp: task_find_key_def new_task_def dest: find_SomeD split: if_splits)
  obtain u where u: "u \<in> set (d_tasks d2)" "same_binding t u"
    using later(2) t(1) unfolding bindings_kept_def by blast
  have key': "row_key (q_key q') = Inr key" using k same(2) by (simp add: row_key_def)
  obtain w where w: "task_find_key (q_owner q') key d2 = Some w"
    using u t same(1) unfolding task_find_key_def same_binding_def
    by (cases "find (\<lambda>t. t_owner t = q_owner q' \<and> t_key t = key) (d_tasks d2)") (auto dest: find_NoneD)
  have "\<not> created' \<and> t' = w \<and> d3 = d2"
    using enqueue_cases [OF again] key' w by (metis option.distinct(1) option.inject sum.inject(2))
  moreover have "w = u"
  proof -
    have "w \<in> set (d_tasks d2)" "t_owner w = q_owner q'" "t_key w = key"
      using find_SomeD [OF w [unfolded task_find_key_def]] by blast+
    moreover have "distinct (map (\<lambda>t. (t_owner t, t_key t)) (d_tasks d2))"
      using ledger_tables(1) [OF later(1)] by (simp add: task_table_ok_def)
    ultimately show ?thesis
      using u t same(1) by (auto simp: same_binding_def dest: distinct_map_inject)
  qed
  ultimately show ?thesis using u by blast
qed

text \<open>C10: An action is started at most once: after a worker was told to execute the action with an
  idempotency key, no later call for that owner, action and key, under whatever permit, is told to execute it
  again; it gets the same audited execution instead.\<close>

theorem action_started_once:
  assumes ok: "ledger_ok d" and fresh: "nid \<notin> x_id ` set (d_executions d)"
    and first: "prepare_action_execution now nid permit action key ts ps d = Inr (Some p, d1)"
    and told: "pe_should_execute p"
    and between: "store_step\<^sup>*\<^sup>* d1 d2" and fresh': "nid' \<notin> x_id ` set (d_executions d2)"
    and again: "prepare_action_execution now' nid' permit' action' key' ts' ps' d2 = Inr (Some p', d3)"
    and same: "pe_owner p' = pe_owner p" "py_strip action' = py_strip action" "py_strip key' = py_strip key"
  shows "\<not> pe_should_execute p' \<and> pe_execution p' = pe_execution p"
proof -
  have ok1: "ledger_ok d1" by (rule prepare_ledger [OF ok fresh first])
  have later: "ledger_ok d2" "audit_forward d1 d2" using store_steps_keep [OF between ok1] by blast+
  obtain x where x: "x \<in> set (d_executions d1)" "x_id x = pe_execution p" "x_owner x = pe_owner p"
    "x_action x = py_strip action" "x_key x = py_strip key" "x_status x \<noteq> X_QUEUED"
    using prepared_row [OF ok fresh first] by blast
  then obtain y where y: "y \<in> set (d_executions d2)" "x_id y = pe_execution p" "x_owner y = pe_owner p'"
    "x_action y = py_strip action'" "x_key y = py_strip key'" "x_status y \<noteq> X_QUEUED"
    using later(2) same unfolding audit_forward_def by metis
  show ?thesis using prepared_again [OF later(1) fresh' again y(1,3-6)] y(2) by simp
qed

text \<open>C12: A worker that lost its lease is fenced off: once another claim gave the task a new token, every
  call that still names the old token, beginning the generation, renewing, deferring, recording a model run,
  reserving the dispatch or finishing, is refused and changes nothing.\<close>

theorem lost_lease_fenced:
  assumes table: "task_table_ok d" and c: "post_init_completion c0 = Inr c"
    and claim: "sql_claim_next locked new worker now until d = Inr (Some u, d1)
      \<or> sql_claim_task locked new tid worker now until d = Inr (Some u, d1)"
    and other: "old \<noteq> new"
  shows "u \<in> set (d_tasks d1) \<and> t_lease_token u = Some new \<and> t_status u = LEASED
    \<and> sql_begin_generation (t_id u) old n1 n2 d1 = (False, d1)
    \<and> sql_renew_lease (t_id u) old n1 n2 d1 = (False, d1)
    \<and> (case sql_defer_task (t_id u) old n1 code n2 d1 of Inl e \<Rightarrow> True | Inr r \<Rightarrow> r = (False, d1))
    \<and> record_model_run_id n1 (t_id u) old run d1 = (False, d1)
    \<and> (req_task_id q = t_id u \<and> req_lease_token q = old \<longrightarrow>
         sql_begin_dispatch E permit nid d0 q d1
           = Inr (\<lparr>dec_code = LEASE_LOST, permit_token = [], dec_retry_at = None\<rparr>, d1))
    \<and> sql_finish_task n1 (t_id u) old c n2 d0 d1 = Inr (False, d1)"
proof -
  obtain t w where t: "t \<in> set (d_tasks d)" "task_due now t" and u: "u = claimed w new now until t"
    and d1: "d1 = put_task u d"
    using claim claim_next_row claim_task_row by metis
  have table1: "task_table_ok d1" using claim_row_ok [OF table t] by (simp add: d1 u)
  have m: "u \<in> set (d_tasks d1)" unfolding d1 by (rule put_task_in [OF table t(1)]) (simp add: u claimed_def)
  have row: "t_lease_token u = Some new" "t_status u = LEASED" by (simp_all add: u claimed_def)
  have lost: "t_lease_token u \<noteq> Some old" using row(1) other by simp
  note fenced = table1 m refl lost
  have only: "v = u" if "v \<in> set (d_tasks d1)" "t_id v = t_id u" for v
    using table1 m that distinct_map_inject unfolding task_table_ok_def by metis
  have g: "sql_begin_generation (t_id u) old n1 n2 d1 = (False, d1)"
    unfolding sql_begin_generation_def by (rule gen.fenced [OF fenced])
  have r: "sql_renew_lease (t_id u) old n1 n2 d1 = (False, d1)"
    unfolding sql_renew_lease_def by (rule renewal.fenced [OF fenced])
  have df: "case sql_defer_task (t_id u) old n1 code n2 d1 of Inl e \<Rightarrow> True | Inr r \<Rightarrow> r = (False, d1)"
    unfolding sql_defer_task_def
    by (cases "row_error_code code (S ''autonomy_deferred'')") (simp_all only: and_then_simps sum.case deferral.fenced [OF fenced])
  have mr: "record_model_run_id n1 (t_id u) old run d1 = (False, d1)"
    unfolding record_model_run_id_def by (rule model_run.fenced [OF fenced])
  have bd: "sql_begin_dispatch E permit nid d0 q d1
           = Inr (\<lparr>dec_code = LEASE_LOST, permit_token = [], dec_retry_at = None\<rparr>, d1)"
    if q: "req_task_id q = t_id u" "req_lease_token q = old"
  proof (cases "find (\<lambda>t. t_id t = req_task_id q \<and> t_owner t = req_owner q) (d_tasks d1)")
    case None
    then show ?thesis by (simp add: sql_begin_dispatch_def denied_def Let_def)
  next
    case (Some v)
    then have "v = u" using only find_SomeD [OF Some] q(1) by auto
    then have "\<not> holds_lease v (req_lease_token q) (req_now q)" using lost q(2) by (simp add: holds_lease_def)
    with Some show ?thesis by (simp add: sql_begin_dispatch_def denied_def Let_def)
  qed
  obtain v where v: "requested_verdict c = Inr v" by (rule requested_verdict_ok [OF c])
  have "find (unfinished (t_id u) old) (d_tasks d1) = None"
    using only lost by (auto simp: find_None_iff unfinished_def)
  then have fin: "sql_finish_task n1 (t_id u) old c n2 d0 d1 = Inr (False, d1)"
    by (auto simp: sql_finish_task_def v Let_def split: option.split)
  show ?thesis using m row g r df mr bd fin by blast
qed

section \<open>Closing never raises\<close>

lemma target_normal_candidate: "row_target u = Inr u \<Longrightarrow> candidate_target (PStr u) = Inr u"
  by (auto simp: row_target_def row_targets_def candidate_target_def str_or_empty_def Let_def split: if_splits)

lemma expected_action_row: "row_action (expected_action ty) = Inr (expected_action ty)"
  by (cases ty) (simp_all add: row_action_def S_def py_strip_def py_space_def SUPPORTED_ACCOUNT_ACTION_TYPES_def)

lemma success_candidate_total:
  assumes "task_inv t" "target_normal t"
  shows "\<exists>d'. success_candidate t now d = Inr d'"
proof (cases "t_type t \<in> AUTONOMY_DYNAMIC_CANDIDATE_TASKS \<and> py_strip (or_default (t_target t) []) \<noteq> []")
  case True
  then obtain u where u: "t_target t = Some u" "row_target u = Inr u"
    using assms(2) by (cases "t_target t") (auto simp: target_normal_def or_default_def)
  then have "u \<noteq> []" using True by (auto simp: or_default_def)
  have "t_action t = expected_action (t_type t)" using assms(1) by (simp add: task_inv_iff task_static_def)
  with True u \<open>u \<noteq> []\<close> target_normal_candidate [OF u(2)] expected_action_row show ?thesis
    by (simp add: success_candidate_def mark_interaction_def or_default_def Let_def)
next
  case False
  then show ?thesis unfolding success_candidate_def if_not_P [OF False] by blast
qed

lemma closing_total:
  assumes ok: "ledger_ok d" and t: "t \<in> set (d_tasks d)" "t_status t \<notin> AUTONOMY_TERMINAL_STATUSES"
    and settled: "audit_settled t v d d1"
  shows "\<exists>d2 d3. finish_setting v retry at reason now t (setting_get (t_owner t) d)
        (put_task (finished_row v now t) d1) = Inr d2 \<and> settle_budget v refund now t d2 = Inr d3"
proof -
  note rows = ledger_rows [OF ok t(1)]
  obtain d2 where d2: "finish_setting v retry at reason now t (setting_get (t_owner t) d)
        (put_task (finished_row v now t) d1) = Inr d2"
  proof (cases "setting_get (t_owner t) d")
    case (Some s)
    obtain e where "success_candidate t now (put_task (finished_row v now t) d1) = Inr e"
      using success_candidate_total [OF rows(4,3)] by blast
    then show thesis
      by (intro that [of "put_setting (finished_setting v retry at reason now t s)
            (if vd_status v = SUCCEEDED then e else put_task (finished_row v now t) d1)"])
        (simp add: finish_setting_def Some)
  qed (simp add: finish_setting_def that)
  obtain xs where "d1 = d\<lparr>d_executions := xs\<rparr>" using settled by (auto simp: audit_settled_def)
  then have u2: "d_usages d2 = d_usages d"
    using finish_setting_effect(2) [OF d2] by (simp add: put_task_def)
  have usage: "usage_table_ok d2" using ledger_tables(3) [OF ok] usage_get_frame(2) [OF u2] by simp
  have life: "(t_dispatch_at t = None) = (t_budget_day t = None)"
    using rows(4) by (simp add: task_inv_iff task_life_def)
  have backed: "usage_get (t_owner t) day d2 \<noteq> None" if "t_budget_day t = Some day" for day
    using rows(2) that usage_get_frame(1) [OF u2] by (simp add: task_backed_def)
  have count: "used_count (t_owner t) day (row_category t) d2 \<ge> 1" if day: "t_budget_day t = Some day" for day
  proof -
    have "t_status t = DISPATCHING" using budget_dispatching [OF rows(4) t(2)] day by simp
    with day t(1) have "t_id t \<in> held (t_owner t) day (row_category t) d" by (auto simp: held_def)
    then have "card (held (t_owner t) day (row_category t) d) \<ge> 1"
      by (metis One_nat_def Suc_leI card_gt_0_iff empty_iff finite_held)
    with ledger_counts [OF ok, of "t_owner t" day "row_category t"] usage_get_frame(1) [OF u2]
    show ?thesis by (simp add: used_count_def)
  qed
  obtain d3 where "settle_budget v refund now t d2 = Inr d3"
    using settle_budget_total [OF usage life backed count] by blast
  with d2 show ?thesis by blast
qed

lemma lost_verdict_total:
  assumes code: "plain_code code"
  shows "\<exists>v d'. lost_verdict now code t d = Inr (v, d')"
proof (cases "t_execution t")
  case (Some eid)
  show ?thesis
  proof (cases "exec_get (t_owner t) eid d")
    case None
    with Some show ?thesis by (simp add: lost_verdict_def)
  next
    case (Some x)
    note x = \<open>t_execution t = Some eid\<close> Some
    have id: "x_id x = eid" using exec_get_in [OF Some] by simp
    show ?thesis
    proof (cases "execution_bound t x")
      case True
      show ?thesis
      proof (cases "x_status x")
        case X_QUEUED
        obtain r d' where c: "exec_cancel_queued now (t_owner t) eid (S ''worker_lost_before_action_start'') d = Inr (r, d')"
          using cancel_write(2) [OF Some X_QUEUED plain_codes(3)] by blast
        obtain y where "r = Some y" using cancel_write(1) [OF Some X_QUEUED c] by (auto simp: audit_write_def)
        with c x True X_QUEUED id show ?thesis by (simp add: lost_verdict_def)
      next
        case X_RUNNING
        obtain r d' where c: "exec_mark_unknown now (t_owner t) eid code d = Inr (r, d')"
          using close_write(2) [OF Some X_RUNNING disjI2 [OF refl] code] unfolding exec_mark_unknown_def by blast
        have "audit_write x {X_MANUAL_REVIEW} r d d'"
          using close_write(1) [OF Some X_RUNNING disjI2 [OF refl]] c unfolding exec_mark_unknown_def by blast
        then obtain y where "r = Some y" by (auto simp: audit_write_def)
        with c x True X_RUNNING id show ?thesis by (simp add: lost_verdict_def)
      qed (simp_all add: lost_verdict_def x True)
    qed (simp add: lost_verdict_def x)
  qed
qed (simp add: lost_verdict_def)

lemma expire_task_total:
  assumes ok: "ledger_ok d" and t: "t \<in> set (d_tasks d)" "expired before t" and code: "plain_code code"
  shows "\<exists>d'. expire_task now_x now code t (setting_get (t_owner t) d) d = Inr d'"
proof -
  have st: "t_status t \<notin> AUTONOMY_TERMINAL_STATUSES" "t_status t = DISPATCHING" using t(2) by (auto simp: expired_def)
  obtain v d1 where v: "lost_verdict now_x code t d = Inr (v, d1)" using lost_verdict_total [OF code] by blast
  note settled = lost_settled [OF ledger_tables(2) [OF ok] v]
  obtain d2 d3 where d: "finish_setting v False None code now t (setting_get (t_owner t) d)
      (put_task (finished_row v now t) d1) = Inr d2" "settle_budget v False now t d2 = Inr d3"
    using closing_total [OF ok t(1) st(1) settled] by blast
  have "t_budget_day t \<noteq> None"
    using ledger_rows(4) [OF ok t(1)] st(2) by (auto simp: task_inv_iff task_life_def)
  with v d show ?thesis by (simp add: expire_task_def)
qed

lemma expire_loop_total:
  "ledger_ok d \<Longrightarrow> owners_known cs d \<Longrightarrow> plain_code code \<Longrightarrow>
     \<exists>m d'. expire_loop locked now_x now before code cs n d = Inr (m, d')"
proof (induction locked now_x now before code cs n d rule: expire_loop.induct)
  case (2 locked now_x now before code tid owner rest changed d)
  have known: "owners_known rest d" using "2.prems"(2) by (simp add: owners_known_def)
  show ?case
  proof (cases "find (\<lambda>t. t_id t = tid \<and> expired before t \<and> \<not> locked (t_id t)) (d_tasks d)")
    case None
    with "2.IH"(1) [OF refl None "2.prems"(1) known "2.prems"(3)] show ?thesis by simp
  next
    case (Some t)
    note t = find_SomeD [OF Some]
    have owner: "owner = t_owner t" using "2.prems"(2) t by (simp add: owners_known_def)
    obtain d1 where e: "expire_task now_x now code t (setting_get (t_owner t) d) d = Inr d1"
      using expire_task_total [OF "2.prems"(1) _ _ "2.prems"(3)] t by blast
    obtain v where v: "closing t v False now d d1"
      using expired_closing [OF "2.prems"(1) _ _ e] t by blast
    show ?thesis
      using "2.IH"(2) [OF refl Some closing_ledger [OF "2.prems"(1) v] owners_closing [OF known v] "2.prems"(3)]
        Some e owner by simp
  qed
qed simp

text \<open>C13: In a consistent store closing cannot get stuck: finishing a task with any valid completion, and
  sweeping the dispatches whose worker was lost, always complete without raising (no audit row that
  fails to close, no missing budget row, no negative count, no violated constraint), so no task stays
  open because its closing was rolled back.\<close>

theorem closing_never_raises:
  assumes ok: "ledger_ok d" and later: "task_progress d0 d" and c: "post_init_completion c0 = Inr c"
    and code: "plain_code code"
  shows "(\<exists>b d'. sql_finish_task now_x tid token c now d0 d = Inr (b, d'))
    \<and> (\<exists>n d'. mark_expired_dispatching_unknown locked now_x now before code d = Inr (n, d'))"
proof
  obtain r where r: "requested_verdict c = Inr r" "verdict_ok r" "verdict_codes r" by (rule requested_verdict_ok [OF c])
  show "\<exists>b d'. sql_finish_task now_x tid token c now d0 d = Inr (b, d')"
  proof (cases "find (unfinished tid token) (d_tasks d0) = None \<or> find (unfinished tid token) (d_tasks d) = None")
    case True
    then show ?thesis by (auto simp: sql_finish_task_def r(1) Let_def split: option.splits)
  next
    case False
    then obtain candidate t where f: "find (unfinished tid token) (d_tasks d0) = Some candidate"
      "find (unfinished tid token) (d_tasks d) = Some t" by auto
    have m: "candidate \<in> set (d_tasks d0)" "t \<in> set (d_tasks d)" "t_id candidate = t_id t"
      "t_status t \<notin> AUTONOMY_TERMINAL_STATUSES" "t_lease_token t \<noteq> None"
      using find_SomeD [OF f(1)] find_SomeD [OF f(2)] by (simp_all add: unfinished_def)
    have owner: "t_owner candidate = t_owner t"
      using task_change_key [OF task_owner_constant [OF later ledger_tables(1) [OF ok] m(1-3)]] by simp
    obtain v d1 where s: "settle now_x t r d = Inr (v, d1)" using settle_total [OF r(3)] by blast
    note settled = settle_settled [OF ledger_tables(2) [OF ok] r(2) s]
    have v: "verdict_ok v" using settled by (simp add: audit_settled_def)
    let ?retry = "retryable c \<and> vd_status v = FAILED \<and> \<not> vd_unknown v \<and> vd_code v = vd_code r"
    obtain d2 d3 where d: "finish_setting v ?retry (if ?retry then comp_retry_at c else None)
          (S ''autonomy_halted'') now t (setting_get (t_owner t) d) (put_task (finished_row v now t) d1) = Inr d2"
        "settle_budget v (refund_budget c \<and> ?retry) now t d2 = Inr d3"
      using closing_total [OF ok m(2,4) settled] by blast
    have "task_constraints (finished_row v now t)"
      using finished_row_ok [OF ledger_rows(4) [OF ok m(2)] m(4,5) v] finished_constraints by blast
    then show ?thesis using d by (auto simp: sql_finish_task_def r(1) f Let_def owner s)
  qed
  obtain c' where c': "row_error_code code (S ''worker_lost'') = Inr c'" "plain_code c'"
    using row_error_code_plain [OF code] by blast
  have "distinct (map t_id (d_tasks d))" using ledger_tables(1) [OF ok] by (simp add: task_table_ok_def)
  from expire_loop_total [OF ok candidates_known [OF this] c'(2)]
  show "\<exists>n d'. mark_expired_dispatching_unknown locked now_x now before code d = Inr (n, d')"
    by (simp add: mark_expired_dispatching_unknown_def c'(1) Let_def)
qed

section \<open>Applied\<close>

lemma office_ledger: "ledger_ok agent_office"
proof -
  have tasks: "d_tasks agent_office = [leased_task, dispatching_task]"
    by (simp add: agent_office_def empty_db_def)
  have free: "t_execution leased_task = None" "t_budget_day leased_task = None" "t_target leased_task = None"
    "t_target dispatching_task = None" "t_status leased_task = LEASED"
    by (simp_all add: leased_task_def dispatching_task_def)
  have bound: "t_owner dispatching_task = 7" "t_execution dispatching_task = Some 1" "t_budget_day dispatching_task = Some 0"
    "execution_bound dispatching_task running_row"
    by (simp_all add: execution_bound_def dispatching_task_def leased_task_def running_row_def sample_execution_def)
  have get: "exec_get 7 1 agent_office = Some running_row" "usage_get 7 0 agent_office \<noteq> None"
    by (simp_all add: exec_get_def usage_get_def agent_office_def empty_db_def running_row_def sample_execution_def
        zero_usage_def)
  have rows: "task_linked agent_office t \<and> task_backed agent_office t \<and> target_normal t"
    if "t \<in> set (d_tasks agent_office)" for t
    using that free bound get unfolding tasks by (auto simp: task_linked_def task_backed_def target_normal_def)
  have cat: "row_category dispatching_task = Cat_match"
    by (simp add: row_category_def usage_category_def dispatching_task_def leased_task_def S_def py_strip_def
        py_space_def)
  have held: "held o' day c agent_office \<subseteq> (if o' = 7 \<and> day = 0 \<and> c = Cat_match then {2} else {})" for o' day c
    unfolding held_def tasks using free(5) bound cat
    by (auto simp: dispatching_task_def)
  have used: "used_count o' day c agent_office \<ge> (if o' = 7 \<and> day = 0 \<and> c = Cat_match then 1 else 0)" for o' day c
    by (cases c) (simp_all add: used_count_def usage_count_def usage_get_def agent_office_def empty_db_def
        zero_usage_def)
  have "int (card (held o' day c agent_office)) \<le> used_count o' day c agent_office" for o' day c
  proof -
    have "card (held o' day c agent_office) \<le> card (if o' = 7 \<and> day = 0 \<and> c = Cat_match then {2::uuid} else {})"
      by (rule card_mono [OF _ held]) simp
    then show ?thesis using used [of o' day c] by (auto split: if_splits)
  qed
  then show ?thesis using office_tables rows by (simp add: ledger_ok_def)
qed

theorem closing_never_raises_witness:
  "\<exists>n d'. mark_expired_dispatching_unknown (\<lambda>_. False) 90 90 80 (S ''worker_lost'') agent_office = Inr (n, d')"
  using closing_never_raises [OF office_ledger task_progress_refl office_completion plain_codes(4)] by blast

theorem ledger_invariant_witness:
  "\<exists>d'. sql_finish_task 60 2 (S ''permit'') (completion SUCCEEDED []) 60 agent_office agent_office = Inr (True, d')
     \<and> ledger_ok d'"
proof -
  obtain d' where d': "sql_finish_task 60 2 (S ''permit'') (completion SUCCEEDED []) 60 agent_office agent_office
      = Inr (True, d')"
    using office_finishes by blast
  have "store_step\<^sup>*\<^sup>* agent_office d'"
    by (rule r_into_rtranclp, rule store_step.finish [OF d' office_completion task_progress_refl])
  with ledger_invariant [OF office_ledger] d' show ?thesis by blast
qed

theorem lost_lease_fenced_witness:
  "\<exists>u d1. sql_claim_next (\<lambda>_. False) (S ''next'') (Some (S ''worker-2'')) 200 300 agent_office = Inr (Some u, d1)
     \<and> sql_renew_lease (t_id u) (S ''lease'') 210 310 d1 = (False, d1)"
proof -
  have due: "task_due 200 leased_task" "\<not> task_due 200 dispatching_task"
    by (simp_all add: task_due_def leased_task_def dispatching_task_def)
  have worker: "checked_worker (Some (S ''worker-2'')) = Inr (S ''worker-2'')"
    by (simp add: checked_worker_def or_default_def S_def py_strip_def py_space_def)
  obtain u d1 where c: "sql_claim_next (\<lambda>_. False) (S ''next'') (Some (S ''worker-2'')) 200 300 agent_office
      = Inr (Some u, d1)"
    using due worker by (simp add: sql_claim_next_def agent_office_def empty_db_def Let_def)
  have "S ''lease'' \<noteq> S ''next''" by (simp add: S_def)
  from lost_lease_fenced [OF office_tables(1) office_completion disjI1 [OF c] this] c show ?thesis by blast
qed

definition match_task :: task_request where
  "match_task = \<lparr>q_owner = 7, q_account = 3, q_type = S ''request_match'', q_action = S ''request_text_match'',
     q_key = S ''match-0001'', q_policy_version = 1, q_execution_version = 1, q_runner_version = 1,
     q_connection = 4, q_fingerprint = replicate 64 97, q_contact_version = None, q_stage = [],
     q_source_id = None, q_source = [], q_slot = [], q_target = [], q_instruction = [],
     q_scheduled_for = None, q_not_before = None\<rparr>"

lemma match_task_enqueued:
  "enqueue_task i n match_task d =
     (let t = new_task i n match_task REQUEST_MATCH (S ''match-0001'') [] in
      case task_find_key 7 (S ''match-0001'') d of
        None \<Rightarrow> Inr ((t, True), d\<lparr>d_tasks := d_tasks d @ [t]\<rparr>)
      | Some e \<Rightarrow> Inr ((e, False), d))"
proof -
  have texts: "row_action (S ''request_text_match'') = Inr (S ''request_text_match'')"
    "py_strip (S ''request_match'') = S ''request_match''" "row_key (S ''match-0001'') = Inr (S ''match-0001'')"
    by (simp_all add: row_action_def row_key_def S_def py_strip_def py_space_def SUPPORTED_ACCOUNT_ACTION_TYPES_def
        Let_def)
  have ty: "map_of AUTONOMY_TASK_TYPES (S ''request_match'') = Some REQUEST_MATCH"
    by (simp add: AUTONOMY_TASK_TYPES_def S_def)
  have fp: "py_lower (py_strip (replicate 64 97)) = replicate 64 97"
    by (simp add: py_strip_def py_space_def py_lower_def lower_cp_def)
  have checks: "enqueue_checks match_task = Inr []"
    by (simp add: enqueue_checks_def match_task_def fp texts hex_fingerprint_def Let_def) (simp add: S_def)
  have fp': "length (py_lower (replicate 64 97)) = 64" by (simp add: py_lower_def lower_cp_def)
  have con: "task_constraints (new_task i n match_task REQUEST_MATCH (S ''match-0001'') [])"
    by (simp add: task_constraints_def new_task_def match_task_def none_if_empty_def fp fp' texts S_def
        row_action_def py_strip_def py_space_def)
  have act: "expected_action REQUEST_MATCH = S ''request_text_match''" by simp
  have q: "q_action match_task = S ''request_text_match''" "q_type match_task = S ''request_match''"
    "q_key match_task = S ''match-0001''" "q_owner match_task = 7"
    by (simp_all add: match_task_def)
  show ?thesis
    by (simp add: enqueue_task_def q texts ty act checks con Let_def)
qed

lemma empty_ledger: "ledger_ok empty_db"
  by (simp add: ledger_ok_def task_table_ok_def execution_table_ok_def usage_table_ok_def setting_table_ok_def
      empty_db_def held_def used_count_def usage_get_def usage_count_def)

theorem enqueue_idempotent_witness:
  "\<exists>t d1 t'. enqueue_task 1 5 match_task empty_db = Inr ((t, True), d1)
     \<and> enqueue_task 2 9 match_task d1 = Inr ((t', False), d1) \<and> same_binding t t'"
proof -
  have "task_find_key 7 (S ''match-0001'') empty_db = None" by (simp add: task_find_key_def empty_db_def)
  then obtain t d1 where first: "enqueue_task 1 5 match_task empty_db = Inr ((t, True), d1)"
    by (simp add: match_task_enqueued Let_def)
  obtain t' created d3 where again: "enqueue_task 2 9 match_task d1 = Inr ((t', created), d3)"
    by (cases "task_find_key 7 (S ''match-0001'') d1") (auto simp: match_task_enqueued Let_def)
  have "1 \<notin> t_id ` set (d_tasks empty_db)" by (simp add: empty_db_def)
  from enqueue_idempotent [OF empty_ledger this first rtranclp.rtrancl_refl again refl refl] first again
  show ?thesis by auto
qed

text \<open>The office with a permit whose execution was not prepared yet.\<close>

definition ready_office :: agent_db where
  "ready_office = agent_office\<lparr>d_tasks := [dispatching_task\<lparr>t_execution := None\<rparr>], d_executions := []\<rparr>"

lemma ready_ledger: "ledger_ok ready_office"
proof -
  let ?t = "dispatching_task\<lparr>t_execution := None\<rparr>"
  have inv: "task_inv ?t"
    by (simp add: task_inv_iff task_static_def task_life_def dispatching_task_def leased_task_def)
  have tasks: "d_tasks ready_office = [?t]" by (simp add: ready_office_def)
  have same: "d_usages ready_office = d_usages agent_office" "d_settings ready_office = d_settings agent_office"
    by (simp_all add: ready_office_def)
  have "usage_get o' day ready_office = usage_get o' day agent_office" for o' day
    by (simp add: usage_get_def same)
  moreover have "held o' day c ready_office \<subseteq> held o' day c agent_office" for o' day c
    by (auto simp: held_def tasks agent_office_def empty_db_def row_category_def)
  then have "card (held o' day c ready_office) \<le> card (held o' day c agent_office)" for o' day c
    by (rule card_mono [OF finite_held])
  then have "int (card (held o' day c ready_office)) \<le> used_count o' day c agent_office" for o' day c
    using ledger_counts [OF office_ledger, of o' day c] by (metis of_nat_mono order_trans)
  moreover have "task_backed ready_office ?t \<and> target_normal ?t"
    using calculation(1)
    by (simp add: task_backed_def target_normal_def dispatching_task_def leased_task_def usage_get_def
        agent_office_def empty_db_def zero_usage_def)
  ultimately show ?thesis
    using inv ledger_tables(3,4) [OF office_ledger]
    by (simp add: ledger_ok_def tasks same task_table_ok_def execution_table_ok_def usage_table_ok_def
        setting_table_ok_def used_count_def task_linked_def) (simp add: ready_office_def)
qed

lemma office_texts:
  "row_action (S ''request_text_match'') = Inr (S ''request_text_match'')"
  "py_strip (S ''request_text_match'') = S ''request_text_match''"
  "row_key (S ''action-2'') = Inr (S ''action-2'')"
  "py_strip (S ''user_allowlist'') \<in> SUPPORTED_ACTION_APPROVAL_SOURCES"
  "py_strip (S ''schedule'') \<in> SUPPORTED_ACTION_TRIGGER_SOURCES"
  by (simp_all add: row_action_def row_key_def S_def py_strip_def py_space_def Let_def
      SUPPORTED_ACCOUNT_ACTION_TYPES_def SUPPORTED_ACTION_APPROVAL_SOURCES_def SUPPORTED_ACTION_TRIGGER_SOURCES_def)

text \<open>One call of prepare on an office with one dispatching task and at most its own execution.\<close>

lemma office_prepares:
  assumes d: "d_tasks d = [dispatching_task\<lparr>t_execution := e, t_updated_at := n\<rparr>]"
    and xs: "d_executions d = [] \<and> e = None \<or>
       (\<exists>x. d_executions d = [x] \<and> e = Some (x_id x) \<and> x_owner x = 7 \<and> x_action x = S ''request_text_match''
          \<and> x_key x = S ''action-2'' \<and> same_execution (dispatching_task\<lparr>t_execution := e, t_updated_at := n\<rparr>) x [] []
          \<and> x_status x = X_RUNNING \<and> x_started_at x = Some 20)"
  shows "\<exists>p d' x. prepare_action_execution 20 i (S ''permit'') (S ''request_text_match'') (S ''action-2'') [] [] d
      = Inr (Some p, d') \<and> pe_owner p = 7 \<and> pe_should_execute p = (e = None)
    \<and> d_tasks d' = [dispatching_task\<lparr>t_execution := Some (x_id x), t_updated_at := (if e = None then 20 else n)\<rparr>]
    \<and> d_executions d' = [x] \<and> x_owner x = 7 \<and> x_action x = S ''request_text_match'' \<and> x_key x = S ''action-2''
    \<and> same_execution dispatching_task x [] [] \<and> x_status x = X_RUNNING \<and> x_started_at x = Some 20
    \<and> (e = None \<longrightarrow> x_id x = i)"
proof -
  have t: "permitted_task (S ''permit'') (S ''request_text_match'') (S ''action-2'')
      (dispatching_task\<lparr>t_execution := e, t_updated_at := n\<rparr>)"
    by (simp add: permitted_task_def dispatching_task_def leased_task_def)
  have f: "t_owner dispatching_task = 7" "t_account dispatching_task = 3" "t_execution_version dispatching_task = 1"
    "t_id dispatching_task = 2" "t_status dispatching_task = DISPATCHING" "t_lease_token dispatching_task = Some (S ''permit'')"
    by (simp_all add: dispatching_task_def leased_task_def)
  show ?thesis
    using xs
  proof
    assume "d_executions d = [] \<and> e = None"
    then have none: "d_executions d = []" "e = None" by blast+
    show ?thesis
      by (simp add: prepare_action_execution_def office_texts d t [unfolded none(2)] none f exec_enqueue_def exec_find_key_def same_execution_def
          dict_same_def link_execution_def record_action_execution_id_def update_tasks_def count_where_def
          update_where_def exec_start_def exec_get_def started_execution_def put_execution_def prepared_def Let_def)
  next
    assume "\<exists>x. d_executions d = [x] \<and> e = Some (x_id x) \<and> x_owner x = 7 \<and> x_action x = S ''request_text_match''
          \<and> x_key x = S ''action-2'' \<and> same_execution (dispatching_task\<lparr>t_execution := e, t_updated_at := n\<rparr>) x [] []
          \<and> x_status x = X_RUNNING \<and> x_started_at x = Some 20"
    then obtain x where x: "d_executions d = [x]" "e = Some (x_id x)" "x_owner x = 7"
      "x_action x = S ''request_text_match''" "x_key x = S ''action-2''" "x_status x = X_RUNNING" "x_started_at x = Some 20"
      and same: "same_execution (dispatching_task\<lparr>t_execution := e, t_updated_at := n\<rparr>) x [] []"
      by blast
    have fresh: "\<not> stale_running x 20"
      by (simp add: stale_running_def x AGENT_RUNNING_TIMEOUT_def)
    show ?thesis
      using same
      by (simp add: prepare_action_execution_def office_texts d t [unfolded x(2)] f exec_enqueue_def exec_find_key_def x
          mark_stale_running_row_def fresh link_execution_def prepared_def same_execution_def)
  qed
qed

theorem action_started_once_witness:
  "\<exists>p d1 p' d2.
     prepare_action_execution 20 1 (S ''permit'') (S ''request_text_match'') (S ''action-2'') [] [] ready_office
       = Inr (Some p, d1) \<and> pe_should_execute p
     \<and> prepare_action_execution 20 2 (S ''permit'') (S ''request_text_match'') (S ''action-2'') [] [] d1
       = Inr (Some p', d2) \<and> \<not> pe_should_execute p' \<and> pe_execution p' = pe_execution p"
proof -
  have tasks: "d_tasks ready_office = [dispatching_task\<lparr>t_execution := None, t_updated_at := 2\<rparr>]"
    "d_executions ready_office = []"
    by (simp_all add: ready_office_def dispatching_task_def leased_task_def)
  obtain p d1 x where first: "prepare_action_execution 20 1 (S ''permit'') (S ''request_text_match'') (S ''action-2'')
        [] [] ready_office = Inr (Some p, d1)" "pe_owner p = 7" "pe_should_execute p"
    and d1: "d_tasks d1 = [dispatching_task\<lparr>t_execution := Some (x_id x), t_updated_at := 20\<rparr>]"
      "d_executions d1 = [x]" "x_owner x = 7" "x_action x = S ''request_text_match''" "x_key x = S ''action-2''"
      "same_execution dispatching_task x [] []" "x_status x = X_RUNNING" "x_started_at x = Some 20" "x_id x = 1"
    using office_prepares [OF tasks(1), of 1] tasks(2) by auto
  have ok1: "1 \<notin> x_id ` set (d_executions ready_office)" by (simp add: tasks)
  have "same_execution (dispatching_task\<lparr>t_execution := Some (x_id x), t_updated_at := 20\<rparr>) x [] []"
    using d1(6) by (simp add: same_execution_def)
  then obtain p' d2 where again: "prepare_action_execution 20 2 (S ''permit'') (S ''request_text_match'')
      (S ''action-2'') [] [] d1 = Inr (Some p', d2)" "pe_owner p' = 7"
    using office_prepares [OF d1(1), of 2] d1 by auto
  have x1: "2 \<notin> x_id ` set (d_executions d1)"
    by (simp add: d1)
  show ?thesis
    using action_started_once [OF ready_ledger ok1 first(1,3) rtranclp.rtrancl_refl x1 again(1)] first again by auto
qed

end
