(* ===== verification/Py_Json.thy ===== *)
theory Py_Json
  imports Orchestrator Candidate_Compatibility "HOL-Library.AList" "HOL-Library.List_Lexorder"
begin

text \<open>
  JSON values as the native modules store them (JSONB columns, idempotency payloads), Python's
  truth value and \<^verbatim>\<open>str\<close> of them, and \<^verbatim>\<open>json.dumps(..., ensure_ascii=False, separators=(",", ":"),
  sort_keys=True)\<close>.  An object is the list of its members in the order of the dictionary; a float is
  its printed form and its truth value.  The printed form of a list or an object (\<^verbatim>\<open>repr\<close>) is the
  parameter \<open>show\<close>: the code prints only scalars on every path that matters.
\<close>

datatype json =
    JNull | JBool bool | JInt int | JFloat pystr bool | JStr pystr
  | JList "json list" | JObj "(pystr \<times> json) list"

type_synonym jdict = "(pystr \<times> json) list"

fun j_truthy :: "json \<Rightarrow> bool" where
  "j_truthy JNull = False"
| "j_truthy (JBool b) = b"
| "j_truthy (JInt i) = (i \<noteq> 0)"
| "j_truthy (JFloat s b) = b"
| "j_truthy (JStr s) = (s \<noteq> [])"
| "j_truthy (JList xs) = (xs \<noteq> [])"
| "j_truthy (JObj kvs) = (kvs \<noteq> [])"

fun j_str :: "(json \<Rightarrow> pystr) \<Rightarrow> json \<Rightarrow> pystr" where
  "j_str show JNull = S ''None''"
| "j_str show (JBool b) = (if b then S ''True'' else S ''False'')"
| "j_str show (JInt i) = py_str (PInt i)"
| "j_str show (JFloat s b) = s"
| "j_str show (JStr s) = s"
| "j_str show j = show j"

text \<open>\<^verbatim>\<open>str(value or "")\<close>, \<^verbatim>\<open>d.get(key)\<close> and \<^verbatim>\<open>d[key] = value\<close>.\<close>

definition j_text :: "(json \<Rightarrow> pystr) \<Rightarrow> json \<Rightarrow> pystr" where
  "j_text show j = (if j_truthy j then j_str show j else [])"

definition jget :: "jdict \<Rightarrow> string \<Rightarrow> json" where
  "jget d k = (case map_of d (S k) of None \<Rightarrow> JNull | Some v \<Rightarrow> v)"

definition jset :: "string \<Rightarrow> json \<Rightarrow> jdict \<Rightarrow> jdict" where
  "jset k v d = AList.update (S k) v d"

lemma jget_jset [simp]: "jget (jset k v d) k' = (if k = k' then v else jget d k')"
  by (simp add: jget_def jset_def update_conv')

lemma j_text_simps [simp]:
  "j_text show (JStr s) = s" "j_text show JNull = []" "j_text show (JBool False) = []"
  by (simp_all add: j_text_def)

section \<open>Canonical text\<close>

text \<open>\<^verbatim>\<open>sort_keys=True\<close> orders the members of every object by their keys.\<close>

fun json_sort :: "json \<Rightarrow> json" where
  "json_sort (JList xs) = JList (map json_sort xs)"
| "json_sort (JObj kvs) = JObj (sort_key fst (map (\<lambda>(k, v). (k, json_sort v)) kvs))"
| "json_sort j = j"

fun json_dumps :: "json \<Rightarrow> pystr"
  and json_items :: "json list \<Rightarrow> pystr"
  and json_members :: "jdict \<Rightarrow> pystr" where
  "json_dumps JNull = S ''null''"
| "json_dumps (JBool b) = json_bool b"
| "json_dumps (JInt i) = py_str (PInt i)"
| "json_dumps (JFloat s b) = s"
| "json_dumps (JStr s) = json_string s"
| "json_dumps (JList xs) = 91 # json_items xs"
| "json_dumps (JObj kvs) = 123 # json_members kvs"
| "json_items [] = [93]"
| "json_items [x] = json_dumps x @ [93]"
| "json_items (x # y # zs) = json_dumps x @ 44 # json_items (y # zs)"
| "json_members [] = [125]"
| "json_members [(k, v)] = json_string k @ 58 # json_dumps v @ [125]"
| "json_members ((k, v) # m # ms) = json_string k @ 58 # json_dumps v @ 44 # json_members (m # ms)"

definition json_canonical :: "json \<Rightarrow> pystr" where
  "json_canonical j = json_dumps (json_sort j)"

section \<open>The canonical text determines the value\<close>

text \<open>Values without floats, whose printed form may look like an integer.\<close>

fun plain_json :: "json \<Rightarrow> bool" where
  "plain_json (JFloat s b) = False"
| "plain_json (JList xs) = (\<forall>x \<in> set xs. plain_json x)"
| "plain_json (JObj kvs) = (\<forall>m \<in> set kvs. plain_json (snd m))"
| "plain_json j = True"

definition delim :: "pystr \<Rightarrow> bool" where
  "delim x \<longleftrightarrow> x = [] \<or> hd x \<in> {44, 93, 125}"

lemma delim_simps [simp]: "delim []" "delim (c # x) \<longleftrightarrow> c \<in> {44, 93, 125}"
  by (simp_all add: delim_def)

lemma nat_str_inject: "nat_str m = nat_str n \<Longrightarrow> m = n"
  by (metis digits_value_nat_str option.inject)

lemma int_text_chars: "set (py_str (PInt i)) \<subseteq> insert 45 {48..57}" "py_str (PInt i) \<noteq> []"
  using nat_str_digits [of "nat i"] nat_str_digits [of "nat (- i)"] by auto

lemma int_text_inject: "py_str (PInt i) = py_str (PInt j) \<Longrightarrow> i = j"
proof -
  have no_sign: "\<forall>n. hd (nat_str n) \<noteq> 45"
  proof
    fix n
    have "hd (nat_str n) \<in> set (nat_str n)" using nat_str_digits by (intro hd_in_set) blast
    then have "hd (nat_str n) \<in> {48..57}" using nat_str_digits by blast
    then show "hd (nat_str n) \<noteq> 45" by auto
  qed
  assume eq: "py_str (PInt i) = py_str (PInt j)"
  have tell: "(k < 0) = (hd (py_str (PInt k)) = 45)" for k
    using no_sign by (cases "k < 0") simp_all
  have sign: "(i < 0) = (j < 0)" unfolding tell [of i] tell [of j] eq ..
  show "i = j"
  proof (cases "i < 0")
    case True
    with eq sign have "nat (- i) = nat (- j)" by (intro nat_str_inject) simp
    with True sign show ?thesis by simp
  next
    case False
    with eq sign have "nat i = nat j" by (intro nat_str_inject) simp
    with False sign show ?thesis by simp
  qed
qed

lemma int_text_prefix:
  assumes "py_str (PInt i) @ x = py_str (PInt j) @ y" "delim x" "delim y"
  shows "i = j \<and> x = y"
proof -
  define D where "D = (\<lambda>c :: nat. c = 45 \<or> 48 \<le> c \<and> c \<le> 57)"
  have t: "takeWhile D (py_str (PInt k) @ z) = py_str (PInt k)" if "delim z" for k z
  proof -
    have "takeWhile D z = []" using that by (cases z) (auto simp: D_def)
    moreover have "\<forall>c \<in> set (py_str (PInt k)). D c" using int_text_chars(1) [of k] unfolding D_def by fastforce
    ultimately show ?thesis using takeWhile_append2 [of "py_str (PInt k)" D z] by simp
  qed
  have "py_str (PInt i) = py_str (PInt j)"
    using t [OF assms(2), of i] t [OF assms(3), of j] unfolding assms(1) by (rule trans [OF sym])
  with assms(1) int_text_inject show ?thesis by (metis same_append_eq)
qed

text \<open>The first character of a value tells its kind.\<close>

fun json_kind :: "json \<Rightarrow> nat set" where
  "json_kind JNull = {110}"
| "json_kind (JBool b) = {if b then 116 else 102}"
| "json_kind (JInt i) = insert 45 {48..57}"
| "json_kind (JFloat s b) = {}"
| "json_kind (JStr s) = {34}"
| "json_kind (JList xs) = {91}"
| "json_kind (JObj kvs) = {123}"

lemma json_first: "plain_json j \<Longrightarrow> hd (json_dumps j @ x) \<in> json_kind j \<and> json_dumps j \<noteq> []"
proof (cases j)
  case (JInt i)
  then show ?thesis
    using int_text_chars [of i] by (cases "py_str (PInt i)") (auto simp del: py_str.simps)
qed (auto simp: json_bool_def json_string_def S_def)

lemma json_items_first: "json_items xs \<noteq> []" "xs \<noteq> [] \<Longrightarrow> \<forall>x \<in> set xs. plain_json x \<Longrightarrow> hd (json_items xs) \<noteq> 93"
proof -
  show "json_items xs \<noteq> []" by (cases xs rule: json_items.cases) auto
  assume xs: "xs \<noteq> []" "\<forall>x \<in> set xs. plain_json x"
  then obtain x ys where "xs = x # ys" "plain_json x" by (cases xs) auto
  then show "hd (json_items xs) \<noteq> 93"
    using json_first [of x] by (cases x; cases ys) (auto simp: json_string_def json_bool_def S_def)
qed

lemma json_items_open:
  assumes "xs \<noteq> []" "\<forall>x \<in> set xs. plain_json x"
  shows "json_items xs @ x \<noteq> 93 # y" "93 # y \<noteq> json_items xs @ x"
  using json_items_first(2) [OF assms] json_items_first(1) [of xs] by (cases "json_items xs"; auto)+

lemma short_list_cases:
  obtains (none) "xs = []" | (one) x where "xs = [x]" | (more) x y zs where "xs = x # y # zs"
  by (cases xs; cases "tl xs") auto

lemma json_string_head: "hd (json_string s @ x) = 34" "json_string s \<noteq> []"
  by (simp_all add: json_string_def)

lemma json_same_kind:
  assumes "plain_json j" "plain_json k" "json_dumps j @ x = json_dumps k @ y"
  shows "case j of JNull \<Rightarrow> k = JNull | JBool b \<Rightarrow> k = JBool b | JInt i \<Rightarrow> (\<exists>i'. k = JInt i')
    | JFloat s b \<Rightarrow> False | JStr s \<Rightarrow> (\<exists>s'. k = JStr s') | JList xs \<Rightarrow> (\<exists>ys. k = JList ys)
    | JObj ms \<Rightarrow> (\<exists>ns. k = JObj ns)"
proof -
  have "json_kind j \<inter> json_kind k \<noteq> {}"
    using json_first [OF assms(1), of x] json_first [OF assms(2), of y] assms(3) by auto
  with assms(1,2) show ?thesis by (cases j; cases k) (auto split: if_splits)
qed

lemma json_dumps_prefix:
  "plain_json j \<Longrightarrow> plain_json k \<Longrightarrow> json_dumps j @ x = json_dumps k @ y \<Longrightarrow> delim x \<Longrightarrow> delim y \<Longrightarrow> j = k \<and> x = y"
  "\<forall>i \<in> set xs. plain_json i \<Longrightarrow> \<forall>i \<in> set ys. plain_json i \<Longrightarrow> json_items xs @ x = json_items ys @ y
     \<Longrightarrow> xs = ys \<and> x = y"
  "\<forall>m \<in> set ms. plain_json (snd m) \<Longrightarrow> \<forall>m \<in> set ns. plain_json (snd m)
     \<Longrightarrow> json_members ms @ x = json_members ns @ y \<Longrightarrow> ms = ns \<and> x = y"
proof (induction j and xs and ms arbitrary: k x y and ys x y and ns x y
    rule: json_dumps_json_items_json_members.induct)
  case (1 k x y)
  with json_same_kind [OF 1(1-3)] show ?case by simp
next
  case (2 b k x y)
  with json_same_kind [OF 2(1-3)] show ?case by simp
next
  case (3 i k x y)
  then obtain i' where k: "k = JInt i'" using json_same_kind [OF 3(1-3)] by auto
  with 3 int_text_prefix [of i x i' y] show ?case by simp
next
  case (4 s b)
  then show ?case by simp
next
  case (5 s k x y)
  then obtain s' where "k = JStr s'" using json_same_kind [OF 5(1-3)] by auto
  with 5 json_string_prefix [of s x s' y] show ?case by simp
next
  case (6 xs k x y)
  then obtain ys where "k = JList ys" using json_same_kind [OF 6(2-4)] by auto
  with "6.IH" [of ys x y] "6.prems" show ?case by simp
next
  case (7 ms k x y)
  then obtain ns where "k = JObj ns" using json_same_kind [OF 7(2-4)] by auto
  with "7.IH" [of ns x y] "7.prems" show ?case by simp
next
  case (8 ys x y)
  then show ?case using json_items_open(2) [of ys x y] by (cases "ys = []") auto
next
  case (9 i ys x y)
  show ?case
  proof (cases ys rule: short_list_cases)
    case none
    with none "9.prems" json_items_open(1) [of "[i]" x y] show ?thesis by auto
  next
    case (one j)
    with "9.IH" [of j "93 # x" "93 # y"] "9.prems" show ?thesis by auto
  next
    case (more j j' js)
    with "9.IH" [of j "93 # x" "44 # json_items (j' # js) @ y"] "9.prems" show ?thesis by auto
  qed
next
  case (10 i i' zs ys x y)
  show ?case
  proof (cases ys rule: short_list_cases)
    case none
    with none "10.prems" json_items_open(1) [of "i # i' # zs" x y] show ?thesis by auto
  next
    case (one j)
    with "10.IH"(1) [of j "44 # json_items (i' # zs) @ x" "93 # y"] "10.prems" show ?thesis by auto
  next
    case (more j j' js)
    have "i = j \<and> 44 # json_items (i' # zs) @ x = 44 # json_items (j' # js) @ y"
      using "10.IH"(1) [of j "44 # json_items (i' # zs) @ x" "44 # json_items (j' # js) @ y"] "10.prems" more
      by simp
    with "10.IH"(2) [of "j' # js" x y] "10.prems" more show ?thesis by simp
  qed
next
  case (11 ns x y)
  then show ?case by (cases ns rule: short_list_cases) (auto simp: json_string_def)
next
  case (12 key i ns x y)
  show ?case
  proof (cases ns rule: short_list_cases)
    case none
    with none "12.prems" show ?thesis by (simp add: json_string_def)
  next
    case (one n)
    obtain key' j where n: "n = (key', j)" by (cases n)
    from "12.prems"(3) one n have "json_string key @ (58 # json_dumps i @ 125 # x) = json_string key' @ (58 # json_dumps j @ 125 # y)"
      by simp
    from json_string_prefix [OF this] have "key = key'" "json_dumps i @ 125 # x = json_dumps j @ 125 # y" by auto
    with "12.IH" [of j "125 # x" "125 # y"] "12.prems" one n show ?thesis by auto
  next
    case (more n m js)
    obtain key' j where n: "n = (key', j)" by (cases n)
    from "12.prems"(3) more n have "json_string key @ (58 # json_dumps i @ 125 # x)
        = json_string key' @ (58 # json_dumps j @ 44 # json_members (m # js) @ y)" by simp
    from json_string_prefix [OF this] have "json_dumps i @ 125 # x = json_dumps j @ 44 # json_members (m # js) @ y" by auto
    with "12.IH" [of j "125 # x" "44 # json_members (m # js) @ y"] "12.prems" more n show ?thesis by auto
  qed
next
  case (13 key i m ms ns x y)
  show ?case
  proof (cases ns rule: short_list_cases)
    case none
    with none "13.prems" show ?thesis by (simp add: json_string_def)
  next
    case (one n)
    obtain key' j where n: "n = (key', j)" by (cases n)
    from "13.prems"(3) one n have "json_string key @ (58 # json_dumps i @ 44 # json_members (m # ms) @ x)
        = json_string key' @ (58 # json_dumps j @ 125 # y)" by simp
    from json_string_prefix [OF this] have "json_dumps i @ 44 # json_members (m # ms) @ x = json_dumps j @ 125 # y" by auto
    with "13.IH"(1) [of j "44 # json_members (m # ms) @ x" "125 # y"] "13.prems" one n show ?thesis by auto
  next
    case (more n0 n js)
    obtain key' j where n: "n0 = (key', j)" by (cases n0)
    from "13.prems"(3) more n have "json_string key @ (58 # json_dumps i @ 44 # json_members (m # ms) @ x)
        = json_string key' @ (58 # json_dumps j @ 44 # json_members (n # js) @ y)" by simp
    from json_string_prefix [OF this] have key: "key = key'"
      "json_dumps i @ 44 # json_members (m # ms) @ x = json_dumps j @ 44 # json_members (n # js) @ y" by auto
    have "i = j \<and> 44 # json_members (m # ms) @ x = 44 # json_members (n # js) @ y"
      using "13.IH"(1) [of j "44 # json_members (m # ms) @ x" "44 # json_members (n # js) @ y"] "13.prems" more n key(2)
      by simp
    with "13.IH"(2) [of "n # js" x y] "13.prems" more n key(1) show ?thesis by simp
  qed
qed

lemma json_dumps_inject: "plain_json j \<Longrightarrow> plain_json k \<Longrightarrow> json_dumps j = json_dumps k \<Longrightarrow> j = k"
  using json_dumps_prefix(1) [of j k "[]" "[]"] by simp

end
