(* ===== verification/Social_Graph.thy ===== *)
theory Social_Graph
  imports Py_Json Contact_Store
begin

text \<open>
  The local social graph (\<^verbatim>\<open>bbw_web/social_native\<close>): its contract, its rows and how the rows of a
  pair of accounts are read.  A relation is a directed edge; rows of the local provider take precedence
  over migrated rows, of which only those with an authenticated marker count.  \<open>SOCIAL_NATIVE_PROVIDER\<close>
  rows are unique per owner, subject and kind.
\<close>

section \<open>The contract (\<^verbatim>\<open>contracts.py\<close>, \<^verbatim>\<open>errors.py\<close>)\<close>

definition SOCIAL_NATIVE_PROVIDER :: string where
  "SOCIAL_NATIVE_PROVIDER = ''web-local''"

definition LEGACY_ACCOUNT_PROVIDER :: string where
  "LEGACY_ACCOUNT_PROVIDER = ''beibeiwu''"

definition SOCIAL_NATIVE_SCHEMA :: int where
  "SOCIAL_NATIVE_SCHEMA = 1"

abbreviation RELATION_FOLLOW :: string where "RELATION_FOLLOW \<equiv> ''follow''"
abbreviation RELATION_FRIEND :: string where "RELATION_FRIEND \<equiv> ''friend''"
abbreviation RELATION_FRIEND_REQUEST :: string where "RELATION_FRIEND_REQUEST \<equiv> ''friend_request''"
abbreviation RELATION_BLOCK :: string where "RELATION_BLOCK \<equiv> ''blacklist''"

abbreviation REQUEST_PENDING :: pystr where "REQUEST_PENDING \<equiv> S ''pending''"
abbreviation REQUEST_ACCEPTED :: pystr where "REQUEST_ACCEPTED \<equiv> S ''accepted''"
abbreviation REQUEST_REJECTED :: pystr where "REQUEST_REJECTED \<equiv> S ''rejected''"
abbreviation REQUEST_CANCELLED :: pystr where "REQUEST_CANCELLED \<equiv> S ''cancelled''"
abbreviation REQUEST_BLOCKED :: pystr where "REQUEST_BLOCKED \<equiv> S ''blocked''"

definition REQUEST_STATES :: "pystr set" where
  "REQUEST_STATES = {REQUEST_PENDING, REQUEST_ACCEPTED, REQUEST_REJECTED, REQUEST_CANCELLED, REQUEST_BLOCKED}"

text \<open>\<^verbatim>\<open>FRIEND_REQUEST_TRANSITIONS.get(previous, frozenset())\<close>; no request yet is \<open>None\<close>.\<close>

definition friend_request_transitions :: "pystr option \<Rightarrow> pystr set" where
  "friend_request_transitions previous =
     (case previous of
        None \<Rightarrow> {REQUEST_PENDING}
      | Some s \<Rightarrow>
          if s = REQUEST_PENDING then {REQUEST_ACCEPTED, REQUEST_REJECTED, REQUEST_CANCELLED, REQUEST_BLOCKED}
          else if s \<in> {REQUEST_ACCEPTED, REQUEST_REJECTED, REQUEST_CANCELLED, REQUEST_BLOCKED} then {REQUEST_PENDING}
          else {})"

datatype social_error =
    InvalidSocialInput string | InvalidNickname string | SocialIdentityUnavailable
  | SocialTargetUnavailable | SocialTargetNotMigrated | SocialSelfActionForbidden | SocialBlocked
  | AlreadyFriends | FriendRequestUnavailable | FriendRequestStateConflict | SocialIdempotencyConflict
  | SocialValueError string

record social_principal =
  pr_user :: uuid
  pr_account :: uuid
  pr_uid :: pystr
  pr_provider :: string

record social_account =
  a_user :: uuid
  a_account :: uuid
  a_uid :: pystr
  a_display :: pystr
  a_profile :: jdict
  a_updated :: instant
  a_provider :: string
  a_private :: jdict

record flag_set =
  fl_following :: bool
  fl_followed_by :: bool
  fl_friend :: bool
  fl_blocked :: bool
  fl_blocked_by :: bool
  fl_outgoing :: "pystr option"
  fl_incoming :: "pystr option"

record friend_request_view =
  fv_id :: uuid
  fv_requester :: pystr
  fv_target :: pystr
  fv_message :: pystr
  fv_state :: pystr
  fv_requested_at :: instant
  fv_resolved_at :: "instant option"

record mutation_result =
  mr_action :: string
  mr_actor :: pystr
  mr_target :: pystr
  mr_active :: bool
  mr_changed :: bool
  mr_occurred_at :: instant
  mr_replay :: bool
  mr_related :: "string list"

record request_result =
  rr_request :: friend_request_view
  rr_changed :: bool
  rr_replay :: bool

section \<open>Rows\<close>

record social_user =
  su_id :: uuid
  su_status :: string
  su_disabled :: "instant option"
  su_display :: pystr
  su_profile :: jdict
  su_updated :: instant

record external_account =
  ea_id :: uuid
  ea_user :: uuid
  ea_provider :: string
  ea_uid :: "pystr option"
  ea_data :: jdict

record relationship =
  r_id :: uuid
  r_owner :: uuid
  r_provider :: string
  r_subject :: pystr
  r_kind :: string
  r_status :: pystr
  r_started :: instant
  r_ended :: "instant option"
  r_meta :: jdict
  r_updated :: instant

text \<open>An activity event written by \<^verbatim>\<open>_claim_operation\<close>; its JSON details hold the digest and, once
  finished, the result.\<close>

record social_event =
  ev_owner :: uuid
  ev_operation :: pystr
  ev_type :: string
  ev_digest :: pystr
  ev_occurred_at :: instant
  ev_changed :: bool
  ev_related :: "string list"

record social_db =
  sd_users :: "social_user list"
  sd_accounts :: "external_account list"
  sd_relations :: "relationship list"
  sd_events :: "social_event list"

text \<open>Outside the program: Unicode, SHA-256, the printed form of containers, \<^verbatim>\<open>uuid4\<close> given the
  identifiers in use, the address check of a bracketed host, \<^verbatim>\<open>isoformat\<close> and \<^verbatim>\<open>fromisoformat\<close> (a
  text without offset read as UTC), and \<^verbatim>\<open>uuid.UUID(text)\<close>.\<close>

record social_env = env +
  nfc :: "pystr \<Rightarrow> pystr"
  py_repr :: "json \<Rightarrow> pystr"
  fresh_id :: "uuid list \<Rightarrow> uuid"
  valid_bracketed_host :: "pystr \<Rightarrow> bool"
  iso_format :: "instant \<Rightarrow> pystr"
  from_iso :: "pystr \<Rightarrow> instant option"
  uuid_parse :: "pystr \<Rightarrow> uuid option"

section \<open>Migrated rows\<close>

definition TRUSTED_LEGACY_SOURCE_PATHS :: "(string \<times> string list) list" where
  "TRUSTED_LEGACY_SOURCE_PATHS =
     [(RELATION_FOLLOW, [''/api/social/follows'', ''/api/social/follow-list'']),
      (''follower'', [''/api/social/fans'']),
      (RELATION_FRIEND, [''/api/social/friends'']),
      (RELATION_FRIEND_REQUEST, [''/api/social/friend-apply'', ''/api/social/friends'']),
      (RELATION_BLOCK, [''/api/social/blacklist'']),
      (''blacklisted_by'', [''/api/social/blacklist-me''])]"

definition TRUSTED_LEGACY_ACTION_EVENTS :: "(string \<times> string list) list" where
  "TRUSTED_LEGACY_ACTION_EVENTS =
     [(RELATION_FOLLOW, [''api.api.social.follow'', ''api.api.social.unfollow'', ''api.social.follow'',
         ''api.social.unfollow'']),
      (RELATION_FRIEND_REQUEST, [''api.api.social.add-friend'', ''api.api.social.agree-friend'',
         ''api.social.add-friend'', ''api.social.agree-friend'']),
      (RELATION_FRIEND, [''api.api.social.agree-friend'', ''api.api.social.delete-friend'',
         ''api.social.agree-friend'', ''api.social.delete-friend'']),
      (RELATION_BLOCK, [''api.api.social.blacklist-add'', ''api.api.social.blacklist-del'',
         ''api.social.blacklist-add'', ''api.social.blacklist-del''])]"

definition known_marker :: "(string \<times> string list) list \<Rightarrow> string \<Rightarrow> pystr \<Rightarrow> bool" where
  "known_marker table kind text \<longleftrightarrow>
     (case map_of table kind of None \<Rightarrow> False | Some words \<Rightarrow> text \<in> S ` set words)"

definition is_trusted_legacy_relationship :: "social_env \<Rightarrow> relationship \<Rightarrow> bool" where
  "is_trusted_legacy_relationship E r \<longleftrightarrow>
     r_provider r = LEGACY_ACCOUNT_PROVIDER
     \<and> (if jget (r_meta r) ''server_owned'' = JBool True
        then r_kind r \<in> fst ` set TRUSTED_LEGACY_SOURCE_PATHS
        else
          let source_path = py_strip (j_text (py_repr E) (jget (r_meta r) ''source_path'')) in
          if known_marker TRUSTED_LEGACY_SOURCE_PATHS (r_kind r) source_path
          then (if r_kind r = RELATION_FRIEND_REQUEST \<and> source_path = S ''/api/social/friends''
                then j_text (py_repr E) (jget (r_meta r) ''resolved_as'') = REQUEST_ACCEPTED else True)
          else known_marker TRUSTED_LEGACY_ACTION_EVENTS (r_kind r)
                 (py_strip (j_text (py_repr E) (jget (r_meta r) ''last_event_type''))))"

definition normalized_relationship_state :: "social_env \<Rightarrow> relationship \<Rightarrow> pystr" where
  "normalized_relationship_state E r =
     (if r_kind r \<noteq> RELATION_FRIEND_REQUEST then r_status r
      else if r_provider r = SOCIAL_NATIVE_PROVIDER then r_status r
      else if r_status r = S ''active'' \<and> r_ended r = None then REQUEST_PENDING
      else
        let resolved_as = j_text (py_repr E) (jget (r_meta r) ''resolved_as'') in
        if resolved_as \<in> REQUEST_STATES then resolved_as else REQUEST_CANCELLED)"

definition row_is_active :: "relationship option \<Rightarrow> bool" where
  "row_is_active r \<longleftrightarrow>
     (case r of None \<Rightarrow> False | Some r \<Rightarrow> r_status r = S ''active'' \<and> r_ended r = None)"

text \<open>The greatest by time and printed identifier; a printed UUID orders as its number, and
  \<^verbatim>\<open>updated_at\<close> is never NULL in a stored row.\<close>

definition latest_relationship :: "relationship list \<Rightarrow> relationship option" where
  "latest_relationship rows = latest_by (\<lambda>r. (r_updated r, r_id r)) rows"

section \<open>Accounts\<close>

definition user_active :: "social_user \<Rightarrow> bool" where
  "user_active u \<longleftrightarrow> su_status u = ''active'' \<and> su_disabled u = None"

text \<open>The join of users and accounts that the queries filter.\<close>

definition user_accounts :: "social_db \<Rightarrow> (social_user \<times> external_account) list" where
  "user_accounts d = filter (\<lambda>(u, a). ea_user a = su_id u) (List.product (sd_users d) (sd_accounts d))"

definition PRIVATE_DISPLAY_FIELDS :: "string list" where
  "PRIVATE_DISPLAY_FIELDS =
     [''is_realname'', ''money'', ''portrait'', ''rp_verify_time'', ''svip'', ''user_sign'', ''user_role'', ''vip'']"

definition account_of :: "bool \<Rightarrow> social_user \<Rightarrow> external_account \<Rightarrow> social_account" where
  "account_of include_private u a =
     \<lparr>a_user = su_id u, a_account = ea_id a, a_uid = or_default (ea_uid a) [], a_display = su_display u,
      a_profile = su_profile u, a_updated = su_updated u, a_provider = ea_provider a,
      a_private = (if include_private
                   then map (\<lambda>k. (S k, jget (ea_data a) k))
                          (filter (\<lambda>k. map_of (ea_data a) (S k) \<noteq> None) PRIVATE_DISPLAY_FIELDS)
                   else [])\<rparr>"

definition resolve_principal :: "social_principal \<Rightarrow> social_db \<Rightarrow> social_account option" where
  "resolve_principal p d =
     map_option (\<lambda>(u, a). account_of True u a)
       (find (\<lambda>(u, a). su_id u = pr_user p \<and> user_active u \<and> ea_id a = pr_account p
                \<and> ea_provider a = pr_provider p \<and> ea_uid a = Some (pr_uid p)) (user_accounts d))"

definition resolve_active_target :: "pystr \<Rightarrow> string \<Rightarrow> social_db \<Rightarrow> social_account option" where
  "resolve_active_target uid provider d =
     map_option (\<lambda>(u, a). account_of False u a)
       (find (\<lambda>(u, a). user_active u \<and> ea_provider a = provider \<and> ea_uid a = Some uid) (user_accounts d))"

definition target_binding_exists :: "pystr \<Rightarrow> string \<Rightarrow> social_db \<Rightarrow> bool" where
  "target_binding_exists uid provider d \<longleftrightarrow>
     (\<exists>a \<in> set (sd_accounts d). ea_provider a = provider \<and> ea_uid a = Some uid)"

definition resolve_active_targets :: "pystr list \<Rightarrow> string \<Rightarrow> social_db \<Rightarrow> (pystr \<rightharpoonup> social_account)" where
  "resolve_active_targets uids provider d =
     map_of (rev (map (\<lambda>(u, a). (or_default (ea_uid a) [], account_of False u a))
       (filter (\<lambda>(u, a). user_active u \<and> ea_provider a = provider
            \<and> some_and (ea_uid a) (\<lambda>uid. uid \<in> set uids \<and> uid \<noteq> [])) (user_accounts d))))"

section \<open>The rows of a pair\<close>

definition relationship_rows :: "social_account \<Rightarrow> social_account \<Rightarrow> social_db \<Rightarrow> relationship list" where
  "relationship_rows viewer subject d =
     filter (\<lambda>r. r_provider r \<in> {SOCIAL_NATIVE_PROVIDER, LEGACY_ACCOUNT_PROVIDER}
       \<and> (r_owner r = a_user viewer \<and> r_subject r = a_uid subject
          \<or> r_owner r = a_user subject \<and> r_subject r = a_uid viewer)) (sd_relations d)"

definition local_relation_from_rows ::
  "relationship list \<Rightarrow> uuid \<Rightarrow> pystr \<Rightarrow> string \<Rightarrow> relationship option" where
  "local_relation_from_rows rows owner_id subject_uid kind =
     latest_relationship (filter (\<lambda>r. r_owner r = owner_id \<and> r_provider r = SOCIAL_NATIVE_PROVIDER
       \<and> r_subject r = subject_uid \<and> r_kind r = kind) rows)"

definition trusted_legacy_rows ::
  "social_env \<Rightarrow> relationship list \<Rightarrow> uuid \<Rightarrow> pystr \<Rightarrow> string \<Rightarrow> relationship list" where
  "trusted_legacy_rows E rows owner_id subject_uid kind =
     filter (\<lambda>r. r_owner r = owner_id \<and> r_subject r = subject_uid \<and> r_kind r = kind
       \<and> is_trusted_legacy_relationship E r) rows"

definition reverse_kind :: "string \<Rightarrow> string option" where
  "reverse_kind kind =
     (if kind = RELATION_FOLLOW then Some ''follower''
      else if kind = RELATION_FRIEND then Some RELATION_FRIEND
      else if kind = RELATION_BLOCK then Some ''blacklisted_by'' else None)"

definition effective_edge_row_from_rows ::
  "social_env \<Rightarrow> relationship list \<Rightarrow> social_account \<Rightarrow> social_account \<Rightarrow> string \<Rightarrow> relationship option" where
  "effective_edge_row_from_rows E rows owner subject kind =
     (case local_relation_from_rows rows (a_user owner) (a_uid subject) kind of
        Some r \<Rightarrow> Some r
      | None \<Rightarrow>
          (let direct = trusted_legacy_rows E rows (a_user owner) (a_uid subject) kind in
           if direct \<noteq> [] then latest_relationship direct
           else case reverse_kind kind of
                  None \<Rightarrow> None
                | Some k \<Rightarrow>
                    latest_relationship (trusted_legacy_rows E rows (a_user subject) (a_uid owner) k)))"

definition legacy_request_role :: "social_env \<Rightarrow> relationship \<Rightarrow> string" where
  "legacy_request_role E r =
     (let action = py_strip (j_text (py_repr E) (jget (r_meta r) ''last_event_type'')) in
      if action \<in> {S ''api.api.social.add-friend'', S ''api.social.add-friend''} then ''direct''
      else if action \<in> {S ''api.api.social.agree-friend'', S ''api.social.agree-friend''}
      then ''incoming-mirror''
      else if py_strip (j_text (py_repr E) (jget (r_meta r) ''source_path''))
              \<in> {S ''/api/social/friend-apply'', S ''/api/social/friends''}
      then ''incoming-mirror'' else [])"

definition effective_request_row_from_rows ::
  "social_env \<Rightarrow> relationship list \<Rightarrow> social_account \<Rightarrow> social_account \<Rightarrow> relationship option" where
  "effective_request_row_from_rows E rows requester target =
     (case local_relation_from_rows rows (a_user requester) (a_uid target) RELATION_FRIEND_REQUEST of
        Some r \<Rightarrow> Some r
      | None \<Rightarrow>
          (let direct = filter (\<lambda>r. legacy_request_role E r = ''direct'')
                 (trusted_legacy_rows E rows (a_user requester) (a_uid target) RELATION_FRIEND_REQUEST) in
           if direct \<noteq> [] then latest_relationship direct
           else latest_relationship (filter (\<lambda>r. legacy_request_role E r = ''incoming-mirror'')
                 (trusted_legacy_rows E rows (a_user target) (a_uid requester) RELATION_FRIEND_REQUEST))))"

definition relationship_flags :: "social_env \<Rightarrow> social_account \<Rightarrow> social_account \<Rightarrow> social_db \<Rightarrow> flag_set" where
  "relationship_flags E viewer subject d =
     (let rows = relationship_rows viewer subject d;
          edge = (\<lambda>owner other kind. row_is_active (effective_edge_row_from_rows E rows owner other kind));
          request = (\<lambda>requester target. map_option (normalized_relationship_state E)
                       (effective_request_row_from_rows E rows requester target)) in
      \<lparr>fl_following = edge viewer subject RELATION_FOLLOW,
       fl_followed_by = edge subject viewer RELATION_FOLLOW,
       fl_friend = (edge viewer subject RELATION_FRIEND \<and> edge subject viewer RELATION_FRIEND),
       fl_blocked = edge viewer subject RELATION_BLOCK,
       fl_blocked_by = edge subject viewer RELATION_BLOCK,
       fl_outgoing = request viewer subject,
       fl_incoming = request subject viewer\<rparr>)"

end
