(* ===== verification/Social_Store.thy ===== *)
theory Social_Store
  imports Social_Graph
begin

text \<open>
  The mutations of \<^verbatim>\<open>SqlAlchemyCanonicalSocialStore\<close> (\<^verbatim>\<open>bbw_web/social_native/repository.py\<close>).  Each runs
  in a transaction of its caller: it locks the users, claims its operation id, and changes every
  related row; an error rolls everything back.  \<open>now\<close> stamps the rows that are flushed.
\<close>

section \<open>Locks and operation ids\<close>

definition active_user :: "uuid \<Rightarrow> social_db \<Rightarrow> social_user option" where
  "active_user uid d = find (\<lambda>u. su_id u = uid \<and> user_active u) (sd_users d)"

definition lock_active_actor :: "social_account \<Rightarrow> social_db \<Rightarrow> social_error + social_user" where
  "lock_active_actor actor d =
     (case active_user (a_user actor) d of None \<Rightarrow> Inl SocialIdentityUnavailable | Some u \<Rightarrow> Inr u)"

definition lock_active_pair :: "social_account \<Rightarrow> social_account \<Rightarrow> social_db \<Rightarrow> social_error + unit" where
  "lock_active_pair actor target d =
     (if active_user (a_user actor) d = None then Inl SocialIdentityUnavailable
      else if active_user (a_user target) d = None then Inl SocialTargetUnavailable else Inr ())"

definition social_payload :: "string \<Rightarrow> pystr \<Rightarrow> jdict \<Rightarrow> json" where
  "social_payload action target_uid payload =
     JObj [(S ''action'', JStr (S action)), (S ''payload'', JObj payload),
           (S ''schema'', JInt SOCIAL_NATIVE_SCHEMA), (S ''target_uid'', JStr target_uid)]"

definition payload_digest :: "social_env \<Rightarrow> string \<Rightarrow> pystr \<Rightarrow> jdict \<Rightarrow> pystr" where
  "payload_digest E action target_uid payload =
     sha256 E (json_canonical (social_payload action target_uid payload))"

definition find_event :: "uuid \<Rightarrow> pystr \<Rightarrow> social_db \<Rightarrow> social_event option" where
  "find_event owner operation d =
     find (\<lambda>e. ev_owner e = owner \<and> ev_operation e = operation) (sd_events d)"

definition claim_operation ::
  "social_env \<Rightarrow> social_account \<Rightarrow> pystr \<Rightarrow> string \<Rightarrow> pystr \<Rightarrow> instant \<Rightarrow> jdict \<Rightarrow> social_db \<Rightarrow>
     social_error + (social_event \<times> bool) \<times> social_db" where
  "claim_operation E actor target_uid action operation_id at payload d =
     (let digest = payload_digest E action target_uid payload in
      case find_event (a_user actor) operation_id d of
        None \<Rightarrow>
          (let e = \<lparr>ev_owner = a_user actor, ev_operation = operation_id, ev_type = ''social.'' @ action,
                    ev_digest = digest, ev_occurred_at = at, ev_changed = False, ev_related = []\<rparr> in
           Inr ((e, True), d\<lparr>sd_events := sd_events d @ [e]\<rparr>))
      | Some e \<Rightarrow>
          if ev_type e \<noteq> ''social.'' @ action \<or> ev_digest e \<noteq> digest
          then Inl SocialIdempotencyConflict else Inr ((e, False), d))"

definition finish_event :: "social_event \<Rightarrow> bool \<Rightarrow> string list \<Rightarrow> social_db \<Rightarrow> social_db" where
  "finish_event e changed related d =
     d\<lparr>sd_events := update_where (\<lambda>x. ev_owner x = ev_owner e \<and> ev_operation x = ev_operation e)
         (\<lambda>x. x\<lparr>ev_changed := changed, ev_related := related\<rparr>) (sd_events d)\<rparr>"

section \<open>Single relations\<close>

definition put_relation :: "relationship \<Rightarrow> social_db \<Rightarrow> social_db" where
  "put_relation r d = d\<lparr>sd_relations := update_where (\<lambda>x. r_id x = r_id r) (\<lambda>_. r) (sd_relations d)\<rparr>"

definition add_relation :: "relationship \<Rightarrow> social_db \<Rightarrow> social_db" where
  "add_relation r d = d\<lparr>sd_relations := sd_relations d @ [r]\<rparr>"

definition new_id :: "social_env \<Rightarrow> social_db \<Rightarrow> uuid" where
  "new_id E d = fresh_id E (map r_id (sd_relations d))"

definition native_relation :: "uuid \<Rightarrow> pystr \<Rightarrow> string \<Rightarrow> social_db \<Rightarrow> relationship option" where
  "native_relation owner_id subject_uid kind d =
     find (\<lambda>r. r_owner r = owner_id \<and> r_provider r = SOCIAL_NATIVE_PROVIDER
             \<and> r_subject r = subject_uid \<and> r_kind r = kind) (sd_relations d)"

definition effective_edge_row ::
  "social_env \<Rightarrow> social_account \<Rightarrow> social_account \<Rightarrow> string \<Rightarrow> social_db \<Rightarrow> relationship option" where
  "effective_edge_row E owner subject kind d =
     effective_edge_row_from_rows E (relationship_rows owner subject d) owner subject kind"

definition localized_metadata ::
  "social_env \<Rightarrow> relationship option \<Rightarrow> social_account \<Rightarrow> string \<Rightarrow> jdict" where
  "localized_metadata E source subject reason =
     (let metadata = (case source of None \<Rightarrow> [] | Some r \<Rightarrow> r_meta r);
          moved = (case source of
              None \<Rightarrow> metadata
            | Some r \<Rightarrow>
                if r_provider r \<noteq> SOCIAL_NATIVE_PROVIDER
                then jset ''localized_from_provider'' (JStr (S (r_provider r)))
                       (jset ''localized_from_id'' (JStr (uuid_str E (r_id r))) metadata)
                else metadata) in
      jset ''last_reason'' (JStr (S reason))
        (jset ''subject_account_provider'' (JStr (S (a_provider subject)))
          (jset ''schema'' (JInt SOCIAL_NATIVE_SCHEMA)
            (jset ''authority'' (JStr (S SOCIAL_NATIVE_PROVIDER)) moved))))"

definition active_status :: "bool \<Rightarrow> pystr" where
  "active_status active = (if active then S ''active'' else S ''inactive'')"

definition set_active_relation ::
  "social_env \<Rightarrow> instant \<Rightarrow> social_account \<Rightarrow> social_account \<Rightarrow> string \<Rightarrow> bool \<Rightarrow> instant \<Rightarrow> string \<Rightarrow>
     social_db \<Rightarrow> bool \<times> social_db" where
  "set_active_relation E now owner subject kind active at reason d =
     (let row = native_relation (a_user owner) (a_uid subject) kind d;
          effective = (case row of Some r \<Rightarrow> Some r | None \<Rightarrow> effective_edge_row E owner subject kind d);
          currently_active = row_is_active effective;
          changed = (currently_active \<noteq> active);
          metadata = localized_metadata E effective subject reason in
      case row of
        None \<Rightarrow>
          (changed, add_relation
             \<lparr>r_id = new_id E d, r_owner = a_user owner, r_provider = SOCIAL_NATIVE_PROVIDER,
              r_subject = a_uid subject, r_kind = kind, r_status = active_status active,
              r_started = (case effective of
                  Some e \<Rightarrow> if \<not> active \<or> currently_active then r_started e else at
                | None \<Rightarrow> at),
              r_ended = (if active then None else Some at), r_meta = metadata, r_updated = now\<rparr> d)
      | Some r \<Rightarrow>
          if \<not> changed then (False, d)
          else (True, put_relation
             (r\<lparr>r_status := active_status active,
                r_started := (if active then at else r_started r),
                r_ended := (if active then None else Some at),
                r_meta := metadata, r_updated := now\<rparr>) d))"

definition ensure_not_blocked :: "social_env \<Rightarrow> social_account \<Rightarrow> social_account \<Rightarrow> social_db \<Rightarrow> social_error + unit" where
  "ensure_not_blocked E actor target d =
     (let rows = relationship_rows actor target d in
      if row_is_active (effective_edge_row_from_rows E rows actor target RELATION_BLOCK)
         \<or> row_is_active (effective_edge_row_from_rows E rows target actor RELATION_BLOCK)
      then Inl SocialBlocked else Inr ())"

definition friendship_active :: "social_env \<Rightarrow> social_account \<Rightarrow> social_account \<Rightarrow> social_db \<Rightarrow> bool" where
  "friendship_active E left right d \<longleftrightarrow>
     (let rows = relationship_rows left right d in
      row_is_active (effective_edge_row_from_rows E rows left right RELATION_FRIEND)
      \<and> row_is_active (effective_edge_row_from_rows E rows right left RELATION_FRIEND))"

text \<open>The request row of a pair; a migrated one is copied to the local provider when \<open>localize\<close>.\<close>

definition request_relation ::
  "social_env \<Rightarrow> instant \<Rightarrow> social_account \<Rightarrow> social_account \<Rightarrow> bool \<Rightarrow> instant \<Rightarrow> string \<Rightarrow> social_db \<Rightarrow>
     relationship option \<times> social_db" where
  "request_relation E now requester target localize at reason d =
     (case effective_request_row_from_rows E (relationship_rows requester target d) requester target of
        None \<Rightarrow> (None, d)
      | Some r \<Rightarrow>
          if r_provider r = SOCIAL_NATIVE_PROVIDER \<or> \<not> localize then (Some r, d)
          else
            let state = normalized_relationship_state E r;
                localized =
                  \<lparr>r_id = new_id E d, r_owner = a_user requester, r_provider = SOCIAL_NATIVE_PROVIDER,
                   r_subject = a_uid target, r_kind = RELATION_FRIEND_REQUEST, r_status = state,
                   r_started = r_started r,
                   r_ended = (if state = REQUEST_PENDING then None
                              else Some (case r_ended r of None \<Rightarrow> at | Some t \<Rightarrow> t)),
                   r_meta = localized_metadata E (Some r) target reason, r_updated = now\<rparr> in
            (Some localized, add_relation localized d))"

definition request_view :: "social_env \<Rightarrow> relationship \<Rightarrow> social_account \<Rightarrow> social_account \<Rightarrow> friend_request_view" where
  "request_view E r requester target =
     \<lparr>fv_id = r_id r, fv_requester = a_uid requester, fv_target = a_uid target,
      fv_message = j_text (py_repr E) (jget (r_meta r) ''message''),
      fv_state = normalized_relationship_state E r, fv_requested_at = r_started r,
      fv_resolved_at = r_ended r\<rparr>"

section \<open>Following\<close>

definition mutation ::
  "string \<Rightarrow> social_account \<Rightarrow> social_account \<Rightarrow> bool \<Rightarrow> bool \<Rightarrow> instant \<Rightarrow> bool \<Rightarrow> string list \<Rightarrow> mutation_result" where
  "mutation action actor target active changed at replay related =
     \<lparr>mr_action = action, mr_actor = a_uid actor, mr_target = a_uid target, mr_active = active,
      mr_changed = changed, mr_occurred_at = at, mr_replay = replay, mr_related = related\<rparr>"

definition set_following ::
  "social_env \<Rightarrow> instant \<Rightarrow> social_account \<Rightarrow> social_account \<Rightarrow> bool \<Rightarrow> pystr \<Rightarrow> instant \<Rightarrow> social_db \<Rightarrow>
     social_error + mutation_result \<times> social_db" where
  "set_following E now actor target active operation_id at d =
     and_then (lock_active_pair actor target d) (\<lambda>_.
     let action = (if active then ''follow'' else ''unfollow'') in
     and_then (claim_operation E actor (a_uid target) action operation_id at
         [(S ''active'', JBool active)] d) (\<lambda>((event, claimed), d1).
       if \<not> claimed
       then Inr (mutation action actor target active (ev_changed event) (ev_occurred_at event) True [], d1)
       else and_then (if active then ensure_not_blocked E actor target d1 else Inr ()) (\<lambda>_.
         let (changed, d2) = set_active_relation E now actor target RELATION_FOLLOW active at action d1 in
         Inr (mutation action actor target active changed at False [],
              finish_event event changed [] d2))))"

section \<open>Friend requests\<close>

definition request_outcome :: "social_env \<Rightarrow> relationship \<Rightarrow> social_account \<Rightarrow> social_account \<Rightarrow> bool \<Rightarrow> bool \<Rightarrow> request_result" where
  "request_outcome E r requester target changed replay =
     \<lparr>rr_request = request_view E r requester target, rr_changed = changed, rr_replay = replay\<rparr>"

definition request_metadata :: "social_account \<Rightarrow> pystr \<Rightarrow> jdict \<Rightarrow> jdict" where
  "request_metadata target message metadata =
     jset ''subject_account_provider'' (JStr (S (a_provider target)))
       (jset ''schema'' (JInt SOCIAL_NATIVE_SCHEMA)
         (jset ''message'' (JStr message)
           (jset ''authority'' (JStr (S SOCIAL_NATIVE_PROVIDER)) metadata)))"

text \<open>The request opened, or left pending (lines 1013 to 1051).\<close>

definition open_request ::
  "social_env \<Rightarrow> instant \<Rightarrow> social_account \<Rightarrow> social_account \<Rightarrow> pystr \<Rightarrow> instant \<Rightarrow> relationship option \<Rightarrow>
     social_db \<Rightarrow> social_error + (relationship \<times> bool) \<times> social_db" where
  "open_request E now actor target message at row d =
     (case row of
        Some r \<Rightarrow>
          if normalized_relationship_state E r = REQUEST_PENDING then Inr ((r, False), d)
          else if REQUEST_PENDING \<notin> friend_request_transitions (Some (normalized_relationship_state E r))
          then Inl FriendRequestStateConflict
          else
            let r' = r\<lparr>r_status := REQUEST_PENDING, r_started := at, r_ended := None,
                       r_meta := request_metadata target message (r_meta r), r_updated := now\<rparr> in
            Inr ((r', True), put_relation r' d)
      | None \<Rightarrow>
          let r' = \<lparr>r_id = new_id E d, r_owner = a_user actor, r_provider = SOCIAL_NATIVE_PROVIDER,
                    r_subject = a_uid target, r_kind = RELATION_FRIEND_REQUEST, r_status = REQUEST_PENDING,
                    r_started = at, r_ended = None,
                    r_meta = request_metadata target message [], r_updated = now\<rparr> in
          Inr ((r', True), add_relation r' d))"

definition create_friend_request ::
  "social_env \<Rightarrow> instant \<Rightarrow> social_account \<Rightarrow> social_account \<Rightarrow> pystr \<Rightarrow> pystr \<Rightarrow> instant \<Rightarrow> social_db \<Rightarrow>
     social_error + request_result \<times> social_db" where
  "create_friend_request E now actor target message operation_id at d =
     and_then (lock_active_pair actor target d) (\<lambda>_.
     and_then (claim_operation E actor (a_uid target) ''friend.request'' operation_id at
         [(S ''message'', JStr message)] d) (\<lambda>((event, claimed), d1).
       let (row, d2) = request_relation E now actor target claimed at ''friend-request-created'' d1 in
       if \<not> claimed
       then (case row of
               None \<Rightarrow> Inl FriendRequestUnavailable
             | Some r \<Rightarrow> Inr (request_outcome E r actor target (ev_changed event) True, d2))
       else and_then (ensure_not_blocked E actor target d2) (\<lambda>_.
         if friendship_active E actor target d2 then Inl AlreadyFriends
         else and_then (open_request E now actor target message at row d2) (\<lambda>((r, changed), d3).
           Inr (request_outcome E r actor target changed False, finish_event event changed [] d3)))))"

text \<open>A resolved request keeps its row (lines 1096 to 1112).\<close>

definition closed_request :: "pystr \<Rightarrow> pystr option \<Rightarrow> instant \<Rightarrow> instant \<Rightarrow> relationship \<Rightarrow> relationship" where
  "closed_request resolution resolved_by at now r =
     r\<lparr>r_status := resolution, r_ended := Some at,
       r_meta := (case resolved_by of
           None \<Rightarrow> jset ''resolved_as'' (JStr resolution) (r_meta r)
         | Some uid \<Rightarrow> jset ''resolved_by'' (JStr uid) (jset ''resolved_as'' (JStr resolution) (r_meta r))),
       r_updated := now\<rparr>"

text \<open>Accepting makes both friends and accepts a pending request in the other direction.\<close>

definition befriend ::
  "social_env \<Rightarrow> instant \<Rightarrow> social_account \<Rightarrow> social_account \<Rightarrow> instant \<Rightarrow> social_db \<Rightarrow> string list \<times> social_db" where
  "befriend E now actor requester at d =
     (let (c1, d1) = set_active_relation E now actor requester RELATION_FRIEND True at
                       ''friend-request-accepted'' d;
          (c2, d2) = set_active_relation E now requester actor RELATION_FRIEND True at
                       ''friend-request-accepted'' d1;
          (reverse, d3) = request_relation E now actor requester True at
                            ''friend-request-reverse-accepted'' d2;
          related = (if c1 then [''friend:actor-requester''] else [])
                    @ (if c2 then [''friend:requester-actor''] else []) in
      case reverse of
        Some r \<Rightarrow>
          if normalized_relationship_state E r = REQUEST_PENDING
          then (related @ [''friend-request:reverse-accepted''],
                put_relation (closed_request REQUEST_ACCEPTED (Some (a_uid actor)) at now r) d3)
          else (related, d3)
      | None \<Rightarrow> (related, d3))"

definition resolve_friend_request ::
  "social_env \<Rightarrow> instant \<Rightarrow> social_account \<Rightarrow> social_account \<Rightarrow> string \<Rightarrow> pystr \<Rightarrow> instant \<Rightarrow> social_db \<Rightarrow>
     social_error + request_result \<times> social_db" where
  "resolve_friend_request E now actor requester resolution operation_id at d =
     and_then (lock_active_pair actor requester d) (\<lambda>_.
     and_then (claim_operation E actor (a_uid requester) (''friend.'' @ resolution) operation_id at
         [(S ''resolution'', JStr (S resolution))] d) (\<lambda>((event, claimed), d1).
       let (row, d2) = request_relation E now requester actor claimed at
                         (''friend-request-'' @ resolution) d1 in
       case row of
         None \<Rightarrow> Inl FriendRequestUnavailable
       | Some r \<Rightarrow>
           if \<not> claimed then Inr (request_outcome E r requester actor (ev_changed event) True, d2)
           else and_then (if resolution = ''accepted'' then ensure_not_blocked E actor requester d2 else Inr ()) (\<lambda>_.
             let previous = normalized_relationship_state E r in
             if previous = S resolution
             then (if resolution = ''accepted'' \<and> \<not> friendship_active E actor requester d2
                   then Inl FriendRequestStateConflict
                   else Inr (request_outcome E r requester actor False False, finish_event event False [] d2))
             else if previous \<noteq> REQUEST_PENDING
                  \<or> S resolution \<notin> friend_request_transitions (Some REQUEST_PENDING)
             then Inl FriendRequestStateConflict
             else
               let r' = closed_request (S resolution) (Some (a_uid actor)) at now r;
                   d3 = put_relation r' d2;
                   (related, d4) = (if resolution = ''accepted'' then befriend E now actor requester at d3
                                    else ([], d3)) in
               Inr (request_outcome E r' requester actor True False, finish_event event True related d4))))"

definition cancel_friend_request ::
  "social_env \<Rightarrow> instant \<Rightarrow> social_account \<Rightarrow> social_account \<Rightarrow> pystr \<Rightarrow> instant \<Rightarrow> social_db \<Rightarrow>
     social_error + request_result \<times> social_db" where
  "cancel_friend_request E now actor target operation_id at d =
     and_then (lock_active_pair actor target d) (\<lambda>_.
     and_then (claim_operation E actor (a_uid target) ''friend.cancel'' operation_id at [] d)
       (\<lambda>((event, claimed), d1).
       let (row, d2) = request_relation E now actor target claimed at ''friend-request-cancelled'' d1 in
       case row of
         None \<Rightarrow> Inl FriendRequestUnavailable
       | Some r \<Rightarrow>
           let state = normalized_relationship_state E r in
           if \<not> claimed then Inr (request_outcome E r actor target (ev_changed event) True, d2)
           else if state = REQUEST_CANCELLED
           then Inr (request_outcome E r actor target False False, finish_event event False [] d2)
           else if state \<noteq> REQUEST_PENDING then Inl FriendRequestStateConflict
           else
             let r' = closed_request REQUEST_CANCELLED None at now r in
             Inr (request_outcome E r' actor target True False,
                  finish_event event True [] (put_relation r' d2))))"

section \<open>Ending relations\<close>

fun deactivate_edges ::
  "social_env \<Rightarrow> instant \<Rightarrow> instant \<Rightarrow> string \<Rightarrow>
     (social_account \<times> social_account \<times> string \<times> string) list \<Rightarrow> string list \<Rightarrow> social_db \<Rightarrow> string list \<times> social_db" where
  "deactivate_edges E now at reason [] related d = (related, d)"
| "deactivate_edges E now at reason ((owner, subject, kind, label) # edges) related d =
     (let (changed, d') = set_active_relation E now owner subject kind False at reason d in
      deactivate_edges E now at reason edges (if changed then related @ [label] else related) d')"

definition delete_friend ::
  "social_env \<Rightarrow> instant \<Rightarrow> social_account \<Rightarrow> social_account \<Rightarrow> pystr \<Rightarrow> instant \<Rightarrow> social_db \<Rightarrow>
     social_error + mutation_result \<times> social_db" where
  "delete_friend E now actor target operation_id at d =
     and_then (lock_active_pair actor target d) (\<lambda>_.
     and_then (claim_operation E actor (a_uid target) ''friend.delete'' operation_id at [] d)
       (\<lambda>((event, claimed), d1).
       if \<not> claimed
       then Inr (mutation ''friend.delete'' actor target False (ev_changed event) (ev_occurred_at event) True
                   (ev_related event), d1)
       else
         let (related, d2) = deactivate_edges E now at ''friend-deleted''
               [(actor, target, RELATION_FRIEND, ''friend:actor-target''),
                (target, actor, RELATION_FRIEND, ''friend:target-actor'')] [] d1;
             changed = (related \<noteq> []) in
         Inr (mutation ''friend.delete'' actor target False changed at False related,
              finish_event event changed related d2)))"

definition block_pending_request ::
  "social_env \<Rightarrow> instant \<Rightarrow> social_account \<Rightarrow> social_account \<Rightarrow> instant \<Rightarrow> social_db \<Rightarrow> bool \<times> social_db" where
  "block_pending_request E now requester target at d =
     (let (row, d1) = request_relation E now requester target True at ''friend-request-blocked'' d in
      case row of
        None \<Rightarrow> (False, d1)
      | Some r \<Rightarrow>
          if normalized_relationship_state E r \<noteq> REQUEST_PENDING then (False, d1)
          else (True, put_relation (closed_request REQUEST_BLOCKED None at now r) d1))"

definition block_cleanup ::
  "social_env \<Rightarrow> instant \<Rightarrow> social_account \<Rightarrow> social_account \<Rightarrow> instant \<Rightarrow> social_db \<Rightarrow> string list \<times> social_db" where
  "block_cleanup E now actor target at d =
     (let (related, d1) = deactivate_edges E now at ''blocked''
            [(actor, target, RELATION_FRIEND, ''friend:actor-target''),
             (target, actor, RELATION_FRIEND, ''friend:target-actor''),
             (actor, target, RELATION_FOLLOW, ''follow:actor-target''),
             (target, actor, RELATION_FOLLOW, ''follow:target-actor'')] [] d;
          (b1, d2) = block_pending_request E now actor target at d1;
          (b2, d3) = block_pending_request E now target actor at d2 in
      (related @ (if b1 then [''friend_request:actor-target''] else [])
               @ (if b2 then [''friend_request:target-actor''] else []), d3))"

definition set_blocked ::
  "social_env \<Rightarrow> instant \<Rightarrow> social_account \<Rightarrow> social_account \<Rightarrow> bool \<Rightarrow> pystr \<Rightarrow> instant \<Rightarrow> social_db \<Rightarrow>
     social_error + mutation_result \<times> social_db" where
  "set_blocked E now actor target active operation_id at d =
     and_then (lock_active_pair actor target d) (\<lambda>_.
     let action = (if active then ''block'' else ''unblock'') in
     and_then (claim_operation E actor (a_uid target) action operation_id at
         [(S ''active'', JBool active)] d) (\<lambda>((event, claimed), d1).
       if \<not> claimed
       then Inr (mutation action actor target active (ev_changed event) (ev_occurred_at event) True
                   (ev_related event), d1)
       else
         let (block_changed, d2) = set_active_relation E now actor target RELATION_BLOCK active at action d1;
             (related, d3) = (if active then block_cleanup E now actor target at d2 else ([], d2));
             changed = (block_changed \<or> related \<noteq> []) in
         Inr (mutation action actor target active changed at False related,
              finish_event event changed related d3)))"

end
