(* ===== verification/Social_Properties.thy ===== *)
theory Social_Properties
  imports Social_Store
begin

text \<open>
  What the local social graph guarantees: the effective relations of a pair depend on one local row or
  on the migrated rows, every mutation writes the local rows of its pair only, blocked pairs stay
  separated, friend requests follow their state machine and an operation id is applied once.
\<close>

section \<open>The local rows as a map\<close>

definition relation_key :: "relationship \<Rightarrow> uuid \<times> string \<times> pystr \<times> string" where
  "relation_key r = (r_owner r, r_provider r, r_subject r, r_kind r)"

definition social_ok :: "social_db \<Rightarrow> bool" where
  "social_ok d \<longleftrightarrow>
     distinct (map r_id (sd_relations d)) \<and> distinct (map relation_key (sd_relations d))
     \<and> distinct (map (\<lambda>e. (ev_owner e, ev_operation e)) (sd_events d))"

definition fresh_ids :: "social_env \<Rightarrow> bool" where
  "fresh_ids E \<longleftrightarrow> (\<forall>ids. fresh_id E ids \<notin> set ids)"

definition migrated :: "social_db \<Rightarrow> relationship list" where
  "migrated d = filter (\<lambda>r. r_provider r = LEGACY_ACCOUNT_PROVIDER) (sd_relations d)"

lemma option_eqI: "(\<And>x. a = Some x \<longleftrightarrow> b = Some x) \<Longrightarrow> a = b"
  by (cases a; cases b) auto

lemma providers_differ [simp]: "SOCIAL_NATIVE_PROVIDER \<noteq> LEGACY_ACCOUNT_PROVIDER"
    "LEGACY_ACCOUNT_PROVIDER \<noteq> SOCIAL_NATIVE_PROVIDER"
  by (simp_all add: SOCIAL_NATIVE_PROVIDER_def LEGACY_ACCOUNT_PROVIDER_def)

lemma native_relation_iff:
  assumes "social_ok d"
  shows "native_relation o' s k d = Some r \<longleftrightarrow>
    r \<in> set (sd_relations d) \<and> relation_key r = (o', SOCIAL_NATIVE_PROVIDER, s, k)"
proof -
  have f: "native_relation o' s k d
      = find (\<lambda>r. relation_key r = (o', SOCIAL_NATIVE_PROVIDER, s, k)) (sd_relations d)"
    unfolding native_relation_def relation_key_def by (intro find_cong) auto
  have keys: "distinct (map relation_key (sd_relations d))" using assms by (simp add: social_ok_def)
  show ?thesis
  proof
    assume "native_relation o' s k d = Some r"
    from find_SomeD [OF this [unfolded f]]
    show "r \<in> set (sd_relations d) \<and> relation_key r = (o', SOCIAL_NATIVE_PROVIDER, s, k)" by simp
  next
    assume r: "r \<in> set (sd_relations d) \<and> relation_key r = (o', SOCIAL_NATIVE_PROVIDER, s, k)"
    then show "native_relation o' s k d = Some r"
      using find_key [OF keys, of r] unfolding f by simp
  qed
qed

text \<open>A change of one local row; everything migrated stays.\<close>

definition native_put :: "social_db \<Rightarrow> uuid \<times> pystr \<times> string \<Rightarrow> relationship \<Rightarrow> social_db \<Rightarrow> bool" where
  "native_put d key r d' \<longleftrightarrow>
     social_ok d' \<and> migrated d' = migrated d \<and> sd_users d' = sd_users d \<and> sd_accounts d' = sd_accounts d
     \<and> sd_events d' = sd_events d
     \<and> (\<forall>o' s k. native_relation o' s k d' = (if (o', s, k) = key then Some r else native_relation o' s k d))"

lemma add_relation_put:
  assumes ok: "social_ok d" and none: "native_relation (r_owner r) (r_subject r) (r_kind r) d = None"
    and r: "r_provider r = SOCIAL_NATIVE_PROVIDER" "r_id r \<notin> r_id ` set (sd_relations d)"
  shows "native_put d (r_owner r, r_subject r, r_kind r) r (add_relation r d)"
proof -
  have key: "relation_key r = (r_owner r, SOCIAL_NATIVE_PROVIDER, r_subject r, r_kind r)"
    by (simp add: relation_key_def r)
  have new: "relation_key r \<notin> relation_key ` set (sd_relations d)"
  proof
    assume "relation_key r \<in> relation_key ` set (sd_relations d)"
    then obtain x where "x \<in> set (sd_relations d)" "relation_key x = relation_key r" by auto
    then have "native_relation (r_owner r) (r_subject r) (r_kind r) d = Some x"
      using native_relation_iff [OF ok] key by simp
    with none show False by simp
  qed
  have ok': "social_ok (add_relation r d)"
    using ok r new by (simp add: social_ok_def add_relation_def)
  have "native_relation o' s k (add_relation r d)
      = (if (o', s, k) = (r_owner r, r_subject r, r_kind r) then Some r else native_relation o' s k d)" for o' s k
  proof (rule option_eqI)
    fix x
    show "native_relation o' s k (add_relation r d) = Some x \<longleftrightarrow>
        (if (o', s, k) = (r_owner r, r_subject r, r_kind r) then Some r else native_relation o' s k d) = Some x"
    proof (cases "(o', s, k) = (r_owner r, r_subject r, r_kind r)")
      case True
      then have "native_relation o' s k (add_relation r d) = Some r"
        by (subst native_relation_iff [OF ok']) (simp add: add_relation_def key)
      with True show ?thesis by simp
    next
      case False
      then have "relation_key r \<noteq> (o', SOCIAL_NATIVE_PROVIDER, s, k)" by (auto simp: key)
      then show ?thesis
        unfolding if_not_P [OF False] native_relation_iff [OF ok'] native_relation_iff [OF ok]
        by (auto simp: add_relation_def key)
    qed
  qed
  moreover have "migrated (add_relation r d) = migrated d" by (simp add: migrated_def add_relation_def r)
  ultimately show ?thesis
    using ok' by (simp add: native_put_def) (simp add: add_relation_def)
qed

lemma put_relation_put:
  assumes ok: "social_ok d" and old: "native_relation o' s k d = Some r0"
    and r: "r_id r = r_id r0" "relation_key r = relation_key r0"
  shows "native_put d (o', s, k) r (put_relation r d)"
proof -
  have m: "r0 \<in> set (sd_relations d)" "relation_key r0 = (o', SOCIAL_NATIVE_PROVIDER, s, k)"
    using native_relation_iff [OF ok] old by blast+
  have ids: "distinct (map r_id (sd_relations d))" using ok by (simp add: social_ok_def)
  have only: "x = r0" if "x \<in> set (sd_relations d)" "r_id x = r_id r" for x
    using distinct_map_inject [OF ids] that m(1) r(1) by metis
  let ?g = "\<lambda>x. if r_id x = r_id r then r else x"
  have rows: "sd_relations (put_relation r d) = map ?g (sd_relations d)"
    by (simp add: put_relation_def update_where_def)
  have "map r_id (sd_relations (put_relation r d)) = map r_id (sd_relations d)"
    "map relation_key (sd_relations (put_relation r d)) = map relation_key (sd_relations d)"
    using only r by (auto simp: rows)
  then have ok': "social_ok (put_relation r d)"
    using ok by (simp add: social_ok_def) (simp add: put_relation_def)
  have native: "r_provider r = SOCIAL_NATIVE_PROVIDER" "r_provider r0 = SOCIAL_NATIVE_PROVIDER"
    using m(2) r(2) by (simp_all add: relation_key_def)
  have "filter (\<lambda>x. r_provider x = LEGACY_ACCOUNT_PROVIDER) (map ?g xs)
      = filter (\<lambda>x. r_provider x = LEGACY_ACCOUNT_PROVIDER) xs" if "set xs \<subseteq> set (sd_relations d)" for xs
    using that only native by (induction xs) auto
  then have mig: "migrated (put_relation r d) = migrated d"
    by (simp add: migrated_def rows)
  have "native_relation o2 s2 k2 (put_relation r d)
      = (if (o2, s2, k2) = (o', s, k) then Some r else native_relation o2 s2 k2 d)" for o2 s2 k2
  proof (rule option_eqI)
    fix x
    have "x \<in> set (sd_relations (put_relation r d)) \<longleftrightarrow> x = r \<or> x \<in> set (sd_relations d) \<and> x \<noteq> r0 \<and> r_id x \<noteq> r_id r"
      using only m(1) r(1) by (auto simp: rows)
    note mem = this
    show "native_relation o2 s2 k2 (put_relation r d) = Some x \<longleftrightarrow>
        (if (o2, s2, k2) = (o', s, k) then Some r else native_relation o2 s2 k2 d) = Some x"
    proof (cases "(o2, s2, k2) = (o', s, k)")
      case True
      then have "native_relation o2 s2 k2 (put_relation r d) = Some r"
        using m r by (subst native_relation_iff [OF ok']) (auto simp: rows)
      with True show ?thesis by simp
    next
      case False
      then have "relation_key r \<noteq> (o2, SOCIAL_NATIVE_PROVIDER, s2, k2)" using r(2) m(2) by auto
      then show ?thesis
        unfolding if_not_P [OF False] native_relation_iff [OF ok'] native_relation_iff [OF ok]
        using mem only m(1) r by metis
    qed
  qed
  then show ?thesis using ok' mig by (simp add: native_put_def) (simp add: put_relation_def)
qed

section \<open>Effective relations\<close>

lemma rows_commute: "relationship_rows y x d = relationship_rows x y d"
  unfolding relationship_rows_def by (intro filter_cong) auto

lemma latest_in: "latest_relationship rows = Some r \<Longrightarrow> r \<in> set rows"
  unfolding latest_relationship_def by (rule latest_by_Some [THEN conjunct1])

lemma local_row:
  assumes ok: "social_ok d" and pair: "u = a_user x \<and> uid = a_uid y \<or> u = a_user y \<and> uid = a_uid x"
  shows "local_relation_from_rows (relationship_rows x y d) u uid k = native_relation u uid k d"
proof (rule option_eqI)
  fix r
  let ?rows = "filter (\<lambda>r. r_owner r = u \<and> r_provider r = SOCIAL_NATIVE_PROVIDER \<and> r_subject r = uid \<and> r_kind r = k)
    (relationship_rows x y d)"
  have mem: "z \<in> set ?rows \<longleftrightarrow> native_relation u uid k d = Some z" for z
    unfolding native_relation_iff [OF ok] using pair
    by (auto simp: relationship_rows_def relation_key_def)
  show "local_relation_from_rows (relationship_rows x y d) u uid k = Some r \<longleftrightarrow> native_relation u uid k d = Some r"
  proof
    assume "local_relation_from_rows (relationship_rows x y d) u uid k = Some r"
    then have "r \<in> set ?rows"
      unfolding local_relation_from_rows_def by (rule latest_in)
    with mem show "native_relation u uid k d = Some r" by blast
  next
    assume n: "native_relation u uid k d = Some r"
    then have "?rows \<noteq> []" using mem [of r] by (metis list.set_cases neq_Nil_conv)
    then obtain z where z: "local_relation_from_rows (relationship_rows x y d) u uid k = Some z"
      unfolding local_relation_from_rows_def latest_relationship_def using latest_by_None
      by (cases "latest_by (\<lambda>r. (r_updated r, r_id r)) ?rows") auto
    then have "z \<in> set ?rows"
      unfolding local_relation_from_rows_def by (rule latest_in)
    with mem n z show "local_relation_from_rows (relationship_rows x y d) u uid k = Some r" by simp
  qed
qed

lemma trusted_rows:
  assumes "u = a_user x \<and> uid = a_uid y \<or> u = a_user y \<and> uid = a_uid x"
  shows "trusted_legacy_rows E (relationship_rows x y d) u uid k = trusted_legacy_rows E (migrated d) u uid k"
  unfolding trusted_legacy_rows_def relationship_rows_def migrated_def filter_filter using assms
  by (intro filter_cong) (auto simp: is_trusted_legacy_relationship_def)

definition edge :: "social_env \<Rightarrow> social_account \<Rightarrow> social_account \<Rightarrow> string \<Rightarrow> social_db \<Rightarrow> bool" where
  "edge E x y k d = row_is_active (effective_edge_row E x y k d)"

definition request_row :: "social_env \<Rightarrow> social_account \<Rightarrow> social_account \<Rightarrow> social_db \<Rightarrow> relationship option" where
  "request_row E x y d = effective_request_row_from_rows E (relationship_rows x y d) x y"

definition request_state :: "social_env \<Rightarrow> social_account \<Rightarrow> social_account \<Rightarrow> social_db \<Rightarrow> pystr option" where
  "request_state E x y d = map_option (normalized_relationship_state E) (request_row E x y d)"

text \<open>The effective row of an edge and of a request is the local one, or depends on the migrated rows only.\<close>

lemma effective_edge_native:
  "social_ok d \<Longrightarrow> native_relation (a_user x) (a_uid y) k d = Some r \<Longrightarrow> effective_edge_row E x y k d = Some r"
  by (simp add: effective_edge_row_def effective_edge_row_from_rows_def local_row)

lemma effective_edge_cong:
  assumes "social_ok d" "social_ok d'" "migrated d' = migrated d"
    and "native_relation (a_user x) (a_uid y) k d' = native_relation (a_user x) (a_uid y) k d"
  shows "effective_edge_row E x y k d' = effective_edge_row E x y k d"
  unfolding effective_edge_row_def effective_edge_row_from_rows_def
  using assms by (simp add: local_row trusted_rows Let_def split: option.split)

lemma request_row_native:
  "social_ok d \<Longrightarrow> native_relation (a_user x) (a_uid y) RELATION_FRIEND_REQUEST d = Some r \<Longrightarrow> request_row E x y d = Some r"
  by (simp add: request_row_def effective_request_row_from_rows_def local_row)

lemma request_row_cong:
  assumes "social_ok d" "social_ok d'" "migrated d' = migrated d"
    and "native_relation (a_user x) (a_uid y) RELATION_FRIEND_REQUEST d'
      = native_relation (a_user x) (a_uid y) RELATION_FRIEND_REQUEST d"
  shows "request_row E x y d' = request_row E x y d"
  unfolding request_row_def effective_request_row_from_rows_def
  using assms by (simp add: local_row trusted_rows Let_def split: option.split)

lemma request_row_kinds:
  assumes "social_ok d" "request_row E x y d = Some r"
  shows "r_kind r = RELATION_FRIEND_REQUEST"
    and "r_provider r = SOCIAL_NATIVE_PROVIDER \<longleftrightarrow>
      native_relation (a_user x) (a_uid y) RELATION_FRIEND_REQUEST d = Some r"
proof -
  have "native_relation (a_user x) (a_uid y) RELATION_FRIEND_REQUEST d = Some r \<and> r_provider r = SOCIAL_NATIVE_PROVIDER
      \<and> r_kind r = RELATION_FRIEND_REQUEST
    \<or> native_relation (a_user x) (a_uid y) RELATION_FRIEND_REQUEST d = None \<and> r_provider r = LEGACY_ACCOUNT_PROVIDER
      \<and> r_kind r = RELATION_FRIEND_REQUEST"
  proof (cases "native_relation (a_user x) (a_uid y) RELATION_FRIEND_REQUEST d")
    case None
    then have "r \<in> set (trusted_legacy_rows E (migrated d) (a_user x) (a_uid y) RELATION_FRIEND_REQUEST)
        \<union> set (trusted_legacy_rows E (migrated d) (a_user y) (a_uid x) RELATION_FRIEND_REQUEST)"
      using assms
      by (auto simp: request_row_def effective_request_row_from_rows_def local_row trusted_rows Let_def
          dest!: latest_in split: if_splits)
    then show ?thesis
      using None by (auto simp: trusted_legacy_rows_def is_trusted_legacy_relationship_def)
  next
    case (Some s)
    then have "s = r" using request_row_native [OF assms(1) Some] assms(2) by simp
    with Some show ?thesis
      using native_relation_iff [OF assms(1)] by (auto simp: relation_key_def)
  qed
  then show "r_kind r = RELATION_FRIEND_REQUEST"
    "r_provider r = SOCIAL_NATIVE_PROVIDER \<longleftrightarrow>
      native_relation (a_user x) (a_uid y) RELATION_FRIEND_REQUEST d = Some r" by auto
qed

lemma flags_edges:
  "fl_following (relationship_flags E x y d) = edge E x y RELATION_FOLLOW d"
  "fl_followed_by (relationship_flags E x y d) = edge E y x RELATION_FOLLOW d"
  "fl_friend (relationship_flags E x y d) = (edge E x y RELATION_FRIEND d \<and> edge E y x RELATION_FRIEND d)"
  "fl_blocked (relationship_flags E x y d) = edge E x y RELATION_BLOCK d"
  "fl_blocked_by (relationship_flags E x y d) = edge E y x RELATION_BLOCK d"
  "fl_outgoing (relationship_flags E x y d) = request_state E x y d"
  "fl_incoming (relationship_flags E x y d) = request_state E y x d"
  by (simp_all add: relationship_flags_def edge_def effective_edge_row_def request_state_def request_row_def
      rows_commute [of y x] Let_def)

lemma guards_read_edges:
  "ensure_not_blocked E x y d = Inr () \<longleftrightarrow> \<not> edge E x y RELATION_BLOCK d \<and> \<not> edge E y x RELATION_BLOCK d"
  "friendship_active E x y d \<longleftrightarrow> edge E x y RELATION_FRIEND d \<and> edge E y x RELATION_FRIEND d"
  by (simp_all add: ensure_not_blocked_def friendship_active_def edge_def effective_edge_row_def
      rows_commute [of y x] Let_def)

section \<open>The relations of a pair, abstractly\<close>

datatype social_kind = Follow | Friend | Block

fun kind_name :: "social_kind \<Rightarrow> string" where
  "kind_name Follow = RELATION_FOLLOW"
| "kind_name Friend = RELATION_FRIEND"
| "kind_name Block = RELATION_BLOCK"

text \<open>\<open>True\<close> is the direction from the actor to the other account.\<close>

record pair_view =
  pv_edge :: "bool \<Rightarrow> social_kind \<Rightarrow> bool"
  pv_request :: "bool \<Rightarrow> pystr option"

definition pair_view :: "social_env \<Rightarrow> social_account \<Rightarrow> social_account \<Rightarrow> social_db \<Rightarrow> pair_view" where
  "pair_view E x y d =
     \<lparr>pv_edge = (\<lambda>dir k. if dir then edge E x y (kind_name k) d else edge E y x (kind_name k) d),
      pv_request = (\<lambda>dir. if dir then request_state E x y d else request_state E y x d)\<rparr>"

definition set_edge :: "bool \<Rightarrow> social_kind \<Rightarrow> bool \<Rightarrow> pair_view \<Rightarrow> pair_view" where
  "set_edge dir k b v = v\<lparr>pv_edge := (\<lambda>dir' k'. if dir' = dir \<and> k' = k then b else pv_edge v dir' k')\<rparr>"

definition set_request :: "bool \<Rightarrow> pystr \<Rightarrow> pair_view \<Rightarrow> pair_view" where
  "set_request dir s v = v\<lparr>pv_request := (pv_request v)(dir := Some s)\<rparr>"

definition pv_blocked :: "pair_view \<Rightarrow> bool" where
  "pv_blocked v \<longleftrightarrow> pv_edge v True Block \<or> pv_edge v False Block"

definition pv_friends :: "pair_view \<Rightarrow> bool" where
  "pv_friends v \<longleftrightarrow> pv_edge v True Friend \<and> pv_edge v False Friend"

datatype social_op =
    Op_follow bool | Op_request pystr | Op_resolve string | Op_cancel | Op_unfriend | Op_block bool

definition block_request :: "bool \<Rightarrow> pair_view \<Rightarrow> pair_view" where
  "block_request dir v =
     (if pv_request v dir = Some REQUEST_PENDING then set_request dir REQUEST_BLOCKED v else v)"

fun spec_op :: "social_op \<Rightarrow> pair_view \<Rightarrow> social_error + pair_view" where
  "spec_op (Op_follow b) v = (if b \<and> pv_blocked v then Inl SocialBlocked else Inr (set_edge True Follow b v))"
| "spec_op (Op_request m) v =
     (if pv_blocked v then Inl SocialBlocked
      else if pv_friends v then Inl AlreadyFriends
      else if pv_request v True = Some REQUEST_PENDING then Inr v
      else if REQUEST_PENDING \<notin> friend_request_transitions (pv_request v True) then Inl FriendRequestStateConflict
      else Inr (set_request True REQUEST_PENDING v))"
| "spec_op (Op_resolve resolution) v =
     (case pv_request v False of
        None \<Rightarrow> Inl FriendRequestUnavailable
      | Some state \<Rightarrow>
          if resolution = ''accepted'' \<and> pv_blocked v then Inl SocialBlocked
          else if state = S resolution
          then (if resolution = ''accepted'' \<and> \<not> pv_friends v then Inl FriendRequestStateConflict else Inr v)
          else if state \<noteq> REQUEST_PENDING \<or> S resolution \<notin> friend_request_transitions (Some REQUEST_PENDING)
          then Inl FriendRequestStateConflict
          else let v1 = set_request False (S resolution) v in
            if resolution = ''accepted''
            then Inr (let v2 = set_edge False Friend True (set_edge True Friend True v1) in
                      if pv_request v True = Some REQUEST_PENDING then set_request True REQUEST_ACCEPTED v2 else v2)
            else Inr v1)"
| "spec_op Op_cancel v =
     (case pv_request v True of
        None \<Rightarrow> Inl FriendRequestUnavailable
      | Some state \<Rightarrow>
          if state = REQUEST_CANCELLED then Inr v
          else if state \<noteq> REQUEST_PENDING then Inl FriendRequestStateConflict
          else Inr (set_request True REQUEST_CANCELLED v))"
| "spec_op Op_unfriend v = Inr (set_edge False Friend False (set_edge True Friend False v))"
| "spec_op (Op_block b) v =
     (let v1 = set_edge True Block b v in
      if b
      then Inr (block_request False (block_request True
             (set_edge False Follow False (set_edge True Follow False
               (set_edge False Friend False (set_edge True Friend False v1))))))
      else Inr v1)"

text \<open>The mutation of the store an operation stands for, with its change and replay flags.\<close>

definition run_op ::
  "social_env \<Rightarrow> instant \<Rightarrow> social_account \<Rightarrow> social_account \<Rightarrow> social_op \<Rightarrow> pystr \<Rightarrow> instant \<Rightarrow> social_db \<Rightarrow>
     social_error + (bool \<times> bool) \<times> social_db" where
  "run_op E now x y op opid at d =
     (let m = (\<lambda>r. and_then r (\<lambda>(res, d'). Inr ((mr_changed res, mr_replay res), d')));
          q = (\<lambda>r. and_then r (\<lambda>(res, d'). Inr ((rr_changed res, rr_replay res), d'))) in
      case op of
        Op_follow b \<Rightarrow> m (set_following E now x y b opid at d)
      | Op_request msg \<Rightarrow> q (create_friend_request E now x y msg opid at d)
      | Op_resolve resolution \<Rightarrow> q (resolve_friend_request E now x y resolution opid at d)
      | Op_cancel \<Rightarrow> q (cancel_friend_request E now x y opid at d)
      | Op_unfriend \<Rightarrow> m (delete_friend E now x y opid at d)
      | Op_block b \<Rightarrow> m (set_blocked E now x y b opid at d))"

section \<open>Steps on the rows of a pair\<close>

text \<open>Everything but the local rows of the pair stays.\<close>

definition pair_key :: "social_account \<Rightarrow> social_account \<Rightarrow> uuid \<times> pystr \<Rightarrow> bool" where
  "pair_key x y p \<longleftrightarrow> p = (a_user x, a_uid y) \<or> p = (a_user y, a_uid x)"

definition pair_step :: "social_account \<Rightarrow> social_account \<Rightarrow> social_db \<Rightarrow> social_db \<Rightarrow> bool" where
  "pair_step x y d d' \<longleftrightarrow>
     social_ok d' \<and> migrated d' = migrated d \<and> sd_users d' = sd_users d \<and> sd_accounts d' = sd_accounts d
     \<and> sd_events d' = sd_events d
     \<and> (\<forall>o' s k. \<not> pair_key x y (o', s) \<longrightarrow> native_relation o' s k d' = native_relation o' s k d)"

lemma pair_step_refl: "social_ok d \<Longrightarrow> pair_step x y d d"
  by (simp add: pair_step_def)

lemma pair_step_trans: "pair_step x y d d1 \<Longrightarrow> pair_step x y d1 d2 \<Longrightarrow> pair_step x y d d2"
  by (simp add: pair_step_def)

lemma pair_step_commute: "pair_step y x d d' = pair_step x y d d'"
  unfolding pair_step_def pair_key_def by blast

lemma native_put_step:
  "native_put d (o', s, k) r d' \<Longrightarrow> pair_key x y (o', s) \<Longrightarrow> pair_step x y d d'"
  by (auto simp: native_put_def pair_step_def)

text \<open>One primitive changes one component of the view.\<close>

lemma put_edge_view:
  assumes ok: "social_ok d" and users: "a_user x \<noteq> a_user y"
    and put: "native_put d (a_user x, a_uid y, kind_name k) r d'" and act: "row_is_active (Some r) = b"
  shows "pair_view E x y d' = set_edge True k b (pair_view E x y d)"
    and "pair_view E y x d' = set_edge False k b (pair_view E y x d)"
proof -
  note p = put [unfolded native_put_def]
  have ok': "social_ok d'" and mig: "migrated d' = migrated d"
    and nat: "\<And>o' s kd. native_relation o' s kd d'
      = (if (o', s, kd) = (a_user x, a_uid y, kind_name k) then Some r else native_relation o' s kd d)"
    using p by blast+
  have inj: "kind_name k' = kind_name k \<longleftrightarrow> k' = k" for k' by (cases k'; cases k) simp_all
  have req: "kind_name k \<noteq> RELATION_FRIEND_REQUEST" by (cases k) simp_all
  have e1: "edge E x y (kind_name k') d' = (if k' = k then b else edge E x y (kind_name k') d)" for k'
  proof (cases "k' = k")
    case True
    then show ?thesis using effective_edge_native [OF ok'] act by (simp add: edge_def nat)
  next
    case False
    then show ?thesis using inj by (simp add: edge_def effective_edge_cong [OF ok ok' mig] nat)
  qed
  have e2: "edge E y x (kind_name k') d' = edge E y x (kind_name k') d" for k'
    using users by (simp add: edge_def effective_edge_cong [OF ok ok' mig] nat)
  have r: "request_state E x y d' = request_state E x y d" "request_state E y x d' = request_state E y x d"
    using users req by (simp_all add: request_state_def request_row_cong [OF ok ok' mig] nat)
  show "pair_view E x y d' = set_edge True k b (pair_view E x y d)"
    "pair_view E y x d' = set_edge False k b (pair_view E y x d)"
    by (auto simp: pair_view_def set_edge_def e1 e2 r fun_eq_iff)
qed

lemma put_request_view:
  assumes ok: "social_ok d" and users: "a_user x \<noteq> a_user y"
    and put: "native_put d (a_user x, a_uid y, RELATION_FRIEND_REQUEST) r d'"
    and st: "normalized_relationship_state E r = s"
  shows "pair_view E x y d' = set_request True s (pair_view E x y d)"
    and "pair_view E y x d' = set_request False s (pair_view E y x d)"
proof -
  note p = put [unfolded native_put_def]
  have ok': "social_ok d'" and mig: "migrated d' = migrated d"
    and nat: "\<And>o' sj kd. native_relation o' sj kd d'
      = (if (o', sj, kd) = (a_user x, a_uid y, RELATION_FRIEND_REQUEST) then Some r else native_relation o' sj kd d)"
    using p by blast+
  have req: "kind_name k \<noteq> RELATION_FRIEND_REQUEST" for k by (cases k) simp_all
  have e: "edge E x y (kind_name k) d' = edge E x y (kind_name k) d"
    "edge E y x (kind_name k) d' = edge E y x (kind_name k) d" for k
    using users req by (simp_all add: edge_def effective_edge_cong [OF ok ok' mig] nat)
  have r1: "request_state E x y d' = Some s"
    using st request_row_native [OF ok'] by (simp add: request_state_def nat)
  have r2: "request_state E y x d' = request_state E y x d"
    using users by (simp add: request_state_def request_row_cong [OF ok ok' mig] nat)
  show "pair_view E x y d' = set_request True s (pair_view E x y d)"
    "pair_view E y x d' = set_request False s (pair_view E y x d)"
    by (auto simp: pair_view_def set_request_def e r1 r2 fun_eq_iff)
qed

lemma fresh_id_new: "fresh_ids E \<Longrightarrow> new_id E d \<notin> r_id ` set (sd_relations d)"
  unfolding fresh_ids_def new_id_def by (metis set_map)

lemma set_active_put:
  assumes ok: "social_ok d" and fresh: "fresh_ids E"
    and run: "set_active_relation E now x y k active at reason d = (changed, d')"
  shows "changed = (edge E x y k d \<noteq> active)"
    and "d' = d \<and> \<not> changed \<or> (\<exists>r. native_put d (a_user x, a_uid y, k) r d' \<and> row_is_active (Some r) = active)"
proof -
  have act: "active_status active = S ''active'' \<longleftrightarrow> active" by (simp add: active_status_def)
  have "changed = (edge E x y k d \<noteq> active)
    \<and> (d' = d \<and> \<not> changed \<or> (\<exists>r. native_put d (a_user x, a_uid y, k) r d' \<and> row_is_active (Some r) = active))"
  proof (cases "native_relation (a_user x) (a_uid y) k d")
    case None
    define r where "r = \<lparr>r_id = new_id E d, r_owner = a_user x, r_provider = SOCIAL_NATIVE_PROVIDER,
        r_subject = a_uid y, r_kind = k, r_status = active_status active,
        r_started = (case effective_edge_row E x y k d of
            Some e \<Rightarrow> if \<not> active \<or> row_is_active (effective_edge_row E x y k d) then r_started e else at
          | None \<Rightarrow> at),
        r_ended = (if active then None else Some at),
        r_meta = localized_metadata E (effective_edge_row E x y k d) y reason, r_updated = now\<rparr>"
    have "set_active_relation E now x y k active at reason d = (edge E x y k d \<noteq> active, add_relation r d)"
      unfolding set_active_relation_def edge_def Let_def None option.case r_def ..
    then have "d' = add_relation r d" "changed = (edge E x y k d \<noteq> active)" using run by simp_all
    moreover have "native_put d (r_owner r, r_subject r, r_kind r) r (add_relation r d)"
    proof (rule add_relation_put [OF ok])
      show "native_relation (r_owner r) (r_subject r) (r_kind r) d = None" using None by (simp add: r_def)
      show "r_provider r = SOCIAL_NATIVE_PROVIDER" by (simp add: r_def)
      show "r_id r \<notin> r_id ` set (sd_relations d)" using fresh_id_new [OF fresh, of d] by (simp add: r_def)
    qed
    moreover have "(r_owner r, r_subject r, r_kind r) = (a_user x, a_uid y, k)" by (simp add: r_def)
    moreover have "row_is_active (Some r) = active" by (simp add: row_is_active_def r_def act)
    ultimately show ?thesis by metis
  next
    case (Some r0)
    have eff: "effective_edge_row E x y k d = Some r0" by (rule effective_edge_native [OF ok Some])
    define r where "r = r0\<lparr>r_status := active_status active, r_started := (if active then at else r_started r0),
        r_ended := (if active then None else Some at), r_meta := localized_metadata E (Some r0) y reason,
        r_updated := now\<rparr>"
    have "native_put d (a_user x, a_uid y, k) r (put_relation r d)"
      by (rule put_relation_put [OF ok Some]) (simp_all add: r_def relation_key_def)
    moreover have "row_is_active (Some r) = active" by (simp add: row_is_active_def r_def act)
    ultimately show ?thesis
      using run Some eff by (auto simp: set_active_relation_def edge_def Let_def r_def split: if_splits)
  qed
  then show "changed = (edge E x y k d \<noteq> active)"
    "d' = d \<and> \<not> changed \<or> (\<exists>r. native_put d (a_user x, a_uid y, k) r d' \<and> row_is_active (Some r) = active)"
    by blast+
qed


section \<open>Operations on the view\<close>

lemma pv_simps [simp]:
  "pv_edge (set_edge dir k b v) dir' k' = (if dir' = dir \<and> k' = k then b else pv_edge v dir' k')"
  "pv_request (set_edge dir k b v) = pv_request v"
  "pv_edge (set_request dir s v) = pv_edge v"
  "pv_request (set_request dir s v) dir' = (if dir' = dir then Some s else pv_request v dir')"
  by (simp_all add: set_edge_def set_request_def)

lemma pv_block_request [simp]:
  "pv_edge (block_request dir v) = pv_edge v"
  "pv_request (block_request dir v) dir'
    = (if dir' = dir \<and> pv_request v dir = Some REQUEST_PENDING then Some REQUEST_BLOCKED else pv_request v dir')"
  by (auto simp: block_request_def)

lemma all_kinds: "(\<forall>k. P k) \<longleftrightarrow> P Follow \<and> P Friend \<and> P Block"
  by (metis social_kind.exhaust)

lemma pair_view_eq_iff:
  "(v :: pair_view) = v' \<longleftrightarrow>
     (\<forall>dir. pv_edge v dir Follow = pv_edge v' dir Follow \<and> pv_edge v dir Friend = pv_edge v' dir Friend
        \<and> pv_edge v dir Block = pv_edge v' dir Block)
     \<and> (\<forall>dir. pv_request v dir = pv_request v' dir)"
  using all_kinds by (cases v; cases v') (simp add: fun_eq_iff; metis)

lemma set_edge_id: "pv_edge v dir k = b \<Longrightarrow> set_edge dir k b v = v"
  by (auto simp: pair_view_eq_iff)

lemma pair_view_dir [simp]:
  "pv_edge (pair_view E x y d) True k = edge E x y (kind_name k) d"
  "pv_edge (pair_view E x y d) False k = edge E y x (kind_name k) d"
  "pv_request (pair_view E x y d) True = request_state E x y d"
  "pv_request (pair_view E x y d) False = request_state E y x d"
  by (simp_all add: pair_view_def)

text \<open>A step on the rows of the pair that leaves the view \<open>v\<close>.\<close>

definition view_step :: "social_env \<Rightarrow> social_account \<Rightarrow> social_account \<Rightarrow> social_db \<Rightarrow> social_db \<Rightarrow> pair_view \<Rightarrow> bool" where
  "view_step E x y d d' v \<longleftrightarrow> pair_step x y d d' \<and> pair_view E x y d' = v"

lemma view_step_ok: "view_step E x y d d' v \<Longrightarrow> social_ok d'"
  by (simp add: view_step_def pair_step_def)

lemma view_step_view: "view_step E x y d d' v \<Longrightarrow> pair_view E x y d' = v"
  by (simp add: view_step_def)

lemma view_step_trans: "view_step E x y d d1 v \<Longrightarrow> view_step E x y d1 d2 w \<Longrightarrow> view_step E x y d d2 w"
  by (simp add: view_step_def) (blast intro: pair_step_trans)

lemma set_active_step:
  assumes ok: "social_ok d" and fresh: "fresh_ids E" and users: "a_user x \<noteq> a_user y"
    and run: "set_active_relation E now x y (kind_name k) b at reason d = (changed, d')"
  shows "changed = (pv_edge (pair_view E x y d) True k \<noteq> b)"
    and "view_step E x y d d' (set_edge True k b (pair_view E x y d))"
    and "view_step E y x d d' (set_edge False k b (pair_view E y x d))"
proof -
  have ch: "changed = (edge E x y (kind_name k) d \<noteq> b)" by (rule set_active_put(1) [OF ok fresh run])
  then show "changed = (pv_edge (pair_view E x y d) True k \<noteq> b)" by simp
  have "view_step E x y d d' (set_edge True k b (pair_view E x y d))
    \<and> view_step E y x d d' (set_edge False k b (pair_view E y x d))"
    using set_active_put(2) [OF ok fresh run]
  proof
    assume "d' = d \<and> \<not> changed"
    with ch show ?thesis
      using ok by (simp add: view_step_def pair_step_refl set_edge_id)
  next
    assume "\<exists>r. native_put d (a_user x, a_uid y, kind_name k) r d' \<and> row_is_active (Some r) = b"
    then obtain r where put: "native_put d (a_user x, a_uid y, kind_name k) r d'" and act: "row_is_active (Some r) = b"
      by blast
    have "pair_step x y d d'" "pair_step y x d d'"
      using put by (rule native_put_step; simp add: pair_key_def)+
    then show ?thesis
      using put_edge_view [OF ok users put act, of E] by (simp add: view_step_def)
  qed
  then show "view_step E x y d d' (set_edge True k b (pair_view E x y d))"
    "view_step E y x d d' (set_edge False k b (pair_view E y x d))" by blast+
qed

text \<open>The request row after \<open>request_relation\<close>: local, with the same state.\<close>

lemma request_relation_step:
  assumes ok: "social_ok d" and fresh: "fresh_ids E" and users: "a_user x \<noteq> a_user y"
    and run: "request_relation E now x y True at reason d = (row, d')"
  shows "view_step E x y d d' (pair_view E x y d)"
    and "view_step E y x d d' (pair_view E y x d)"
    and "map_option (normalized_relationship_state E) row = request_state E x y d"
    and "row = Some r \<Longrightarrow> native_relation (a_user x) (a_uid y) RELATION_FRIEND_REQUEST d' = Some r"
proof -
  let ?post = "view_step E x y d d' (pair_view E x y d) \<and> view_step E y x d d' (pair_view E y x d)
    \<and> map_option (normalized_relationship_state E) row = request_state E x y d
    \<and> (\<forall>r. row = Some r \<longrightarrow> native_relation (a_user x) (a_uid y) RELATION_FRIEND_REQUEST d' = Some r)"
  have same: "view_step E x y d d (pair_view E x y d)" "view_step E y x d d (pair_view E y x d)"
    using ok by (simp_all add: view_step_def pair_step_refl)
  have ?post
  proof (cases "request_row E x y d")
    case None
    then have "row = None" "d' = d" using run by (simp_all add: request_relation_def request_row_def)
    with None same show ?thesis by (simp add: request_state_def)
  next
    case (Some r0)
    note kinds = request_row_kinds [OF ok Some]
    show ?thesis
    proof (cases "r_provider r0 = SOCIAL_NATIVE_PROVIDER")
      case True
      then have "row = Some r0" "d' = d"
        using run Some by (simp_all add: request_relation_def request_row_def)
      with Some True kinds same show ?thesis by (simp add: request_state_def)
    next
      case False
      define state where "state = normalized_relationship_state E r0"
      define r where "r = \<lparr>r_id = new_id E d, r_owner = a_user x, r_provider = SOCIAL_NATIVE_PROVIDER,
          r_subject = a_uid y, r_kind = RELATION_FRIEND_REQUEST, r_status = state, r_started = r_started r0,
          r_ended = (if state = REQUEST_PENDING then None
                     else Some (case r_ended r0 of None \<Rightarrow> at | Some t \<Rightarrow> t)),
          r_meta = localized_metadata E (Some r0) y reason, r_updated = now\<rparr>"
      have "request_relation E now x y True at reason d = (Some r, add_relation r d)"
        using Some False unfolding request_relation_def request_row_def r_def state_def Let_def by simp
      then have res: "row = Some r" "d' = add_relation r d" using run by simp_all
      have none: "native_relation (a_user x) (a_uid y) RELATION_FRIEND_REQUEST d = None"
        using request_row_native [OF ok] Some False kinds
        by (cases "native_relation (a_user x) (a_uid y) RELATION_FRIEND_REQUEST d") auto
      have "native_put d (r_owner r, r_subject r, r_kind r) r (add_relation r d)"
      proof (rule add_relation_put [OF ok])
        show "native_relation (r_owner r) (r_subject r) (r_kind r) d = None" using none by (simp add: r_def)
        show "r_provider r = SOCIAL_NATIVE_PROVIDER" by (simp add: r_def)
        show "r_id r \<notin> r_id ` set (sd_relations d)" using fresh_id_new [OF fresh, of d] by (simp add: r_def)
      qed
      moreover have "(r_owner r, r_subject r, r_kind r) = (a_user x, a_uid y, RELATION_FRIEND_REQUEST)"
        by (simp add: r_def)
      ultimately have put: "native_put d (a_user x, a_uid y, RELATION_FRIEND_REQUEST) r d'" using res by simp
      have st: "normalized_relationship_state E r = state"
        by (simp add: normalized_relationship_state_def r_def)
      have rs: "request_state E x y d = Some state" by (simp add: request_state_def Some state_def)
      have "pair_step x y d d'" "pair_step y x d d'"
        using put by (rule native_put_step; simp add: pair_key_def)+
      moreover have "pair_view E x y d' = pair_view E x y d" "pair_view E y x d' = pair_view E y x d"
        using put_request_view [OF ok users put st] rs by (auto simp: pair_view_eq_iff)
      moreover have "native_relation (a_user x) (a_uid y) RELATION_FRIEND_REQUEST d' = Some r"
        using put unfolding native_put_def by simp
      ultimately show ?thesis using res st rs by (simp add: view_step_def)
    qed
  qed
  then show "view_step E x y d d' (pair_view E x y d)" "view_step E y x d d' (pair_view E y x d)"
    "map_option (normalized_relationship_state E) row = request_state E x y d"
    "row = Some r \<Longrightarrow> native_relation (a_user x) (a_uid y) RELATION_FRIEND_REQUEST d' = Some r" by blast+
qed

text \<open>A local request row gets a new state.\<close>

lemma put_request_step:
  assumes ok: "social_ok d" and users: "a_user x \<noteq> a_user y"
    and old: "native_relation (a_user x) (a_uid y) RELATION_FRIEND_REQUEST d = Some r0"
    and r: "r_id r = r_id r0" "relation_key r = relation_key r0" "r_status r = s"
  shows "view_step E x y d (put_relation r d) (set_request True s (pair_view E x y d))"
    and "view_step E y x d (put_relation r d) (set_request False s (pair_view E y x d))"
proof -
  have put: "native_put d (a_user x, a_uid y, RELATION_FRIEND_REQUEST) r (put_relation r d)"
    by (rule put_relation_put [OF ok old r(1,2)])
  have "relation_key r0 = (a_user x, SOCIAL_NATIVE_PROVIDER, a_uid y, RELATION_FRIEND_REQUEST)"
    using native_relation_iff [OF ok] old by blast
  then have st: "normalized_relationship_state E r = s"
    using r by (simp add: relation_key_def normalized_relationship_state_def)
  have "pair_step x y d (put_relation r d)" "pair_step y x d (put_relation r d)"
    using put by (rule native_put_step; simp add: pair_key_def)+
  then show "view_step E x y d (put_relation r d) (set_request True s (pair_view E x y d))"
    "view_step E y x d (put_relation r d) (set_request False s (pair_view E y x d))"
    using put_request_view [OF ok users put st] by (simp_all add: view_step_def)
qed

lemma closed_request_fields [simp]:
  "r_id (closed_request s who at now r) = r_id r" "relation_key (closed_request s who at now r) = relation_key r"
  "r_status (closed_request s who at now r) = s"
  by (simp_all add: closed_request_def relation_key_def)


section \<open>Sequences of steps\<close>

lemma active_after:
  assumes st: "view_step E x y d0 d v" and fresh: "fresh_ids E" and users: "a_user x \<noteq> a_user y"
    and run: "set_active_relation E now (if dir then x else y) (if dir then y else x) (kind_name k) b at reason d = (c, d')"
  shows "c = (pv_edge v dir k \<noteq> b) \<and> view_step E x y d0 d' (set_edge dir k b v)"
proof -
  have ok: "social_ok d" and v: "pair_view E x y d = v" using view_step_ok [OF st] view_step_view [OF st] by simp_all
  have users': "a_user y \<noteq> a_user x" using users by simp
  show ?thesis
  proof (cases dir)
    case True
    then have run': "set_active_relation E now x y (kind_name k) b at reason d = (c, d')" using run by simp
    show ?thesis
      using set_active_step(1,2) [OF ok fresh users run'] view_step_trans [OF st] v True by simp
  next
    case False
    then have run': "set_active_relation E now y x (kind_name k) b at reason d = (c, d')" using run by simp
    have "c = (pv_edge (pair_view E x y d) False k \<noteq> b)"
      using set_active_step(1) [OF ok fresh users' run'] by simp
    then show ?thesis
      using set_active_step(3) [OF ok fresh users' run'] view_step_trans [OF st] v False by simp
  qed
qed

lemma request_after:
  assumes st: "view_step E x y d0 d v" and fresh: "fresh_ids E" and users: "a_user x \<noteq> a_user y"
    and run: "request_relation E now (if dir then x else y) (if dir then y else x) True at reason d = (row, d')"
  shows "view_step E x y d0 d' v \<and> map_option (normalized_relationship_state E) row = pv_request v dir
    \<and> (\<forall>r. row = Some r \<longrightarrow> native_relation (a_user (if dir then x else y)) (a_uid (if dir then y else x))
         RELATION_FRIEND_REQUEST d' = Some r)"
proof -
  have ok: "social_ok d" and v: "pair_view E x y d = v" using view_step_ok [OF st] view_step_view [OF st] by simp_all
  have users': "a_user y \<noteq> a_user x" using users by simp
  show ?thesis
  proof (cases dir)
    case True
    then have run': "request_relation E now x y True at reason d = (row, d')" using run by simp
    note r = request_relation_step [OF ok fresh users run']
    have "pv_request v True = request_state E x y d" using v by auto
    with r(3,4) view_step_trans [OF st r(1)] v True show ?thesis by simp
  next
    case False
    then have run': "request_relation E now y x True at reason d = (row, d')" using run by simp
    note r = request_relation_step [OF ok fresh users' run']
    have "pv_request v False = request_state E y x d" using v by auto
    with r(3,4) view_step_trans [OF st r(2)] v False show ?thesis by simp
  qed
qed

lemma put_after:
  assumes st: "view_step E x y d0 d v" and users: "a_user x \<noteq> a_user y"
    and old: "native_relation (a_user (if dir then x else y)) (a_uid (if dir then y else x)) RELATION_FRIEND_REQUEST d = Some r0"
    and r: "r_id r = r_id r0" "relation_key r = relation_key r0" "r_status r = s"
  shows "view_step E x y d0 (put_relation r d) (set_request dir s v)"
proof -
  have ok: "social_ok d" and v: "pair_view E x y d = v" using view_step_ok [OF st] view_step_view [OF st] by simp_all
  have users': "a_user y \<noteq> a_user x" using users by simp
  show ?thesis
  proof (cases dir)
    case True
    then show ?thesis
      using put_request_step(1) [OF ok users _ r, of E] old view_step_trans [OF st] v by simp
  next
    case False
    then show ?thesis
      using put_request_step(2) [OF ok users' _ r, of E] old view_step_trans [OF st] v by simp
  qed
qed

lemma deactivate_after:
  assumes "view_step E x y d0 d v" and fresh: "fresh_ids E" and users: "a_user x \<noteq> a_user y"
    and "deactivate_edges E now at reason
        (map (\<lambda>(dir, k, l). (if dir then x else y, if dir then y else x, kind_name k, l)) es) related d = (related', d')"
  shows "(related' \<noteq> [] \<longleftrightarrow> related \<noteq> [] \<or> (\<exists>(dir, k, l) \<in> set es. pv_edge v dir k))
    \<and> view_step E x y d0 d' (fold (\<lambda>(dir, k, l). set_edge dir k False) es v)"
  using assms(1,4)
proof (induction es arbitrary: related d v)
  case Nil
  then show ?case by simp
next
  case (Cons e es)
  obtain dir k l where e: "e = (dir, k, l)" by (cases e) auto
  obtain c d1 where one: "set_active_relation E now (if dir then x else y) (if dir then y else x)
      (kind_name k) False at reason d = (c, d1)" by fastforce
  note a = active_after [OF Cons.prems(1) fresh users one]
  have rest: "deactivate_edges E now at reason
      (map (\<lambda>(dir, k, l). (if dir then x else y, if dir then y else x, kind_name k, l)) es)
      (if c then related @ [l] else related) d1 = (related', d')"
    using Cons.prems(2) by (simp add: e one)
  have "(related' \<noteq> [] \<longleftrightarrow> (if c then related @ [l] else related) \<noteq> []
      \<or> (\<exists>(dir', k', l') \<in> set es. pv_edge (set_edge dir k False v) dir' k'))
    \<and> view_step E x y d0 d' (fold (\<lambda>(dir, k, l). set_edge dir k False) es (set_edge dir k False v))"
    using Cons.IH [OF conjunct2 [OF a] rest] .
  moreover have "(\<exists>(dir', k', l') \<in> set es. pv_edge (set_edge dir k False v) dir' k') \<longleftrightarrow>
      (\<exists>(dir', k', l') \<in> set es. pv_edge v dir' k')" if "\<not> pv_edge v dir k"
    using set_edge_id [of v dir k False] that by simp
  ultimately show ?case using a by (auto simp: e)
qed


lemma befriend_after:
  assumes st: "view_step E x y d0 d v" and fresh: "fresh_ids E" and users: "a_user x \<noteq> a_user y"
    and run: "befriend E now x y at d = (related, d')"
  shows "view_step E x y d0 d' (let v2 = set_edge False Friend True (set_edge True Friend True v) in
           if pv_request v True = Some REQUEST_PENDING then set_request True REQUEST_ACCEPTED v2 else v2)"
proof -
  let ?v2 = "set_edge False Friend True (set_edge True Friend True v)"
  obtain c1 d1 where s1: "set_active_relation E now x y RELATION_FRIEND True at ''friend-request-accepted'' d = (c1, d1)"
    by fastforce
  obtain c2 d2 where s2: "set_active_relation E now y x RELATION_FRIEND True at ''friend-request-accepted'' d1 = (c2, d2)"
    by fastforce
  obtain row d3 where s3: "request_relation E now x y True at ''friend-request-reverse-accepted'' d2 = (row, d3)"
    by fastforce
  have v1: "view_step E x y d0 d1 (set_edge True Friend True v)"
    using active_after [OF st fresh users, where dir = True and k = Friend] s1 by simp
  have v2: "view_step E x y d0 d2 ?v2"
    using active_after [OF v1 fresh users, where dir = False and k = Friend] s2 by simp
  have v3: "view_step E x y d0 d3 ?v2" "map_option (normalized_relationship_state E) row = pv_request v True"
    "\<forall>r. row = Some r \<longrightarrow> native_relation (a_user x) (a_uid y) RELATION_FRIEND_REQUEST d3 = Some r"
    using request_after [OF v2 fresh users, where dir = True] s3 by simp_all
  show ?thesis
  proof (cases row)
    case None
    then have "d' = d3" using run s1 s2 s3 by (simp add: befriend_def)
    moreover have "pv_request v True = None" using v3(2) None by simp
    ultimately show ?thesis using v3(1) by (simp add: Let_def)
  next
    case (Some r)
    have state: "pv_request v True = Some (normalized_relationship_state E r)" using v3(2) Some by simp
    have "native_relation (a_user x) (a_uid y) RELATION_FRIEND_REQUEST d3 = Some r" using v3(3) Some by blast
    then have put: "view_step E x y d0 (put_relation (closed_request REQUEST_ACCEPTED (Some (a_uid x)) at now r) d3)
        (set_request True REQUEST_ACCEPTED ?v2)"
      by (intro put_after [OF v3(1) users, where dir = True]) simp_all
    show ?thesis
      using run s1 s2 s3 Some v3(1) put state
      by (auto simp: befriend_def Let_def split: if_splits)
  qed
qed

lemma block_pending_after:
  assumes st: "view_step E x y d0 d v" and fresh: "fresh_ids E" and users: "a_user x \<noteq> a_user y"
    and run: "block_pending_request E now (if dir then x else y) (if dir then y else x) at d = (c, d')"
  shows "c = (pv_request v dir = Some REQUEST_PENDING) \<and> view_step E x y d0 d' (block_request dir v)"
proof -
  let ?x = "if dir then x else y" and ?y = "if dir then y else x"
  obtain row d1 where s1: "request_relation E now ?x ?y True at ''friend-request-blocked'' d = (row, d1)"
    by fastforce
  note r = request_after [OF st fresh users s1]
  show ?thesis
  proof (cases row)
    case None
    then show ?thesis using run r unfolding block_pending_request_def Let_def s1 by (simp add: block_request_def)
  next
    case (Some r0)
    have state: "pv_request v dir = Some (normalized_relationship_state E r0)" using r Some by auto
    have "native_relation (a_user ?x) (a_uid ?y) RELATION_FRIEND_REQUEST d1 = Some r0" using r Some by blast
    then have put: "view_step E x y d0 (put_relation (closed_request REQUEST_BLOCKED None at now r0) d1)
        (set_request dir REQUEST_BLOCKED v)"
      by (intro put_after [OF conjunct1 [OF r] users]) simp_all
    show ?thesis
      using run r state put Some unfolding block_pending_request_def Let_def s1
      by (auto simp: block_request_def split: if_splits)
  qed
qed

lemma block_cleanup_after:
  assumes st: "view_step E x y d0 d v" and fresh: "fresh_ids E" and users: "a_user x \<noteq> a_user y"
    and run: "block_cleanup E now x y at d = (related, d')"
  shows "(related \<noteq> [] \<longleftrightarrow> (\<exists>dir. pv_edge v dir Friend \<or> pv_edge v dir Follow \<or> pv_request v dir = Some REQUEST_PENDING))
    \<and> view_step E x y d0 d' (block_request False (block_request True
             (set_edge False Follow False (set_edge True Follow False
               (set_edge False Friend False (set_edge True Friend False v))))))"
proof -
  let ?v1 = "set_edge False Follow False (set_edge True Follow False
               (set_edge False Friend False (set_edge True Friend False v)))"
  obtain rel d1 where s1: "deactivate_edges E now at ''blocked''
            [(x, y, RELATION_FRIEND, ''friend:actor-target''), (y, x, RELATION_FRIEND, ''friend:target-actor''),
             (x, y, RELATION_FOLLOW, ''follow:actor-target''), (y, x, RELATION_FOLLOW, ''follow:target-actor'')] [] d
      = (rel, d1)" by fastforce
  obtain b1 d2 where s2: "block_pending_request E now x y at d1 = (b1, d2)" by fastforce
  obtain b2 d3 where s3: "block_pending_request E now y x at d2 = (b2, d3)" by fastforce
  have v1: "rel \<noteq> [] \<longleftrightarrow> pv_edge v True Friend \<or> pv_edge v False Friend \<or> pv_edge v True Follow \<or> pv_edge v False Follow"
    "view_step E x y d0 d1 ?v1"
    using deactivate_after [OF st fresh users, where es = "[(True, Friend, ''friend:actor-target''),
        (False, Friend, ''friend:target-actor''), (True, Follow, ''follow:actor-target''),
        (False, Follow, ''follow:target-actor'')]"] s1 by (simp_all del: deactivate_edges.simps)
  have v2: "b1 = (pv_request v True = Some REQUEST_PENDING)" "view_step E x y d0 d2 (block_request True ?v1)"
    using block_pending_after [OF v1(2) fresh users, where dir = True] s2 by simp_all
  have v3: "b2 = (pv_request v False = Some REQUEST_PENDING)"
    "view_step E x y d0 d3 (block_request False (block_request True ?v1))"
    using block_pending_after [OF v2(2) fresh users, where dir = False] s3 by simp_all
  have "related = rel @ (if b1 then [''friend_request:actor-target''] else [])
               @ (if b2 then [''friend_request:target-actor''] else [])" "d' = d3"
    using run unfolding block_cleanup_def s1 by (simp_all add: s2 s3)
  then show ?thesis using v1(1) v2(1) v3 by (auto simp: ex_bool_eq)
qed

section \<open>Operation ids\<close>

text \<open>An operation of \<open>x\<close> with id \<open>opid\<close> touches the rows of the pair and its own event.\<close>

definition op_frame :: "social_account \<Rightarrow> social_account \<Rightarrow> pystr \<Rightarrow> social_db \<Rightarrow> social_db \<Rightarrow> bool" where
  "op_frame x y opid d d' \<longleftrightarrow>
     social_ok d' \<and> migrated d' = migrated d \<and> sd_users d' = sd_users d \<and> sd_accounts d' = sd_accounts d
     \<and> (\<forall>o' s k. \<not> pair_key x y (o', s) \<longrightarrow> native_relation o' s k d' = native_relation o' s k d)
     \<and> (\<forall>u p. (u, p) \<noteq> (a_user x, opid) \<longrightarrow> find_event u p d' = find_event u p d)"

lemma view_of_rows: "sd_relations d' = sd_relations d \<Longrightarrow> pair_view E x y d' = pair_view E x y d"
  by (simp add: pair_view_def edge_def effective_edge_row_def request_state_def request_row_def relationship_rows_def
      fun_eq_iff)

definition claimed_event :: "social_env \<Rightarrow> social_account \<Rightarrow> pystr \<Rightarrow> string \<Rightarrow> pystr \<Rightarrow> instant \<Rightarrow> jdict \<Rightarrow> social_event" where
  "claimed_event E x uid action opid at payload =
     \<lparr>ev_owner = a_user x, ev_operation = opid, ev_type = ''social.'' @ action,
      ev_digest = payload_digest E action uid payload, ev_occurred_at = at, ev_changed = False, ev_related = []\<rparr>"

lemma claim_cases:
  assumes "claim_operation E x uid action opid at payload d = Inr ((ev, claimed), d1)"
  shows "(claimed \<and> find_event (a_user x) opid d = None \<and> ev = claimed_event E x uid action opid at payload
            \<and> d1 = d\<lparr>sd_events := sd_events d @ [ev]\<rparr>)
    \<or> (\<not> claimed \<and> find_event (a_user x) opid d = Some ev \<and> d1 = d
        \<and> ev_type ev = ''social.'' @ action \<and> ev_digest ev = payload_digest E action uid payload)"
  using assms by (auto simp: claim_operation_def claimed_event_def Let_def split: option.splits if_splits)

lemma claim_error: "claim_operation E x uid action opid at payload d = Inl e \<Longrightarrow>
    e = SocialIdempotencyConflict \<and> find_event (a_user x) opid d \<noteq> None"
  by (auto simp: claim_operation_def Let_def split: option.splits if_splits)

lemma find_event_finish:
  "find_event u p (finish_event e changed related d)
    = (if (u, p) = (ev_owner e, ev_operation e)
       then map_option (\<lambda>x. x\<lparr>ev_changed := changed, ev_related := related\<rparr>) (find_event u p d)
       else find_event u p d)"
proof -
  have "find (\<lambda>x. ev_owner x = u \<and> ev_operation x = p) (update_where
        (\<lambda>x. ev_owner x = ev_owner e \<and> ev_operation x = ev_operation e)
        (\<lambda>x. x\<lparr>ev_changed := changed, ev_related := related\<rparr>) xs)
    = (if (u, p) = (ev_owner e, ev_operation e)
       then map_option (\<lambda>x. x\<lparr>ev_changed := changed, ev_related := related\<rparr>)
              (find (\<lambda>x. ev_owner x = u \<and> ev_operation x = p) xs)
       else find (\<lambda>x. ev_owner x = u \<and> ev_operation x = p) xs)" for xs
    by (induction xs) (auto simp: update_where_def)
  from this [of "sd_events d"] show ?thesis unfolding find_event_def finish_event_def by simp
qed


lemma finish_event_ok: "social_ok d \<Longrightarrow> social_ok (finish_event e changed related d)"
proof -
  have keys: "map (\<lambda>e. (ev_owner e, ev_operation e)) (update_where P (\<lambda>x. x\<lparr>ev_changed := changed, ev_related := related\<rparr>) xs)
    = map (\<lambda>e. (ev_owner e, ev_operation e)) xs" for P xs
    by (simp add: update_where_def)
  show "social_ok d \<Longrightarrow> social_ok (finish_event e changed related d)"
    by (simp add: social_ok_def finish_event_def keys)
qed

lemma claim_ok:
  assumes ok: "social_ok d" and none: "find_event (ev_owner ev) (ev_operation ev) d = None"
  shows "social_ok (d\<lparr>sd_events := sd_events d @ [ev]\<rparr>)"
proof -
  have "(ev_owner ev, ev_operation ev) \<notin> (\<lambda>e. (ev_owner e, ev_operation e)) ` set (sd_events d)"
    using none by (auto simp: find_event_def find_None_iff)
  then show ?thesis using ok by (simp add: social_ok_def)
qed

lemma find_event_claim:
  "find_event u p (d\<lparr>sd_events := sd_events d @ [ev]\<rparr>) =
    (case find_event u p d of Some e \<Rightarrow> Some e | None \<Rightarrow> if (u, p) = (ev_owner ev, ev_operation ev) then Some ev else None)"
  by (auto simp: find_event_def find_append split: option.split)

text \<open>The event of an operation: its action, and the digest of action, target and payload.\<close>

fun op_action :: "social_op \<Rightarrow> string" where
  "op_action (Op_follow b) = (if b then ''follow'' else ''unfollow'')"
| "op_action (Op_request m) = ''friend.request''"
| "op_action (Op_resolve resolution) = ''friend.'' @ resolution"
| "op_action Op_cancel = ''friend.cancel''"
| "op_action Op_unfriend = ''friend.delete''"
| "op_action (Op_block b) = (if b then ''block'' else ''unblock'')"

fun op_payload :: "social_op \<Rightarrow> jdict" where
  "op_payload (Op_follow b) = [(S ''active'', JBool b)]"
| "op_payload (Op_request m) = [(S ''message'', JStr m)]"
| "op_payload (Op_resolve resolution) = [(S ''resolution'', JStr (S resolution))]"
| "op_payload Op_cancel = []"
| "op_payload Op_unfriend = []"
| "op_payload (Op_block b) = [(S ''active'', JBool b)]"

definition event_of :: "social_env \<Rightarrow> social_op \<Rightarrow> social_account \<Rightarrow> social_event \<Rightarrow> bool" where
  "event_of E op y ev \<longleftrightarrow> ev_type ev = ''social.'' @ op_action op
     \<and> ev_digest ev = payload_digest E (op_action op) (a_uid y) (op_payload op)"

text \<open>What an operation owes the specification; \<open>op_post\<close> is the refinement for one result.\<close>

definition op_post ::
  "social_env \<Rightarrow> social_account \<Rightarrow> social_account \<Rightarrow> social_op \<Rightarrow> pystr \<Rightarrow> social_db \<Rightarrow>
     social_error + (bool \<times> bool) \<times> social_db \<Rightarrow> bool" where
  "op_post E x y op opid d r \<longleftrightarrow>
     (case r of
        Inl e \<Rightarrow>
          lock_active_pair x y d = Inl e
          \<or> find_event (a_user x) opid d \<noteq> None \<and> e \<in> {SocialIdempotencyConflict, FriendRequestUnavailable}
          \<or> find_event (a_user x) opid d = None \<and> spec_op op (pair_view E x y d) = Inl e
      | Inr ((changed, replay), d') \<Rightarrow>
          op_frame x y opid d d' \<and> replay = (find_event (a_user x) opid d \<noteq> None)
          \<and> (\<exists>ev. find_event (a_user x) opid d' = Some ev \<and> event_of E op y ev \<and> ev_changed ev = changed)
          \<and> (if replay then d' = d
             else spec_op op (pair_view E x y d) = Inr (pair_view E x y d')
               \<and> changed = (pair_view E x y d' \<noteq> pair_view E x y d)))"

lemma op_frame_refl: "social_ok d \<Longrightarrow> op_frame x y opid d d"
  by (simp add: op_frame_def)

lemma replay_post:
  "social_ok d \<Longrightarrow> find_event (a_user x) opid d = Some ev \<Longrightarrow> event_of E op y ev \<Longrightarrow>
    op_post E x y op opid d (Inr ((ev_changed ev, True), d))"
  by (simp add: op_post_def op_frame_refl)

lemma claimed_step:
  assumes ok: "social_ok d" and none: "find_event (a_user x) opid d = None"
    and ev: "ev = claimed_event E x uid action opid at payload" and d1: "d1 = d\<lparr>sd_events := sd_events d @ [ev]\<rparr>"
  shows "view_step E x y d1 d1 (pair_view E x y d)"
proof -
  have "social_ok d1"
    using claim_ok [OF ok, of ev] none by (simp add: d1 ev claimed_event_def)
  moreover have "pair_view E x y d1 = pair_view E x y d" by (rule view_of_rows) (simp add: d1)
  ultimately show ?thesis by (simp add: view_step_def pair_step_refl)
qed

lemma claimed_post:
  assumes ok: "social_ok d" and none: "find_event (a_user x) opid d = None"
    and ev: "ev = claimed_event E x (a_uid y) (op_action op) opid at (op_payload op)" and d1: "d1 = d\<lparr>sd_events := sd_events d @ [ev]\<rparr>"
    and st: "view_step E x y d1 d2 w"
    and spec: "spec_op op (pair_view E x y d) = Inr w" and c: "c = (w \<noteq> pair_view E x y d)"
  shows "op_post E x y op opid d (Inr ((c, False), finish_event ev c rel d2))"
proof -
  let ?d = "finish_event ev c rel d2"
  have ids: "ev_owner ev = a_user x" "ev_operation ev = opid" by (simp_all add: ev claimed_event_def)
  have p: "social_ok d2" "migrated d2 = migrated d1" "sd_users d2 = sd_users d1" "sd_accounts d2 = sd_accounts d1"
    "sd_events d2 = sd_events d1"
    "\<forall>o' s k. \<not> pair_key x y (o', s) \<longrightarrow> native_relation o' s k d2 = native_relation o' s k d1"
    using st by (simp_all add: view_step_def pair_step_def)
  have rows: "sd_relations ?d = sd_relations d2" "sd_users ?d = sd_users d2" "sd_accounts ?d = sd_accounts d2"
    by (simp_all add: finish_event_def)
  have rows1: "sd_relations d1 = sd_relations d" "sd_users d1 = sd_users d" "sd_accounts d1 = sd_accounts d"
    by (simp_all add: d1)
  have ev2: "find_event u q d2 = find_event u q d1" for u q using p(5) by (simp add: find_event_def)
  have ev1: "find_event u q d1 = (if (u, q) = (a_user x, opid) then Some ev else find_event u q d)" for u q
    using none ids by (auto simp: d1 find_event_claim split: option.split)
  have nat: "native_relation o' s k ?d = native_relation o' s k d2"
    "native_relation o' s k d1 = native_relation o' s k d" for o' s k
    by (simp_all add: native_relation_def rows rows1)
  have "op_frame x y opid d ?d"
    unfolding op_frame_def
    using finish_event_ok [OF p(1)] p rows rows1 ids ev1 ev2 nat
    by (simp add: migrated_def find_event_finish)
  moreover have "pair_view E x y ?d = w"
    using view_of_rows [OF rows(1)] view_step_view [OF st] by simp
  moreover have "\<exists>ev. find_event (a_user x) opid ?d = Some ev \<and> event_of E op y ev \<and> ev_changed ev = c"
    using ev1 ev2 ids by (simp add: find_event_finish event_of_def ev claimed_event_def)
  ultimately show ?thesis using none spec c by (simp add: op_post_def)
qed

lemma failed_post:
  "find_event (a_user x) opid d = None \<Longrightarrow> spec_op op (pair_view E x y d) = Inl e \<Longrightarrow> op_post E x y op opid d (Inl e)"
  by (simp add: op_post_def)

text \<open>The frame every mutation shares: the pair is locked, then the operation id is claimed.\<close>

lemma op_shell:
  assumes ok: "social_ok d"
    and replay: "\<And>ev. find_event (a_user x) opid d = Some ev \<Longrightarrow> event_of E op y ev \<Longrightarrow> op_post E x y op opid d (K ((ev, False), d))"
    and claimed: "\<And>ev d1. find_event (a_user x) opid d = None \<Longrightarrow> ev = claimed_event E x (a_uid y) (op_action op) opid at (op_payload op)
        \<Longrightarrow> d1 = d\<lparr>sd_events := sd_events d @ [ev]\<rparr> \<Longrightarrow> op_post E x y op opid d (K ((ev, True), d1))"
    and claim: "action = op_action op" "payload = op_payload op"
  shows "op_post E x y op opid d (and_then (lock_active_pair x y d) (\<lambda>_.
      and_then (claim_operation E x (a_uid y) action opid at payload d) K))"
proof (cases "lock_active_pair x y d")
  case (Inl e)
  then show ?thesis by (simp add: op_post_def)
next
  case (Inr u)
  show ?thesis
  proof (cases "claim_operation E x (a_uid y) action opid at payload d")
    case (Inl e)
    then show ?thesis using claim_error [OF Inl] Inr by (simp add: op_post_def)
  next
    case ran: (Inr res)
    obtain ev fresh_id d1 where res: "res = ((ev, fresh_id), d1)" by (metis prod.collapse)
    from claim_cases [OF ran [unfolded res]] show ?thesis
      using Inr ran res replay claimed by (auto simp: claim event_of_def)
  qed
qed


section \<open>Each mutation refines its specification\<close>

lemma and_then_assoc: "and_then (and_then r f) g = and_then r (\<lambda>x. and_then (f x) g)"
  by (cases r) simp_all

lemma ensure_guard:
  "ensure_not_blocked E x y d = (if pv_blocked (pair_view E x y d) then Inl SocialBlocked else Inr ())"
  by (simp add: ensure_not_blocked_def pv_blocked_def edge_def effective_edge_row_def rows_commute [of y x] Let_def)

lemma friends_guard: "friendship_active E x y d = pv_friends (pair_view E x y d)"
  by (simp add: guards_read_edges pv_friends_def)

lemma following_post:
  assumes ok: "social_ok d" and fresh: "fresh_ids E" and users: "a_user x \<noteq> a_user y"
  shows "op_post E x y (Op_follow b) opid d (run_op E now x y (Op_follow b) opid at d)"
  unfolding run_op_def Let_def social_op.case set_following_def and_then_assoc
proof (rule op_shell [OF ok], goal_cases)
  case (1 ev)
  then show ?case using replay_post [OF ok] by (simp add: mutation_def)
next
  case (2 ev d1)
  note st = claimed_step [OF ok 2, where y = y]
  obtain c d2 where run: "set_active_relation E now x y RELATION_FOLLOW b at
      (if b then ''follow'' else ''unfollow'') d1 = (c, d2)" by fastforce
  have a: "c = (pv_edge (pair_view E x y d) True Follow \<noteq> b)"
    "view_step E x y d1 d2 (set_edge True Follow b (pair_view E x y d))"
    using active_after [OF st fresh users, where dir = True and k = Follow] run by simp_all
  show ?case
  proof (cases "b \<and> pv_blocked (pair_view E x y d)")
    case True
    then show ?thesis using failed_post [OF 2(1)] view_step_view [OF st] by (simp add: ensure_guard)
  next
    case False
    have "c = (set_edge True Follow b (pair_view E x y d) \<noteq> pair_view E x y d)"
      using a(1) by (auto simp: pair_view_eq_iff)
    then have "op_post E x y (Op_follow b) opid d (Inr ((c, False), finish_event ev c [] d2))"
      using claimed_post [OF ok 2 a(2)] False by simp
    then show ?thesis
      using False run view_step_view [OF st] by (auto simp: ensure_guard mutation_def)
  qed
qed simp_all

lemma unfriend_post:
  assumes ok: "social_ok d" and fresh: "fresh_ids E" and users: "a_user x \<noteq> a_user y"
  shows "op_post E x y Op_unfriend opid d (run_op E now x y Op_unfriend opid at d)"
  unfolding run_op_def Let_def social_op.case delete_friend_def and_then_assoc
proof (rule op_shell [OF ok], goal_cases)
  case (1 ev)
  then show ?case using replay_post [OF ok] by (simp add: mutation_def)
next
  case (2 ev d1)
  note st = claimed_step [OF ok 2, where y = y]
  let ?w = "set_edge False Friend False (set_edge True Friend False (pair_view E x y d))"
  obtain rel d2 where run: "deactivate_edges E now at ''friend-deleted''
     [(x, y, RELATION_FRIEND, ''friend:actor-target''), (y, x, RELATION_FRIEND, ''friend:target-actor'')] [] d1
     = (rel, d2)" by fastforce
  have a: "rel \<noteq> [] \<longleftrightarrow> pv_edge (pair_view E x y d) True Friend \<or> pv_edge (pair_view E x y d) False Friend"
    "view_step E x y d1 d2 ?w"
    using deactivate_after [OF st fresh users, where es = "[(True, Friend, ''friend:actor-target''),
        (False, Friend, ''friend:target-actor'')]"] run by (simp_all del: deactivate_edges.simps)
  have "(rel \<noteq> []) = (?w \<noteq> pair_view E x y d)" using a(1) by (auto simp: pair_view_eq_iff)
  then have "op_post E x y Op_unfriend opid d (Inr ((rel \<noteq> [], False), finish_event ev (rel \<noteq> []) rel d2))"
    using claimed_post [OF ok 2 a(2), where c = "rel \<noteq> []"] by simp
  then show ?case using run by (simp add: mutation_def del: deactivate_edges.simps)
qed simp_all

lemma blocked_post:
  assumes ok: "social_ok d" and fresh: "fresh_ids E" and users: "a_user x \<noteq> a_user y"
  shows "op_post E x y (Op_block b) opid d (run_op E now x y (Op_block b) opid at d)"
  unfolding run_op_def Let_def social_op.case set_blocked_def and_then_assoc
proof (rule op_shell [OF ok], goal_cases)
  case (1 ev)
  then show ?case using replay_post [OF ok] by (simp add: mutation_def)
next
  case (2 ev d1)
  note st = claimed_step [OF ok 2, where y = y]
  let ?v = "pair_view E x y d"
  obtain c d2 where run: "set_active_relation E now x y RELATION_BLOCK b at
      (if b then ''block'' else ''unblock'') d1 = (c, d2)" by fastforce
  have a: "c = (pv_edge ?v True Block \<noteq> b)" "view_step E x y d1 d2 (set_edge True Block b ?v)"
    using active_after [OF st fresh users, where dir = True and k = Block] run by simp_all
  show ?case
  proof (cases b)
    case True
    obtain rel d3 where clean: "block_cleanup E now x y at d2 = (rel, d3)" by fastforce
    note b = block_cleanup_after [OF a(2) fresh users clean]
    have "(c \<or> rel \<noteq> []) = (block_request False (block_request True
        (set_edge False Follow False (set_edge True Follow False
          (set_edge False Friend False (set_edge True Friend False (set_edge True Block b ?v)))))) \<noteq> ?v)"
      using True by (simp add: a(1) conjunct1 [OF b] pair_view_eq_iff all_bool_eq ex_bool_eq conj_assoc cong: conj_cong) argo
    then have "op_post E x y (Op_block b) opid d
        (Inr ((c \<or> rel \<noteq> [], False), finish_event ev (c \<or> rel \<noteq> []) rel d3))"
      using claimed_post [OF ok 2 conjunct2 [OF b], where c = "c \<or> rel \<noteq> []"] True by simp
    then show ?thesis using run clean True by (simp add: mutation_def)
  next
    case False
    have "c = (set_edge True Block b ?v \<noteq> ?v)" using a(1) by (auto simp: pair_view_eq_iff)
    then have "op_post E x y (Op_block b) opid d (Inr ((c, False), finish_event ev c [] d2))"
      using claimed_post [OF ok 2 a(2)] False by simp
    then show ?thesis using run False by (simp add: mutation_def)
  qed
qed simp_all


lemma request_relation_read: "request_relation E now x y False at reason d = (request_row E x y d, d)"
  by (simp add: request_relation_def request_row_def split: option.split)

lemma replay_missing_post: "find_event (a_user x) opid d \<noteq> None \<Longrightarrow> op_post E x y op opid d (Inl FriendRequestUnavailable)"
  by (simp add: op_post_def)

lemma open_request_after:
  assumes st: "view_step E x y d0 d v" and fresh: "fresh_ids E" and users: "a_user x \<noteq> a_user y"
    and row: "map_option (normalized_relationship_state E) row = pv_request v True"
      "\<forall>r. row = Some r \<longrightarrow> native_relation (a_user x) (a_uid y) RELATION_FRIEND_REQUEST d = Some r"
      "row = None \<Longrightarrow> native_relation (a_user x) (a_uid y) RELATION_FRIEND_REQUEST d = None"
  shows "case open_request E now x y msg at row d of
      Inl e \<Rightarrow> e = FriendRequestStateConflict \<and> pv_request v True \<noteq> Some REQUEST_PENDING
        \<and> REQUEST_PENDING \<notin> friend_request_transitions (pv_request v True)
    | Inr ((r, c), d') \<Rightarrow> c = (pv_request v True \<noteq> Some REQUEST_PENDING)
        \<and> (c \<longrightarrow> REQUEST_PENDING \<in> friend_request_transitions (pv_request v True))
        \<and> view_step E x y d0 d' (if c then set_request True REQUEST_PENDING v else v)"
proof (cases row)
  case None
  define r where "r = \<lparr>r_id = new_id E d, r_owner = a_user x, r_provider = SOCIAL_NATIVE_PROVIDER,
      r_subject = a_uid y, r_kind = RELATION_FRIEND_REQUEST, r_status = REQUEST_PENDING, r_started = at,
      r_ended = None, r_meta = request_metadata y msg [], r_updated = now\<rparr>"
  have ok: "social_ok d" by (rule view_step_ok [OF st])
  have none: "pv_request v True = None" using row(1) None by simp
  have native: "native_relation (a_user x) (a_uid y) RELATION_FRIEND_REQUEST d = None" using row(3) None by simp
  have "native_put d (r_owner r, r_subject r, r_kind r) r (add_relation r d)"
  proof (rule add_relation_put [OF ok])
    show "native_relation (r_owner r) (r_subject r) (r_kind r) d = None" using native by (simp add: r_def)
    show "r_provider r = SOCIAL_NATIVE_PROVIDER" by (simp add: r_def)
    show "r_id r \<notin> r_id ` set (sd_relations d)" using fresh_id_new [OF fresh, of d] by (simp add: r_def)
  qed
  moreover have "(r_owner r, r_subject r, r_kind r) = (a_user x, a_uid y, RELATION_FRIEND_REQUEST)"
    by (simp add: r_def)
  ultimately have put: "native_put d (a_user x, a_uid y, RELATION_FRIEND_REQUEST) r (add_relation r d)" by simp
  have st': "normalized_relationship_state E r = REQUEST_PENDING"
    by (simp add: normalized_relationship_state_def r_def)
  have "pair_step x y d (add_relation r d)"
    using put by (rule native_put_step) (simp add: pair_key_def)
  then have "view_step E x y d0 (add_relation r d) (set_request True REQUEST_PENDING v)"
    using view_step_trans [OF st] put_request_view(1) [OF ok users put st'] view_step_view [OF st]
    by (simp add: view_step_def)
  moreover have "open_request E now x y msg at row d = Inr ((r, True), add_relation r d)"
    unfolding open_request_def None option.case Let_def r_def ..
  ultimately show ?thesis using none by (simp add: friend_request_transitions_def)
next
  case (Some r0)
  define r where "r = r0\<lparr>r_status := REQUEST_PENDING, r_started := at, r_ended := None,
      r_meta := request_metadata y msg (r_meta r0), r_updated := now\<rparr>"
  have state: "pv_request v True = Some (normalized_relationship_state E r0)" using row(1) Some by auto
  have native: "native_relation (a_user x) (a_uid y) RELATION_FRIEND_REQUEST d = Some r0" using row(2) Some by blast
  have put: "view_step E x y d0 (put_relation r d) (set_request True REQUEST_PENDING v)"
    using native by (intro put_after [OF st users, where dir = True]) (simp_all add: r_def relation_key_def)
  have run: "open_request E now x y msg at row d =
     (if normalized_relationship_state E r0 = REQUEST_PENDING then Inr ((r0, False), d)
      else if REQUEST_PENDING \<notin> friend_request_transitions (Some (normalized_relationship_state E r0))
      then Inl FriendRequestStateConflict else Inr ((r, True), put_relation r d))"
    unfolding open_request_def Some option.case Let_def r_def ..
  show ?thesis using st put state by (auto simp: run)
qed

lemma request_relation_none:
  assumes ok: "social_ok d" and run: "request_relation E now x y loc at reason d = (None, d')"
  shows "d' = d \<and> native_relation (a_user x) (a_uid y) RELATION_FRIEND_REQUEST d = None"
proof -
  have "request_row E x y d = None"
    using run by (simp add: request_relation_def request_row_def Let_def split: option.splits if_splits)
  then show ?thesis
    using run request_row_native [OF ok, of x y _ E]
    by (cases "native_relation (a_user x) (a_uid y) RELATION_FRIEND_REQUEST d")
      (auto simp: request_relation_def request_row_def)
qed

lemma request_post:
  assumes ok: "social_ok d" and fresh: "fresh_ids E" and users: "a_user x \<noteq> a_user y"
  shows "op_post E x y (Op_request msg) opid d (run_op E now x y (Op_request msg) opid at d)"
  unfolding run_op_def Let_def social_op.case create_friend_request_def and_then_assoc
proof (rule op_shell [OF ok], goal_cases)
  case (1 ev)
  then show ?case
    using replay_post [OF ok 1] replay_missing_post [of x opid d]
    by (auto simp: request_relation_read request_outcome_def split: option.split)
next
  case (2 ev d1)
  note st = claimed_step [OF ok 2, where y = y]
  let ?v = "pair_view E x y d"
  obtain row d2 where run: "request_relation E now x y True at ''friend-request-created'' d1 = (row, d2)" by fastforce
  have a: "view_step E x y d1 d2 ?v" "map_option (normalized_relationship_state E) row = pv_request ?v True"
    "\<forall>r. row = Some r \<longrightarrow> native_relation (a_user x) (a_uid y) RELATION_FRIEND_REQUEST d2 = Some r"
    using request_after [OF st fresh users, where dir = True] run by simp_all
  have none: "native_relation (a_user x) (a_uid y) RELATION_FRIEND_REQUEST d2 = None" if "row = None"
    using request_relation_none [OF view_step_ok [OF st]] run that by blast
  note opened = open_request_after [OF a(1) fresh users a(2,3) none, of now msg at]
  have guards: "ensure_not_blocked E x y d2 = (if pv_blocked ?v then Inl SocialBlocked else Inr ())"
    "friendship_active E x y d2 = pv_friends ?v"
    using view_step_view [OF a(1)] by (simp_all add: ensure_guard friends_guard)
  show ?case
  proof (cases "pv_blocked ?v \<or> pv_friends ?v")
    case True
    then show ?thesis using failed_post [OF 2(1)] by (auto simp: run guards)
  next
    case open_: False
    show ?thesis
    proof (cases "open_request E now x y msg at row d2")
      case (Inl e)
      then show ?thesis using opened failed_post [OF 2(1)] open_ by (auto simp: run guards)
    next
      case (Inr res)
      obtain r c d3 where res: "res = ((r, c), d3)" by (metis prod.collapse)
      have o: "c = (pv_request ?v True \<noteq> Some REQUEST_PENDING)"
        "c \<longrightarrow> REQUEST_PENDING \<in> friend_request_transitions (pv_request ?v True)"
        "view_step E x y d1 d3 (if c then set_request True REQUEST_PENDING ?v else ?v)"
        using opened unfolding Inr res sum.case prod.case by blast+
      have "c = ((if c then set_request True REQUEST_PENDING ?v else ?v) \<noteq> ?v)"
        using o(1) by (auto simp: pair_view_eq_iff)
      moreover have "spec_op (Op_request msg) ?v = Inr (if c then set_request True REQUEST_PENDING ?v else ?v)"
        using o(1,2) open_ by auto
      ultimately have "op_post E x y (Op_request msg) opid d (Inr ((c, False), finish_event ev c [] d3))"
        using claimed_post [OF ok 2 o(3)] by blast
      then show ?thesis using open_ by (simp add: run guards Inr res request_outcome_def)
    qed
  qed
qed simp_all


lemma cancel_post:
  assumes ok: "social_ok d" and fresh: "fresh_ids E" and users: "a_user x \<noteq> a_user y"
  shows "op_post E x y Op_cancel opid d (run_op E now x y Op_cancel opid at d)"
  unfolding run_op_def Let_def social_op.case cancel_friend_request_def and_then_assoc
proof (rule op_shell [OF ok], goal_cases)
  case (1 ev)
  then show ?case
    using replay_post [OF ok 1] replay_missing_post [of x opid d]
    by (auto simp: request_relation_read request_outcome_def split: option.split)
next
  case (2 ev d1)
  note two = 2
  note st = claimed_step [OF ok 2, where y = y]
  let ?v = "pair_view E x y d"
  obtain row d2 where run: "request_relation E now x y True at ''friend-request-cancelled'' d1 = (row, d2)" by fastforce
  have a: "view_step E x y d1 d2 ?v" "map_option (normalized_relationship_state E) row = pv_request ?v True"
    "\<forall>r. row = Some r \<longrightarrow> native_relation (a_user x) (a_uid y) RELATION_FRIEND_REQUEST d2 = Some r"
    using request_after [OF st fresh users, where dir = True] run by simp_all
  show ?case
  proof (cases row)
    case None
    then show ?thesis using a(2) failed_post [OF 2(1)] by (simp add: run)
  next
    case (Some r)
    let ?s = "normalized_relationship_state E r" and ?w = "set_request True REQUEST_CANCELLED ?v"
    let ?r = "closed_request REQUEST_CANCELLED None at now r"
    have state: "pv_request ?v True = Some ?s" using a(2) Some by auto
    have "native_relation (a_user x) (a_uid y) RELATION_FRIEND_REQUEST d2 = Some r" using a(3) Some by blast
    then have put: "view_step E x y d1 (put_relation ?r d2) ?w"
      by (intro put_after [OF a(1) users, where dir = True]) simp_all
    consider (same) "?s = REQUEST_CANCELLED" | (pending) "?s = REQUEST_PENDING"
      | (other) "?s \<noteq> REQUEST_CANCELLED" "?s \<noteq> REQUEST_PENDING" by blast
    then show ?thesis
    proof cases
      case same
      then show ?thesis
        using claimed_post [OF ok two a(1), where c = False] state
        by (simp add: run Some request_outcome_def)
    next
      case pending
      have "?w \<noteq> ?v" using state pending by (auto simp: pair_view_eq_iff)
      then show ?thesis
        using claimed_post [OF ok two put, where c = True] state pending
        by (simp add: run Some request_outcome_def)
    next
      case other
      then show ?thesis using failed_post [OF two(1)] state by (simp add: run Some)
    qed
  qed
qed simp_all

lemma resolve_post:
  assumes ok: "social_ok d" and fresh: "fresh_ids E" and users: "a_user x \<noteq> a_user y"
  shows "op_post E x y (Op_resolve resolution) opid d (run_op E now x y (Op_resolve resolution) opid at d)"
  unfolding run_op_def Let_def social_op.case resolve_friend_request_def and_then_assoc
proof (rule op_shell [OF ok], goal_cases)
  case (1 ev)
  then show ?case
    using replay_post [OF ok 1] replay_missing_post [of x opid d]
    by (auto simp: request_relation_read request_outcome_def split: option.split)
next
  case (2 ev d1)
  note two = 2
  note st = claimed_step [OF ok 2, where y = y]
  let ?v = "pair_view E x y d" and ?op = "Op_resolve resolution"
  obtain row d2 where run: "request_relation E now y x True at (''friend-request-'' @ resolution) d1 = (row, d2)"
    by fastforce
  have a: "view_step E x y d1 d2 ?v" "map_option (normalized_relationship_state E) row = pv_request ?v False"
    "\<forall>r. row = Some r \<longrightarrow> native_relation (a_user y) (a_uid x) RELATION_FRIEND_REQUEST d2 = Some r"
    using request_after [OF st fresh users, where dir = False] run by simp_all
  have guards: "ensure_not_blocked E x y d2 = (if pv_blocked ?v then Inl SocialBlocked else Inr ())"
    "friendship_active E x y d2 = pv_friends ?v"
    using view_step_view [OF a(1)] by (simp_all add: ensure_guard friends_guard)
  show ?case
  proof (cases row)
    case None
    then have "pv_request ?v False = None" using a(2) by auto
    then show ?thesis using failed_post [OF two(1)] None unfolding prod.case run by simp
  next
    case (Some r)
    let ?s = "normalized_relationship_state E r" and ?w = "set_request False (S resolution) ?v"
    let ?r = "closed_request (S resolution) (Some (a_uid x)) at now r"
    have state: "pv_request ?v False = Some ?s" using a(2) Some by auto
    have "native_relation (a_user y) (a_uid x) RELATION_FRIEND_REQUEST d2 = Some r" using a(3) Some by blast
    then have put: "view_step E x y d1 (put_relation ?r d2) ?w"
      by (intro put_after [OF a(1) users, where dir = False]) simp_all
    consider (blocked) "resolution = ''accepted''" "pv_blocked ?v"
      | (same) "resolution \<noteq> ''accepted'' \<or> \<not> pv_blocked ?v" "?s = S resolution"
      | (wrong) "resolution \<noteq> ''accepted'' \<or> \<not> pv_blocked ?v" "?s \<noteq> S resolution"
          "?s \<noteq> REQUEST_PENDING \<or> S resolution \<notin> friend_request_transitions (Some REQUEST_PENDING)"
      | (step) "resolution \<noteq> ''accepted'' \<or> \<not> pv_blocked ?v" "?s \<noteq> S resolution" "?s = REQUEST_PENDING"
          "S resolution \<in> friend_request_transitions (Some REQUEST_PENDING)"
      by blast
    then show ?thesis
    proof cases
      case blocked
      then show ?thesis using failed_post [OF two(1)] state unfolding prod.case run by (simp add: Some guards)
    next
      case same
      then show ?thesis
        using claimed_post [OF ok two a(1), where c = False] failed_post [OF two(1)] state
        unfolding prod.case run by (auto simp: Some guards request_outcome_def)
    next
      case wrong
      then show ?thesis using failed_post [OF two(1)] state unfolding prod.case run by (auto simp: Some guards)
    next
      case step
      show ?thesis
      proof (cases "resolution = ''accepted''")
        case True
        obtain rel d4 where all: "befriend E now x y at (put_relation ?r d2) = (rel, d4)" by fastforce
        let ?w2 = "let v2 = set_edge False Friend True (set_edge True Friend True ?w) in
           if pv_request ?w True = Some REQUEST_PENDING then set_request True REQUEST_ACCEPTED v2 else v2"
        have final: "view_step E x y d1 d4 ?w2" by (rule befriend_after [OF put fresh users all])
        have spec: "spec_op ?op ?v = Inr ?w2" using step state True by (simp add: Let_def)
        have "pv_request ?w2 False \<noteq> pv_request ?v False" using step state by (simp add: Let_def)
        then have "?w2 \<noteq> ?v" by metis
        then have "op_post E x y ?op opid d (Inr ((True, False), finish_event ev True rel d4))"
          using claimed_post [OF ok two final spec, where c = True] by simp
        then show ?thesis using step True all unfolding prod.case run by (simp add: Some guards request_outcome_def)
      next
        case False
        have "pv_request ?w False \<noteq> pv_request ?v False" using step state by simp
        then have "?w \<noteq> ?v" by metis
        moreover have "spec_op ?op ?v = Inr ?w" using step state False by (simp add: Let_def)
        ultimately have "op_post E x y ?op opid d (Inr ((True, False), finish_event ev True [] (put_relation ?r d2)))"
          using claimed_post [OF ok two put, where c = True] by simp
        then show ?thesis using step False unfolding prod.case run by (simp add: Some guards request_outcome_def)
      qed
    qed
  qed
qed simp_all


lemma run_op_post:
  assumes "social_ok d" and "fresh_ids E" and "a_user x \<noteq> a_user y"
  shows "op_post E x y op opid d (run_op E now x y op opid at d)"
proof (cases op)
  case (Op_follow b) then show ?thesis using following_post [OF assms] by simp
next
  case (Op_request m) then show ?thesis using request_post [OF assms] by simp
next
  case (Op_resolve r) then show ?thesis using resolve_post [OF assms] by simp
next
  case Op_cancel then show ?thesis using cancel_post [OF assms] by simp
next
  case Op_unfriend then show ?thesis using unfriend_post [OF assms] by simp
next
  case (Op_block b) then show ?thesis using blocked_post [OF assms] by simp
qed

section \<open>Refinement\<close>

text \<open>C14: Every mutation of the store refines a few lines of specification over the relations of the
  pair, migrated rows included: with a new operation id it fails with the error of the locked users or
  exactly with the specified one, or leaves the specified relations and reports a change exactly when a relation changed; with a used id it
  reports the recorded outcome and changes nothing.  Rows of other pairs, migrated rows, users, accounts
  and the outcomes of other operations stay as they were.\<close>

theorem social_mutation_refines:
  assumes "social_ok d" and "fresh_ids E" and "a_user x \<noteq> a_user y"
  shows "case run_op E now x y op opid at d of
      Inl e \<Rightarrow>
        lock_active_pair x y d = Inl e
        \<or> find_event (a_user x) opid d \<noteq> None \<and> e \<in> {SocialIdempotencyConflict, FriendRequestUnavailable}
        \<or> find_event (a_user x) opid d = None \<and> spec_op op (pair_view E x y d) = Inl e
    | Inr ((changed, replay), d') \<Rightarrow>
        op_frame x y opid d d' \<and> replay = (find_event (a_user x) opid d \<noteq> None)
        \<and> (\<exists>ev. find_event (a_user x) opid d' = Some ev \<and> event_of E op y ev \<and> ev_changed ev = changed)
        \<and> (if replay then d' = d
           else spec_op op (pair_view E x y d) = Inr (pair_view E x y d')
             \<and> changed = (pair_view E x y d' \<noteq> pair_view E x y d))"
proof -
  have "op_post E x y op opid d (run_op E now x y op opid at d)" by (rule run_op_post [OF assms])
  then show ?thesis by (simp only: op_post_def)
qed

end
