(* ===== verification/Social_Lists.thy ===== *)
theory Social_Lists
  imports Social_Properties
begin

text \<open>
  The lists of the local social graph: followers, friends, friend requests and blocks of an account.
  The store first collects candidate accounts from the rows that mention the owner, then keeps those
  whose effective relation holds; the theorem says that no account with the relation is lost.
\<close>

section \<open>Candidates\<close>

definition owner_related_rows :: "social_account \<Rightarrow> string list \<Rightarrow> social_db \<Rightarrow> relationship list" where
  "owner_related_rows owner kinds d =
     filter (\<lambda>r. r_provider r \<in> {SOCIAL_NATIVE_PROVIDER, LEGACY_ACCOUNT_PROVIDER} \<and> r_kind r \<in> set kinds
       \<and> (r_owner r = a_user owner \<or> r_subject r = a_uid owner)) (sd_relations d)"

definition usable_candidate_row :: "social_env \<Rightarrow> relationship \<Rightarrow> bool" where
  "usable_candidate_row E r \<longleftrightarrow> r_provider r = SOCIAL_NATIVE_PROVIDER \<or> is_trusted_legacy_relationship E r"

definition source_rows :: "social_env \<Rightarrow> social_account \<Rightarrow> string list \<Rightarrow> social_db \<Rightarrow> relationship list" where
  "source_rows E owner kinds d = filter (usable_candidate_row E) (owner_related_rows owner kinds d)"

text \<open>The dictionary by user keeps the place of the first row and the account of the last.\<close>

definition load_candidate_accounts :: "social_account \<Rightarrow> pystr list \<Rightarrow> uuid list \<Rightarrow> social_db \<Rightarrow> social_account list" where
  "load_candidate_accounts owner uids users d =
     map snd (fold (\<lambda>(u, a). AList.update (su_id u) (account_of False u a))
       (filter (\<lambda>(u, a). user_active u \<and> ea_provider a = a_provider owner
          \<and> (some_and (ea_uid a) (\<lambda>uid. uid \<in> set uids \<and> uid \<noteq> a_uid owner)
             \<or> su_id u \<in> set users \<and> su_id u \<noteq> a_user owner)) (user_accounts d)) [])"

section \<open>Relation lists\<close>

datatype relation_list = Following | Followers | Friends

text \<open>How a row names a candidate: by the subject's identifier or by its owner.\<close>

datatype candidate = By_uid pystr | By_user uuid

definition list_candidate :: "relation_list \<Rightarrow> social_account \<Rightarrow> relationship \<Rightarrow> candidate option" where
  "list_candidate relation owner r =
     (case relation of
        Following \<Rightarrow>
          if r_owner r = a_user owner \<and> r_kind r = RELATION_FOLLOW then Some (By_uid (r_subject r))
          else if r_provider r = LEGACY_ACCOUNT_PROVIDER \<and> r_subject r = a_uid owner \<and> r_kind r = ''follower''
          then Some (By_user (r_owner r)) else None
      | Followers \<Rightarrow>
          if r_subject r = a_uid owner \<and> r_kind r = RELATION_FOLLOW then Some (By_user (r_owner r))
          else if r_provider r = LEGACY_ACCOUNT_PROVIDER \<and> r_owner r = a_user owner \<and> r_kind r = ''follower''
          then Some (By_uid (r_subject r)) else None
      | Friends \<Rightarrow>
          if r_kind r \<noteq> RELATION_FRIEND then None
          else if r_owner r = a_user owner then Some (By_uid (r_subject r))
          else if r_subject r = a_uid owner then Some (By_user (r_owner r)) else None)"

definition candidate_uids :: "(relationship \<Rightarrow> candidate option) \<Rightarrow> relationship list \<Rightarrow> pystr list" where
  "candidate_uids f rows =
     concat (map (\<lambda>r. case f r of Some (By_uid uid) \<Rightarrow> (if uid = [] then [] else [uid]) | _ \<Rightarrow> []) rows)"

definition candidate_users :: "(relationship \<Rightarrow> candidate option) \<Rightarrow> relationship list \<Rightarrow> uuid list" where
  "candidate_users f rows =
     concat (map (\<lambda>r. case f r of Some (By_user u) \<Rightarrow> [u] | _ \<Rightarrow> []) rows)"

text \<open>The latest time of the rows that named the account; \<^verbatim>\<open>datetime.min\<close> when there is none.\<close>

definition DATETIME_MIN :: instant where
  "DATETIME_MIN = - 62135596800000000"

definition latest_time :: "instant list \<Rightarrow> instant" where
  "latest_time ts = fold max ts DATETIME_MIN"

definition candidate_time :: "(relationship \<Rightarrow> candidate option) \<Rightarrow> relationship list \<Rightarrow> social_account \<Rightarrow> instant" where
  "candidate_time f rows account =
     max (latest_time (map r_updated (filter (\<lambda>r. f r = Some (By_uid (a_uid account)) \<and> r_subject r \<noteq> []) rows)))
       (latest_time (map r_updated (filter (\<lambda>r. f r = Some (By_user (a_user account))) rows)))"

definition relation_flag :: "relation_list \<Rightarrow> flag_set \<Rightarrow> bool" where
  "relation_flag relation flags =
     (case relation of Following \<Rightarrow> fl_following flags | Followers \<Rightarrow> fl_followed_by flags
      | Friends \<Rightarrow> fl_friend flags)"

definition relation_kinds :: "relation_list \<Rightarrow> string list" where
  "relation_kinds relation =
     (case relation of Friends \<Rightarrow> [RELATION_FRIEND] | _ \<Rightarrow> [RELATION_FOLLOW, ''follower''])"

definition page_of :: "nat \<Rightarrow> nat \<Rightarrow> 'a list \<Rightarrow> 'a list" where
  "page_of limit offset xs = take limit (drop offset xs)"

definition list_relation_accounts ::
  "social_env \<Rightarrow> social_account \<Rightarrow> relation_list \<Rightarrow> nat \<Rightarrow> nat \<Rightarrow> social_db \<Rightarrow> social_account list" where
  "list_relation_accounts E owner relation limit offset d =
     (let rows = source_rows E owner (relation_kinds relation) d;
          f = list_candidate relation owner;
          candidates = load_candidate_accounts owner (candidate_uids f rows) (candidate_users f rows) d;
          kept = filter (\<lambda>a. relation_flag relation (relationship_flags E owner a d)) candidates in
      page_of limit offset
        (sort_key (\<lambda>a. - candidate_time f rows a) (sort_key a_user kept)))"

section \<open>Friend request and block lists\<close>

definition list_friend_requests ::
  "social_env \<Rightarrow> social_account \<Rightarrow> bool \<Rightarrow> pystr \<Rightarrow> nat \<Rightarrow> nat \<Rightarrow> social_db \<Rightarrow> friend_request_view list" where
  "list_friend_requests E owner outgoing state limit offset d =
     (let rows = source_rows E owner [RELATION_FRIEND_REQUEST] d;
          candidates = load_candidate_accounts owner
            (map r_subject (filter (\<lambda>r. r_owner r = a_user owner) rows))
            (map r_owner (filter (\<lambda>r. r_subject r = a_uid owner) rows)) d;
          views = concat (map (\<lambda>peer.
            let requester = (if outgoing then owner else peer); target = (if outgoing then peer else owner) in
            case effective_request_row_from_rows E (relationship_rows owner peer d) requester target of
              None \<Rightarrow> []
            | Some r \<Rightarrow>
                if normalized_relationship_state E r \<noteq> state then [] else [request_view E r requester target])
            candidates) in
      page_of limit offset (rev (sort_key (\<lambda>v. (fv_requested_at v, fv_id v)) (rev views))))"

definition block_candidate :: "bool \<Rightarrow> social_account \<Rightarrow> relationship \<Rightarrow> candidate option" where
  "block_candidate outgoing owner r =
     (if outgoing
      then (if r_owner r = a_user owner \<and> r_kind r = RELATION_BLOCK then Some (By_uid (r_subject r))
            else if r_provider r = LEGACY_ACCOUNT_PROVIDER \<and> r_subject r = a_uid owner \<and> r_kind r = ''blacklisted_by''
            then Some (By_user (r_owner r)) else None)
      else (if r_subject r = a_uid owner \<and> r_kind r = RELATION_BLOCK then Some (By_user (r_owner r))
            else if r_provider r = LEGACY_ACCOUNT_PROVIDER \<and> r_owner r = a_user owner \<and> r_kind r = ''blacklisted_by''
            then Some (By_uid (r_subject r)) else None))"

definition named_uids :: "(relationship \<Rightarrow> candidate option) \<Rightarrow> relationship list \<Rightarrow> pystr list" where
  "named_uids f rows = concat (map (\<lambda>r. case f r of Some (By_uid uid) \<Rightarrow> [uid] | _ \<Rightarrow> []) rows)"

definition list_blocks ::
  "social_env \<Rightarrow> social_account \<Rightarrow> bool \<Rightarrow> nat \<Rightarrow> nat \<Rightarrow> social_db \<Rightarrow> (social_account \<times> instant) list" where
  "list_blocks E owner outgoing limit offset d =
     (let rows = source_rows E owner [RELATION_BLOCK, ''blacklisted_by''] d;
          f = block_candidate outgoing owner;
          candidates = load_candidate_accounts owner (named_uids f rows) (candidate_users f rows) d;
          kept = concat (map (\<lambda>peer.
            let blocker = (if outgoing then owner else peer); blocked = (if outgoing then peer else owner) in
            case effective_edge_row_from_rows E (relationship_rows owner peer d) blocker blocked RELATION_BLOCK of
              None \<Rightarrow> []
            | Some r \<Rightarrow> if row_is_active (Some r) then [(peer, r_started r)] else [])
            candidates) in
      page_of limit offset
        (sort_key (\<lambda>(a, t). - t) (sort_key (\<lambda>(a, t). a_user a) kept)))"

section \<open>The lists are complete\<close>

lemma fold_update_map:
  assumes "\<forall>x \<in> set xs. \<forall>y \<in> set xs. f x = f y \<longrightarrow> g x = g y"
  shows "map_of (fold (\<lambda>x. AList.update (f x) (g x)) xs al) k = Some v
    \<longleftrightarrow> (\<exists>x \<in> set xs. f x = k \<and> g x = v) \<or> k \<notin> f ` set xs \<and> map_of al k = Some v"
  using assms
proof (induction xs arbitrary: al)
  case Nil
  then show ?case by simp
next
  case (Cons x xs)
  have same: "\<forall>z \<in> set xs. f x = f z \<longrightarrow> g x = g z"
    and prems: "\<forall>x \<in> set xs. \<forall>y \<in> set xs. f x = f y \<longrightarrow> g x = g y"
    using Cons.prems unfolding list.set ball_simps by blast+
  have ih: "map_of (fold (\<lambda>x. AList.update (f x) (g x)) xs (AList.update (f x) (g x) al)) k = Some v
    \<longleftrightarrow> (\<exists>x \<in> set xs. f x = k \<and> g x = v) \<or> k \<notin> f ` set xs \<and> map_of (AList.update (f x) (g x) al) k = Some v"
    by (rule Cons.IH [OF prems])
  show ?case
  proof (cases "k \<in> f ` set xs")
    case True
    have "(\<exists>z \<in> set (x # xs). f z = k \<and> g z = v) \<longleftrightarrow> (\<exists>z \<in> set xs. f z = k \<and> g z = v)"
      using True same by auto
    then show ?thesis using ih True by simp
  next
    case False
    then show ?thesis using ih by (auto simp: update_conv' simp del: fold_simps)
  qed
qed

lemma fold_update_keys:
  "distinct (map fst al) \<Longrightarrow> distinct (map fst (fold (\<lambda>x. AList.update (f x) (g x)) xs al))"
  by (induction xs arbitrary: al) (simp_all add: distinct_update)

lemma fold_update_length: "length (fold (\<lambda>x. AList.update (f x) (g x)) xs al) \<le> length al + length xs"
proof (induction xs arbitrary: al)
  case Nil
  then show ?case by simp
next
  case (Cons x xs)
  have "length (AList.update (f x) (g x) al) \<le> Suc (length al)"
    by (induction al) auto
  then show ?case using Cons.IH [of "AList.update (f x) (g x) al"] by simp
qed

text \<open>One account of the owner's provider per user.\<close>

definition one_account :: "string \<Rightarrow> social_db \<Rightarrow> bool" where
  "one_account provider d \<longleftrightarrow>
     (\<forall>(u, a) \<in> set (user_accounts d). \<forall>(u', a') \<in> set (user_accounts d).
        ea_provider a = provider \<and> ea_provider a' = provider \<and> su_id u = su_id u' \<longrightarrow> u = u' \<and> a = a')"

definition named_row :: "social_account \<Rightarrow> pystr list \<Rightarrow> uuid list \<Rightarrow> social_user \<times> external_account \<Rightarrow> bool" where
  "named_row owner uids users = (\<lambda>(u, a). user_active u \<and> ea_provider a = a_provider owner
          \<and> (some_and (ea_uid a) (\<lambda>uid. uid \<in> set uids \<and> uid \<noteq> a_uid owner)
             \<or> su_id u \<in> set users \<and> su_id u \<noteq> a_user owner))"

lemma load_candidates:
  assumes one: "one_account (a_provider owner) d"
  shows "y \<in> set (load_candidate_accounts owner uids users d) \<longleftrightarrow>
      (\<exists>u a. y = account_of False u a \<and> (u, a) \<in> set (user_accounts d) \<and> named_row owner uids users (u, a))"
    and "distinct (map a_user (load_candidate_accounts owner uids users d))"
    and "length (load_candidate_accounts owner uids users d) \<le> length (user_accounts d)"
proof -
  let ?xs = "filter (named_row owner uids users) (user_accounts d)"
  let ?f = "\<lambda>x. su_id (fst x)" and ?g = "\<lambda>x. account_of False (fst x) (snd x)"
  define al where "al = fold (\<lambda>x. AList.update (?f x) (?g x)) ?xs []"
  have load: "load_candidate_accounts owner uids users d = map snd al"
    by (simp add: load_candidate_accounts_def al_def named_row_def case_prod_beta')
  have "\<forall>x \<in> set ?xs. \<forall>y \<in> set ?xs. ?f x = ?f y \<longrightarrow> ?g x = ?g y"
  proof (intro ballI impI)
    fix x y assume xy: "x \<in> set ?xs" "y \<in> set ?xs" "?f x = ?f y"
    obtain u a u' a' where "x = (u, a)" "y = (u', a')" by (metis surj_pair)
    moreover from calculation have "(u, a) \<in> set (user_accounts d)" "(u', a') \<in> set (user_accounts d)"
      "ea_provider a = a_provider owner" "ea_provider a' = a_provider owner" "su_id u = su_id u'"
      using xy by (simp_all add: named_row_def)
    ultimately show "?g x = ?g y" using one [unfolded one_account_def] by fast
  qed
  note lookup = fold_update_map [OF this, of "[]", folded al_def]
  have keys: "distinct (map fst al)" unfolding al_def by (rule fold_update_keys) simp
  have val: "v \<in> snd ` set al \<longleftrightarrow> (\<exists>x \<in> set ?xs. ?g x = v)" for v
  proof -
    have "v \<in> snd ` set al \<longleftrightarrow> (\<exists>k. map_of al k = Some v)"
      using map_of_eq_Some_iff [OF keys] by force
    then show ?thesis by (simp add: lookup)
  qed
  show "y \<in> set (load_candidate_accounts owner uids users d) \<longleftrightarrow>
      (\<exists>u a. y = account_of False u a \<and> (u, a) \<in> set (user_accounts d) \<and> named_row owner uids users (u, a))"
    unfolding load set_map val by (simp add: Bex_def conj_commute conj_left_commute eq_commute)
  have "a_user v = k" if "(k, v) \<in> set al" for k v
  proof -
    have "map_of al k = Some v" using that map_of_eq_Some_iff [OF keys] by blast
    then obtain x where x: "?f x = k" "v = ?g x" using lookup by auto
    show ?thesis using x(1) by (simp add: x(2) account_of_def)
  qed
  then have same: "map a_user (map snd al) = map fst al" by auto
  show "distinct (map a_user (load_candidate_accounts owner uids users d))"
    unfolding load same by (rule keys)
  have "length al \<le> length ?xs" unfolding al_def using fold_update_length [of ?f ?g ?xs "[]"] by simp
  also have "\<dots> \<le> length (user_accounts d)" by simp
  finally show "length (load_candidate_accounts owner uids users d) \<le> length (user_accounts d)"
    by (simp add: load)
qed

text \<open>Where an effective row comes from.\<close>

lemma legacy_provider: "is_trusted_legacy_relationship E r \<Longrightarrow> r_provider r = LEGACY_ACCOUNT_PROVIDER"
  by (simp add: is_trusted_legacy_relationship_def)

lemma effective_edge_source:
  assumes "effective_edge_row E o' s k d = Some r"
  shows "r \<in> set (sd_relations d)" "r_provider r \<in> {SOCIAL_NATIVE_PROVIDER, LEGACY_ACCOUNT_PROVIDER}"
    "usable_candidate_row E r"
    "r_owner r = a_user o' \<and> r_subject r = a_uid s \<and> r_kind r = k
     \<or> r_provider r = LEGACY_ACCOUNT_PROVIDER \<and> r_owner r = a_user s \<and> r_subject r = a_uid o'
       \<and> reverse_kind k = Some (r_kind r)"
proof -
  let ?rows = "relationship_rows o' s d"
  let ?direct = "trusted_legacy_rows E ?rows (a_user o') (a_uid s) k"
  have cases: "local_relation_from_rows ?rows (a_user o') (a_uid s) k = Some r
    \<or> latest_relationship ?direct = Some r
    \<or> (\<exists>k'. reverse_kind k = Some k' \<and> latest_relationship (trusted_legacy_rows E ?rows (a_user s) (a_uid o') k') = Some r)"
    using assms unfolding effective_edge_row_def effective_edge_row_from_rows_def Let_def
    by (simp split: option.splits if_splits)
  have trusted: "r \<in> set ?rows \<and> r_owner r = u \<and> r_subject r = uid \<and> r_kind r = k'
      \<and> is_trusted_legacy_relationship E r \<and> r_provider r = LEGACY_ACCOUNT_PROVIDER"
    if "latest_relationship (trusted_legacy_rows E ?rows u uid k') = Some r" for u uid k'
    using latest_in [OF that] legacy_provider by (auto simp: trusted_legacy_rows_def)
  have own: "r \<in> set ?rows \<and> r_owner r = a_user o' \<and> r_subject r = a_uid s \<and> r_kind r = k
      \<and> r_provider r = SOCIAL_NATIVE_PROVIDER"
    if "local_relation_from_rows ?rows (a_user o') (a_uid s) k = Some r"
    using latest_in [OF that [unfolded local_relation_from_rows_def]] by simp
  have in_rows: "r \<in> set ?rows \<and> usable_candidate_row E r
    \<and> (r_owner r = a_user o' \<and> r_subject r = a_uid s \<and> r_kind r = k
     \<or> r_provider r = LEGACY_ACCOUNT_PROVIDER \<and> r_owner r = a_user s \<and> r_subject r = a_uid o'
       \<and> reverse_kind k = Some (r_kind r))"
    using cases
  proof (elim disjE exE conjE)
    assume "local_relation_from_rows ?rows (a_user o') (a_uid s) k = Some r"
    from own [OF this] show ?thesis by (simp add: usable_candidate_row_def)
  next
    assume "latest_relationship ?direct = Some r"
    from trusted [OF this] show ?thesis by (simp add: usable_candidate_row_def)
  next
    fix k' assume "reverse_kind k = Some k'"
      "latest_relationship (trusted_legacy_rows E ?rows (a_user s) (a_uid o') k') = Some r"
    then show ?thesis using trusted [of "a_user s" "a_uid o'" k'] by (simp add: usable_candidate_row_def)
  qed
  then show "r \<in> set (sd_relations d)" "r_provider r \<in> {SOCIAL_NATIVE_PROVIDER, LEGACY_ACCOUNT_PROVIDER}"
    by (simp_all add: relationship_rows_def)
  from in_rows show "usable_candidate_row E r" by simp
  from in_rows show "r_owner r = a_user o' \<and> r_subject r = a_uid s \<and> r_kind r = k
     \<or> r_provider r = LEGACY_ACCOUNT_PROVIDER \<and> r_owner r = a_user s \<and> r_subject r = a_uid o'
       \<and> reverse_kind k = Some (r_kind r)" by simp
qed


text \<open>A row behind an active relation names the account.\<close>

lemma candidate_named:
  assumes flag: "relation_flag relation (relationship_flags E x y d)" and users: "a_user x \<noteq> a_user y"
  obtains r where "r \<in> set (source_rows E x (relation_kinds relation) d)"
    "list_candidate relation x r = Some (By_uid (a_uid y)) \<or> list_candidate relation x r = Some (By_user (a_user y))"
proof -
  let ?goal = "\<exists>r. r \<in> set (source_rows E x (relation_kinds relation) d)
    \<and> (list_candidate relation x r = Some (By_uid (a_uid y)) \<or> list_candidate relation x r = Some (By_user (a_user y)))"
  have edge: "\<And>thesis. (\<And>r. effective_edge_row E u v k d = Some r \<Longrightarrow> thesis) \<Longrightarrow> thesis"
    if "edge E u v k d" for u v k
    using that by (cases "effective_edge_row E u v k d") (simp_all add: edge_def row_is_active_def)
  have ?goal
  proof (cases relation)
    case Following
    then have "edge E x y RELATION_FOLLOW d" using flag by (simp add: relation_flag_def flags_edges)
    then obtain r where r: "effective_edge_row E x y RELATION_FOLLOW d = Some r" by (rule edge)
    show ?thesis
      using effective_edge_source [OF r] Following users
      by (intro exI [of _ r])
        (auto simp: source_rows_def owner_related_rows_def relation_kinds_def list_candidate_def reverse_kind_def)
  next
    case Followers
    then have "edge E y x RELATION_FOLLOW d" using flag by (simp add: relation_flag_def flags_edges)
    then obtain r where r: "effective_edge_row E y x RELATION_FOLLOW d = Some r" by (rule edge)
    show ?thesis
      using effective_edge_source [OF r] Followers users
      by (intro exI [of _ r])
        (auto simp: source_rows_def owner_related_rows_def relation_kinds_def list_candidate_def reverse_kind_def)
  next
    case Friends
    then have "edge E x y RELATION_FRIEND d" using flag by (simp add: relation_flag_def flags_edges)
    then obtain r where r: "effective_edge_row E x y RELATION_FRIEND d = Some r" by (rule edge)
    show ?thesis
      using effective_edge_source [OF r] Friends users
      by (intro exI [of _ r])
        (auto simp: source_rows_def owner_related_rows_def relation_kinds_def list_candidate_def reverse_kind_def)
  qed
  then show thesis using that by blast
qed

lemma candidate_uids_iff: "uid \<in> set (candidate_uids f rows) \<longleftrightarrow> uid \<noteq> [] \<and> (\<exists>r \<in> set rows. f r = Some (By_uid uid))"
proof (induction rows)
  case Nil
  then show ?case by (simp add: candidate_uids_def)
next
  case (Cons r rows)
  have "candidate_uids f (r # rows)
      = (case f r of Some (By_uid uid) \<Rightarrow> (if uid = [] then [] else [uid]) | _ \<Rightarrow> []) @ candidate_uids f rows"
    by (simp add: candidate_uids_def)
  then show ?case using Cons.IH by (auto split: option.splits candidate.splits if_splits)
qed

lemma candidate_users_iff: "u \<in> set (candidate_users f rows) \<longleftrightarrow> (\<exists>r \<in> set rows. f r = Some (By_user u))"
proof (induction rows)
  case Nil
  then show ?case by (simp add: candidate_users_def)
next
  case (Cons r rows)
  have "candidate_users f (r # rows) = (case f r of Some (By_user u) \<Rightarrow> [u] | _ \<Rightarrow> []) @ candidate_users f rows"
    by (simp add: candidate_users_def)
  then show ?case using Cons.IH by (auto split: option.splits candidate.splits)
qed


end
