(* ===== verification/Social_Profile.thy ===== *)
theory Social_Profile
  imports Social_Store
begin

text \<open>
  The profile of a local account: \<^verbatim>\<open>update_profile\<close> of the store with the markers that tell locally
  edited fields from migrated ones, and \<^verbatim>\<open>bbw_web/legacy_media_reference.py\<close>, which replaces a
  migrated picture by its local copy while the recorded source still matches.
\<close>

section \<open>Markers of local fields\<close>

definition sorted_distinct :: "pystr list \<Rightarrow> pystr list" where
  "sorted_distinct xs = sort (remdups xs)"

definition text_list :: "(json \<Rightarrow> pystr) \<Rightarrow> json \<Rightarrow> pystr list" where
  "text_list show j = (case j of JList xs \<Rightarrow> filter (\<lambda>s. s \<noteq> []) (map (j_str show) xs) | _ \<Rightarrow> [])"

definition zulu_offset :: "pystr \<Rightarrow> pystr" where
  "zulu_offset s = concat (map (\<lambda>c. if c = 90 then S ''+00:00'' else [c]) s)"

definition marker_timestamp :: "social_env \<Rightarrow> jdict \<Rightarrow> instant \<Rightarrow> pystr" where
  "marker_timestamp E profile at =
     (let existing = py_strip (j_text (py_repr E) (jget profile ''_web_local_updated_at'')) in
      if existing = [] then iso_format E at
      else case from_iso E (zulu_offset existing) of
             None \<Rightarrow> iso_format E at
           | Some t \<Rightarrow> if at < t then existing else iso_format E at)"

definition mark_web_local_profile_fields ::
  "social_env \<Rightarrow> jdict \<Rightarrow> string list \<Rightarrow> instant \<Rightarrow> jdict \<times> bool" where
  "mark_web_local_profile_fields E profile names at =
     (let normalized = JList (map JStr (sorted_distinct
            (text_list (py_repr E) (jget profile ''_web_local_fields'') @ filter (\<lambda>f. f \<noteq> []) (map S names))));
          timestamp = JStr (marker_timestamp E profile at);
          changed = (jget profile ''_web_local_fields'' \<noteq> normalized
                     \<or> jget profile ''_web_local_updated_at'' \<noteq> timestamp) in
      (jset ''_web_local_updated_at'' timestamp (jset ''_web_local_fields'' normalized profile), changed))"

section \<open>Profile updates\<close>

type_synonym profile_patch = "(string \<times> pystr) list"

fun apply_patch :: "profile_patch \<Rightarrow> pystr \<times> jdict \<times> bool \<Rightarrow> pystr \<times> jdict \<times> bool" where
  "apply_patch [] acc = acc"
| "apply_patch ((key, value) # patch) (display, profile, changed) =
     (let stored = (jget profile key \<noteq> JStr value);
          profile' = (if stored then jset key (JStr value) profile else profile) in
      if key = ''nickname''
      then apply_patch patch (value, profile', changed \<or> display \<noteq> value \<or> stored)
      else apply_patch patch (display, profile', changed \<or> stored))"

definition put_user :: "social_user \<Rightarrow> social_db \<Rightarrow> social_db" where
  "put_user u d = d\<lparr>sd_users := update_where (\<lambda>x. su_id x = su_id u) (\<lambda>_. u) (sd_users d)\<rparr>"

record profile_result =
  pf_profile :: social_account
  pf_changed :: bool
  pf_replay :: bool

text \<open>A row that is flushed without an explicit time is stamped \<open>now\<close>.\<close>

definition update_profile ::
  "social_env \<Rightarrow> instant \<Rightarrow> social_account \<Rightarrow> profile_patch \<Rightarrow> pystr \<Rightarrow> instant \<Rightarrow> social_db \<Rightarrow>
     social_error + profile_result \<times> social_db" where
  "update_profile E now actor patch operation_id at d =
     and_then (lock_active_actor actor d) (\<lambda>user.
     and_then (claim_operation E actor (a_uid actor) ''profile.update'' operation_id at
         (map (\<lambda>(k, v). (S k, JStr v)) patch) d) (\<lambda>((event, claimed), d1).
       if \<not> claimed
       then
         let (marked, marker_changed) =
               mark_web_local_profile_fields E (su_profile user) (map fst patch) (ev_occurred_at event);
             user' = user\<lparr>su_profile := marked, su_updated := now\<rparr> in
         Inr (\<lparr>pf_profile = actor\<lparr>a_display := su_display user, a_profile := marked, a_updated := su_updated user\<rparr>,
               pf_changed = ev_changed event, pf_replay = True\<rparr>,
              if marker_changed then put_user user' d1 else d1)
       else
         let (display, profile, changed) = apply_patch patch (su_display user, su_profile user, False);
             (marked, marker_changed) = mark_web_local_profile_fields E profile (map fst patch) at;
             user' = (if changed \<or> marker_changed
                      then user\<lparr>su_display := display, su_profile := marked, su_updated := at\<rparr>
                      else user) in
         Inr (\<lparr>pf_profile = actor\<lparr>a_display := su_display user',
                   a_profile := (if su_profile user' \<noteq> [] then su_profile user' else marked),
                   a_updated := su_updated user'\<rparr>,
               pf_changed = changed, pf_replay = False\<rparr>,
              finish_event event changed [] (if changed \<or> marker_changed then put_user user' d1 else d1))))"

section \<open>Local copies of migrated pictures\<close>

definition LOCAL_MEDIA_KEY :: string where
  "LOCAL_MEDIA_KEY = ''_local_media''"

definition LOCAL_MEDIA_SCHEMA :: int where
  "LOCAL_MEDIA_SCHEMA = 1"

definition LOCAL_MEDIA_MAX_ITEMS :: nat where
  "LOCAL_MEDIA_MAX_ITEMS = 128"

definition LOCAL_MEDIA_CONTENT_PREFIX :: string where
  "LOCAL_MEDIA_CONTENT_PREFIX = ''/api/media''"

record local_media_reference =
  lm_slot :: pystr
  lm_media :: uuid
  lm_hash :: pystr

definition legacy_source_hash :: "social_env \<Rightarrow> json \<Rightarrow> pystr" where
  "legacy_source_hash E value = sha256 E (py_strip (j_text (py_repr E) value))"

definition local_media_content_path :: "social_env \<Rightarrow> uuid \<Rightarrow> pystr" where
  "local_media_content_path E media_id = S LOCAL_MEDIA_CONTENT_PREFIX @ S ''/'' @ uuid_str E media_id @ S ''/content''"

definition lower_hex_digest :: "pystr \<Rightarrow> bool" where
  "lower_hex_digest s \<longleftrightarrow> length s = 64 \<and> set s \<subseteq> set (S ''0123456789abcdef'')"

text \<open>Any malformed item, and a repeated slot, rejects the whole sidecar.\<close>

definition local_media_item :: "social_env \<Rightarrow> json \<Rightarrow> local_media_reference option" where
  "local_media_item E item =
     (case item of
        JObj kvs \<Rightarrow>
          (let slot = py_strip (j_text (py_repr E) (jget kvs ''slot''));
               digest = py_lower (py_strip (j_text (py_repr E) (jget kvs ''source_hash''))) in
           case uuid_parse E (j_text (py_repr E) (jget kvs ''media_id'')) of
             None \<Rightarrow> None
           | Some media_id \<Rightarrow>
               if slot = [] \<or> 96 < length slot \<or> (\<exists>c \<in> set slot. c < 33) \<or> \<not> lower_hex_digest digest then None
               else Some \<lparr>lm_slot = slot, lm_media = media_id, lm_hash = digest\<rparr>)
      | _ \<Rightarrow> None)"

fun local_media_items :: "social_env \<Rightarrow> json list \<Rightarrow> local_media_reference list \<Rightarrow> local_media_reference list option" where
  "local_media_items E [] parsed = Some parsed"
| "local_media_items E (item # items) parsed =
     (case local_media_item E item of
        None \<Rightarrow> None
      | Some r \<Rightarrow>
          if lm_slot r \<in> lm_slot ` set parsed then None else local_media_items E items (parsed @ [r]))"

text \<open>\<^verbatim>\<open>sidecar.get("schema") != 1\<close>: Python's \<^verbatim>\<open>True\<close> and \<^verbatim>\<open>1.0\<close> equal 1.\<close>

definition schema_one :: "json \<Rightarrow> bool" where
  "schema_one j \<longleftrightarrow> j = JInt LOCAL_MEDIA_SCHEMA \<or> j = JBool True \<or> (\<exists>b. j = JFloat (S ''1.0'') b)"

definition local_media_references :: "social_env \<Rightarrow> jdict \<Rightarrow> local_media_reference list" where
  "local_media_references E container =
     (case jget container LOCAL_MEDIA_KEY of
        JObj sidecar \<Rightarrow>
          if \<not> schema_one (jget sidecar ''schema'') then []
          else (case jget sidecar ''items'' of
                  JList items \<Rightarrow>
                    if LOCAL_MEDIA_MAX_ITEMS < length items then []
                    else (case local_media_items E items [] of None \<Rightarrow> [] | Some parsed \<Rightarrow> parsed)
                | _ \<Rightarrow> [])
      | _ \<Rightarrow> [])"

definition matching_local_media_reference ::
  "social_env \<Rightarrow> jdict \<Rightarrow> pystr \<Rightarrow> json \<Rightarrow> local_media_reference option" where
  "matching_local_media_reference E container slot source_value =
     (let source = py_strip (j_text (py_repr E) source_value) in
      if source = [] then None
      else case find (\<lambda>r. lm_slot r = slot) (local_media_references E container) of
             None \<Rightarrow> None
           | Some r \<Rightarrow> if lm_hash r \<noteq> legacy_source_hash E (JStr source) then None else Some r)"

definition matching_local_media_path :: "social_env \<Rightarrow> jdict \<Rightarrow> pystr \<Rightarrow> json \<Rightarrow> pystr" where
  "matching_local_media_path E container slot source_value =
     (case matching_local_media_reference E container slot source_value of
        None \<Rightarrow> [] | Some r \<Rightarrow> local_media_content_path E (lm_media r))"

definition j_or :: "json \<Rightarrow> json \<Rightarrow> json" where
  "j_or a b = (if j_truthy a then a else b)"

definition projected_profile_avatar :: "social_env \<Rightarrow> jdict \<Rightarrow> pystr" where
  "projected_profile_avatar E profile =
     (let source = py_strip (j_text (py_repr E) (j_or (jget profile ''avatar'') (jget profile ''portrait'')));
          path = matching_local_media_path E profile (S ''avatar'') (JStr source) in
      if path \<noteq> [] then path else source)"

text \<open>The pictures, the video and the cover of a migrated post.\<close>

definition projected_pictures :: "social_env \<Rightarrow> jdict \<Rightarrow> json" where
  "projected_pictures E media =
     (let pictures = j_or (j_or (jget media ''pictures'') (jget media ''images'')) (JList []);
          values = (case pictures of JList xs \<Rightarrow> xs | v \<Rightarrow> [v]) in
      JList (map (\<lambda>(index, v).
          let path = matching_local_media_path E media (S ''pictures['' @ nat_str index @ S '']'') v in
          if path \<noteq> [] then JStr path else v) (enumerate 0 values)))"

definition projected_slot :: "social_env \<Rightarrow> jdict \<Rightarrow> string \<Rightarrow> string \<Rightarrow> jdict \<Rightarrow> jdict" where
  "projected_slot E container path_prefix slot projected =
     (let path = matching_local_media_path E container (S (path_prefix @ slot)) (jget projected slot) in
      if path \<noteq> [] then jset slot (JStr path) projected else projected)"

definition has_key :: "jdict \<Rightarrow> string \<Rightarrow> bool" where
  "has_key d k \<longleftrightarrow> map_of d (S k) \<noteq> None"

definition projected_social_post_media :: "social_env \<Rightarrow> jdict \<Rightarrow> jdict" where
  "projected_social_post_media E media =
     (let pictures = projected_pictures E media;
          p1 = (if has_key media ''pictures'' \<or> j_truthy pictures then jset ''pictures'' pictures media else media);
          p2 = (if has_key p1 ''images'' then jset ''images'' pictures p1 else p1) in
      projected_slot E media [] ''cover'' (projected_slot E media [] ''video'' p2))"

definition projected_message_media :: "social_env \<Rightarrow> jdict \<Rightarrow> jdict" where
  "projected_message_media E message_metadata =
     (case jget message_metadata ''media_report'' of
        JObj report \<Rightarrow>
          projected_slot E message_metadata ''media_report.'' ''thumbnail''
            (projected_slot E message_metadata ''media_report.'' ''url'' report)
      | _ \<Rightarrow> [])"

end
