(* ===== verification/Social_Service.thy ===== *)
theory Social_Service
  imports Social_Lists Social_Profile
begin

text \<open>
  \<^verbatim>\<open>LocalSocialService\<close> (\<^verbatim>\<open>bbw_web/social_native/service.py\<close>): the inputs are normalised, the actor is
  the principal's own account, the target an active account of the same provider, and a block on either
  side is refused before the store is called.  \<open>at\<close> is the reading of the service's clock and \<open>now\<close>
  the time stamped on flushed rows.
\<close>

section \<open>Inputs\<close>

definition MIN_NICKNAME_LENGTH :: nat where "MIN_NICKNAME_LENGTH = 2"
definition MAX_NICKNAME_LENGTH :: nat where "MAX_NICKNAME_LENGTH = 32"
definition MAX_SIGNATURE_LENGTH :: nat where "MAX_SIGNATURE_LENGTH = 280"
definition MAX_CITY_LENGTH :: nat where "MAX_CITY_LENGTH = 64"
definition MAX_AVATAR_LENGTH :: nat where "MAX_AVATAR_LENGTH = 2048"
definition MAX_FRIEND_REQUEST_MESSAGE_LENGTH :: nat where "MAX_FRIEND_REQUEST_MESSAGE_LENGTH = 100"
definition MAX_OPERATION_ID_LENGTH :: nat where "MAX_OPERATION_ID_LENGTH = 160"
definition MAX_PROFILE_BATCH :: nat where "MAX_PROFILE_BATCH = 100"
definition MAX_RELATION_PAGE :: int where "MAX_RELATION_PAGE = 200"

definition SOCIAL_PROFILE_FIELDS :: "string list" where
  "SOCIAL_PROFILE_FIELDS = [''nickname'', ''avatar'', ''signature'', ''city'', ''gender'']"

definition GENDER_VALUES :: "pystr list" where
  "GENDER_VALUES = [S ''unspecified'', S ''male'', S ''female'', S ''other'']"

definition NICKNAME_PUNCTUATION :: "nat list" where
  "NICKNAME_PUNCTUATION = [32, 95, 45, 46, 183]"

definition control_char :: "social_env \<Rightarrow> nat \<Rightarrow> bool" where
  "control_char E c \<longleftrightarrow> category E c = CHR ''C''"

definition normalize_upstream_uid :: "social_env \<Rightarrow> json \<Rightarrow> pystr" where
  "normalize_upstream_uid E value =
     (let uid = py_strip (j_text (py_repr E) value) in
      if uid = [] \<or> 128 < length uid \<or> py_lower uid \<in> {S ''0'', S ''none'', S ''null''}
         \<or> (\<exists>c \<in> set uid. py_space c \<or> control_char E c)
      then [] else uid)"

definition normalize_operation_id :: "social_env \<Rightarrow> json \<Rightarrow> pystr" where
  "normalize_operation_id E value =
     (let operation_id = py_strip (j_text (py_repr E) value) in
      if operation_id = [] \<or> MAX_OPERATION_ID_LENGTH < length operation_id
         \<or> (\<exists>c \<in> set operation_id. control_char E c)
      then [] else operation_id)"

definition nickname_letter :: "social_env \<Rightarrow> nat \<Rightarrow> bool" where
  "nickname_letter E c \<longleftrightarrow> category E c \<in> {CHR ''L'', CHR ''M'', CHR ''N''}"

definition normalize_nickname :: "social_env \<Rightarrow> json \<Rightarrow> social_error + pystr" where
  "normalize_nickname E value =
     (case value of
        JStr s \<Rightarrow>
          (let nickname = py_strip (nfkc E s) in
           if \<not> (MIN_NICKNAME_LENGTH \<le> length nickname \<and> length nickname \<le> MAX_NICKNAME_LENGTH)
           then Inl (InvalidNickname ''length'')
           else if py_contains (S ''  '') nickname then Inl (InvalidNickname ''spaces'')
           else if \<exists>c \<in> set nickname. \<not> nickname_letter E c \<and> c \<notin> set NICKNAME_PUNCTUATION
           then Inl (InvalidNickname ''character'')
           else if \<not> (\<exists>c \<in> set nickname. nickname_letter E c) then Inl (InvalidNickname ''no letter'')
           else Inr nickname)
      | _ \<Rightarrow> Inl (InvalidNickname ''not a string''))"

definition normalize_profile_text :: "social_env \<Rightarrow> json \<Rightarrow> string \<Rightarrow> nat \<Rightarrow> social_error + pystr" where
  "normalize_profile_text E value field maximum =
     (case value of
        JStr s \<Rightarrow>
          (let normalized = py_strip (nfc E s) in
           if maximum < length normalized then Inl (InvalidSocialInput (field @ '' too long''))
           else if \<exists>c \<in> set normalized. control_char E c
           then Inl (InvalidSocialInput (field @ '' control character''))
           else Inr normalized)
      | _ \<Rightarrow> Inl (InvalidSocialInput (field @ '' not a string'')))"

section \<open>\<^verbatim>\<open>urlsplit\<close>\<close>

definition ascii_letter :: "nat \<Rightarrow> bool" where
  "ascii_letter c \<longleftrightarrow> 65 \<le> c \<and> c \<le> 90 \<or> 97 \<le> c \<and> c \<le> 122"

definition scheme_char :: "nat \<Rightarrow> bool" where
  "scheme_char c \<longleftrightarrow> ascii_letter c \<or> 48 \<le> c \<and> c \<le> 57 \<or> c \<in> {43, 45, 46}"

text \<open>The scheme and the rest; leading blanks, tabs and line breaks are gone.\<close>

definition split_scheme :: "pystr \<Rightarrow> pystr \<times> pystr" where
  "split_scheme text =
     (let url = filter (\<lambda>c. c \<notin> {9, 10, 13}) (dropWhile (\<lambda>c. c \<le> 32) text);
          before = takeWhile (\<lambda>c. c \<noteq> 58) url; rest = dropWhile (\<lambda>c. c \<noteq> 58) url in
      if rest \<noteq> [] \<and> before \<noteq> [] \<and> ascii_letter (hd before) \<and> list_all scheme_char before
      then (py_lower before, tl rest) else ([], url))"

definition split_netloc :: "pystr \<Rightarrow> pystr" where
  "split_netloc url =
     (if take 2 url = [47, 47] then takeWhile (\<lambda>c. c \<notin> {47, 63, 35}) (drop 2 url) else [])"

text \<open>\<^verbatim>\<open>_checknetloc\<close>: compatibility characters must not hide a separator.\<close>

definition netloc_ok :: "social_env \<Rightarrow> pystr \<Rightarrow> bool" where
  "netloc_ok E netloc \<longleftrightarrow>
     (list_all (\<lambda>c. c < 128) netloc
      \<or> (let plain = filter (\<lambda>c. c \<notin> {64, 58, 35, 63}) netloc; folded = nfkc E plain in
         plain = folded \<or> \<not> (\<exists>c \<in> set folded. c \<in> {47, 63, 35, 64, 58})))"

definition urlsplit :: "social_env \<Rightarrow> pystr \<Rightarrow> social_error + pystr \<times> pystr" where
  "urlsplit E text =
     (let (scheme, url) = split_scheme text; netloc = split_netloc url;
          opens = (91 \<in> set netloc); closes = (93 \<in> set netloc) in
      if opens \<noteq> closes then Inl (SocialValueError ''Invalid IPv6 URL'')
      else if opens \<and> closes \<and> \<not> valid_bracketed_host E netloc then Inl (SocialValueError ''Invalid IPv6 URL'')
      else if \<not> netloc_ok E netloc then Inl (SocialValueError ''netloc'')
      else Inr (scheme, netloc))"

section \<open>The profile patch\<close>

definition normalize_gender :: "social_env \<Rightarrow> json \<Rightarrow> social_error + pystr" where
  "normalize_gender E value =
     and_then (normalize_profile_text E value ''gender'' 16) (\<lambda>gender.
       if gender \<in> set GENDER_VALUES then Inr gender else Inl (InvalidSocialInput ''gender''))"

definition normalize_avatar :: "social_env \<Rightarrow> json \<Rightarrow> social_error + pystr" where
  "normalize_avatar E value =
     and_then (normalize_profile_text E value ''avatar'' MAX_AVATAR_LENGTH) (\<lambda>avatar.
       if avatar = [] then Inr avatar
       else and_then (urlsplit E avatar) (\<lambda>(scheme, netloc).
         if scheme = S ''https'' \<and> netloc \<noteq> [] \<or> take 1 avatar = [47] \<and> take 2 avatar \<noteq> [47, 47]
         then Inr avatar else Inl (InvalidSocialInput ''avatar'')))"

definition normalize_field :: "social_env \<Rightarrow> string \<Rightarrow> json \<Rightarrow> social_error + pystr" where
  "normalize_field E field value =
     (if field = ''nickname'' then normalize_nickname E value
      else if field = ''signature'' then normalize_profile_text E value ''signature'' MAX_SIGNATURE_LENGTH
      else if field = ''city'' then normalize_profile_text E value ''city'' MAX_CITY_LENGTH
      else if field = ''gender'' then normalize_gender E value
      else normalize_avatar E value)"

text \<open>The present fields, in the order the function treats them.\<close>

fun patch_fields :: "social_env \<Rightarrow> jdict \<Rightarrow> string list \<Rightarrow> social_error + profile_patch" where
  "patch_fields E values [] = Inr []"
| "patch_fields E values (field # rest) =
     (case map_of values (S field) of
        None \<Rightarrow> patch_fields E values rest
      | Some v \<Rightarrow> and_then (normalize_field E field v) (\<lambda>text.
          and_then (patch_fields E values rest) (\<lambda>patch. Inr ((field, text) # patch))))"

definition normalize_profile_patch :: "social_env \<Rightarrow> json \<Rightarrow> social_error + profile_patch" where
  "normalize_profile_patch E values =
     (case values of
        JObj kvs \<Rightarrow>
          if \<exists>k \<in> fst ` set kvs. k \<notin> S ` set SOCIAL_PROFILE_FIELDS then Inl (InvalidSocialInput ''unknown field'')
          else if kvs = [] then Inl (InvalidSocialInput ''empty'')
          else patch_fields E kvs [''nickname'', ''signature'', ''city'', ''gender'', ''avatar'']
      | _ \<Rightarrow> Inl (InvalidSocialInput ''not an object''))"

definition normalize_friend_request_message :: "social_env \<Rightarrow> json \<Rightarrow> social_error + pystr" where
  "normalize_friend_request_message E value =
     normalize_profile_text E (JStr (j_text (py_repr E) value)) ''message'' MAX_FRIEND_REQUEST_MESSAGE_LENGTH"

section \<open>Accounts\<close>

definition service_actor :: "social_principal \<Rightarrow> social_db \<Rightarrow> social_error + social_account" where
  "service_actor who d =
     (case resolve_principal who d of None \<Rightarrow> Inl SocialIdentityUnavailable | Some a \<Rightarrow> Inr a)"

definition service_target ::
  "social_env \<Rightarrow> social_account \<Rightarrow> social_principal \<Rightarrow> json \<Rightarrow> social_db \<Rightarrow> social_error + social_account" where
  "service_target E actor who value d =
     (let uid = normalize_upstream_uid E value in
      if uid = [] then Inl (InvalidSocialInput ''target uid'')
      else if uid = a_uid actor then Inl SocialSelfActionForbidden
      else case resolve_active_target uid (pr_provider who) d of
             None \<Rightarrow> Inl SocialTargetUnavailable
           | Some target \<Rightarrow>
               if a_user target = a_user actor then Inl SocialSelfActionForbidden else Inr target)"

definition service_operation :: "social_env \<Rightarrow> json \<Rightarrow> social_error + pystr" where
  "service_operation E value =
     (let operation_id = normalize_operation_id E value in
      if operation_id = [] then Inl (InvalidSocialInput ''operation_id'') else Inr operation_id)"

section \<open>Profiles\<close>

record social_profile_view =
  sv_user :: uuid
  sv_uid :: pystr
  sv_nickname :: pystr
  sv_avatar :: pystr
  sv_signature :: pystr
  sv_city :: pystr
  sv_gender :: pystr
  sv_flags :: flag_set
  sv_updated :: instant

definition no_flags :: flag_set where
  "no_flags = \<lparr>fl_following = False, fl_followed_by = False, fl_friend = False, fl_blocked = False,
     fl_blocked_by = False, fl_outgoing = None, fl_incoming = None\<rparr>"

definition text_or :: "pystr \<Rightarrow> pystr \<Rightarrow> pystr" where
  "text_or a b = (if a \<noteq> [] then a else b)"

definition service_profile :: "social_env \<Rightarrow> social_account \<Rightarrow> flag_set \<Rightarrow> social_profile_view" where
  "service_profile E account flags =
     (let profile = a_profile account; shown = a_private account; str = j_text (py_repr E) in
      \<lparr>sv_user = a_user account, sv_uid = a_uid account,
       sv_nickname = text_or (a_display account) (str (jget profile ''nickname'')),
       sv_avatar = text_or (projected_profile_avatar E profile) (str (jget shown ''portrait'')),
       sv_signature = str (j_or (jget profile ''signature'') (jget shown ''user_sign'')),
       sv_city = str (jget profile ''city''),
       sv_gender = text_or (str (jget profile ''gender'')) (S ''unspecified''),
       sv_flags = flags, sv_updated = a_updated account\<rparr>)"

definition get_me_with_account ::
  "social_env \<Rightarrow> social_principal \<Rightarrow> social_db \<Rightarrow> social_error + social_profile_view \<times> social_account" where
  "get_me_with_account E who d =
     and_then (service_actor who d) (\<lambda>actor. Inr (service_profile E actor no_flags, actor))"

definition get_user :: "social_env \<Rightarrow> social_principal \<Rightarrow> json \<Rightarrow> social_db \<Rightarrow> social_error + social_profile_view" where
  "get_user E who value d =
     and_then (service_actor who d) (\<lambda>actor.
       let uid = normalize_upstream_uid E value in
       if uid = [] then Inl (InvalidSocialInput ''target uid'')
       else if uid = a_uid actor then Inr (service_profile E actor no_flags)
       else case resolve_active_target uid (pr_provider who) d of
              None \<Rightarrow> if target_binding_exists uid (pr_provider who) d then Inl SocialTargetUnavailable
                      else Inl SocialTargetNotMigrated
            | Some target \<Rightarrow> Inr (service_profile E target (relationship_flags E actor target d)))"

fun batch_uids :: "social_env \<Rightarrow> json list \<Rightarrow> pystr list \<Rightarrow> social_error + pystr list" where
  "batch_uids E [] seen = Inr seen"
| "batch_uids E (value # values) seen =
     (let uid = normalize_upstream_uid E value in
      if uid = [] then Inl (InvalidSocialInput ''batch uid'')
      else batch_uids E values (if uid \<in> set seen then seen else seen @ [uid]))"

definition get_users ::
  "social_env \<Rightarrow> social_principal \<Rightarrow> json list \<Rightarrow> social_db \<Rightarrow> social_error + social_profile_view list" where
  "get_users E who values d =
     and_then (service_actor who d) (\<lambda>actor.
     and_then (batch_uids E values []) (\<lambda>uids.
       if MAX_PROFILE_BATCH < length uids then Inl (InvalidSocialInput ''batch'')
       else
         let targets = resolve_active_targets (filter (\<lambda>uid. uid \<noteq> a_uid actor) uids) (pr_provider who) d in
         Inr (concat (map (\<lambda>uid.
           if uid = a_uid actor then [service_profile E actor no_flags]
           else case targets uid of
                  None \<Rightarrow> []
                | Some t \<Rightarrow> [service_profile E t (relationship_flags E actor t d)]) uids))))"

section \<open>Mutations\<close>

definition update_me ::
  "social_env \<Rightarrow> instant \<Rightarrow> instant \<Rightarrow> social_principal \<Rightarrow> json \<Rightarrow> json \<Rightarrow> social_db \<Rightarrow>
     social_error + profile_result \<times> social_db" where
  "update_me E now at who values operation_id d =
     and_then (service_actor who d) (\<lambda>actor.
     and_then (normalize_profile_patch E values) (\<lambda>patch.
     and_then (service_operation E operation_id) (\<lambda>opid.
       update_profile E now actor patch opid at d)))"

definition refuse_blocked :: "flag_set \<Rightarrow> social_error + unit" where
  "refuse_blocked flags = (if fl_blocked flags \<or> fl_blocked_by flags then Inl SocialBlocked else Inr ())"

definition service_set_following ::
  "social_env \<Rightarrow> instant \<Rightarrow> instant \<Rightarrow> social_principal \<Rightarrow> json \<Rightarrow> bool \<Rightarrow> json \<Rightarrow> social_db \<Rightarrow>
     social_error + mutation_result \<times> social_db" where
  "service_set_following E now at who value active operation_id d =
     and_then (service_actor who d) (\<lambda>actor.
     and_then (service_target E actor who value d) (\<lambda>target.
     and_then (if active then refuse_blocked (relationship_flags E actor target d) else Inr ()) (\<lambda>_.
     and_then (service_operation E operation_id) (\<lambda>opid.
       set_following E now actor target active opid at d))))"

definition service_request_friend ::
  "social_env \<Rightarrow> instant \<Rightarrow> instant \<Rightarrow> social_principal \<Rightarrow> json \<Rightarrow> json \<Rightarrow> json \<Rightarrow> social_db \<Rightarrow>
     social_error + request_result \<times> social_db" where
  "service_request_friend E now at who value message operation_id d =
     and_then (service_actor who d) (\<lambda>actor.
     and_then (service_target E actor who value d) (\<lambda>target.
     and_then (refuse_blocked (relationship_flags E actor target d)) (\<lambda>_.
     and_then (normalize_friend_request_message E message) (\<lambda>text.
     and_then (service_operation E operation_id) (\<lambda>opid.
       create_friend_request E now actor target text opid at d)))))"

definition service_resolve_friend_request ::
  "social_env \<Rightarrow> instant \<Rightarrow> instant \<Rightarrow> social_principal \<Rightarrow> json \<Rightarrow> string \<Rightarrow> json \<Rightarrow> social_db \<Rightarrow>
     social_error + request_result \<times> social_db" where
  "service_resolve_friend_request E now at who value resolution operation_id d =
     (if resolution \<notin> {''accepted'', ''rejected''} then Inl (InvalidSocialInput ''resolution'')
      else and_then (service_actor who d) (\<lambda>actor.
        and_then (service_target E actor who value d) (\<lambda>requester.
        and_then (if resolution = ''accepted'' then refuse_blocked (relationship_flags E actor requester d)
                  else Inr ()) (\<lambda>_.
        and_then (service_operation E operation_id) (\<lambda>opid.
          resolve_friend_request E now actor requester resolution opid at d)))))"

definition service_cancel_friend_request ::
  "social_env \<Rightarrow> instant \<Rightarrow> instant \<Rightarrow> social_principal \<Rightarrow> json \<Rightarrow> json \<Rightarrow> social_db \<Rightarrow>
     social_error + request_result \<times> social_db" where
  "service_cancel_friend_request E now at who value operation_id d =
     and_then (service_actor who d) (\<lambda>actor.
     and_then (service_target E actor who value d) (\<lambda>target.
     and_then (service_operation E operation_id) (\<lambda>opid.
       cancel_friend_request E now actor target opid at d)))"

definition service_delete_friend ::
  "social_env \<Rightarrow> instant \<Rightarrow> instant \<Rightarrow> social_principal \<Rightarrow> json \<Rightarrow> json \<Rightarrow> social_db \<Rightarrow>
     social_error + mutation_result \<times> social_db" where
  "service_delete_friend E now at who value operation_id d =
     and_then (service_actor who d) (\<lambda>actor.
     and_then (service_target E actor who value d) (\<lambda>target.
     and_then (service_operation E operation_id) (\<lambda>opid.
       delete_friend E now actor target opid at d)))"

definition service_set_blocked ::
  "social_env \<Rightarrow> instant \<Rightarrow> instant \<Rightarrow> social_principal \<Rightarrow> json \<Rightarrow> bool \<Rightarrow> json \<Rightarrow> social_db \<Rightarrow>
     social_error + mutation_result \<times> social_db" where
  "service_set_blocked E now at who value active operation_id d =
     and_then (service_actor who d) (\<lambda>actor.
     and_then (service_target E actor who value d) (\<lambda>target.
     and_then (service_operation E operation_id) (\<lambda>opid.
       set_blocked E now actor target active opid at d)))"

section \<open>Lists\<close>

definition service_page :: "int \<Rightarrow> int \<Rightarrow> nat \<times> nat" where
  "service_page limit offset = (nat (min (max 1 limit) MAX_RELATION_PAGE), nat (max 0 offset))"

definition relation_of :: "string \<Rightarrow> relation_list option" where
  "relation_of relation =
     (if relation = ''following'' then Some Following else if relation = ''followers'' then Some Followers
      else if relation = ''friends'' then Some Friends else None)"

definition list_relationships ::
  "social_env \<Rightarrow> social_principal \<Rightarrow> string \<Rightarrow> int \<Rightarrow> int \<Rightarrow> social_db \<Rightarrow> social_error + social_profile_view list" where
  "list_relationships E who relation limit offset d =
     (case relation_of relation of
        None \<Rightarrow> Inl (InvalidSocialInput ''relation'')
      | Some rel \<Rightarrow> and_then (service_actor who d) (\<lambda>owner.
          let (n, m) = service_page limit offset in
          Inr (map (\<lambda>a. service_profile E a (relationship_flags E owner a d))
            (list_relation_accounts E owner rel n m d))))"

definition service_list_friend_requests ::
  "social_env \<Rightarrow> social_principal \<Rightarrow> string \<Rightarrow> pystr \<Rightarrow> int \<Rightarrow> int \<Rightarrow> social_db \<Rightarrow>
     social_error + friend_request_view list" where
  "service_list_friend_requests E who direction state limit offset d =
     (if direction \<notin> {''incoming'', ''outgoing''} then Inl (InvalidSocialInput ''direction'')
      else if state \<notin> REQUEST_STATES then Inl (InvalidSocialInput ''state'')
      else and_then (service_actor who d) (\<lambda>owner.
        let (n, m) = service_page limit offset in
        Inr (list_friend_requests E owner (direction = ''outgoing'') state n m d)))"

record block_view =
  bv_profile :: social_profile_view
  bv_direction :: string
  bv_started :: instant

definition service_list_blocks ::
  "social_env \<Rightarrow> social_principal \<Rightarrow> string \<Rightarrow> int \<Rightarrow> int \<Rightarrow> social_db \<Rightarrow> social_error + block_view list" where
  "service_list_blocks E who direction limit offset d =
     (if direction \<notin> {''incoming'', ''outgoing''} then Inl (InvalidSocialInput ''direction'')
      else and_then (service_actor who d) (\<lambda>owner.
        let (n, m) = service_page limit offset in
        Inr (map (\<lambda>(a, started). \<lparr>bv_profile = service_profile E a (relationship_flags E owner a d),
                bv_direction = direction, bv_started = started\<rparr>)
          (list_blocks E owner (direction = ''outgoing'') n m d))))"

end
