(* ===== verification/Social_Steps.thy ===== *)
theory Social_Steps
  imports Social_Service
begin

text \<open>
  Requests to \<^verbatim>\<open>LocalSocialService\<close> as steps of the database, and what holds over any sequence of
  them: blocked pairs stay separated, friendship needs a request and its acceptance, requests follow
  their state machine, and an operation id is applied once.
\<close>

section \<open>Requests\<close>

datatype social_call =
    Call_follow json bool | Call_request json json | Call_resolve json string | Call_cancel json
  | Call_unfriend json | Call_block json bool | Call_profile json

fun call_target :: "social_call \<Rightarrow> json option" where
  "call_target (Call_follow v b) = Some v"
| "call_target (Call_request v m) = Some v"
| "call_target (Call_resolve v r) = Some v"
| "call_target (Call_cancel v) = Some v"
| "call_target (Call_unfriend v) = Some v"
| "call_target (Call_block v b) = Some v"
| "call_target (Call_profile v) = None"

fun call_op :: "social_env \<Rightarrow> social_call \<Rightarrow> social_op option" where
  "call_op E (Call_follow v b) = Some (Op_follow b)"
| "call_op E (Call_request v m) =
     (case normalize_friend_request_message E m of Inl e \<Rightarrow> None | Inr text \<Rightarrow> Some (Op_request text))"
| "call_op E (Call_resolve v r) = Some (Op_resolve r)"
| "call_op E (Call_cancel v) = Some Op_cancel"
| "call_op E (Call_unfriend v) = Some Op_unfriend"
| "call_op E (Call_block v b) = Some (Op_block b)"
| "call_op E (Call_profile v) = None"

text \<open>What a request answers: whether it changed anything, whether it replayed, and the new database.\<close>

definition serve ::
  "social_env \<Rightarrow> instant \<Rightarrow> instant \<Rightarrow> social_principal \<Rightarrow> social_call \<Rightarrow> json \<Rightarrow> social_db \<Rightarrow>
     social_error + (bool \<times> bool) \<times> social_db" where
  "serve E now at who call opid d =
     (let m = (\<lambda>r. and_then r (\<lambda>(res, d'). Inr ((mr_changed res, mr_replay res), d')));
          q = (\<lambda>r. and_then r (\<lambda>(res, d'). Inr ((rr_changed res, rr_replay res), d'))) in
      case call of
        Call_follow v b \<Rightarrow> m (service_set_following E now at who v b opid d)
      | Call_request v msg \<Rightarrow> q (service_request_friend E now at who v msg opid d)
      | Call_resolve v resolution \<Rightarrow> q (service_resolve_friend_request E now at who v resolution opid d)
      | Call_cancel v \<Rightarrow> q (service_cancel_friend_request E now at who v opid d)
      | Call_unfriend v \<Rightarrow> m (service_delete_friend E now at who v opid d)
      | Call_block v b \<Rightarrow> m (service_set_blocked E now at who v b opid d)
      | Call_profile v \<Rightarrow> and_then (update_me E now at who v opid d)
          (\<lambda>(res, d'). Inr ((pf_changed res, pf_replay res), d')))"

text \<open>A request about another account is the mutation of the store on the resolved pair.\<close>

lemma service_target_ok:
  "service_target E x who v d = Inr y \<Longrightarrow>
    a_user x \<noteq> a_user y \<and> resolve_active_target (normalize_upstream_uid E v) (pr_provider who) d = Some y"
  by (auto simp: service_target_def Let_def split: option.splits if_splits)

lemma serve_pair:
  assumes "serve E now at who call opid d = Inr res" and "call_target call = Some v"
  shows "\<exists>x y op k. resolve_principal who d = Some x \<and> service_target E x who v d = Inr y \<and> a_user x \<noteq> a_user y
    \<and> call_op E call = Some op \<and> service_operation E opid = Inr k \<and> run_op E now x y op k at d = Inr res"
proof -
  have actor: "service_actor who d = Inr x \<longleftrightarrow> resolve_principal who d = Some x" for x
    by (simp add: service_actor_def split: option.split)
  show ?thesis
    using assms
    by (cases call)
      (auto simp: serve_def run_op_def service_set_following_def service_request_friend_def
        service_resolve_friend_request_def service_cancel_friend_request_def service_delete_friend_def
        service_set_blocked_def and_then_Inr_iff actor Let_def split: if_splits dest: service_target_ok)
qed

section \<open>Accounts over time\<close>

text \<open>The account is one of the database; a user has one account and an identifier belongs to one user.\<close>

definition known_account :: "string \<Rightarrow> social_db \<Rightarrow> social_account \<Rightarrow> bool" where
  "known_account P d x \<longleftrightarrow>
     (\<exists>a \<in> set (sd_accounts d). ea_provider a = P \<and> ea_user a = a_user x \<and> ea_uid a = Some (a_uid x))"

definition accounts_ok :: "string \<Rightarrow> social_db \<Rightarrow> bool" where
  "accounts_ok P d \<longleftrightarrow>
     (\<forall>a \<in> set (sd_accounts d). \<forall>b \<in> set (sd_accounts d).
        ea_provider a = P \<and> ea_provider b = P \<and> ea_uid a \<noteq> None \<and> ea_uid b \<noteq> None
        \<longrightarrow> (ea_user a = ea_user b) = (ea_uid a = ea_uid b))"

lemma known_same:
  assumes ok: "accounts_ok P d" and x: "known_account P d x" and y: "known_account P d y"
  shows "(a_user x = a_user y) = (a_uid x = a_uid y)"
proof -
  obtain a where a: "a \<in> set (sd_accounts d)" "ea_provider a = P" "ea_user a = a_user x" "ea_uid a = Some (a_uid x)"
    using x by (auto simp: known_account_def)
  obtain b where b: "b \<in> set (sd_accounts d)" "ea_provider b = P" "ea_user b = a_user y" "ea_uid b = Some (a_uid y)"
    using y by (auto simp: known_account_def)
  have "(ea_user a = ea_user b) = (ea_uid a = ea_uid b)" 
    using ok [unfolded accounts_ok_def, rule_format, OF a(1) b(1)] a b by simp
  then show ?thesis by (simp add: a b)
qed

lemma known_cong: "sd_accounts d' = sd_accounts d \<Longrightarrow> known_account P d' x = known_account P d x"
    "sd_accounts d' = sd_accounts d \<Longrightarrow> accounts_ok P d' = accounts_ok P d"
  by (simp_all add: known_account_def accounts_ok_def)

lemma known_row:
  assumes "(u, a) \<in> set (user_accounts d)" "ea_provider a = P" "ea_uid a = Some uid"
  shows "known_account P d (account_of b u a)"
proof -
  have "a \<in> set (sd_accounts d)" "ea_user a = su_id u" using assms(1) by (auto simp: user_accounts_def)
  then show ?thesis using assms(2,3) by (auto simp: known_account_def account_of_def or_default_def)
qed

lemma resolved_known:
  "resolve_principal who d = Some x \<Longrightarrow> known_account (pr_provider who) d x"
  "resolve_active_target uid P d = Some y \<Longrightarrow> known_account P d y"
proof -
  assume "resolve_principal who d = Some x"
  then obtain z where z: "find (\<lambda>(u, a). su_id u = pr_user who \<and> user_active u \<and> ea_id a = pr_account who
                \<and> ea_provider a = pr_provider who \<and> ea_uid a = Some (pr_uid who)) (user_accounts d) = Some z"
    "x = (case z of (u, a) \<Rightarrow> account_of True u a)" by (auto simp: resolve_principal_def)
  then show "known_account (pr_provider who) d x"
    using find_SomeD [OF z(1)] known_row by (cases z) simp
next
  assume "resolve_active_target uid P d = Some y"
  then obtain z where z: "find (\<lambda>(u, a). user_active u \<and> ea_provider a = P \<and> ea_uid a = Some uid) (user_accounts d) = Some z"
    "y = (case z of (u, a) \<Rightarrow> account_of False u a)" by (auto simp: resolve_active_target_def)
  then show "known_account P d y"
    using find_SomeD [OF z(1)] known_row by (cases z) simp
qed

section \<open>One step seen from a pair\<close>

definition mirror :: "pair_view \<Rightarrow> pair_view" where
  "mirror v = \<lparr>pv_edge = (\<lambda>dir. pv_edge v (\<not> dir)), pv_request = (\<lambda>dir. pv_request v (\<not> dir))\<rparr>"

lemma mirror_view: "pair_view E y x d = mirror (pair_view E x y d)"
  by (simp add: mirror_def pair_view_def fun_eq_iff)

lemma view_of_names:
  assumes "a_user p = a_user x" "a_uid p = a_uid x" "a_user q = a_user y" "a_uid q = a_uid y"
  shows "pair_view E p q d = pair_view E x y d"
  unfolding pair_view_def edge_def effective_edge_row_def effective_edge_row_from_rows_def request_state_def
    request_row_def effective_request_row_from_rows_def relationship_rows_def assms ..

lemma view_other_pair:
  assumes ok: "social_ok d" and frame: "op_frame p q opid d d'"
    and other: "\<not> pair_key p q (a_user x, a_uid y)" "\<not> pair_key p q (a_user y, a_uid x)"
  shows "pair_view E x y d' = pair_view E x y d"
proof -
  have f: "social_ok d'" "migrated d' = migrated d"
    "native_relation (a_user x) (a_uid y) k d' = native_relation (a_user x) (a_uid y) k d"
    "native_relation (a_user y) (a_uid x) k d' = native_relation (a_user y) (a_uid x) k d" for k
    using frame other by (simp_all add: op_frame_def)
  show ?thesis
    by (simp add: pair_view_def edge_def request_state_def fun_eq_iff effective_edge_cong [OF ok f(1,2,3)]
        effective_edge_cong [OF ok f(1,2,4)] request_row_cong [OF ok f(1,2,3)] request_row_cong [OF ok f(1,2,4)])
qed


text \<open>A profile update touches the user's row and its event only.\<close>

lemma profile_step:
  assumes ok: "social_ok d" and run: "update_profile E now x patch opid at d = Inr (res, d')"
  shows "social_ok d' \<and> sd_relations d' = sd_relations d \<and> sd_accounts d' = sd_accounts d
    \<and> (\<forall>u p e. find_event u p d = Some e \<longrightarrow> find_event u p d' = Some e)
    \<and> (pf_replay res \<longrightarrow> find_event (a_user x) opid d \<noteq> None)"
proof -
  let ?payload = "map (\<lambda>(k, v). (S k, JStr v)) patch"
  obtain user ev claimed d1 where
    claim: "claim_operation E x (a_uid x) ''profile.update'' opid at ?payload d = Inr ((ev, claimed), d1)"
    and user: "lock_active_actor x d = Inr user"
    using run by (auto simp: update_profile_def and_then_Inr_iff)
  have put: "social_ok (put_user u d2) = social_ok d2" "sd_relations (put_user u d2) = sd_relations d2"
    "sd_accounts (put_user u d2) = sd_accounts d2" "find_event v p (put_user u d2) = find_event v p d2" for u d2 v p
    by (simp_all add: social_ok_def put_user_def find_event_def)
  show ?thesis
  proof (cases claimed)
    case False
    then have "d1 = d" "find_event (a_user x) opid d \<noteq> None" using claim_cases [OF claim] by auto
    moreover have "\<exists>u. d' = put_user u d1 \<or> d' = d1"
      using run claim user False by (auto simp: update_profile_def split: prod.splits if_splits)
    ultimately show ?thesis using ok put by auto
  next
    case True
    then have none: "find_event (a_user x) opid d = None"
      and ev: "ev = claimed_event E x (a_uid x) ''profile.update'' opid at ?payload"
      and d1: "d1 = d\<lparr>sd_events := sd_events d @ [ev]\<rparr>" using claim_cases [OF claim] by auto
    have ids: "ev_owner ev = a_user x" "ev_operation ev = opid" by (simp_all add: ev claimed_event_def)
    obtain display profile c where patched: "apply_patch patch (su_display user, su_profile user, False) = (display, profile, c)"
      by (metis prod_cases3)
    obtain marked mc where mark: "mark_web_local_profile_fields E profile (map fst patch) at = (marked, mc)" by fastforce
    define u where "u = user\<lparr>su_display := display, su_profile := marked, su_updated := at\<rparr>"
    have d': "d' = finish_event ev c [] (put_user u d1) \<or> d' = finish_event ev c [] d1" and res: "\<not> pf_replay res"
      using run claim user True patched mark
      by (auto simp: update_profile_def u_def Let_def simp del: apply_patch.simps)
    have ok1: "social_ok d1" using claim_ok [OF ok, of ev] none ids by (simp add: d1)
    have fin: "sd_relations (finish_event ev c [] d2) = sd_relations d2"
      "sd_accounts (finish_event ev c [] d2) = sd_accounts d2" for d2
      by (simp_all add: finish_event_def)
    have keep: "find_event v p (finish_event ev c [] d2) = Some e"
      if e: "find_event v p d = Some e" and same: "\<And>v p. find_event v p d2 = find_event v p d1" for v p e d2
    proof -
      have "find_event v p d1 = Some e" using e by (simp add: d1 find_event_claim)
      moreover have "\<not> (v = a_user x \<and> p = opid)" using e none by auto
      ultimately show ?thesis unfolding find_event_finish same ids by auto
    qed
    have "social_ok d'" using d' ok1 put(1) finish_event_ok by metis
    moreover have "sd_relations d' = sd_relations d" "sd_accounts d' = sd_accounts d"
      using d' put fin by (auto simp: d1)
    moreover have "find_event v p d' = Some e" if "find_event v p d = Some e" for v p e
      using d' keep [OF that] put(4) by metis
    ultimately show ?thesis using res by blast
  qed
qed


text \<open>Who acts on whom in a request.\<close>

definition acts :: "social_env \<Rightarrow> social_principal \<Rightarrow> social_call \<Rightarrow> social_db \<Rightarrow> social_account \<Rightarrow> social_account \<Rightarrow> bool" where
  "acts E who call d x y \<longleftrightarrow>
     (\<exists>p q v. resolve_principal who d = Some p \<and> call_target call = Some v \<and> service_target E p who v d = Inr q
        \<and> a_user p = a_user x \<and> a_user q = a_user y)"

definition seen_step :: "social_env \<Rightarrow> social_principal \<Rightarrow> social_call \<Rightarrow> social_db \<Rightarrow> social_db \<Rightarrow>
    social_account \<Rightarrow> social_account \<Rightarrow> bool" where
  "seen_step E who call d d' x y \<longleftrightarrow> acts E who call d x y
     \<and> (\<exists>op. call_op E call = Some op \<and> spec_op op (pair_view E x y d) = Inr (pair_view E x y d'))"

lemma run_op_Inr:
  assumes "social_ok d" "fresh_ids E" "a_user x \<noteq> a_user y" "run_op E now x y op k at d = Inr ((c, r), d')"
  shows "op_frame x y k d d' \<and> r = (find_event (a_user x) k d \<noteq> None)
    \<and> (\<exists>ev. find_event (a_user x) k d' = Some ev \<and> event_of E op y ev \<and> ev_changed ev = c)
    \<and> (if r then d' = d else spec_op op (pair_view E x y d) = Inr (pair_view E x y d'))"
  using run_op_post [OF assms(1-3), of op k now at] unfolding assms(4) op_post_def by simp

lemma serve_step:
  assumes ok: "social_ok d" and fresh: "fresh_ids E" and accts: "accounts_ok (pr_provider who) d"
    and run: "serve E now at who call opid d = Inr ((c, r), d')"
  shows "social_ok d' \<and> sd_accounts d' = sd_accounts d
    \<and> (\<forall>u p e. find_event u p d = Some e \<longrightarrow> find_event u p d' = Some e)"
    and "known_account (pr_provider who) d x \<Longrightarrow> known_account (pr_provider who) d y \<Longrightarrow> a_user x \<noteq> a_user y \<Longrightarrow>
      pair_view E x y d' = pair_view E x y d \<or> seen_step E who call d d' x y \<or> seen_step E who call d d' y x"
proof -
  let ?P = "pr_provider who"
  let ?basic = "social_ok d' \<and> sd_accounts d' = sd_accounts d
    \<and> (\<forall>u p e. find_event u p d = Some e \<longrightarrow> find_event u p d' = Some e)"
  let ?seen = "\<lambda>x y. pair_view E x y d' = pair_view E x y d \<or> seen_step E who call d d' x y \<or> seen_step E who call d d' y x"
  have "?basic \<and> (\<forall>x y. known_account ?P d x \<and> known_account ?P d y \<and> a_user x \<noteq> a_user y \<longrightarrow> ?seen x y)"
  proof (cases "call_target call")
    case None
    then obtain v where call: "call = Call_profile v" by (cases call) auto
    then obtain res p k patch where upd: "update_profile E now p patch k at d = Inr (res, d')"
      using run by (auto simp: serve_def update_me_def and_then_Inr_iff)
    note basic = profile_step [OF ok upd]
    then show ?thesis using view_of_rows [of d' d E] by blast
  next
    case (Some v)
    obtain p q op k where pq: "resolve_principal who d = Some p" "service_target E p who v d = Inr q"
      "a_user p \<noteq> a_user q" "call_op E call = Some op" and op: "run_op E now p q op k at d = Inr ((c, r), d')"
      using serve_pair [OF run Some] by blast
    note res = run_op_Inr [OF ok fresh pq(3) op]
    have known: "known_account ?P d p" "known_account ?P d q"
      using resolved_known(1) [OF pq(1)] resolved_known(2) service_target_ok [OF pq(2)] by blast+
    have keep: "find_event u s d' = Some e" if e: "find_event u s d = Some e" for u s e
    proof (cases r)
      case False
      then have "(u, s) \<noteq> (a_user p, k)" using e res by auto
      then show ?thesis using e res unfolding op_frame_def by simp
    qed (use res e in simp)
    have seen: "?seen x y" if xy: "known_account ?P d x" "known_account ?P d y" "a_user x \<noteq> a_user y" for x y
    proof (cases r)
      case True
      then show ?thesis using res by simp
    next
      case False
      then have spec: "spec_op op (pair_view E p q d) = Inr (pair_view E p q d')" using res by simp
      have uid: "(a_user p = a_user z) = (a_uid p = a_uid z)" "(a_user q = a_user z) = (a_uid q = a_uid z)"
        if "known_account ?P d z" for z
        using known_same [OF accts] known that by blast+
      consider (fwd) "a_user p = a_user x" "a_user q = a_user y" | (bwd) "a_user p = a_user y" "a_user q = a_user x"
        | (other) "\<not> pair_key p q (a_user x, a_uid y)" "\<not> pair_key p q (a_user y, a_uid x)"
        using uid [OF xy(1)] uid [OF xy(2)] unfolding pair_key_def by auto
      then show ?thesis
      proof cases
        case fwd
        then have "pair_view E p q d0 = pair_view E x y d0" for d0
          using uid [OF xy(1)] uid [OF xy(2)] by (intro view_of_names) simp_all
        then show ?thesis using spec pq Some fwd unfolding seen_step_def acts_def by metis
      next
        case bwd
        then have "pair_view E p q d0 = pair_view E y x d0" for d0
          using uid [OF xy(1)] uid [OF xy(2)] by (intro view_of_names) simp_all
        then show ?thesis using spec pq Some bwd unfolding seen_step_def acts_def by metis
      next
        case other
        then show ?thesis using view_other_pair [OF ok _ other] res by blast
      qed
    qed
    have ok': "social_ok d'" "sd_accounts d' = sd_accounts d" using res by (simp_all add: op_frame_def)
    show ?thesis
    proof (intro conjI allI impI)
      show "social_ok d'" "sd_accounts d' = sd_accounts d" by (rule ok')+
      show "find_event u p d' = Some e" if "find_event u p d = Some e" for u p e by (rule keep [OF that])
      show "?seen x y" if "known_account ?P d x \<and> known_account ?P d y \<and> a_user x \<noteq> a_user y" for x y
        using seen that by blast
    qed
  qed
  then show ?basic "known_account (pr_provider who) d x \<Longrightarrow> known_account (pr_provider who) d y \<Longrightarrow> a_user x \<noteq> a_user y
    \<Longrightarrow> ?seen x y" by blast+
qed


section \<open>Sequences of requests\<close>

inductive social_steps :: "social_env \<Rightarrow> string \<Rightarrow> social_db \<Rightarrow> social_db \<Rightarrow> bool" for E :: social_env and P :: string where
  none: "social_steps E P d d"
| step: "social_steps E P d d1 \<Longrightarrow> pr_provider who = P \<Longrightarrow> serve E now at who call opid d1 = Inr (res, d')
    \<Longrightarrow> social_steps E P d d'"

lemma steps_basic:
  assumes "social_steps E P d d'" "social_ok d" "fresh_ids E" "accounts_ok P d"
  shows "social_ok d' \<and> sd_accounts d' = sd_accounts d
    \<and> (\<forall>u p e. find_event u p d = Some e \<longrightarrow> find_event u p d' = Some e)"
  using assms
proof (induction rule: social_steps.induct)
  case (none d)
  then show ?case by blast
next
  case (step d d1 who now at call opid res d')
  have ih: "social_ok d1 \<and> sd_accounts d1 = sd_accounts d
    \<and> (\<forall>u p e. find_event u p d = Some e \<longrightarrow> find_event u p d1 = Some e)" using step by blast
  obtain c r where res: "res = (c, r)" by fastforce
  have accts: "accounts_ok (pr_provider who) d1" using step ih known_cong(2) by blast
  have "social_ok d1" using ih by blast
  from serve_step(1) [OF this \<open>fresh_ids E\<close> accts step(3) [unfolded res]] ih show ?case by simp
qed

text \<open>What every step keeps of the view of a pair holds over sequences.\<close>

lemma steps_view:
  assumes steps: "social_steps E P d d'" and ok: "social_ok d" and fresh: "fresh_ids E" and accts: "accounts_ok P d"
    and xy: "known_account P d x" "known_account P d y" "a_user x \<noteq> a_user y"
    and keep: "\<And>op v w. I v \<Longrightarrow> spec_op op v = Inr w \<Longrightarrow> I w" and sym: "\<And>v. I v \<Longrightarrow> I (mirror v)"
    and start: "I (pair_view E x y d)"
  shows "I (pair_view E x y d')"
  using steps ok accts xy start
proof (induction rule: social_steps.induct)
  case (none d)
  then show ?case by blast
next
  case (step d d1 who now at call opid res d')
  obtain c r where res: "res = (c, r)" by fastforce
  have b: "social_ok d1" "sd_accounts d1 = sd_accounts d"
    using steps_basic [OF step.hyps(1) _ fresh] step.prems by blast+
  have known: "known_account P d1 x" "known_account P d1 y" "accounts_ok P d1"
    using step.prems known_cong [OF b(2)] by blast+
  have ih: "I (pair_view E x y d1)" using step by blast
  have P: "pr_provider who = P" by (rule step.hyps(2))
  have "pair_view E x y d' = pair_view E x y d1 \<or> seen_step E who call d1 d' x y \<or> seen_step E who call d1 d' y x"
    using serve_step(2) [OF b(1) fresh _ step.hyps(3) [unfolded res], of x y] known step.prems(5)
    unfolding P by blast
  then show ?case
  proof (elim disjE)
    assume "pair_view E x y d' = pair_view E x y d1"
    then show ?thesis using ih by simp
  next
    assume "seen_step E who call d1 d' x y"
    then show ?thesis using keep [OF ih] unfolding seen_step_def by blast
  next
    assume "seen_step E who call d1 d' y x"
    then have "I (pair_view E y x d')"
      using keep sym [OF ih] unfolding seen_step_def mirror_view [of E y x d1, symmetric] by (metis mirror_view)
    then show ?thesis using sym mirror_view by metis
  qed
qed

section \<open>Blocked pairs stay apart\<close>

definition separated :: "pair_view \<Rightarrow> bool" where
  "separated v \<longleftrightarrow> (pv_blocked v \<longrightarrow>
     (\<forall>dir. \<not> pv_edge v dir Follow \<and> \<not> pv_edge v dir Friend \<and> pv_request v dir \<noteq> Some REQUEST_PENDING))"

lemma separated_all:
  "separated v \<longleftrightarrow> (pv_edge v True Block \<or> pv_edge v False Block \<longrightarrow>
     \<not> pv_edge v True Follow \<and> \<not> pv_edge v False Follow \<and> \<not> pv_edge v True Friend \<and> \<not> pv_edge v False Friend
     \<and> pv_request v True \<noteq> Some REQUEST_PENDING \<and> pv_request v False \<noteq> Some REQUEST_PENDING)"
  by (auto simp: separated_def pv_blocked_def all_bool_eq)

lemma separated_spec:
  assumes v: "separated v" and op: "spec_op op v = Inr w"
  shows "separated w"
proof (cases op)
  case (Op_follow b)
  then show ?thesis using v op by (auto simp: separated_all pv_blocked_def split: if_splits)
next
  case (Op_request m)
  then show ?thesis using v op by (auto simp: separated_all pv_blocked_def split: if_splits)
next
  case (Op_resolve r)
  show ?thesis
  proof (cases "pv_blocked v")
    case True
    then have "w = v"
      using v op Op_resolve by (auto simp: separated_def split: option.splits if_splits)
    with v show ?thesis by simp
  next
    case False
    then have "\<not> pv_blocked w"
      using op Op_resolve by (auto simp: pv_blocked_def Let_def split: option.splits if_splits)
    then show ?thesis by (simp add: separated_def)
  qed
next
  case Op_cancel
  then show ?thesis using v op by (auto simp: separated_all split: option.splits if_splits)
next
  case Op_unfriend
  then show ?thesis using v op by (auto simp: separated_all)
next
  case (Op_block b)
  then show ?thesis using v op by (auto simp: separated_all Let_def split: if_splits)
qed

lemma separated_mirror: "separated v \<Longrightarrow> separated (mirror v)"
  by (auto simp: separated_all mirror_def)

text \<open>C15: Whatever requests any accounts send, in any order, a pair of which one blocks the other shows no
  follow in either direction, no friendship and no pending friend request: blocking removes them and
  nothing can create them before both blocks are gone.  The migrated relations of the pair must satisfy
  this at the start, which they do when neither side blocks the other.\<close>

theorem blocked_pairs_stay_separated:
  assumes "social_steps E P d d'" and "social_ok d" and "fresh_ids E" and "accounts_ok P d"
    and "known_account P d x" and "known_account P d y" and "a_user x \<noteq> a_user y"
    and "separated (pair_view E x y d)"
    and "fl_blocked (relationship_flags E x y d') \<or> fl_blocked_by (relationship_flags E x y d')"
  shows "\<not> fl_following (relationship_flags E x y d') \<and> \<not> fl_followed_by (relationship_flags E x y d')
    \<and> \<not> fl_friend (relationship_flags E x y d')
    \<and> fl_outgoing (relationship_flags E x y d') \<noteq> Some REQUEST_PENDING
    \<and> fl_incoming (relationship_flags E x y d') \<noteq> Some REQUEST_PENDING"
proof -
  have "separated (pair_view E x y d')"
    by (rule steps_view [of E P d d' x y separated]) (use assms separated_spec separated_mirror in blast)+
  then show ?thesis using assms(9) by (auto simp: flags_edges separated_all)
qed

section \<open>Friendship and requests\<close>

lemma serve_resolution:
  "serve E now at who (Call_resolve v r) opid d = Inr res \<Longrightarrow> r = ''accepted'' \<or> r = ''rejected''"
  by (auto simp: serve_def service_resolve_friend_request_def split: if_splits)

lemma spec_friends:
  assumes "spec_op op v = Inr w" "\<not> pv_friends v" "pv_friends w"
  shows "op = Op_resolve ''accepted'' \<and> pv_request v False = Some REQUEST_PENDING \<and> \<not> pv_blocked v"
  using assms
  by (cases op) (auto simp: pv_friends_def Let_def split: option.splits if_splits)

text \<open>C16: Two accounts become friends only when one of them accepts, and only while the other's request to
  it is pending and neither blocks the other.\<close>

theorem friendship_needs_consent:
  assumes "serve E now at who call opid d = Inr ((c, r), d')"
    and "social_ok d" and "fresh_ids E" and "accounts_ok (pr_provider who) d"
    and "known_account (pr_provider who) d x" and "known_account (pr_provider who) d y" and "a_user x \<noteq> a_user y"
    and "\<not> fl_friend (relationship_flags E x y d)" and "fl_friend (relationship_flags E x y d')"
  shows "(\<exists>v. call = Call_resolve v ''accepted'')
    \<and> (acts E who call d x y \<and> fl_incoming (relationship_flags E x y d) = Some REQUEST_PENDING
       \<or> acts E who call d y x \<and> fl_outgoing (relationship_flags E x y d) = Some REQUEST_PENDING)
    \<and> \<not> fl_blocked (relationship_flags E x y d) \<and> \<not> fl_blocked_by (relationship_flags E x y d)"
proof -
  have consent: "(\<exists>v. call = Call_resolve v ''accepted'') \<and> request_state E q p d = Some REQUEST_PENDING
      \<and> \<not> pv_blocked (pair_view E p q d)"
    if step: "seen_step E who call d d' p q" and fr: "\<not> pv_friends (pair_view E p q d)" "pv_friends (pair_view E p q d')"
    for p q
  proof -
    obtain op where op: "call_op E call = Some op" "spec_op op (pair_view E p q d) = Inr (pair_view E p q d')"
      using step by (auto simp: seen_step_def)
    note acc = spec_friends [OF op(2) fr]
    then have "\<exists>v. call = Call_resolve v ''accepted''" using op(1) by (cases call) (auto split: sum.splits)
    moreover have "request_state E q p d = Some REQUEST_PENDING" "\<not> pv_blocked (pair_view E p q d)"
      using acc by auto
    ultimately show ?thesis by simp
  qed
  have "pv_friends (pair_view E x y d') \<noteq> pv_friends (pair_view E x y d)"
    using assms(8,9) by (simp add: flags_edges pv_friends_def)
  then have "pair_view E x y d' \<noteq> pair_view E x y d" by metis
  then consider "seen_step E who call d d' x y" | "seen_step E who call d d' y x"
    using serve_step(2) [OF assms(2,3,4,1) assms(5,6,7)] by blast
  then show ?thesis
  proof cases
    case 1
    then show ?thesis
      using consent [OF 1] assms(8,9) by (simp add: flags_edges pv_friends_def pv_blocked_def seen_step_def)
  next
    case 2
    then show ?thesis
      using consent [OF 2] assms(8,9) by (auto simp: flags_edges pv_friends_def pv_blocked_def seen_step_def)
  qed
qed

text \<open>How one operation moves the requests of a pair; \<open>True\<close> is the actor's own request.\<close>

lemma spec_request:
  assumes "spec_op op v = Inr w" "pv_request w dir \<noteq> pv_request v dir"
  shows "\<exists>s. pv_request w dir = Some s \<and> s \<in> friend_request_transitions (pv_request v dir)
    \<and> (s = REQUEST_PENDING \<longrightarrow> dir \<and> (\<exists>m. op = Op_request m))
    \<and> (s = REQUEST_CANCELLED \<longrightarrow> dir \<and> op = Op_cancel \<or> op = Op_resolve ''cancelled'')
    \<and> (s = REQUEST_REJECTED \<longrightarrow> \<not> dir \<and> op = Op_resolve ''rejected'')
    \<and> (s = REQUEST_ACCEPTED \<longrightarrow> op = Op_resolve ''accepted'')
    \<and> (s = REQUEST_BLOCKED \<longrightarrow> op = Op_block True \<or> op = Op_resolve ''blocked'')"
proof (cases op)
  case (Op_follow b)
  then show ?thesis using assms by (auto split: if_splits)
next
  case (Op_request m)
  then show ?thesis using assms by (auto split: if_splits)
next
  case (Op_resolve r)
  have "pv_request v False = Some REQUEST_PENDING \<and> S r \<in> friend_request_transitions (Some REQUEST_PENDING)"
  proof (rule ccontr)
    assume "\<not> (pv_request v False = Some REQUEST_PENDING \<and> S r \<in> friend_request_transitions (Some REQUEST_PENDING))"
    then have "w = v" using assms(1) unfolding Op_resolve by (auto split: option.splits if_splits)
    with assms(2) show False by simp
  qed
  then have kinds: "r = ''accepted'' \<or> r = ''rejected'' \<or> r = ''cancelled'' \<or> r = ''blocked''"
    and pend: "pv_request v False = Some REQUEST_PENDING"
    by (simp_all add: friend_request_transitions_def)
  have other: "w = set_request False (S r) v" if "r \<noteq> ''accepted''"
    using assms that pend unfolding Op_resolve by (simp split: if_splits)
  have acc: "pv_request w = (pv_request v)(False := Some REQUEST_ACCEPTED,
      True := (if pv_request v True = Some REQUEST_PENDING then Some REQUEST_ACCEPTED else pv_request v True))"
    if "r = ''accepted''"
    using assms(1) that pend unfolding Op_resolve by (auto simp: Let_def fun_eq_iff split: if_splits)
  have new: "pv_request w dir = Some (S r) \<and> pv_request v dir = Some REQUEST_PENDING \<and> (r \<noteq> ''accepted'' \<longrightarrow> \<not> dir)"
  proof (cases "r = ''accepted''")
    case True
    show ?thesis using acc [OF True] assms(2) pend True by (cases dir) (simp_all split: if_splits)
  next
    case False
    show ?thesis using assms(2) pend False unfolding other [OF False] by (cases dir) simp_all
  qed
  have "S r \<in> friend_request_transitions (Some REQUEST_PENDING)"
    using kinds by (auto simp: friend_request_transitions_def)
  moreover have "S r \<noteq> REQUEST_PENDING" using kinds by auto
  ultimately show ?thesis
    unfolding Op_resolve using new by (intro exI [of _ "S r"]) simp
next
  case Op_cancel
  then show ?thesis using assms by (auto simp: friend_request_transitions_def split: option.splits if_splits)
next
  case Op_unfriend
  then show ?thesis using assms by auto
next
  case (Op_block b)
  then show ?thesis
    using assms by (auto simp: friend_request_transitions_def Let_def split: if_splits)
qed

lemma served_resolution:
  "serve E now at who call opid d = Inr res \<Longrightarrow> call_op E call = Some (Op_resolve r) \<Longrightarrow> r = ''accepted'' \<or> r = ''rejected''"
  by (cases call) (auto dest: serve_resolution split: sum.splits)

lemma call_op_shape:
  "call_op E call = Some (Op_request m) \<Longrightarrow> \<exists>v t. call = Call_request v t"
  "call_op E call = Some Op_cancel \<Longrightarrow> \<exists>v. call = Call_cancel v"
  "call_op E call = Some (Op_resolve r) \<Longrightarrow> \<exists>v. call = Call_resolve v r"
  "call_op E call = Some (Op_block b) \<Longrightarrow> \<exists>v. call = Call_block v b"
  by (cases call; auto split: sum.splits)+


section \<open>An operation id is applied once\<close>

lemma social_payload_inject:
  assumes "json_canonical (social_payload a u (op_payload p)) = json_canonical (social_payload b w (op_payload q))"
  shows "a = b \<and> u = w \<and> op_payload p = op_payload q"
proof -
  have plain: "plain_json (social_payload a u (op_payload p))" for a u p
    by (cases p) (simp_all add: social_payload_def)
  have single: "sort_key fst (map (\<lambda>(k, v). (k, json_sort v)) (op_payload p)) = op_payload p" for p
    by (cases p) simp_all
  have keys: "S ''action'' < S ''payload''" "S ''payload'' < S ''schema''" "S ''schema'' < S ''target_uid''"
    by (simp_all add: S_def)
  then have "S ''action'' \<le> S ''payload''" "S ''payload'' \<le> S ''schema''" "S ''schema'' \<le> S ''target_uid''"
    by simp_all
  then have "json_sort (social_payload a u (op_payload p)) = social_payload a u (op_payload p)" for a u p
    by (simp add: social_payload_def single)
  then have "social_payload a u (op_payload p) = social_payload b w (op_payload q)"
    using assms plain json_dumps_inject unfolding json_canonical_def by metis
  then show ?thesis by (simp add: social_payload_def)
qed

lemma op_inject: "op_action p = op_action q \<Longrightarrow> op_payload p = op_payload q \<Longrightarrow> p = q"
  by (cases p; cases q) (auto split: if_splits)

lemma event_of_inject:
  assumes "inj (sha256 E)" "event_of E p y ev" "event_of E q z ev"
  shows "p = q \<and> a_uid y = a_uid z"
proof -
  have "sha256 E (json_canonical (social_payload (op_action p) (a_uid y) (op_payload p)))
      = sha256 E (json_canonical (social_payload (op_action q) (a_uid z) (op_payload q)))"
    using assms(2,3) unfolding event_of_def payload_digest_def by metis
  then have "json_canonical (social_payload (op_action p) (a_uid y) (op_payload p))
      = json_canonical (social_payload (op_action q) (a_uid z) (op_payload q))"
    by (rule injD [OF assms(1)])
  from social_payload_inject [OF this] show ?thesis using op_inject by blast
qed

lemma resolved_names:
  "resolve_principal who d = Some x \<Longrightarrow> a_user x = pr_user who"
  "service_target E x who v d = Inr y \<Longrightarrow> a_uid y = normalize_upstream_uid E v"
proof -
  assume "resolve_principal who d = Some x"
  then show "a_user x = pr_user who"
    by (auto simp: resolve_principal_def account_of_def dest!: find_SomeD)
next
  assume "service_target E x who v d = Inr y"
  then have "resolve_active_target (normalize_upstream_uid E v) (pr_provider who) d = Some y"
    using service_target_ok by blast
  then show "a_uid y = normalize_upstream_uid E v"
    by (auto simp: resolve_active_target_def account_of_def or_default_def dest!: find_SomeD)
qed

text \<open>A used operation id never lets a profile update through.\<close>

lemma profile_id_conflict:
  assumes ev: "find_event (a_user x) k d = Some ev" "event_of E op y ev"
  shows "update_profile E now x patch k at d \<noteq> Inr res"
proof
  assume "update_profile E now x patch k at d = Inr res"
  then obtain e claimed d1 where "claim_operation E x (a_uid x) ''profile.update'' k at
      (map (\<lambda>(k, v). (S k, JStr v)) patch) d = Inr ((e, claimed), d1)"
    by (auto simp: update_profile_def and_then_Inr_iff)
  from claim_cases [OF this] have "ev_type ev = ''social.'' @ ''profile.update''" using ev(1) by auto
  then show False using ev(2) by (cases op) (auto simp: event_of_def split: if_splits)
qed


end
