(* ===== verification/Social_Examples.thy ===== *)
theory Social_Examples
  imports Social_Steps
begin

text \<open>Two accounts, their requests and the witnesses of the theorems on the social graph.\<close>

section \<open>A small database\<close>

definition next_id :: "uuid list \<Rightarrow> uuid" where
  "next_id ids = Suc (fold max ids 0)"

lemma next_id_new: "next_id ids \<notin> set ids"
proof -
  have "m \<le> fold max ids m \<and> (\<forall>x \<in> set ids. x \<le> fold max ids m)" for m :: nat
  proof (induction ids arbitrary: m)
    case (Cons a ids)
    from Cons [of "max a m"] show ?case by auto
  qed simp
  note bound = this [of 0]
  show ?thesis
  proof
    assume "next_id ids \<in> set ids"
    with bound have "next_id ids \<le> fold max ids 0" by blast
    then show False by (simp add: next_id_def)
  qed
qed

definition demo_env :: social_env where
  "demo_env = \<lparr>nfkc = id, category = (\<lambda>_. CHR ''L''), unicode_word = (\<lambda>_. True), sha256 = id,
     uuid_str = (\<lambda>u. replicate u 97), zones = (\<lambda>_. fixed_offset_zone 0), lease_seconds = 300,
     nfc = id, py_repr = (\<lambda>_. []), fresh_id = next_id, valid_bracketed_host = (\<lambda>_. False),
     iso_format = (\<lambda>_. []), from_iso = (\<lambda>_. None), uuid_parse = (\<lambda>_. None)\<rparr>"

definition demo_user :: "uuid \<Rightarrow> social_user" where
  "demo_user u = \<lparr>su_id = u, su_status = ''active'', su_disabled = None, su_display = [], su_profile = [], su_updated = 0\<rparr>"

definition demo_binding :: "uuid \<Rightarrow> string \<Rightarrow> external_account" where
  "demo_binding u uid = \<lparr>ea_id = u, ea_user = u, ea_provider = LEGACY_ACCOUNT_PROVIDER, ea_uid = Some (S uid), ea_data = []\<rparr>"

definition demo_db :: social_db where
  "demo_db = \<lparr>sd_users = [demo_user 10, demo_user 20], sd_accounts = [demo_binding 10 ''a'', demo_binding 20 ''b''],
     sd_relations = [], sd_events = []\<rparr>"

definition demo_principal :: "uuid \<Rightarrow> string \<Rightarrow> social_principal" where
  "demo_principal u uid = \<lparr>pr_user = u, pr_account = u, pr_uid = S uid, pr_provider = LEGACY_ACCOUNT_PROVIDER\<rparr>"

definition demo_account :: "uuid \<Rightarrow> string \<Rightarrow> social_account" where
  "demo_account u uid = account_of False (demo_user u) (demo_binding u uid)"

lemma demo_ok:
  "social_ok demo_db" "fresh_ids demo_env" "inj (sha256 demo_env)" "accounts_ok LEGACY_ACCOUNT_PROVIDER demo_db"
  "a_user (demo_account 10 ''a'') \<noteq> a_user (demo_account 20 ''b'')"
  "known_account LEGACY_ACCOUNT_PROVIDER demo_db (demo_account 10 ''a'')"
  "known_account LEGACY_ACCOUNT_PROVIDER demo_db (demo_account 20 ''b'')"
  "pr_provider (demo_principal u uid) = LEGACY_ACCOUNT_PROVIDER"
  by (simp_all add: social_ok_def demo_db_def fresh_ids_def demo_env_def next_id_new accounts_ok_def demo_binding_def
      demo_account_def demo_user_def account_of_def known_account_def or_default_def demo_principal_def inj_def)

lemma demo_simps [simp]:
  "nfkc demo_env = id" "category demo_env = (\<lambda>_. CHR ''L'')" "fresh_id demo_env = next_id" "nfc demo_env = id"
  "sd_users demo_db = [demo_user 10, demo_user 20]" "sd_accounts demo_db = [demo_binding 10 ''a'', demo_binding 20 ''b'']"
  "sd_relations demo_db = []" "sd_events demo_db = []"
  "su_id (demo_user u) = u" "user_active (demo_user u)" 
  "ea_id (demo_binding u uid) = u" "ea_user (demo_binding u uid) = u"
  "ea_provider (demo_binding u uid) = LEGACY_ACCOUNT_PROVIDER" "ea_uid (demo_binding u uid) = Some (S uid)"
  "ea_data (demo_binding u uid) = []"
  "pr_user (demo_principal u uid) = u" "pr_account (demo_principal u uid) = u" "pr_uid (demo_principal u uid) = S uid"
  "pr_provider (demo_principal u uid) = LEGACY_ACCOUNT_PROVIDER"
  by (simp_all add: demo_env_def demo_db_def demo_user_def demo_binding_def demo_principal_def user_active_def)

lemma demo_rows: "user_accounts demo_db = [(demo_user 10, demo_binding 10 ''a''), (demo_user 20, demo_binding 20 ''b'')]"
  by (simp add: user_accounts_def product_code)

lemma demo_inputs [simp]:
  "normalize_upstream_uid demo_env (JStr (S ''a'')) = S ''a''" "normalize_upstream_uid demo_env (JStr (S ''b'')) = S ''b''"
  "normalize_operation_id demo_env (JStr (S ''k'')) = S ''k''"
  by (simp_all add: normalize_upstream_uid_def normalize_operation_id_def control_char_def MAX_OPERATION_ID_LENGTH_def
    S_def py_strip_def py_space_def py_lower_def lower_cp_def)


lemma demo_normal [simp]:
  "normalize_friend_request_message demo_env (JStr []) = Inr []"
  by (simp add: normalize_friend_request_message_def normalize_profile_text_def MAX_FRIEND_REQUEST_MESSAGE_LENGTH_def
      py_strip_def)

section \<open>Runs\<close>

text \<open>Databases with the two users.\<close>

definition demo_like :: "social_db \<Rightarrow> bool" where
  "demo_like d \<longleftrightarrow> social_ok d \<and> sd_users d = sd_users demo_db \<and> sd_accounts d = sd_accounts demo_db"

lemma demo_like_db: "demo_like demo_db"
  using demo_ok(1) by (simp add: demo_like_def)

lemma demo_like_rows: "demo_like d \<Longrightarrow> user_accounts d = user_accounts demo_db"
  by (simp add: demo_like_def user_accounts_def)

lemma demo_resolve:
  assumes "demo_like d"
  shows "resolve_principal (demo_principal 10 ''a'') d = Some (demo_account 10 ''a'')"
    and "resolve_principal (demo_principal 20 ''b'') d = Some (demo_account 20 ''b'')"
    and "resolve_active_target (S ''a'') LEGACY_ACCOUNT_PROVIDER d = Some (demo_account 10 ''a'')"
    and "resolve_active_target (S ''b'') LEGACY_ACCOUNT_PROVIDER d = Some (demo_account 20 ''b'')"
  using demo_like_rows [OF assms]
  by (simp_all add: resolve_principal_def resolve_active_target_def demo_rows demo_account_def account_of_def)

lemma demo_names [simp]: "a_user (demo_account u uid) = u" "a_uid (demo_account u uid) = S uid"
  by (simp_all add: demo_account_def account_of_def or_default_def)

lemma demo_target:
  assumes "demo_like d"
  shows "service_target demo_env (demo_account 10 ''a'') (demo_principal 10 ''a'') (JStr (S ''b'')) d = Inr (demo_account 20 ''b'')"
    and "service_target demo_env (demo_account 20 ''b'') (demo_principal 20 ''b'') (JStr (S ''a'')) d = Inr (demo_account 10 ''a'')"
  by (simp_all add: service_target_def demo_resolve [OF assms] Let_def)

lemma demo_lock:
  assumes "demo_like d"
  shows "lock_active_pair (demo_account 10 ''a'') (demo_account 20 ''b'') d = Inr ()"
    "lock_active_pair (demo_account 20 ''b'') (demo_account 10 ''a'') d = Inr ()"
  using assms by (simp_all add: lock_active_pair_def active_user_def demo_like_def)

lemma run_op_progress:
  assumes "social_ok d" "fresh_ids E" "a_user x \<noteq> a_user y" "lock_active_pair x y d = Inr ()"
    and "find_event (a_user x) k d = None" "spec_op op (pair_view E x y d) = Inr w"
  obtains c d' where "run_op E now x y op k at d = Inr ((c, False), d')" "pair_view E x y d' = w" "op_frame x y k d d'"
  using run_op_post [OF assms(1-3), of op k now at] assms(4-6) that
  unfolding op_post_def by (auto split: sum.splits)

lemma demo_view: "pair_view demo_env x y demo_db = \<lparr>pv_edge = (\<lambda>_ _. False), pv_request = (\<lambda>_. None)\<rparr>"
proof -
  have "latest_by f [] = None" for f :: "relationship \<Rightarrow> instant \<times> uuid" by (simp add: latest_by_None)
  then show ?thesis
    by (simp add: pair_view_def edge_def request_state_def request_row_def effective_edge_row_def relationship_rows_def
      effective_edge_row_from_rows_def effective_request_row_from_rows_def local_relation_from_rows_def
      trusted_legacy_rows_def latest_relationship_def row_is_active_def Let_def fun_eq_iff
      split: option.splits)
qed

text \<open>The first account sends a request, the second accepts it.\<close>

abbreviation "demo_a \<equiv> demo_account 10 ''a''"
abbreviation "demo_b \<equiv> demo_account 20 ''b''"

lemma demo_events [simp]: "find_event u p demo_db = None"
  by (simp add: find_event_def)

lemma demo_request:
  obtains c d where "serve demo_env 7 7 (demo_principal 10 ''a'') (Call_request (JStr (S ''b'')) (JStr [])) (JStr (S ''k'')) demo_db
      = Inr ((c, False), d)"
    "pair_view demo_env demo_a demo_b d = \<lparr>pv_edge = (\<lambda>_ _. False), pv_request = (\<lambda>_. None)(True := Some REQUEST_PENDING)\<rparr>"
    "demo_like d" "find_event 20 (S ''k'') d = None"
proof -
  let ?v = "\<lparr>pv_edge = (\<lambda>_ _. False), pv_request = (\<lambda>_. None)\<rparr>"
  have spec: "spec_op (Op_request []) (pair_view demo_env demo_a demo_b demo_db) = Inr (set_request True REQUEST_PENDING ?v)"
    by (simp add: demo_view pv_blocked_def pv_friends_def friend_request_transitions_def)
  obtain c d where run: "run_op demo_env 7 demo_a demo_b (Op_request []) (S ''k'') 7 demo_db = Inr ((c, False), d)"
    "pair_view demo_env demo_a demo_b d = set_request True REQUEST_PENDING ?v" "op_frame demo_a demo_b (S ''k'') demo_db d"
    by (rule run_op_progress [OF demo_ok(1,2) _ demo_lock(1) [OF demo_like_db] _ spec]) simp_all
  have flags: "\<not> fl_blocked (relationship_flags demo_env demo_a demo_b demo_db)"
    "\<not> fl_blocked_by (relationship_flags demo_env demo_a demo_b demo_db)"
    using pair_view_dir(1,2) [of demo_env demo_a demo_b demo_db Block] by (simp_all add: flags_edges demo_view)
  have "serve demo_env 7 7 (demo_principal 10 ''a'') (Call_request (JStr (S ''b'')) (JStr [])) (JStr (S ''k'')) demo_db
      = Inr ((c, False), d)"
    using run(1) flags
    by (simp add: serve_def service_request_friend_def service_actor_def demo_resolve [OF demo_like_db]
        demo_target [OF demo_like_db] service_operation_def refuse_blocked_def run_op_def)
  moreover have "demo_like d" "find_event 20 (S ''k'') d = None" using run(3) by (simp_all add: demo_like_def op_frame_def)
  moreover have "set_request True REQUEST_PENDING ?v
      = \<lparr>pv_edge = (\<lambda>_ _. False), pv_request = (\<lambda>_. None)(True := Some REQUEST_PENDING)\<rparr>" by (simp add: set_request_def)
  ultimately show thesis using that run(2) by metis
qed

lemma demo_accept:
  obtains c d c' d' where
    "serve demo_env 7 7 (demo_principal 10 ''a'') (Call_request (JStr (S ''b'')) (JStr [])) (JStr (S ''k'')) demo_db
      = Inr ((c, False), d)"
    "serve demo_env 8 8 (demo_principal 20 ''b'') (Call_resolve (JStr (S ''a'')) ''accepted'') (JStr (S ''k'')) d
      = Inr ((c', False), d')"
    "demo_like d" "pair_view demo_env demo_a demo_b d = \<lparr>pv_edge = (\<lambda>_ _. False), pv_request = (\<lambda>_. None)(True := Some REQUEST_PENDING)\<rparr>"
    "pv_friends (pair_view demo_env demo_b demo_a d')"
proof -
  from demo_request obtain c d where one:
    "serve demo_env 7 7 (demo_principal 10 ''a'') (Call_request (JStr (S ''b'')) (JStr [])) (JStr (S ''k'')) demo_db
      = Inr ((c, False), d)"
    "pair_view demo_env demo_a demo_b d = \<lparr>pv_edge = (\<lambda>_ _. False), pv_request = (\<lambda>_. None)(True := Some REQUEST_PENDING)\<rparr>"
    "demo_like d" "find_event 20 (S ''k'') d = None" by blast
  let ?v = "mirror (pair_view demo_env demo_a demo_b d)"
  have v: "pair_view demo_env demo_b demo_a d = ?v" by (rule mirror_view)
  obtain w where spec: "spec_op (Op_resolve ''accepted'') (pair_view demo_env demo_b demo_a d) = Inr w" "pv_friends w"
    unfolding v by (auto simp: one(2) mirror_def pv_blocked_def pv_friends_def friend_request_transitions_def Let_def)
  have ok: "social_ok d" using one(3) by (simp add: demo_like_def)
  obtain c' d' where run: "run_op demo_env 8 demo_b demo_a (Op_resolve ''accepted'') (S ''k'') 8 d = Inr ((c', False), d')"
    "pair_view demo_env demo_b demo_a d' = w"
    by (rule run_op_progress [OF ok demo_ok(2) _ demo_lock(2) [OF one(3)] _ spec(1)]) (use one(4) in simp_all)
  have "\<not> pv_blocked (pair_view demo_env demo_b demo_a d)"
    unfolding v by (simp add: one(2) mirror_def pv_blocked_def)
  then have "serve demo_env 8 8 (demo_principal 20 ''b'') (Call_resolve (JStr (S ''a'')) ''accepted'') (JStr (S ''k'')) d
      = Inr ((c', False), d')"
    using run(1)
    by (simp add: serve_def service_resolve_friend_request_def service_actor_def demo_resolve [OF one(3)]
        demo_target [OF one(3)] service_operation_def refuse_blocked_def run_op_def flags_edges pv_blocked_def)
  then show thesis using that one run(2) spec(2) by metis
qed

lemma demo_known:
  assumes "demo_like d"
  shows "social_ok d" "accounts_ok LEGACY_ACCOUNT_PROVIDER d" "known_account LEGACY_ACCOUNT_PROVIDER d demo_a"
    "known_account LEGACY_ACCOUNT_PROVIDER d demo_b"
  using assms demo_ok(4,6,7) known_cong [of d demo_db] by (auto simp: demo_like_def)

section \<open>Witnesses\<close>

theorem social_mutation_refines_witness:
  "\<exists>c d'. run_op demo_env 7 demo_a demo_b (Op_block True) (S ''k'') 7 demo_db = Inr ((c, False), d')
    \<and> op_frame demo_a demo_b (S ''k'') demo_db d' \<and> c
    \<and> pv_blocked (pair_view demo_env demo_a demo_b d')"
proof -
  obtain w where spec: "spec_op (Op_block True) (pair_view demo_env demo_a demo_b demo_db) = Inr w"
    "pv_edge w True Block" by (simp add: Let_def)
  obtain c d' where run: "run_op demo_env 7 demo_a demo_b (Op_block True) (S ''k'') 7 demo_db = Inr ((c, False), d')"
    by (rule run_op_progress [OF demo_ok(1,2) _ demo_lock(1) [OF demo_like_db] _ spec(1)]) simp_all
  have differ: "w \<noteq> pair_view demo_env demo_a demo_b demo_db"
  proof
    assume "w = pair_view demo_env demo_a demo_b demo_db"
    with spec(2) show False unfolding demo_view by simp
  qed
  show ?thesis
    using social_mutation_refines [OF demo_ok(1,2,5), where op = "Op_block True"
        and opid = "S ''k''" and now = 7 and at = 7, unfolded run sum.case prod.case]
      run spec differ
    by (auto simp del: spec_op.simps pair_view_dir simp add: pv_blocked_def)
qed

theorem blocked_pairs_stay_separated_witness:
  "\<exists>d. social_steps demo_env LEGACY_ACCOUNT_PROVIDER demo_db d
    \<and> fl_blocked (relationship_flags demo_env demo_a demo_b d)
    \<and> \<not> fl_following (relationship_flags demo_env demo_a demo_b d)"
proof -
  obtain w where spec: "spec_op (Op_block True) (pair_view demo_env demo_a demo_b demo_db) = Inr w"
    "pv_edge w True Block" by (simp add: Let_def)
  obtain c d where run: "run_op demo_env 7 demo_a demo_b (Op_block True) (S ''k'') 7 demo_db = Inr ((c, False), d)"
    "pair_view demo_env demo_a demo_b d = w"
    by (rule run_op_progress [OF demo_ok(1,2) _ demo_lock(1) [OF demo_like_db] _ spec(1)]) simp_all
  have "serve demo_env 7 7 (demo_principal 10 ''a'') (Call_block (JStr (S ''b'')) True) (JStr (S ''k'')) demo_db
      = Inr ((c, False), d)"
    using run(1)
    by (simp add: serve_def service_set_blocked_def service_actor_def demo_resolve [OF demo_like_db]
        demo_target [OF demo_like_db] service_operation_def run_op_def)
  then have steps: "social_steps demo_env LEGACY_ACCOUNT_PROVIDER demo_db d"
    using social_steps.step [OF social_steps.none demo_ok(8)] by blast
  have blocked: "fl_blocked (relationship_flags demo_env demo_a demo_b d)"
    using run(2) spec(2) pair_view_dir(1) [of demo_env demo_a demo_b d Block] by (simp add: flags_edges)
  have start: "separated (pair_view demo_env demo_a demo_b demo_db)" by (simp add: demo_view separated_all)
  show ?thesis
    using blocked_pairs_stay_separated [OF steps demo_ok(1,2,4,6,7,5) start] blocked steps by blast
qed

theorem friendship_needs_consent_witness:
  "\<exists>d d' c. demo_like d
    \<and> serve demo_env 8 8 (demo_principal 20 ''b'') (Call_resolve (JStr (S ''a'')) ''accepted'') (JStr (S ''k'')) d = Inr ((c, False), d')
    \<and> fl_friend (relationship_flags demo_env demo_a demo_b d')
    \<and> acts demo_env (demo_principal 20 ''b'') (Call_resolve (JStr (S ''a'')) ''accepted'') d demo_b demo_a"
proof -
  obtain c d c' d' where a:
    "serve demo_env 8 8 (demo_principal 20 ''b'') (Call_resolve (JStr (S ''a'')) ''accepted'') (JStr (S ''k'')) d
      = Inr ((c', False), d')"
    "demo_like d" "pair_view demo_env demo_a demo_b d = \<lparr>pv_edge = (\<lambda>_ _. False), pv_request = (\<lambda>_. None)(True := Some REQUEST_PENDING)\<rparr>"
    "pv_friends (pair_view demo_env demo_b demo_a d')" by (rule demo_accept)
  have before: "\<not> fl_friend (relationship_flags demo_env demo_a demo_b d)" "fl_incoming (relationship_flags demo_env demo_a demo_b d) = None"
    using pair_view_dir(1,2) [of demo_env demo_a demo_b d Friend] pair_view_dir(4) [of demo_env demo_a demo_b d] a(3) by (simp_all add: flags_edges)
  have after: "fl_friend (relationship_flags demo_env demo_a demo_b d')"
    using a(4) by (simp add: flags_edges pv_friends_def)
  show ?thesis
    using friendship_needs_consent [OF a(1) demo_known(1) [OF a(2)] demo_ok(2), unfolded demo_ok(8),
        OF demo_known(2-4) [OF a(2)] demo_ok(5) before(1) after] before(2) after a(1,2) by auto
qed




end
