(* ===== verification/Compat_Calls.thy ===== *)
theory Compat_Calls
  imports Social_Profile
begin

text \<open>
  What a committed local mutation becomes at the legacy provider (\<^verbatim>\<open>bbw_web/compatibility_outbox.py\<close>
  and \<^verbatim>\<open>bbw_prod/compatibility.py\<close>): the modes, the outbox rows, the resolver of identifiers and
  the preparation of the one provider call an operation stands for.
\<close>

section \<open>Modes (\<^verbatim>\<open>bbw_prod/compatibility.py\<close>)\<close>

datatype compat_mode = ENABLED | PAUSED | RETIRED

definition normalize_compatibility_mode :: "pystr \<Rightarrow> py_error + compat_mode" where
  "normalize_compatibility_mode value =
     (let normalized = py_lower (py_strip (if value = [] then S ''enabled'' else value)) in
      if normalized = S ''enabled'' then Inr ENABLED
      else if normalized = S ''paused'' then Inr PAUSED
      else if normalized = S ''retired'' then Inr RETIRED
      else Inl (ValueError ''compatibility mode must be one of: enabled, paused, retired''))"

text \<open>The setting when there is one, else the environment variable.\<close>

definition compatibility_mode :: "pystr option \<Rightarrow> pystr option \<Rightarrow> py_error + compat_mode" where
  "compatibility_mode setting variable =
     (case setting of
        Some v \<Rightarrow> normalize_compatibility_mode v
      | None \<Rightarrow> normalize_compatibility_mode (case variable of Some v \<Rightarrow> v | None \<Rightarrow> S ''enabled''))"

definition py_startswith :: "pystr \<Rightarrow> pystr \<Rightarrow> bool" where
  "py_startswith s prefix_text \<longleftrightarrow> take (length prefix_text) s = prefix_text"

definition is_cancellable_compatibility_operation :: "pystr \<Rightarrow> bool" where
  "is_cancellable_compatibility_operation operation_type \<longleftrightarrow>
     (let operation = py_lower (py_strip operation_type) in
      py_startswith operation (S ''compatibility.'') \<and> \<not> py_startswith operation (S ''compatibility.media.archive''))"

definition new_compatibility_outbox_status :: "pystr \<Rightarrow> compat_mode \<Rightarrow> string" where
  "new_compatibility_outbox_status operation_type mode =
     (if mode = RETIRED \<and> is_cancellable_compatibility_operation operation_type then ''cancelled'' else ''pending'')"

definition new_optional_tim_status :: "compat_mode \<Rightarrow> string" where
  "new_optional_tim_status mode = (if mode = RETIRED then ''cancelled'' else ''pending'')"

section \<open>Operations and errors\<close>

definition RECOGNIZED_OPERATION_TYPES :: "pystr list" where
  "RECOGNIZED_OPERATION_TYPES = map (\<lambda>s. S (''compatibility.'' @ s))
     [''profile.nick'', ''profile.reset'', ''profile.privacy'', ''social.follow'', ''social.unfollow'',
      ''social.add-friend'', ''social.agree-friend'', ''social.reject-friend'', ''social.cancel-friend'',
      ''social.delete-friend'', ''social.blacklist-add'', ''social.blacklist-del'', ''social.visit'',
      ''social.topic.create'', ''social.post.publish'', ''social.post.delete'', ''social.post.visibility'',
      ''social.post.pin'', ''social.post.comment-policy'', ''social.comment.publish'', ''social.comment.delete'',
      ''social.comment.moderate'', ''social.reaction.like'', ''social.report.create'', ''social.post.view'']"

definition DIRECTLY_MIRRORED_OPERATION_TYPES :: "pystr list" where
  "DIRECTLY_MIRRORED_OPERATION_TYPES = map (\<lambda>s. S (''compatibility.'' @ s))
     [''profile.nick'', ''profile.reset'', ''profile.privacy'', ''social.follow'', ''social.unfollow'',
      ''social.add-friend'', ''social.agree-friend'', ''social.delete-friend'', ''social.blacklist-add'',
      ''social.blacklist-del'', ''social.visit'', ''social.topic.create'', ''social.post.publish'',
      ''social.post.delete'', ''social.post.visibility'', ''social.comment.publish'', ''social.comment.delete'',
      ''social.comment.moderate'', ''social.report.create'', ''social.post.view'']"

definition UNSAFE_OR_UNMAPPABLE_OPERATION_TYPES :: "pystr list" where
  "UNSAFE_OR_UNMAPPABLE_OPERATION_TYPES =
     filter (\<lambda>t. t \<notin> set DIRECTLY_MIRRORED_OPERATION_TYPES) RECOGNIZED_OPERATION_TYPES"

datatype compat_error = Permanent pystr | Retryable pystr

fun error_retryable :: "compat_error \<Rightarrow> bool" where
  "error_retryable (Permanent c) = False"
| "error_retryable (Retryable c) = True"

fun error_code :: "compat_error \<Rightarrow> pystr" where
  "error_code (Permanent c) = c"
| "error_code (Retryable c) = c"

definition MAX_ERROR_LENGTH :: nat where "MAX_ERROR_LENGTH = 512"

definition safe_code_char :: "nat \<Rightarrow> bool" where
  "safe_code_char c \<longleftrightarrow> 48 \<le> c \<and> c \<le> 57 \<or> 65 \<le> c \<and> c \<le> 90 \<or> 97 \<le> c \<and> c \<le> 122 \<or> c \<in> {95, 46, 58, 45}"

text \<open>\<^verbatim>\<open>re.sub\<close> of every maximal run of other characters by one underscore.\<close>

fun squash_unsafe :: "bool \<Rightarrow> pystr \<Rightarrow> pystr" where
  "squash_unsafe inside [] = []"
| "squash_unsafe inside (c # s) =
     (if safe_code_char c then c # squash_unsafe False s
      else if inside then squash_unsafe True s else 95 # squash_unsafe True s)"

definition strip_underscores :: "pystr \<Rightarrow> pystr" where
  "strip_underscores s = rev (dropWhile (\<lambda>c. c = 95) (rev (dropWhile (\<lambda>c. c = 95) s)))"

definition stable_error_code :: "pystr \<Rightarrow> pystr" where
  "stable_error_code value =
     (let normalized = strip_underscores (squash_unsafe False (if value = [] then S ''compatibility_failure'' else value)) in
      take MAX_ERROR_LENGTH (if normalized = [] then S ''compatibility_failure'' else normalized))"

text \<open>The constructor of the exceptions normalises the code.\<close>

definition permanent :: "string \<Rightarrow> compat_error + 'a" where
  "permanent code = Inl (Permanent (stable_error_code (S code)))"

definition retryable :: "string \<Rightarrow> compat_error + 'a" where
  "retryable code = Inl (Retryable (stable_error_code (S code)))"

section \<open>Rows\<close>

record outbox_row =
  ob_id :: uuid
  ob_owner :: uuid
  ob_type :: pystr
  ob_key :: pystr
  ob_aggregate_type :: "pystr option"
  ob_aggregate_id :: "pystr option"
  ob_payload :: jdict
  ob_status :: string
  ob_attempts :: nat
  ob_max :: nat
  ob_available :: instant
  ob_created :: instant
  ob_locked_until :: "instant option"
  ob_locked_by :: "pystr option"
  ob_completed :: "instant option"
  ob_last_error :: "pystr option"

datatype entity_kind = Post | Comment | Topic

fun entity_name :: "entity_kind \<Rightarrow> string" where
  "entity_name Post = ''post''"
| "entity_name Comment = ''comment''"
| "entity_name Topic = ''topic''"

fun local_prefix :: "entity_kind \<Rightarrow> pystr" where
  "local_prefix Post = S ''pst_''"
| "local_prefix Comment = S ''cmt_''"
| "local_prefix Topic = S ''tpc_''"

record entity_row =
  en_id :: uuid
  en_public :: pystr
  en_author :: "pystr option"
  en_digest :: "pystr option"
  en_source_created :: "instant option"
  en_created :: "instant option"

record binding_row =
  lb_kind :: entity_kind
  lb_upstream :: pystr
  lb_local :: uuid
  lb_public :: pystr
  lb_importer :: uuid
  lb_source_created :: instant
  lb_digest :: pystr
  lb_created :: instant

record compat_account =
  ca_id :: uuid
  ca_user :: uuid
  ca_user_status :: string
  ca_user_disabled :: bool
  ca_display :: pystr
  ca_profile :: jdict
  ca_provider :: string
  ca_sync_enabled :: bool
  ca_uid :: "pystr option"
  ca_login :: "jdict option"
  ca_token :: "jdict option"
  ca_token_expires :: "instant option"
  ca_device :: jdict

record delivery_row =
  dl_id :: uuid
  dl_channel :: string
  dl_required :: bool
  dl_status :: string
  dl_locked_until :: "instant option"
  dl_locked_by :: "pystr option"
  dl_last_error :: "pystr option"

record compat_db =
  cd_outbox :: "outbox_row list"
  cd_deliveries :: "delivery_row list"
  cd_entities :: "(entity_kind \<times> entity_row) list"
  cd_bindings :: "binding_row list"
  cd_accounts :: "compat_account list"

text \<open>The view of a claimed row, and the call it becomes.\<close>

record claimed_operation =
  cl_id :: uuid
  cl_owner :: uuid
  cl_type :: pystr
  cl_aggregate_type :: pystr
  cl_aggregate_id :: pystr
  cl_payload :: jdict
  cl_attempt :: nat
  cl_max :: nat
  cl_worker :: pystr

record compat_call =
  cc_component :: string
  cc_method :: string
  cc_args :: "pystr list"
  cc_kwargs :: jdict
  cc_accept_empty :: bool
  cc_replay_safe :: bool
  cc_binding :: "(entity_kind \<times> pystr) option"

definition mk_call :: "string \<Rightarrow> string \<Rightarrow> pystr list \<Rightarrow> compat_call" where
  "mk_call component method args =
     \<lparr>cc_component = component, cc_method = method, cc_args = args, cc_kwargs = [], cc_accept_empty = False,
      cc_replay_safe = True, cc_binding = None\<rparr>"

section \<open>Payloads\<close>

type_synonym shower = "json \<Rightarrow> pystr"

definition as_mapping :: "json \<Rightarrow> string \<Rightarrow> compat_error + jdict" where
  "as_mapping value code = (case value of JObj kvs \<Rightarrow> Inr kvs | _ \<Rightarrow> permanent code)"

definition nonempty_text :: "shower \<Rightarrow> json \<Rightarrow> nat \<Rightarrow> string \<Rightarrow> compat_error + pystr" where
  "nonempty_text show value limit code =
     (let normalized = py_strip (j_text show value) in
      if normalized = [] \<or> limit < length normalized then permanent code else Inr normalized)"

definition social_body :: "jdict \<Rightarrow> compat_error + jdict" where
  "social_body payload =
     (case jget payload ''body'' of JNull \<Rightarrow> Inr [] | raw \<Rightarrow> as_mapping raw ''invalid_social_body'')"

definition moment_payload :: "jdict \<Rightarrow> compat_error + jdict" where
  "moment_payload payload = as_mapping (jget payload ''payload'') ''invalid_moments_payload''"

definition target_uid :: "shower \<Rightarrow> jdict \<Rightarrow> jdict \<Rightarrow> compat_error + pystr" where
  "target_uid show payload body =
     (case find (\<lambda>t. t \<noteq> [] \<and> length t \<le> 128)
        (map (\<lambda>v. py_strip (j_text show v))
          (jget payload ''target_uid'' # map (jget body) [''uid'', ''you'', ''target_uid'', ''yourid'', ''to''])) of
        Some t \<Rightarrow> Inr t | None \<Rightarrow> permanent ''target_uid_missing'')"

definition DENIED_PARAMS :: "pystr list" where
  "DENIED_PARAMS = map S [''action'', ''mode'', ''params'', ''operation_id'', ''idempotency_key'', ''password'',
     ''token'', ''authorization'']"

definition merge_params :: "jdict \<Rightarrow> jdict \<Rightarrow> jdict" where
  "merge_params params items = fold (\<lambda>(k, v). AList.update k v) items params"

definition provider_params :: "jdict \<Rightarrow> pystr \<Rightarrow> jdict" where
  "provider_params body target =
     (let nested = (case jget body ''params'' of JObj kvs \<Rightarrow> filter (\<lambda>(k, v). v \<noteq> JNull) kvs | _ \<Rightarrow> []);
          params = merge_params (merge_params [] nested)
                     (filter (\<lambda>(k, v). py_lower k \<notin> set DENIED_PARAMS \<and> v \<noteq> JNull) body) in
      if target \<noteq> [] \<and> \<not> (\<exists>k \<in> {''uid'', ''you'', ''yourid'', ''target_uid''}. j_truthy (jget params k))
      then jset ''uid'' (JStr target) params else params)"

fun has_media :: "shower \<Rightarrow> json \<Rightarrow> bool" where
  "has_media show JNull = False"
| "has_media show (JObj kvs) = (\<exists>m \<in> set kvs. has_media show (snd m))"
| "has_media show (JList xs) = (\<exists>x \<in> set xs. has_media show x)"
| "has_media show j = (py_strip (j_str show j) \<noteq> [])"

section \<open>Identifiers\<close>

definition find_binding :: "entity_kind \<Rightarrow> pystr \<Rightarrow> compat_db \<Rightarrow> binding_row option" where
  "find_binding kind public_id d = find (\<lambda>b. lb_kind b = kind \<and> lb_public b = public_id) (cd_bindings d)"

definition require_upstream_id :: "shower \<Rightarrow> entity_kind \<Rightarrow> json \<Rightarrow> compat_db \<Rightarrow> compat_error + pystr" where
  "require_upstream_id show kind public_id d =
     and_then (nonempty_text show public_id 256 (entity_name kind @ ''_id_missing'')) (\<lambda>normalized.
       if \<not> py_startswith normalized (local_prefix kind) then Inr normalized
       else case find_binding kind normalized d of
              None \<Rightarrow> retryable (entity_name kind @ ''_upstream_binding_missing'')
            | Some b \<Rightarrow>
                if py_strip (lb_upstream b) = [] then retryable (entity_name kind @ ''_upstream_binding_missing'')
                else Inr (py_strip (lb_upstream b)))"

definition find_entity :: "entity_kind \<Rightarrow> pystr \<Rightarrow> compat_db \<Rightarrow> entity_row option" where
  "find_entity kind public_id d =
     map_option snd (find (\<lambda>(k, e). k = kind \<and> en_public e = public_id) (cd_entities d))"

definition local_entity :: "shower \<Rightarrow> entity_kind \<Rightarrow> json \<Rightarrow> compat_db \<Rightarrow> compat_error + entity_row" where
  "local_entity show kind public_id d =
     and_then (nonempty_text show public_id 40 (entity_name kind @ ''_id_missing'')) (\<lambda>normalized.
       case find_entity kind normalized d of
         None \<Rightarrow> permanent (''local_'' @ entity_name kind @ ''_missing'')
       | Some e \<Rightarrow> Inr e)"

section \<open>Social operations\<close>

definition compat_op :: "string \<Rightarrow> pystr" where
  "compat_op name = S (''compatibility.'' @ name)"

lemma compat_op_inject [simp]: "compat_op a = compat_op b \<longleftrightarrow> a = b"
  by (simp add: compat_op_def)

definition j_default :: "shower \<Rightarrow> json \<Rightarrow> pystr \<Rightarrow> pystr" where
  "j_default show j d = (if j_truthy j then j_str show j else d)"

definition profile_nick_call :: "shower \<Rightarrow> jdict \<Rightarrow> compat_error + compat_call" where
  "profile_nick_call show body =
     and_then (nonempty_text show (j_or (j_or (jget body ''value'') (jget body ''name'')) (jget body ''nickname''))
         160 ''nickname_missing'')
       (\<lambda>value. Inr (mk_call ''profile'' ''reset_nickname'' [value]))"

definition PROFILE_RESET_TYPE :: "(string \<times> pystr) list" where
  "PROFILE_RESET_TYPE =
     [(''signature'', [20010, 24615, 31614, 21517, 35774, 32622]), (''city'', [22478, 24066, 35774, 32622]),
      (''gender'', [24615, 21035, 35774, 32622])]"

definition GENDER_VALUE :: "(string \<times> pystr) list" where
  "GENDER_VALUE = [(''male'', [30007]), (''female'', [22899]), (''other'', [20854, 20182]), (''unspecified'', [20445, 23494])]"

definition lookup_text :: "(string \<times> pystr) list \<Rightarrow> pystr \<Rightarrow> pystr option" where
  "lookup_text table key = map_option snd (find (\<lambda>(k, v). S k = key) table)"

definition profile_reset_call :: "shower \<Rightarrow> jdict \<Rightarrow> compat_error + compat_call" where
  "profile_reset_call show body =
     (let field = py_lower (py_strip (j_text show (jget body ''field'')));
          value = py_strip (j_text show (jget body ''value'')) in
      if field = S ''nickname'' then
        and_then (nonempty_text show (JStr value) 160 ''nickname_missing'')
          (\<lambda>v. Inr (mk_call ''profile'' ''reset_nickname'' [v]))
      else if field = S ''avatar'' then permanent ''profile_avatar_upload_not_mappable''
      else case lookup_text PROFILE_RESET_TYPE field of
             None \<Rightarrow> permanent ''profile_field_not_mappable''
           | Some type_name \<Rightarrow>
               (let sent = (if field = S ''gender''
                            then (case lookup_text GENDER_VALUE (py_lower value) of Some g \<Rightarrow> g | None \<Rightarrow> value)
                            else value) in
                if 1000 < length sent then permanent ''profile_value_too_long''
                else Inr ((mk_call ''profile'' ''reset_personal'' [sent])
                       \<lparr>cc_kwargs := [(S ''type_'', JStr type_name), (S ''as_form'', JBool False)]\<rparr>)))"

definition privacy_wire :: "json \<Rightarrow> json" where
  "privacy_wire v = (if v = JBool True then JStr (S ''1'') else if v = JBool False then JStr (S ''0'') else v)"

definition profile_privacy_call :: "jdict \<Rightarrow> compat_error + compat_call" where
  "profile_privacy_call body =
     and_then (as_mapping (jget body ''privacy'') ''privacy_values_missing'') (\<lambda>values.
       if values = [] then permanent ''privacy_values_missing''
       else Inr ((mk_call ''profile'' ''set_privacy'' [])
              \<lparr>cc_kwargs := map (\<lambda>(k, v). (k, privacy_wire v)) values\<rparr>))"

definition DEFAULT_FRIEND_MESSAGE :: pystr where
  "DEFAULT_FRIEND_MESSAGE = [20320, 22909, 65292, 24819, 21644, 20320, 25104, 20026, 22909, 21451]"

definition add_friend_call :: "shower \<Rightarrow> jdict \<Rightarrow> pystr \<Rightarrow> compat_call" where
  "add_friend_call show body target =
     (let message = take 100 (py_strip (j_default show
            (j_or (j_or (jget body ''leave_word'') (jget body ''yourwords'')) (jget body ''message''))
            DEFAULT_FRIEND_MESSAGE)) in
      (mk_call ''social'' ''add_friend'' [target, message])\<lparr>cc_accept_empty := True, cc_replay_safe := False\<rparr>)"

definition targeted_call :: "shower \<Rightarrow> pystr \<Rightarrow> jdict \<Rightarrow> pystr \<Rightarrow> compat_error + compat_call" where
  "targeted_call show operation body target =
     (if operation = compat_op ''social.follow'' then
        Inr ((mk_call ''social'' ''follow'' [target])\<lparr>cc_kwargs := [(S ''quietly'', JStr (S ''1''))]\<rparr>)
      else if operation = compat_op ''social.unfollow'' then Inr (mk_call ''social'' ''unfollow'' [target])
      else if operation = compat_op ''social.add-friend'' then Inr (add_friend_call show body target)
      else if operation = compat_op ''social.agree-friend'' then
        Inr ((mk_call ''social'' ''agree_friend'' [target])\<lparr>cc_accept_empty := True, cc_replay_safe := False\<rparr>)
      else if operation = compat_op ''social.delete-friend'' then
        Inr ((mk_call ''social'' ''delete_friend'' [])
          \<lparr>cc_kwargs := provider_params body target, cc_accept_empty := True\<rparr>)
      else if operation = compat_op ''social.blacklist-add'' then
        Inr ((mk_call ''social'' ''add_blacklist'' [])\<lparr>cc_kwargs := provider_params body target\<rparr>)
      else if operation = compat_op ''social.blacklist-del'' then
        Inr ((mk_call ''social'' ''delete_blacklist'' [])\<lparr>cc_kwargs := provider_params body target\<rparr>)
      else if operation = compat_op ''social.visit'' then
        Inr ((mk_call ''social'' ''record_profile_view'' [target])\<lparr>cc_replay_safe := False\<rparr>)
      else permanent ''unsupported_social_compatibility_operation'')"

definition prepare_social_call :: "shower \<Rightarrow> pystr \<Rightarrow> jdict \<Rightarrow> compat_error + compat_call" where
  "prepare_social_call show operation payload =
     and_then (social_body payload) (\<lambda>body.
       if operation = compat_op ''profile.nick'' then profile_nick_call show body
       else if operation = compat_op ''profile.reset'' then profile_reset_call show body
       else if operation = compat_op ''profile.privacy'' then profile_privacy_call body
       else if operation \<in> {compat_op ''social.reject-friend'', compat_op ''social.cancel-friend''}
       then permanent ''friend_request_resolution_not_mappable''
       else and_then (target_uid show payload body) (targeted_call show operation body))"

section \<open>Moments operations\<close>

definition VISIBILITY_SCOPE :: "(string \<times> pystr) list" where
  "VISIBILITY_SCOPE =
     [(''public'', [20844, 24320]), (''followers'', [22909, 21451, 21450, 31881, 19997, 21487, 35265]),
      (''private'', [20165, 33258, 24049, 21487, 35265])]"

definition topic_create_call :: "shower \<Rightarrow> jdict \<Rightarrow> compat_error + compat_call" where
  "topic_create_call show payload =
     and_then (nonempty_text show (jget payload ''topic_public_id'') 40 ''topic_id_missing'') (\<lambda>public_id.
     and_then (nonempty_text show (jget payload ''name'') 160 ''topic_name_missing'') (\<lambda>name.
       Inr ((mk_call ''content'' ''create_topic'' [name])
         \<lparr>cc_replay_safe := False, cc_binding := Some (Topic, public_id)\<rparr>)))"

definition topic_names :: "shower \<Rightarrow> json \<Rightarrow> pystr list" where
  "topic_names show topics =
     (case topics of JList xs \<Rightarrow> filter (\<lambda>s. s \<noteq> []) (map (\<lambda>v. py_strip (j_str show v)) xs) | _ \<Rightarrow> [])"

text \<open>\<^verbatim>\<open>json.dumps([{"topic": value}, ...], ensure_ascii=False)\<close> with the default separators.\<close>

definition topic_item :: "pystr \<Rightarrow> pystr" where
  "topic_item value = 123 # json_string (S ''topic'') @ [58, 32] @ json_string value @ [125]"

fun topic_items :: "pystr list \<Rightarrow> pystr" where
  "topic_items [] = []"
| "topic_items [v] = topic_item v"
| "topic_items (v # w # vs) = topic_item v @ [44, 32] @ topic_items (w # vs)"

definition topic_json :: "pystr list \<Rightarrow> pystr" where
  "topic_json names = (if names = [] then [] else 91 # topic_items names @ [93])"

definition post_publish_call :: "shower \<Rightarrow> jdict \<Rightarrow> compat_error + compat_call" where
  "post_publish_call show payload =
     and_then (nonempty_text show (jget payload ''post_public_id'') 40 ''post_id_missing'') (\<lambda>public_id.
     if has_media show (jget payload ''media'') then permanent ''post_media_not_mappable''
     else and_then (nonempty_text show (jget payload ''body'') 2000 ''post_body_missing'') (\<lambda>text_body.
     case lookup_text VISIBILITY_SCOPE (j_default show (jget payload ''visibility'') (S ''public'')) of
       None \<Rightarrow> permanent ''post_visibility_not_mappable''
     | Some visibility \<Rightarrow>
         (let comment_policy = j_default show (jget payload ''comment_policy'') (S ''open'') in
          if comment_policy \<notin> {S ''open'', S ''disabled''} then permanent ''post_comment_policy_not_mappable''
          else Inr ((mk_call ''social'' ''publish_post'' [text_body])
            \<lparr>cc_kwargs :=
               [(S ''title'', JStr (take 240 (py_strip (j_text show (jget payload ''title''))))),
                (S ''plate'', JStr (take 32 (j_default show (jget payload ''plate'') [21160, 24577]))),
                (S ''visibility_scope'', JStr visibility),
                (S ''comment_forbid'', JStr (if comment_policy = S ''disabled'' then S ''1'' else S ''0'')),
                (S ''hide_comment'', JStr (if j_truthy (jget payload ''hide_comments'') then S ''1'' else S ''0'')),
                (S ''topics'', JStr (topic_json (topic_names show (jget payload ''topics''))))],
             cc_accept_empty := True, cc_replay_safe := False, cc_binding := Some (Post, public_id)\<rparr>))))"

definition post_change_call :: "shower \<Rightarrow> pystr \<Rightarrow> jdict \<Rightarrow> compat_db \<Rightarrow> compat_error + compat_call" where
  "post_change_call show operation payload d =
     and_then (nonempty_text show (jget payload ''post_public_id'') 40 ''post_id_missing'') (\<lambda>public_id.
     and_then (require_upstream_id show Post (JStr public_id) d) (\<lambda>upstream_id.
       if operation = compat_op ''social.post.delete'' then
         Inr ((mk_call ''social'' ''delete_post'' [upstream_id])\<lparr>cc_accept_empty := True\<rparr>)
       else if operation = compat_op ''social.post.visibility'' then
         (case lookup_text VISIBILITY_SCOPE (j_text show (jget payload ''visibility'')) of
            None \<Rightarrow> permanent ''post_visibility_not_mappable''
          | Some scope \<Rightarrow>
              Inr ((mk_call ''social'' ''change_post_visibility'' [upstream_id, scope])\<lparr>cc_accept_empty := True\<rparr>))
       else Inr ((mk_call ''social'' ''record_post_view'' [upstream_id])
              \<lparr>cc_accept_empty := True, cc_replay_safe := False\<rparr>)))"

definition author_uid :: "entity_row \<Rightarrow> pystr" where
  "author_uid e = or_default (en_author e) (S ''0'')"

definition comment_parent_kwargs :: "shower \<Rightarrow> jdict \<Rightarrow> compat_db \<Rightarrow> compat_error + jdict" where
  "comment_parent_kwargs show payload d =
     (let parent_public_id = py_strip (j_text show (jget payload ''parent_public_id'')) in
      if parent_public_id = [] then Inr []
      else and_then (local_entity show Comment (JStr parent_public_id) d) (\<lambda>parent.
           and_then (require_upstream_id show Comment (JStr parent_public_id) d) (\<lambda>main_id.
             Inr [(S ''main_id'', JStr main_id), (S ''main_owner'', JStr (author_uid parent))])))"

definition comment_publish_call :: "shower \<Rightarrow> jdict \<Rightarrow> compat_db \<Rightarrow> compat_error + compat_call" where
  "comment_publish_call show payload d =
     and_then (nonempty_text show (jget payload ''post_public_id'') 40 ''post_id_missing'') (\<lambda>post_public_id.
     and_then (nonempty_text show (jget payload ''comment_public_id'') 40 ''comment_id_missing'') (\<lambda>comment_public_id.
     and_then (local_entity show Post (JStr post_public_id) d) (\<lambda>post.
     and_then (require_upstream_id show Post (JStr post_public_id) d) (\<lambda>upstream_post_id.
     and_then (nonempty_text show (jget payload ''body'') 500 ''comment_body_missing'') (\<lambda>text_body.
     and_then (comment_parent_kwargs show payload d) (\<lambda>kwargs.
       Inr ((mk_call ''social'' ''send_comment'' [text_body, upstream_post_id, author_uid post])
         \<lparr>cc_kwargs := kwargs, cc_accept_empty := True, cc_replay_safe := False,
          cc_binding := Some (Comment, comment_public_id)\<rparr>)))))))"

definition comment_change_call :: "shower \<Rightarrow> pystr \<Rightarrow> jdict \<Rightarrow> compat_db \<Rightarrow> compat_error + compat_call" where
  "comment_change_call show operation payload d =
     and_then (nonempty_text show (jget payload ''comment_public_id'') 40 ''comment_id_missing'') (\<lambda>public_id.
     and_then (require_upstream_id show Comment (JStr public_id) d) (\<lambda>upstream_id.
       if operation = compat_op ''social.comment.delete'' then
         Inr ((mk_call ''social'' ''delete_comment'' [upstream_id])\<lparr>cc_accept_empty := True\<rparr>)
       else if \<not> j_truthy (jget payload ''hidden'') then permanent ''comment_unhide_not_mappable''
       else Inr ((mk_call ''social'' ''forbid_comment'' [upstream_id])\<lparr>cc_accept_empty := True\<rparr>)))"

definition report_reason :: "shower \<Rightarrow> jdict \<Rightarrow> pystr" where
  "report_reason show payload =
     (let code = py_strip (j_text show (jget payload ''reason_code''));
          detail = py_strip (j_text show (jget payload ''reason_text''));
          joined = (if code = [] then detail else if detail = [] then code else code @ S '': '' @ detail) in
      take 1000 joined)"

definition report_call :: "shower \<Rightarrow> jdict \<Rightarrow> compat_db \<Rightarrow> compat_error + compat_call" where
  "report_call show payload d =
     (let target_type = py_lower (py_strip (j_text show (jget payload ''target_type''))) in
      if target_type \<notin> {S ''post'', S ''comment''} then permanent ''report_target_not_mappable''
      else and_then (nonempty_text show (jget payload ''target_public_id'') 40 ''report_target_missing'') (\<lambda>public_id.
           and_then (require_upstream_id show (if target_type = S ''post'' then Post else Comment) (JStr public_id) d)
             (\<lambda>upstream_id.
               let reason = report_reason show payload in
               Inr ((mk_call ''social'' ''report''
                       [target_type, upstream_id, if reason = [] then S ''web report'' else reason])
                     \<lparr>cc_replay_safe := False\<rparr>))))"

definition prepare_moments_call ::
  "shower \<Rightarrow> pystr \<Rightarrow> jdict \<Rightarrow> compat_db \<Rightarrow> compat_error + compat_call" where
  "prepare_moments_call show operation outer d =
     and_then (moment_payload outer) (\<lambda>payload.
       if operation = compat_op ''social.topic.create'' then topic_create_call show payload
       else if operation = compat_op ''social.post.publish'' then post_publish_call show payload
       else if operation \<in> {compat_op ''social.post.pin'', compat_op ''social.post.comment-policy'',
                            compat_op ''social.reaction.like''}
       then permanent ''non_idempotent_toggle_not_mappable''
       else if operation \<in> {compat_op ''social.post.delete'', compat_op ''social.post.visibility'',
                            compat_op ''social.post.view''}
       then post_change_call show operation payload d
       else if operation = compat_op ''social.comment.publish'' then comment_publish_call show payload d
       else if operation \<in> {compat_op ''social.comment.delete'', compat_op ''social.comment.moderate''}
       then comment_change_call show operation payload d
       else if operation = compat_op ''social.report.create'' then report_call show payload d
       else permanent ''unsupported_moments_compatibility_operation'')"

section \<open>The call of an operation\<close>

definition SOCIAL_CALL_OPERATIONS :: "pystr list" where
  "SOCIAL_CALL_OPERATIONS = map compat_op
     [''social.follow'', ''social.unfollow'', ''social.add-friend'', ''social.agree-friend'', ''social.reject-friend'',
      ''social.cancel-friend'', ''social.delete-friend'', ''social.blacklist-add'', ''social.blacklist-del'',
      ''social.visit'']"

definition prepare_call :: "shower \<Rightarrow> pystr \<Rightarrow> jdict \<Rightarrow> compat_db \<Rightarrow> compat_error + compat_call" where
  "prepare_call show operation payload d =
     (if operation \<notin> set RECOGNIZED_OPERATION_TYPES then permanent ''unknown_compatibility_operation''
      else if py_startswith operation (S ''compatibility.profile.'') \<or> operation \<in> set SOCIAL_CALL_OPERATIONS
      then prepare_social_call show operation payload
      else prepare_moments_call show operation payload d)"

end
