(* ===== verification/Compat_Outbox.thy ===== *)
theory Compat_Outbox
  imports Compat_Calls Store_Rows
begin

text \<open>
  The outbox of optional legacy mirrors: writing a row (\<^verbatim>\<open>OperationOutboxRepository.enqueue\<close> and its two
  callers), claiming a batch, settling a claim, the provider call, the binding of the identifier the
  provider returned, one whole batch (\<^verbatim>\<open>dispatch_due\<close>), and the retirement command of
  \<^verbatim>\<open>bbw_prod/compatibility_retirement.py\<close>.

  Every transaction of the code is one function on the tables.  Between two transactions of a worker
  the rest of the system may do anything to them: that is the parameter \<open>others\<close>.
\<close>

section \<open>Outside the worker\<close>

record session_state =
  ss_uid :: pystr
  ss_token :: pystr
  ss_phone :: pystr
  ss_nickname :: pystr
  ss_fields :: "(string \<times> pystr) list"
  ss_raw_user :: jdict
  ss_device_data :: jdict

record provider_result =
  pr_ok :: bool
  pr_status :: int
  pr_kind :: pystr
  pr_code :: pystr
  pr_data :: json

datatype invoke_outcome =
    No_method
  | Raises_dispatch compat_error
  | Raises pystr
  | Returns provider_result

text \<open>
  \<open>id_digest\<close> is \<^verbatim>\<open>hashlib.sha256(id.bytes).hexdigest()\<close>; \<open>decrypt\<close> the cipher (nothing when it raises);
  \<open>restore_runtime\<close> the provider's session (nothing when it raises, else whether it is logged in);
  \<open>upstream\<close> the answer of the legacy provider to the call of a claim; \<open>bind_fails\<close> whether the database refuses the binding; \<open>clock_at\<close> the times the
  worker reads.
\<close>

record compat_env = social_env +
  id_digest :: "uuid \<Rightarrow> pystr"
  decrypt :: "jdict \<Rightarrow> string \<Rightarrow> pystr \<Rightarrow> pystr option"
  restore_runtime :: "session_state \<Rightarrow> bool option"
  upstream :: "claimed_operation \<Rightarrow> compat_call \<Rightarrow> invoke_outcome"
  others :: "claimed_operation \<Rightarrow> nat \<Rightarrow> compat_db \<Rightarrow> compat_db"
  bind_fails :: "claimed_operation \<Rightarrow> bool"
  clock_at :: "claimed_operation \<Rightarrow> nat \<Rightarrow> instant"

section \<open>Writing a row\<close>

definition COMPATIBILITY_CANCELLED_REASON :: pystr where
  "COMPATIBILITY_CANCELLED_REASON = S ''legacy_compatibility_retired''"

text \<open>The values of a new row are a row with the column defaults filled in.\<close>

definition outbox_defaults :: "uuid \<Rightarrow> uuid \<Rightarrow> pystr \<Rightarrow> pystr \<Rightarrow> instant \<Rightarrow> outbox_row" where
  "outbox_defaults rid owner type_text key now =
     \<lparr>ob_id = rid, ob_owner = owner, ob_type = type_text, ob_key = key, ob_aggregate_type = None,
      ob_aggregate_id = None, ob_payload = [], ob_status = ''pending'', ob_attempts = 0, ob_max = 8,
      ob_available = now, ob_created = now, ob_locked_until = None, ob_locked_by = None, ob_completed = None,
      ob_last_error = None\<rparr>"

definition same_outbox_key :: "outbox_row \<Rightarrow> outbox_row \<Rightarrow> bool" where
  "same_outbox_key v r \<longleftrightarrow> ob_owner r = ob_owner v \<and> ob_type r = ob_type v \<and> ob_key r = ob_key v"

definition enqueue_values :: "compat_mode \<Rightarrow> instant \<Rightarrow> outbox_row \<Rightarrow> outbox_row" where
  "enqueue_values mode now v =
     (if (ob_status v = '''' \<or> ob_status v = ''pending'')
         \<and> new_compatibility_outbox_status (ob_type v) mode = ''cancelled''
      then v\<lparr>ob_status := ''cancelled'',
             ob_completed := Some (case ob_completed v of Some t \<Rightarrow> t | None \<Rightarrow> now),
             ob_last_error := Some COMPATIBILITY_CANCELLED_REASON, ob_locked_by := None, ob_locked_until := None\<rparr>
      else v)"

definition enqueue_outbox :: "compat_mode \<Rightarrow> instant \<Rightarrow> outbox_row \<Rightarrow> compat_db \<Rightarrow> compat_db \<times> outbox_row \<times> bool" where
  "enqueue_outbox mode now v d =
     (let row = enqueue_values mode now v in
      case find (same_outbox_key row) (cd_outbox d) of
        Some existing \<Rightarrow> (d, existing, False)
      | None \<Rightarrow> (d\<lparr>cd_outbox := cd_outbox d @ [row]\<rparr>, row, True))"

text \<open>\<^verbatim>\<open>_enqueue_mirror\<close> of the moments routes and \<^verbatim>\<open>_enqueue_compatibility\<close> of the social routes.\<close>

record mirror_intent =
  mi_type :: pystr
  mi_aggregate :: pystr
  mi_public :: pystr
  mi_key :: pystr
  mi_payload :: jdict

definition terminal_values :: "pystr \<Rightarrow> instant \<Rightarrow> outbox_row \<Rightarrow> outbox_row" where
  "terminal_values reason now v =
     (if reason = [] then v
      else v\<lparr>ob_status := ''cancelled'', ob_completed := Some now, ob_last_error := Some (take 2000 reason)\<rparr>)"

definition mirror_row :: "uuid \<Rightarrow> uuid \<Rightarrow> mirror_intent \<Rightarrow> pystr \<Rightarrow> instant \<Rightarrow> outbox_row" where
  "mirror_row rid owner intent not_mappable_reason now =
     terminal_values (py_strip not_mappable_reason) now
       ((outbox_defaults rid owner (take 96 (S ''compatibility.'' @ mi_type intent)) (take 160 (mi_key intent)) now)
        \<lparr>ob_aggregate_type := Some (take 80 (mi_aggregate intent)),
         ob_aggregate_id := Some (take 128 (mi_public intent)),
         ob_payload :=
           [(S ''authority'', JStr (S ''web-local'')), (S ''aggregate_public_id'', JStr (mi_public intent)),
            (S ''operation'', JStr (mi_type intent)), (S ''payload'', JObj (mi_payload intent)),
            (S ''schema'', JInt 1)]\<rparr>)"

definition row_status_or_pending :: "outbox_row \<Rightarrow> string" where
  "row_status_or_pending r = (if ob_status r = '''' then ''pending'' else ob_status r)"

definition enqueue_mirror ::
  "compat_mode \<Rightarrow> uuid \<Rightarrow> uuid \<Rightarrow> mirror_intent option \<Rightarrow> pystr \<Rightarrow> instant \<Rightarrow> compat_db \<Rightarrow> compat_db \<times> string" where
  "enqueue_mirror mode rid owner intent not_mappable_reason now d =
     (case intent of
        None \<Rightarrow> (d, ''not-required'')
      | Some i \<Rightarrow>
          (let (d', row, created) = enqueue_outbox mode now (mirror_row rid owner i not_mappable_reason now) d;
               status = row_status_or_pending row in
           (d', if created \<or> status \<noteq> ''pending'' then status else ''already-pending'')))"

fun json_safe :: "json \<Rightarrow> json" where
  "json_safe (JObj kvs) =
     JObj (map (\<lambda>(k, v). (k, json_safe v))
       (filter (\<lambda>(k, v). py_lower k \<notin> {S ''password'', S ''token'', S ''authorization''}) kvs))"
| "json_safe (JList xs) = JList (map json_safe xs)"
| "json_safe j = j"

text \<open>\<^verbatim>\<open>path.replace("/api/", ".").replace("/", ".")\<close>\<close>

function replace_api :: "pystr \<Rightarrow> pystr" where
  "replace_api s =
     (if take 5 s = S ''/api/'' then 46 # replace_api (drop 5 s)
      else case s of [] \<Rightarrow> [] | c # cs \<Rightarrow> c # replace_api cs)"
  by pat_completeness auto
termination
  by (relation "measure length") (auto simp: S_def intro!: diff_less)

declare replace_api.simps [simp del]

definition path_operation :: "pystr \<Rightarrow> pystr" where
  "path_operation path = S ''compatibility'' @ map (\<lambda>c. if c = 47 then 46 else c) (replace_api path)"

definition compatibility_row ::
  "uuid \<Rightarrow> uuid \<Rightarrow> pystr \<Rightarrow> pystr \<Rightarrow> pystr \<Rightarrow> jdict \<Rightarrow> pystr \<Rightarrow> pystr \<Rightarrow> instant \<Rightarrow> outbox_row" where
  "compatibility_row rid owner actor_uid operation_id path body target not_mappable_reason now =
     terminal_values (py_strip not_mappable_reason) now
       ((outbox_defaults rid owner (take 96 (path_operation path)) operation_id now)
        \<lparr>ob_aggregate_type := Some (S ''social-native''),
         ob_aggregate_id := Some (take 128 (if target = [] then actor_uid else target)),
         ob_payload :=
           [(S ''authority'', JStr (S SOCIAL_NATIVE_PROVIDER)), (S ''method'', JStr (S ''POST'')), (S ''path'', JStr path),
            (S ''actor_uid'', JStr actor_uid), (S ''target_uid'', JStr target),
            (S ''body'', json_safe (JObj body)), (S ''schema'', JInt SOCIAL_NATIVE_SCHEMA)]\<rparr>)"

definition enqueue_compatibility ::
  "compat_mode \<Rightarrow> uuid \<Rightarrow> uuid \<Rightarrow> pystr \<Rightarrow> pystr \<Rightarrow> pystr \<Rightarrow> jdict \<Rightarrow> pystr \<Rightarrow> pystr \<Rightarrow> instant \<Rightarrow> compat_db
     \<Rightarrow> compat_db \<times> string" where
  "enqueue_compatibility mode rid owner actor_uid operation_id path body target not_mappable_reason now d =
     (let (d', row, created) = enqueue_outbox mode now
            (compatibility_row rid owner actor_uid operation_id path body target not_mappable_reason now) d in
      (d', row_status_or_pending row))"

section \<open>Claiming\<close>

definition MAX_BATCH_SIZE :: int where "MAX_BATCH_SIZE = 100"

definition ordinary_compatibility :: "outbox_row \<Rightarrow> bool" where
  "ordinary_compatibility r \<longleftrightarrow>
     py_startswith (ob_type r) (S ''compatibility.'') \<and> \<not> py_startswith (ob_type r) (S ''compatibility.media.archive'')"

definition unlocked :: "instant \<Rightarrow> outbox_row \<Rightarrow> bool" where
  "unlocked now r \<longleftrightarrow> (case ob_locked_until r of None \<Rightarrow> True | Some t \<Rightarrow> t \<le> now)"

definition due_row :: "instant \<Rightarrow> outbox_row \<Rightarrow> bool" where
  "due_row now r \<longleftrightarrow> ob_status r \<in> {''pending'', ''retry''} \<and> ob_available r \<le> now \<and> unlocked now r"

definition abandoned_row :: "instant \<Rightarrow> outbox_row \<Rightarrow> bool" where
  "abandoned_row now r \<longleftrightarrow> ob_status r = ''processing'' \<and> unlocked now r"

definition claimable_row :: "instant \<Rightarrow> outbox_row \<Rightarrow> bool" where
  "claimable_row now r \<longleftrightarrow>
     ordinary_compatibility r \<and> ob_type r \<notin> {S ''media.archive'', S ''compatibility.media.archive''}
     \<and> (due_row now r \<or> abandoned_row now r)"

text \<open>\<open>locked\<close>: the rows another open transaction holds, which \<^verbatim>\<open>SKIP LOCKED\<close> leaves out.\<close>

definition claim_statement :: "uuid list \<Rightarrow> instant \<Rightarrow> int \<Rightarrow> compat_db \<Rightarrow> outbox_row list" where
  "claim_statement locked now limit d =
     take (nat (max 1 (min limit MAX_BATCH_SIZE)))
       (sort_key ob_available (sort_key ob_created (sort_key ob_id
         (filter (\<lambda>r. claimable_row now r \<and> ob_id r \<notin> set locked) (cd_outbox d)))))"

definition attempt_budget :: "outbox_row \<Rightarrow> nat" where
  "attempt_budget r = (if ob_max r = 0 then 1 else ob_max r)"

definition exhausted :: "outbox_row \<Rightarrow> bool" where
  "exhausted r \<longleftrightarrow> attempt_budget r \<le> ob_attempts r"

definition exhausted_row :: "instant \<Rightarrow> outbox_row \<Rightarrow> outbox_row" where
  "exhausted_row now r =
     r\<lparr>ob_status := ''failed'', ob_completed := Some now, ob_locked_by := None, ob_locked_until := None,
       ob_last_error := Some (or_default (ob_last_error r) (S ''compatibility_retry_budget_exhausted''))\<rparr>"

definition processing_row :: "pystr \<Rightarrow> instant \<Rightarrow> outbox_row \<Rightarrow> outbox_row" where
  "processing_row worker until r =
     r\<lparr>ob_status := ''processing'', ob_attempts := ob_attempts r + 1, ob_locked_by := Some worker,
       ob_locked_until := Some until, ob_last_error := None\<rparr>"

definition claim_row :: "pystr \<Rightarrow> instant \<Rightarrow> instant \<Rightarrow> outbox_row \<Rightarrow> outbox_row" where
  "claim_row worker until now r =
     (if exhausted r then exhausted_row now r else processing_row worker until r)"

definition claimed_view :: "pystr \<Rightarrow> outbox_row \<Rightarrow> claimed_operation" where
  "claimed_view worker r =
     \<lparr>cl_id = ob_id r, cl_owner = ob_owner r, cl_type = ob_type r,
      cl_aggregate_type = or_default (ob_aggregate_type r) [], cl_aggregate_id = or_default (ob_aggregate_id r) [],
      cl_payload = ob_payload r, cl_attempt = ob_attempts r, cl_max = ob_max r, cl_worker = worker\<rparr>"

definition claim_due ::
  "pystr \<Rightarrow> uuid list \<Rightarrow> int \<Rightarrow> int \<Rightarrow> instant \<Rightarrow> compat_db \<Rightarrow> compat_db \<times> claimed_operation list" where
  "claim_due worker locked limit lease now d =
     (let until = now + seconds (max 30 (min lease 1800));
          rows = claim_statement locked now limit d;
          ids = map ob_id rows in
      (d\<lparr>cd_outbox := update_where (\<lambda>r. ob_id r \<in> set ids) (claim_row worker until now) (cd_outbox d)\<rparr>,
       map (claimed_view worker \<circ> claim_row worker until now) (filter (\<lambda>r. \<not> exhausted r) rows)))"

section \<open>Settling a claim\<close>

definition MAX_BACKOFF_SECONDS :: nat where "MAX_BACKOFF_SECONDS = 3600"

definition from_hex :: "nat \<Rightarrow> nat" where
  "from_hex c = (if c \<le> 57 then c - 48 else c - 87)"

definition hex_number :: "pystr \<Rightarrow> nat" where
  "hex_number s = foldl (\<lambda>n c. 16 * n + from_hex c) 0 s"

definition retry_base :: "nat \<Rightarrow> nat" where
  "retry_base attempt = min MAX_BACKOFF_SECONDS (15 * 2 ^ min (attempt - 1) 8)"

text \<open>The delay in seconds.\<close>

definition retry_delay :: "compat_env \<Rightarrow> uuid \<Rightarrow> nat \<Rightarrow> nat" where
  "retry_delay E operation_id attempt =
     (let base = retry_base attempt;
          jitter = hex_number (take 4 (id_digest E operation_id)) mod max 1 (base div 5) in
      min MAX_BACKOFF_SECONDS (base + jitter))"

datatype claim_settlement = Stale | Completed | Failed | Retried

definition held_by :: "claimed_operation \<Rightarrow> outbox_row \<Rightarrow> bool" where
  "held_by c r \<longleftrightarrow> ob_id r = cl_id c \<and> ob_status r = ''processing'' \<and> ob_locked_by r = Some (cl_worker c)"

definition completed_row :: "instant \<Rightarrow> outbox_row \<Rightarrow> outbox_row" where
  "completed_row now r =
     r\<lparr>ob_locked_by := None, ob_locked_until := None, ob_status := ''completed'', ob_completed := Some now,
       ob_last_error := None\<rparr>"

definition failed_row :: "instant \<Rightarrow> compat_error \<Rightarrow> outbox_row \<Rightarrow> outbox_row" where
  "failed_row now e r =
     r\<lparr>ob_locked_by := None, ob_locked_until := None, ob_status := ''failed'', ob_completed := Some now,
       ob_last_error := Some (error_code e)\<rparr>"

definition retry_row :: "compat_env \<Rightarrow> instant \<Rightarrow> compat_error \<Rightarrow> outbox_row \<Rightarrow> outbox_row" where
  "retry_row E now e r =
     r\<lparr>ob_locked_by := None, ob_locked_until := None, ob_status := ''retry'', ob_completed := None,
       ob_available := now + seconds (int (retry_delay E (ob_id r) (if ob_attempts r = 0 then 1 else ob_attempts r))),
       ob_last_error := Some (error_code e)\<rparr>"

definition settle_row ::
  "compat_env \<Rightarrow> instant \<Rightarrow> compat_error option \<Rightarrow> outbox_row \<Rightarrow> outbox_row \<times> claim_settlement" where
  "settle_row E now error r =
     (case error of
        None \<Rightarrow> (completed_row now r, Completed)
      | Some e \<Rightarrow>
          if \<not> error_retryable e \<or> exhausted r then (failed_row now e r, Failed)
          else (retry_row E now e r, Retried))"

definition finalize_claim ::
  "compat_env \<Rightarrow> claimed_operation \<Rightarrow> instant \<Rightarrow> compat_error option \<Rightarrow> compat_db \<Rightarrow> compat_db \<times> claim_settlement" where
  "finalize_claim E c now error d =
     (case find (held_by c) (cd_outbox d) of
        None \<Rightarrow> (d, Stale)
      | Some r \<Rightarrow>
          (d\<lparr>cd_outbox := update_where (\<lambda>x. ob_id x = ob_id r) (\<lambda>_. fst (settle_row E now error r)) (cd_outbox d)\<rparr>,
           snd (settle_row E now error r)))"

definition claim_still_processing :: "claimed_operation \<Rightarrow> compat_db \<Rightarrow> bool" where
  "claim_still_processing c d \<longleftrightarrow> (\<exists>r \<in> set (cd_outbox d). held_by c r)"

end
