(* ===== verification/Compat_Dispatch.thy ===== *)
theory Compat_Dispatch
  imports Compat_Outbox
begin

text \<open>
  Carrying a claim to the provider: the account of the owner, the isolated session, the call and its
  answer, the binding of the identifier the provider returned, a whole batch (\<^verbatim>\<open>dispatch_due\<close>),
  and the retirement command.
\<close>

section \<open>The account and the session\<close>

definition LEGACY_PROVIDER :: string where "LEGACY_PROVIDER = ''beibeiwu''"

record runtime_account =
  ra_account :: uuid
  ra_uid :: pystr
  ra_login :: jdict
  ra_token :: jdict
  ra_expires :: "instant option"
  ra_display :: pystr
  ra_profile :: jdict
  ra_device :: jdict

definition load_runtime_account :: "uuid \<Rightarrow> compat_db \<Rightarrow> compat_error + runtime_account" where
  "load_runtime_account owner d =
     (case find (\<lambda>a. ca_user a = owner \<and> ca_provider a = LEGACY_PROVIDER) (cd_accounts d) of
        None \<Rightarrow> permanent ''legacy_account_binding_missing''
      | Some a \<Rightarrow>
          let uid = py_strip (or_default (ca_uid a) []) in
          if ca_user_status a \<noteq> ''active'' \<or> ca_user_disabled a then permanent ''local_user_inactive''
          else if \<not> ca_sync_enabled a then permanent ''legacy_sync_disabled''
          else if uid = [] \<or> uid = S ''0'' then permanent ''legacy_upstream_uid_missing''
          else case ca_login a of
                 None \<Rightarrow> permanent ''legacy_login_credential_missing''
               | Some login \<Rightarrow>
                   (case ca_token a of
                      None \<Rightarrow> retryable ''legacy_login_token_missing''
                    | Some token \<Rightarrow>
                        Inr \<lparr>ra_account = ca_id a, ra_uid = uid, ra_login = login, ra_token = token,
                             ra_expires = ca_token_expires a, ra_display = ca_display a, ra_profile = ca_profile a,
                             ra_device = ca_device a\<rparr>))"

definition credential_context :: "compat_env \<Rightarrow> uuid \<Rightarrow> string \<Rightarrow> pystr" where
  "credential_context E account name = S ''external-account:'' @ uuid_str E account @ S '':'' @ S name"

definition session_fields :: "shower \<Rightarrow> jdict \<Rightarrow> (string \<times> pystr) list" where
  "session_fields show data =
     map (\<lambda>(key, default). (key, j_default show (jget data key) (S default)))
       [(''user_role'', []), (''rp_verify_time'', ''0''), (''vip'', ''0''), (''svip'', ''0''), (''money'', ''0''),
        (''portrait'', []), (''user_sign'', []), (''login_id'', [])]"

definition session_of :: "compat_env \<Rightarrow> runtime_account \<Rightarrow> pystr \<Rightarrow> pystr \<Rightarrow> session_state" where
  "session_of E a login token =
     \<lparr>ss_uid = ra_uid a, ss_token = token, ss_phone = login, ss_nickname = ra_display a,
      ss_fields = session_fields (py_repr E) (ra_device a), ss_raw_user = ra_profile a, ss_device_data = ra_device a\<rparr>"

definition create_runtime :: "compat_env \<Rightarrow> runtime_account \<Rightarrow> instant \<Rightarrow> compat_error + session_state" where
  "create_runtime E a now =
     (if (case ra_expires a of Some t \<Rightarrow> t \<le> now | None \<Rightarrow> False) then retryable ''legacy_login_token_expired''
      else case (decrypt E (ra_login a) ''external-account.login'' (credential_context E (ra_account a) ''login''),
                 decrypt E (ra_token a) ''external-account.token'' (credential_context E (ra_account a) ''token'')) of
             (Some login, Some token) \<Rightarrow>
               if py_strip token = [] \<or> py_strip token = S ''0'' then retryable ''legacy_login_token_missing''
               else (case restore_runtime E (session_of E a login token) of
                       None \<Rightarrow> retryable ''legacy_runtime_restore_failed''
                     | Some logged_in \<Rightarrow>
                         if logged_in then Inr (session_of E a login token)
                         else retryable ''legacy_runtime_not_logged_in'')
           | _ \<Rightarrow> permanent ''legacy_credential_decryption_failed'')"

section \<open>The call\<close>

definition NOT_SENT_EXCEPTIONS :: "pystr list" where
  "NOT_SENT_EXCEPTIONS = map S [''ConnectError'', ''ConnectTimeout'', ''ConnectionError'', ''NameResolutionError'']"

definition invoke :: "compat_call \<Rightarrow> invoke_outcome \<Rightarrow> compat_error + provider_result" where
  "invoke call answer =
     (case answer of
        No_method \<Rightarrow> permanent ''provider_method_unavailable''
      | Raises_dispatch e \<Rightarrow> Inl e
      | Raises name \<Rightarrow>
          if cc_replay_safe call \<or> name \<in> set NOT_SENT_EXCEPTIONS
          then Inl (Retryable (stable_error_code (S ''provider_call_exception.'' @ name)))
          else permanent ''provider_call_outcome_ambiguous''
      | Returns r \<Rightarrow> Inr r)"

definition rejection_code :: "provider_result \<Rightarrow> pystr" where
  "rejection_code r =
     stable_error_code (S ''provider_rejected.'' @ py_str (PInt (pr_status r)) @ S ''.''
       @ stable_error_code (if pr_code r = [] then S ''unknown'' else pr_code r))"

definition ensure_success :: "provider_result \<Rightarrow> compat_call \<Rightarrow> compat_error + unit" where
  "ensure_success r call =
     (let status = pr_status r in
      if pr_ok r then Inr ()
      else if cc_accept_empty call \<and> pr_kind r = S ''empty'' \<and> 200 \<le> status \<and> status < 300 then Inr ()
      else if status \<in> {408, 425, 429} \<or> 500 \<le> status then Inl (Retryable (rejection_code r))
      else if status \<le> 0 \<or> 200 \<le> status \<and> status < 300 then
        (if cc_replay_safe call then Inl (Retryable (rejection_code r))
         else permanent ''provider_result_outcome_ambiguous'')
      else if status \<in> {401, 403} \<and> cc_replay_safe call then Inl (Retryable (rejection_code r))
      else Inl (Permanent (rejection_code r)))"

section \<open>The identifier in an answer\<close>

definition usable_upstream_id :: "pystr \<Rightarrow> bool" where
  "usable_upstream_id s \<longleftrightarrow>
     s \<noteq> [] \<and> s \<noteq> S ''0'' \<and> length s \<le> 256 \<and> \<not> (\<exists>k \<in> {Post, Comment, Topic}. py_startswith s (local_prefix k))"

fun scalar_id :: "shower \<Rightarrow> json \<Rightarrow> pystr" where
  "scalar_id show (JObj kvs) = []"
| "scalar_id show (JList xs) = []"
| "scalar_id show j =
     (let normalized = py_strip (j_text show j) in if usable_upstream_id normalized then normalized else [])"

fun first_text :: "pystr list \<Rightarrow> pystr" where
  "first_text [] = []"
| "first_text (t # ts) = (if t \<noteq> [] then t else first_text ts)"

definition NESTED_ID_KEYS :: "string list" where
  "NESTED_ID_KEYS = [''post'', ''comment'', ''topic'', ''data'', ''item'', ''result'', ''json_obj'']"

lemma map_of_json_size [termination_simp]:
  "map_of kvs k = Some v \<Longrightarrow> size v < Suc (size_list (\<lambda>x. Suc (size (snd x))) kvs)"
  by (induction kvs) (auto split: if_splits)

lemma take_json_size [termination_simp]: "x \<in> set (take n xs) \<Longrightarrow> size x < Suc (size_list size xs)"
  by (drule in_set_takeD) (induction xs, auto)

fun candidate_upstream_id :: "shower \<Rightarrow> json \<Rightarrow> string list \<Rightarrow> bool \<Rightarrow> pystr" where
  "candidate_upstream_id show (JObj kvs) keys allow_generic =
     first_text
       (map (\<lambda>k. scalar_id show (jget kvs k)) (filter (\<lambda>k. k \<noteq> ''id'') keys)
        @ map (\<lambda>k. case map_of kvs (S k) of None \<Rightarrow> [] | Some v \<Rightarrow> candidate_upstream_id show v keys True) NESTED_ID_KEYS
        @ (if allow_generic \<and> ''id'' \<in> set keys then [scalar_id show (jget kvs ''id'')] else []))"
| "candidate_upstream_id show (JList xs) keys allow_generic =
     first_text (map (\<lambda>x. candidate_upstream_id show x keys True) (take 10 xs))"
| "candidate_upstream_id show j keys allow_generic = []"

fun id_keys :: "entity_kind \<Rightarrow> string list" where
  "id_keys Post = [''post_id'', ''postid'', ''postId'', ''id'']"
| "id_keys Comment = [''comment_id'', ''commentID'', ''commentId'', ''id'']"
| "id_keys Topic = [''topic_id'', ''topicid'', ''topicId'', ''id'']"

definition extract_upstream_id :: "shower \<Rightarrow> provider_result \<Rightarrow> entity_kind \<Rightarrow> pystr" where
  "extract_upstream_id show r kind = candidate_upstream_id show (pr_data r) (id_keys kind) False"

section \<open>Binding\<close>

definition binding_digest :: "compat_env \<Rightarrow> entity_kind \<Rightarrow> entity_row \<Rightarrow> pystr \<Rightarrow> pystr \<Rightarrow> pystr" where
  "binding_digest E kind local public_id upstream_id =
     (let digest = or_default (en_digest local) [] in
      if length digest \<noteq> 64
      then sha256 E (S (entity_name kind) @ 10 # uuid_str E (en_id local) @ 10 # public_id @ 10 # upstream_id)
      else digest)"

definition new_binding ::
  "compat_env \<Rightarrow> entity_kind \<Rightarrow> entity_row \<Rightarrow> pystr \<Rightarrow> pystr \<Rightarrow> uuid \<Rightarrow> instant \<Rightarrow> binding_row" where
  "new_binding E kind local public_id upstream_id owner now =
     \<lparr>lb_kind = kind, lb_upstream = upstream_id, lb_local = en_id local, lb_public = public_id, lb_importer = owner,
      lb_source_created =
        (case en_source_created local of Some t \<Rightarrow> t
         | None \<Rightarrow> (case en_created local of Some t \<Rightarrow> t | None \<Rightarrow> now)),
      lb_digest = binding_digest E kind local public_id upstream_id, lb_created = now\<rparr>"

definition bind_upstream_id ::
  "compat_env \<Rightarrow> entity_kind \<times> pystr \<Rightarrow> pystr \<Rightarrow> uuid \<Rightarrow> instant \<Rightarrow> compat_db \<Rightarrow> compat_error + compat_db \<times> bool" where
  "bind_upstream_id E target upstream_id owner now d =
     (let kind = fst target in
      case find_entity kind (snd target) d of
        None \<Rightarrow> permanent (''local_'' @ entity_name kind @ ''_missing_after_mirror'')
      | Some local \<Rightarrow>
          (case find (\<lambda>b. lb_kind b = kind \<and> lb_local b = en_id local) (cd_bindings d) of
             Some b \<Rightarrow>
               if lb_upstream b \<noteq> upstream_id then permanent ''upstream_binding_conflict'' else Inr (d, False)
           | None \<Rightarrow>
               (case find (\<lambda>b. lb_kind b = kind \<and> lb_upstream b = upstream_id) (cd_bindings d) of
                  Some b \<Rightarrow>
                    if lb_local b \<noteq> en_id local then permanent ''upstream_binding_conflict'' else Inr (d, False)
                | None \<Rightarrow>
                    Inr (d\<lparr>cd_bindings := cd_bindings d
                            @ [new_binding E kind local (snd target) upstream_id owner now]\<rparr>, True))))"

section \<open>One claim\<close>

text \<open>The first transaction: the call, the account, and that the account is the actor's.\<close>

definition prepare_claim :: "compat_env \<Rightarrow> claimed_operation \<Rightarrow> compat_db \<Rightarrow> compat_error + compat_call \<times> runtime_account" where
  "prepare_claim E c d =
     and_then (prepare_call (py_repr E) (cl_type c) (cl_payload c) d) (\<lambda>call.
     and_then (load_runtime_account (cl_owner c) d) (\<lambda>a.
       let payload_actor = py_strip (j_text (py_repr E) (jget (cl_payload c) ''actor_uid'')) in
       if payload_actor \<noteq> [] \<and> payload_actor \<noteq> ra_uid a then permanent ''outbox_actor_binding_mismatch''
       else Inr (call, a)))"

definition check_claim :: "claimed_operation \<Rightarrow> compat_db \<Rightarrow> compat_error + unit" where
  "check_claim c d = (if claim_still_processing c d then Inr () else permanent ''compatibility_claim_cancelled'')"

definition call_provider :: "compat_env \<Rightarrow> claimed_operation \<Rightarrow> compat_call \<Rightarrow> compat_error + provider_result" where
  "call_provider E c call =
     and_then (invoke call (upstream E c call)) (\<lambda>r. and_then (ensure_success r call) (\<lambda>_. Inr r))"

text \<open>The last transaction; the flag tells that the provider's answer has no identifier.\<close>

definition bind_answer ::
  "compat_env \<Rightarrow> claimed_operation \<Rightarrow> compat_call \<Rightarrow> provider_result \<Rightarrow> instant \<Rightarrow> compat_db
     \<Rightarrow> compat_db \<times> (compat_error + bool)" where
  "bind_answer E c call r now d =
     (case cc_binding call of
        None \<Rightarrow> (d, Inr False)
      | Some target \<Rightarrow>
          (let upstream_id = extract_upstream_id (py_repr E) r (fst target) in
           if upstream_id = [] then (d, Inr True)
           else if bind_fails E c then (d, permanent ''binding_persistence_failed_after_upstream_success'')
           else case bind_upstream_id E target upstream_id (cl_owner c) now d of
                  Inl e \<Rightarrow> (d, Inl e)
                | Inr (d', _) \<Rightarrow> (d', Inr False)))"

text \<open>The tables after the claim, its result, and the calls that left for the provider: none or one.\<close>

definition execute_claim ::
  "compat_env \<Rightarrow> claimed_operation \<Rightarrow> instant \<Rightarrow> compat_db \<Rightarrow> compat_db \<times> (compat_error + bool) \<times> compat_call list" where
  "execute_claim E c now d0 =
     (case prepare_claim E c d0 of
        Inl e \<Rightarrow> (d0, Inl e, [])
      | Inr (call, a) \<Rightarrow>
          (let d1 = others E c 1 d0 in
           case and_then (check_claim c d1) (\<lambda>_. create_runtime E a now) of
             Inl e \<Rightarrow> (d1, Inl e, [])
           | Inr session \<Rightarrow>
               (let d2 = others E c 2 d1 in
                case check_claim c d2 of
                  Inl e \<Rightarrow> (d2, Inl e, [])
                | Inr _ \<Rightarrow>
                    (let d3 = others E c 3 d2 in
                     case call_provider E c call of
                       Inl e \<Rightarrow> (d3, Inl e, [call])
                     | Inr r \<Rightarrow>
                         (let (d4, res) = bind_answer E c call r now d3 in (d4, res, [call]))))))"

section \<open>A batch\<close>

record dispatch_summary =
  sm_claimed :: nat
  sm_completed :: nat
  sm_retried :: nat
  sm_failed :: nat
  sm_stale :: nat
  sm_unbound :: nat

definition empty_summary :: dispatch_summary where
  "empty_summary = \<lparr>sm_claimed = 0, sm_completed = 0, sm_retried = 0, sm_failed = 0, sm_stale = 0, sm_unbound = 0\<rparr>"

fun count_settlement :: "claim_settlement \<Rightarrow> dispatch_summary \<Rightarrow> dispatch_summary" where
  "count_settlement Stale m = m\<lparr>sm_stale := sm_stale m + 1\<rparr>"
| "count_settlement Completed m = m\<lparr>sm_completed := sm_completed m + 1\<rparr>"
| "count_settlement Failed m = m\<lparr>sm_failed := sm_failed m + 1\<rparr>"
| "count_settlement Retried m = m\<lparr>sm_retried := sm_retried m + 1\<rparr>"

text \<open>No usable keyring, or no provider: every claim is put back.\<close>

definition put_back_claim ::
  "compat_env \<Rightarrow> string \<Rightarrow> claimed_operation \<Rightarrow> compat_db \<times> dispatch_summary \<Rightarrow> compat_db \<times> dispatch_summary" where
  "put_back_claim E code c acc =
     (let (d, m) = acc;
          (d', st) = finalize_claim E c (clock_at E c 1) (Some (Retryable (stable_error_code (S code)))) (others E c 0 d) in
      (d', count_settlement st m))"

definition run_claim ::
  "compat_env \<Rightarrow> claimed_operation \<Rightarrow> compat_db \<times> dispatch_summary \<Rightarrow> compat_db \<times> dispatch_summary" where
  "run_claim E c acc =
     (let (d, m) = acc;
          (d', result, sent) = execute_claim E c (clock_at E c 0) (others E c 0 d);
          (d'', st) = finalize_claim E c (clock_at E c 1)
                        (case result of Inl e \<Rightarrow> Some e | Inr _ \<Rightarrow> None) (others E c 4 d');
          m' = count_settlement st m in
      (d'', if st = Completed \<and> result = Inr True then m'\<lparr>sm_unbound := sm_unbound m' + 1\<rparr> else m'))"

definition dispatch_due ::
  "compat_env \<Rightarrow> compat_mode \<Rightarrow> bool \<Rightarrow> bool \<Rightarrow> pystr \<Rightarrow> uuid list \<Rightarrow> int \<Rightarrow> int \<Rightarrow> instant \<Rightarrow> compat_db
     \<Rightarrow> compat_db \<times> dispatch_summary" where
  "dispatch_due E mode keyring provider worker locked limit lease now d =
     (if mode \<noteq> ENABLED then (d, empty_summary)
      else
        let (d1, claimed) = claim_due (take 128 worker) locked limit lease now d;
            m = empty_summary\<lparr>sm_claimed := length claimed\<rparr> in
        if claimed = [] then (d1, m)
        else if \<not> keyring then fold (put_back_claim E ''credential_keyring_unavailable'') claimed (d1, m)
        else if \<not> provider then fold (put_back_claim E ''legacy_provider_unavailable'') claimed (d1, m)
        else fold (run_claim E) claimed (d1, m))"

section \<open>Retirement\<close>

definition OUTBOX_TERMINAL_STATUSES :: "string list" where
  "OUTBOX_TERMINAL_STATUSES = [''completed'', ''cancelled'']"

definition TIM_TERMINAL_STATUSES :: "string list" where
  "TIM_TERMINAL_STATUSES = [''delivered'', ''cancelled'']"

record retirement_preview =
  rp_outbox :: "(pystr \<times> nat) list"
  rp_outbox_total :: nat
  rp_outbox_cancellable :: nat
  rp_media_excluded :: nat
  rp_tim :: "(pystr \<times> nat) list"
  rp_tim_total :: nat
  rp_tim_cancellable :: nat
  rp_required_excluded :: nat

text \<open>\<^verbatim>\<open>GROUP BY status\<close>, then the counts by normalised status, in the order of the statuses.\<close>

definition group_counts :: "string list \<Rightarrow> (string \<times> nat) list" where
  "group_counts statuses = map (\<lambda>s. (s, count_list statuses s)) (remdups statuses)"

definition normal_status :: "string \<Rightarrow> pystr" where
  "normal_status s = py_lower (py_strip (S (if s = [] then ''unknown'' else s)))"

definition add_count :: "string \<times> nat \<Rightarrow> (pystr \<times> nat) list \<Rightarrow> (pystr \<times> nat) list" where
  "add_count row counts =
     (let s = normal_status (fst row) in
      AList.update s ((case map_of counts s of None \<Rightarrow> 0 | Some n \<Rightarrow> n) + snd row) counts)"

definition status_counts :: "(string \<times> nat) list \<Rightarrow> (pystr \<times> nat) list" where
  "status_counts rows = sort_key fst (fold add_count rows [])"

definition total_count :: "(pystr \<times> nat) list \<Rightarrow> nat" where
  "total_count counts = sum_list (map snd counts)"

definition cancellable_count :: "string list \<Rightarrow> (pystr \<times> nat) list \<Rightarrow> nat" where
  "cancellable_count terminal counts = sum_list (map snd (filter (\<lambda>(s, n). s \<notin> set (map S terminal)) counts))"

definition optional_tim :: "delivery_row \<Rightarrow> bool" where
  "optional_tim r \<longleftrightarrow> dl_channel r = ''tim'' \<and> \<not> dl_required r"

definition inspect_retirement :: "compat_db \<Rightarrow> retirement_preview" where
  "inspect_retirement d =
     (let outbox = status_counts (group_counts (map ob_status (filter ordinary_compatibility (cd_outbox d))));
          tim = status_counts (group_counts (map dl_status (filter optional_tim (cd_deliveries d)))) in
      \<lparr>rp_outbox = outbox, rp_outbox_total = total_count outbox,
       rp_outbox_cancellable = cancellable_count OUTBOX_TERMINAL_STATUSES outbox,
       rp_media_excluded =
         length (filter (\<lambda>r. ob_type r = S ''media.archive''
                           \<or> py_startswith (ob_type r) (S ''compatibility.media.archive'')) (cd_outbox d)),
       rp_tim = tim, rp_tim_total = total_count tim,
       rp_tim_cancellable = cancellable_count TIM_TERMINAL_STATUSES tim,
       rp_required_excluded = length (filter (\<lambda>r. dl_channel r = ''tim'' \<and> dl_required r) (cd_deliveries d))\<rparr>)"

definition COMPATIBILITY_ARCHIVED_REASON :: pystr where
  "COMPATIBILITY_ARCHIVED_REASON = S ''legacy_compatibility_archived_by_operator''"

definition TIM_MIRROR_ARCHIVED_REASON :: pystr where
  "TIM_MIRROR_ARCHIVED_REASON = S ''optional_tim_mirror_archived_by_operator''"

definition archivable_row :: "outbox_row \<Rightarrow> bool" where
  "archivable_row r \<longleftrightarrow> ordinary_compatibility r \<and> ob_status r \<notin> set OUTBOX_TERMINAL_STATUSES"

definition archived_row :: "instant \<Rightarrow> outbox_row \<Rightarrow> outbox_row" where
  "archived_row now r =
     r\<lparr>ob_status := ''cancelled'', ob_completed := Some now, ob_locked_by := None, ob_locked_until := None,
       ob_last_error := Some COMPATIBILITY_ARCHIVED_REASON\<rparr>"

definition archivable_delivery :: "delivery_row \<Rightarrow> bool" where
  "archivable_delivery r \<longleftrightarrow> optional_tim r \<and> dl_status r \<notin> set TIM_TERMINAL_STATUSES"

definition archived_delivery :: "delivery_row \<Rightarrow> delivery_row" where
  "archived_delivery r =
     r\<lparr>dl_status := ''cancelled'', dl_locked_by := None, dl_locked_until := None,
       dl_last_error := Some TIM_MIRROR_ARCHIVED_REASON\<rparr>"

definition archive_retired_work :: "compat_mode \<Rightarrow> instant \<Rightarrow> compat_db \<Rightarrow> py_error + compat_db \<times> nat \<times> nat" where
  "archive_retired_work mode now d =
     (if mode \<noteq> RETIRED
      then Inl (RuntimeError ''BBW_COMPATIBILITY_MODE must be retired before archiving legacy work'')
      else Inr (d\<lparr>cd_outbox := update_where archivable_row (archived_row now) (cd_outbox d),
                  cd_deliveries := update_where archivable_delivery archived_delivery (cd_deliveries d)\<rparr>,
                length (filter archivable_row (cd_outbox d)),
                length (filter archivable_delivery (cd_deliveries d))))"

definition CONFIRMATION_PHRASE :: pystr where
  "CONFIRMATION_PHRASE = S ''RETIRE-LEGACY-COMPATIBILITY''"

text \<open>The command: without the phrase it only reads.\<close>

datatype retirement_report =
    Preview retirement_preview
  | Archived retirement_preview nat nat

definition retirement_command ::
  "compat_mode \<Rightarrow> pystr \<Rightarrow> instant \<Rightarrow> compat_db \<Rightarrow> py_error + compat_db \<times> retirement_report" where
  "retirement_command mode confirmation now d =
     (if confirmation \<noteq> [] \<and> confirmation \<noteq> CONFIRMATION_PHRASE
      then Inl (RuntimeError ''confirmation phrase does not match'')
      else
        let before = inspect_retirement d in
        if confirmation = [] then Inr (d, Preview before)
        else and_then (archive_retired_work mode now d) (\<lambda>(d', outbox, tim). Inr (d', Archived before outbox tim)))"

end
