(* ===== verification/Compat_Run.thy ===== *)
theory Compat_Run
  imports Compat_Dispatch "HOL-Library.Multiset"
begin

text \<open>
  The outbox under any number of workers: one step is one transaction of one of them, a provider
  call, a crash, a new row, the retirement command, or a change of the other tables.
\<close>

section \<open>The phases of a claim\<close>

datatype claim_phase =
    Holding
  | Prepared compat_call runtime_account
  | Opened compat_call
  | Ready compat_call
  | Answered compat_call provider_result
  | Settled "compat_error + bool"

fun advance ::
  "compat_env \<Rightarrow> instant \<Rightarrow> claimed_operation \<Rightarrow> claim_phase \<Rightarrow> compat_db \<Rightarrow> compat_db \<times> claim_phase \<times> compat_call list" where
  "advance E now c Holding d =
     (d, (case prepare_claim E c d of Inl e \<Rightarrow> Settled (Inl e) | Inr (call, a) \<Rightarrow> Prepared call a), [])"
| "advance E now c (Prepared call a) d =
     (d, (case and_then (check_claim c d) (\<lambda>_. create_runtime E a now) of
            Inl e \<Rightarrow> Settled (Inl e) | Inr session \<Rightarrow> Opened call), [])"
| "advance E now c (Opened call) d =
     (d, (case check_claim c d of Inl e \<Rightarrow> Settled (Inl e) | Inr _ \<Rightarrow> Ready call), [])"
| "advance E now c (Ready call) d =
     (d, (case call_provider E c call of Inl e \<Rightarrow> Settled (Inl e) | Inr r \<Rightarrow> Answered call r), [call])"
| "advance E now c (Answered call r) d = (let (d', res) = bind_answer E c call r now d in (d', Settled res, []))"
| "advance E now c (Settled res) d = (d, Settled res, [])"

text \<open>\<^verbatim>\<open>_execute_claim\<close> is these phases in a row, with the rest of the system acting between them.\<close>

fun run_phases ::
  "compat_env \<Rightarrow> instant \<Rightarrow> claimed_operation \<Rightarrow> nat \<Rightarrow> nat \<Rightarrow> claim_phase \<Rightarrow> compat_db
     \<Rightarrow> compat_db \<times> claim_phase \<times> compat_call list" where
  "run_phases E now c 0 k ph d = (d, ph, [])"
| "run_phases E now c (Suc n) k ph d =
     (let (d', ph', sent) = advance E now c ph d in
      case ph' of
        Settled res \<Rightarrow> (d', ph', sent)
      | _ \<Rightarrow> (let (d'', ph'', later) = run_phases E now c n (Suc k) ph' (if k \<le> 3 then others E c k d' else d') in
              (d'', ph'', sent @ later)))"

section \<open>Steps\<close>

record compat_state =
  cs_db :: compat_db
  cs_held :: "(claimed_operation \<times> claim_phase) list"
  cs_sent :: "(claimed_operation \<times> compat_call) list"

inductive dispatcher_step :: "compat_env \<Rightarrow> compat_state \<Rightarrow> compat_state \<Rightarrow> bool" for E where
  Claim: "claim_statement locked now limit (cs_db s) \<noteq> [] \<Longrightarrow>
    claim_due worker locked limit lease now (cs_db s) = (d, cs) \<Longrightarrow>
    dispatcher_step E s (s\<lparr>cs_db := d, cs_held := cs_held s @ map (\<lambda>c. (c, Holding)) cs\<rparr>)"
| Advance: "cs_held s = hs @ (c, ph) # ts \<Longrightarrow> (\<forall>res. ph \<noteq> Settled res) \<Longrightarrow>
    advance E now c ph (cs_db s) = (d, ph', sent) \<Longrightarrow>
    dispatcher_step E s
      (s\<lparr>cs_db := d, cs_held := hs @ (c, ph') # ts, cs_sent := cs_sent s @ map (Pair c) sent\<rparr>)"
| Finish: "cs_held s = hs @ (c, Settled res) # ts \<Longrightarrow>
    finalize_claim E c now (case res of Inl e \<Rightarrow> Some e | Inr _ \<Rightarrow> None) (cs_db s) = (d, st) \<Longrightarrow>
    dispatcher_step E s (s\<lparr>cs_db := d, cs_held := hs @ ts\<rparr>)"
| Crash: "cs_held s = hs @ (c, ph) # ts \<Longrightarrow> dispatcher_step E s (s\<lparr>cs_held := hs @ ts\<rparr>)"

text \<open>The insertion chooses an unused primary key and starts without attempts.\<close>

inductive system_step :: "compat_env \<Rightarrow> compat_state \<Rightarrow> compat_state \<Rightarrow> bool" for E where
  Dispatcher: "dispatcher_step E s s' \<Longrightarrow> system_step E s s'"
| Enqueue: "ob_id v \<notin> set (map ob_id (cd_outbox (cs_db s))) \<Longrightarrow> ob_attempts v = 0 \<Longrightarrow>
    enqueue_outbox mode now v (cs_db s) = (d, row, created) \<Longrightarrow> system_step E s (s\<lparr>cs_db := d\<rparr>)"
| Archive: "archive_retired_work RETIRED now (cs_db s) = Inr (d, n, m) \<Longrightarrow> system_step E s (s\<lparr>cs_db := d\<rparr>)"
| Elsewhere: "cd_outbox d = cd_outbox (cs_db s) \<Longrightarrow> system_step E s (s\<lparr>cs_db := d\<rparr>)"

definition outbox_start :: "compat_db \<Rightarrow> bool" where
  "outbox_start d \<longleftrightarrow>
     distinct (map ob_id (cd_outbox d)) \<and> (\<forall>r \<in> set (cd_outbox d). ob_attempts r \<le> attempt_budget r)"

inductive outbox_reach :: "compat_env \<Rightarrow> compat_state \<Rightarrow> bool" for E where
  Start: "outbox_start d \<Longrightarrow> outbox_reach E \<lparr>cs_db = d, cs_held = [], cs_sent = []\<rparr>"
| Step: "outbox_reach E s \<Longrightarrow> system_step E s s' \<Longrightarrow> outbox_reach E s'"

section \<open>One claim in a row\<close>

lemma run_phases_settled:
  assumes "advance E now c ph d = (d', Settled res, sent)"
  shows "run_phases E now c (Suc n) k ph d = (d', Settled res, sent)"
  using assms by simp

lemma run_phases_next:
  assumes "advance E now c ph d = (d', ph', sent)" "\<forall>res. ph' \<noteq> Settled res"
    "run_phases E now c n (Suc k) ph' (if k \<le> 3 then others E c k d' else d') = (d'', ph'', later)"
  shows "run_phases E now c (Suc n) k ph d = (d'', ph'', sent @ later)"
  using assms by (cases ph') (simp_all add: Let_def)

lemma answered_phase:
  "run_phases E now c (Suc n) k (Answered call r) d
     = (let (d', res) = bind_answer E c call r now d in (d', Settled res, []))"
  by (cases "bind_answer E c call r now d") (simp add: Let_def)

lemma ready_phase:
  "run_phases E now c 2 4 (Ready call) d =
     (case call_provider E c call of
        Inl e \<Rightarrow> (d, Settled (Inl e), [call])
      | Inr r \<Rightarrow> (let (d', res) = bind_answer E c call r now d in (d', Settled res, [call])))"
proof (cases "call_provider E c call")
  case (Inl e)
  then show ?thesis by (simp add: eval_nat_numeral)
next
  case (Inr r)
  then show ?thesis
    by (cases "bind_answer E c call r now d") (simp add: eval_nat_numeral)
qed

lemma opened_phase:
  "run_phases E now c 3 3 (Opened call) d =
     (case check_claim c d of
        Inl e \<Rightarrow> (d, Settled (Inl e), [])
      | Inr _ \<Rightarrow> run_phases E now c 2 4 (Ready call) (others E c 3 d))"
proof (cases "check_claim c d")
  case (Inl e)
  then show ?thesis by (simp add: eval_nat_numeral)
next
  case (Inr u)
  obtain d' ph later where r: "run_phases E now c 2 4 (Ready call) (others E c 3 d) = (d', ph, later)"
    by (cases "run_phases E now c 2 4 (Ready call) (others E c 3 d)") auto
  have "run_phases E now c (Suc 2) 3 (Opened call) d = (d', ph, [] @ later)"
    by (rule run_phases_next [where d' = d and ph' = "Ready call"]) (simp_all add: Inr r)
  then show ?thesis using Inr r by simp
qed

lemma prepared_phase:
  "run_phases E now c 4 2 (Prepared call a) d =
     (case and_then (check_claim c d) (\<lambda>_. create_runtime E a now) of
        Inl e \<Rightarrow> (d, Settled (Inl e), [])
      | Inr _ \<Rightarrow> run_phases E now c 3 3 (Opened call) (others E c 2 d))"
proof (cases "and_then (check_claim c d) (\<lambda>_. create_runtime E a now)")
  case (Inl e)
  then show ?thesis by (simp add: eval_nat_numeral)
next
  case (Inr u)
  obtain d' ph later where r: "run_phases E now c 3 3 (Opened call) (others E c 2 d) = (d', ph, later)"
    by (cases "run_phases E now c 3 3 (Opened call) (others E c 2 d)") auto
  have "run_phases E now c (Suc 3) 2 (Prepared call a) d = (d', ph, [] @ later)"
    by (rule run_phases_next [where d' = d and ph' = "Opened call"]) (simp_all add: Inr r)
  then show ?thesis using Inr r by simp
qed

lemma holding_phase:
  "run_phases E now c 5 1 Holding d =
     (case prepare_claim E c d of
        Inl e \<Rightarrow> (d, Settled (Inl e), [])
      | Inr (call, a) \<Rightarrow> run_phases E now c 4 2 (Prepared call a) (others E c 1 d))"
proof (cases "prepare_claim E c d")
  case (Inl e)
  then show ?thesis by (simp add: eval_nat_numeral)
next
  case (Inr u)
  then obtain call a where u: "prepare_claim E c d = Inr (call, a)" by (cases u) auto
  obtain d' ph later where r: "run_phases E now c 4 2 (Prepared call a) (others E c 1 d) = (d', ph, later)"
    by (cases "run_phases E now c 4 2 (Prepared call a) (others E c 1 d)") auto
  have "run_phases E now c (Suc 4) 1 Holding d = (d', ph, [] @ later)"
    by (rule run_phases_next [where d' = d and ph' = "Prepared call a"]) (simp_all add: u r [unfolded numeral_2_eq_2 One_nat_def])
  then show ?thesis using u r by simp
qed

lemma execute_claim_phases:
  "run_phases E now c 5 1 Holding d =
     (let (d', res, sent) = execute_claim E c now d in (d', Settled res, sent))"
  unfolding holding_phase prepared_phase opened_phase ready_phase execute_claim_def
  by (simp add: Let_def split: sum.splits prod.splits)

section \<open>What a step does to the rows\<close>

definition live_row :: "outbox_row \<Rightarrow> bool" where
  "live_row r \<longleftrightarrow> ob_status r \<in> {''pending'', ''retry'', ''processing''}"

lemma claim_statement_rows:
  assumes "distinct (map ob_id (cd_outbox d))"
  shows "set (claim_statement locked now limit d) \<subseteq> set (cd_outbox d)"
    "distinct (claim_statement locked now limit d)"
    "r \<in> set (claim_statement locked now limit d) \<Longrightarrow> claimable_row now r"
  using assms by (auto simp: claim_statement_def distinct_map distinct_take dest: in_set_takeD)

lemma claimable_live: "claimable_row now r \<Longrightarrow> live_row r"
  by (auto simp: claimable_row_def due_row_def abandoned_row_def live_row_def)

lemma claim_row_simps [simp]:
  "ob_id (claim_row worker until now r) = ob_id r" "ob_max (claim_row worker until now r) = ob_max r"
  "ob_type (claim_row worker until now r) = ob_type r"
  "attempt_budget (claim_row worker until now r) = attempt_budget r"
  "ob_attempts (claim_row worker until now r) = (if exhausted r then ob_attempts r else ob_attempts r + 1)"
  by (simp_all add: claim_row_def exhausted_row_def processing_row_def attempt_budget_def)

lemma claimed_outbox:
  "cd_outbox (fst (claim_due worker locked limit lease now d)) =
     update_where (\<lambda>r. ob_id r \<in> ob_id ` set (claim_statement locked now limit d))
       (claim_row worker (now + seconds (max 30 (min lease 1800))) now) (cd_outbox d)"
  by (simp add: claim_due_def Let_def)

lemma settle_row_simps [simp]:
  "ob_id (fst (settle_row E now error r)) = ob_id r" "ob_attempts (fst (settle_row E now error r)) = ob_attempts r"
  "ob_max (fst (settle_row E now error r)) = ob_max r" "ob_type (fst (settle_row E now error r)) = ob_type r"
  "attempt_budget (fst (settle_row E now error r)) = attempt_budget r"
  by (auto simp: settle_row_def completed_row_def failed_row_def retry_row_def attempt_budget_def split: option.splits)

lemma settled_status:
  "ob_status (fst (settle_row E now error r)) =
     (case snd (settle_row E now error r) of Completed \<Rightarrow> ''completed'' | Failed \<Rightarrow> ''failed'' | _ \<Rightarrow> ''retry'')"
  by (auto simp: settle_row_def completed_row_def failed_row_def retry_row_def split: option.splits)

lemma update_where_distinct:
  "distinct (map ob_id rows) \<Longrightarrow> r \<in> set rows
     \<Longrightarrow> update_where (\<lambda>x. ob_id x = ob_id r) (\<lambda>_. f r) rows = update_where (\<lambda>x. x = r) f rows"
  by (auto simp: update_where_def distinct_map inj_on_def)

lemma finalized_outbox:
  assumes "distinct (map ob_id (cd_outbox d))"
  obtains (stale) "finalize_claim E c now error d = (d, Stale)" "\<not> claim_still_processing c d"
    | (settled) r where "r \<in> set (cd_outbox d)" "held_by c r"
        "finalize_claim E c now error d =
           (d\<lparr>cd_outbox := update_where (\<lambda>x. x = r) (\<lambda>r. fst (settle_row E now error r)) (cd_outbox d)\<rparr>,
            snd (settle_row E now error r))"
proof (cases "find (held_by c) (cd_outbox d)")
  case None
  have "finalize_claim E c now error d = (d, Stale)" unfolding finalize_claim_def None by simp
  moreover have "\<not> claim_still_processing c d" using None by (simp add: claim_still_processing_def find_None_iff)
  ultimately show thesis by (rule stale)
next
  case (Some r)
  then have r: "r \<in> set (cd_outbox d)" "held_by c r" by (auto simp: find_Some_iff)
  show thesis
    by (rule settled [OF r]) (simp add: finalize_claim_def Some
        update_where_distinct [OF assms r(1), of "\<lambda>r. fst (settle_row E now error r)"])
qed

lemma bind_answer_outbox [simp]: "bind_answer E c call r now d = (d', res) \<Longrightarrow> cd_outbox d' = cd_outbox d"
  by (auto simp: bind_answer_def bind_upstream_id_def Let_def permanent_def split: option.splits if_splits sum.splits)

lemma advance_outbox: "advance E now c ph d = (d', ph', sent) \<Longrightarrow> cd_outbox d' = cd_outbox d"
  by (cases "(E, now, c, ph, d)" rule: advance.cases) (auto simp: Let_def split: prod.splits)

section \<open>Termination\<close>

definition row_work :: "outbox_row \<Rightarrow> nat" where
  "row_work r = (if live_row r then 8 * (attempt_budget r - ob_attempts r) + 1 else 0)"

fun phase_work :: "claim_phase \<Rightarrow> nat" where
  "phase_work Holding = 6"
| "phase_work (Prepared call a) = 5"
| "phase_work (Opened call) = 4"
| "phase_work (Ready call) = 3"
| "phase_work (Answered call r) = 2"
| "phase_work (Settled res) = 1"

definition work_left :: "compat_state \<Rightarrow> nat" where
  "work_left s = sum_list (map row_work (cd_outbox (cs_db s))) + sum_list (map (phase_work \<circ> snd) (cs_held s))"

lemma advance_phase_work:
  assumes "advance E now c ph d = (d', ph', sent)" "\<forall>res. ph \<noteq> Settled res"
  shows "phase_work ph' < phase_work ph"
  using assms
  by (cases "(E, now, c, ph, d)" rule: advance.cases)
    (auto simp: Let_def split: prod.splits sum.splits)

lemma sum_list_update_where:
  assumes "\<forall>r \<in> set rows. P r \<longrightarrow> g (f r) + h r \<le> g r"
  shows "sum_list (map g (update_where P f rows)) + sum_list (map h (filter P rows)) \<le> sum_list (map (g :: _ \<Rightarrow> nat) rows)"
  using assms by (induction rows) (auto simp: update_where_def)

lemma selected_rows:
  assumes "distinct (map ob_id rows)" "set sel \<subseteq> set rows" "distinct sel"
  shows "mset (filter (\<lambda>r. ob_id r \<in> ob_id ` set sel) rows) = mset sel"
proof -
  have "set (filter (\<lambda>r. ob_id r \<in> ob_id ` set sel) rows) = set sel"
    using assms by (auto simp: distinct_map inj_on_def)
  then show ?thesis
    using assms set_eq_iff_mset_eq_distinct [of "filter (\<lambda>r. ob_id r \<in> ob_id ` set sel) rows" sel]
    by (auto simp: distinct_map)
qed

definition claim_cost :: "outbox_row \<Rightarrow> nat" where
  "claim_cost r = (if exhausted r then 1 else 7)"

lemma claim_row_work: "live_row r \<Longrightarrow> row_work (claim_row worker until now r) + claim_cost r \<le> row_work r"
  by (auto simp: row_work_def live_row_def claim_cost_def claim_row_def exhausted_row_def processing_row_def
      exhausted_def attempt_budget_def)

lemma claim_costs: "length rows + 6 * length (filter (\<lambda>r. \<not> exhausted r) rows) \<le> sum_list (map claim_cost rows)"
  by (induction rows) (auto simp: claim_cost_def)

lemma claim_work:
  assumes d: "distinct (map ob_id (cd_outbox d))" and c: "claim_due worker locked limit lease now d = (d', cs)"
  shows "sum_list (map row_work (cd_outbox d')) + 6 * length cs + length (claim_statement locked now limit d)
    \<le> sum_list (map row_work (cd_outbox d))"
proof -
  define sel where "sel = claim_statement locked now limit d"
  note rows = claim_statement_rows [OF d, where locked = locked and now = now and limit = limit, folded sel_def]
  let ?P = "\<lambda>r. ob_id r \<in> ob_id ` set sel"
  have m: "mset (filter ?P (cd_outbox d)) = mset sel" by (rule selected_rows [OF d rows(1,2)])
  have in_sel: "r \<in> set sel" if "r \<in> set (cd_outbox d)" "?P r" for r
    using that d rows(1) by (auto simp: distinct_map inj_on_def)
  define until where "until = now + seconds (max 30 (min lease 1800))"
  have d': "cd_outbox d' = update_where ?P (claim_row worker until now) (cd_outbox d)"
    using claimed_outbox [of worker locked limit lease now d] unfolding c sel_def until_def by simp
  have "\<forall>r \<in> set (cd_outbox d). ?P r \<longrightarrow> row_work (claim_row worker until now r) + claim_cost r \<le> row_work r"
    using in_sel rows(3) claimable_live claim_row_work by blast
  from sum_list_update_where [OF this]
  have "sum_list (map row_work (cd_outbox d')) + sum_list (map claim_cost (filter ?P (cd_outbox d)))
      \<le> sum_list (map row_work (cd_outbox d))"
    unfolding d' .
  moreover have "sum_list (map claim_cost (filter ?P (cd_outbox d))) = sum_list (map claim_cost sel)"
    unfolding sum_mset_sum_list [symmetric] mset_map m ..
  moreover have "length cs = length (filter (\<lambda>r. \<not> exhausted r) sel)"
    using c by (auto simp: claim_due_def Let_def sel_def)
  ultimately show ?thesis using claim_costs [of sel] by (simp add: sel_def)
qed

lemma finalize_work:
  assumes d: "distinct (map ob_id (cd_outbox d))" and f: "finalize_claim E c now error d = (d', st)"
  shows "sum_list (map row_work (cd_outbox d')) \<le> sum_list (map row_work (cd_outbox d))"
proof (rule finalized_outbox [OF d, of E c now error])
  assume "finalize_claim E c now error d = (d, Stale)"
  with f show ?thesis by simp
next
  fix r assume r: "r \<in> set (cd_outbox d)" "held_by c r"
    and eq: "finalize_claim E c now error d =
      (d\<lparr>cd_outbox := update_where (\<lambda>x. x = r) (\<lambda>r. fst (settle_row E now error r)) (cd_outbox d)\<rparr>,
       snd (settle_row E now error r))"
  have "row_work (fst (settle_row E now error r)) \<le> row_work r"
    using r(2) by (auto simp: row_work_def live_row_def held_by_def)
  then show ?thesis
    using f eq sum_list_update_where [of "cd_outbox d" "\<lambda>x. x = r" row_work
      "\<lambda>r. fst (settle_row E now error r)" "\<lambda>_. 0"] by auto
qed

lemma update_where_ids: "(\<And>r. ob_id (f r) = ob_id r) \<Longrightarrow> map ob_id (update_where P f rows) = map ob_id rows"
  by (auto simp: update_where_def)

lemma dispatcher_step_ids:
  assumes "dispatcher_step E s s'" "distinct (map ob_id (cd_outbox (cs_db s)))"
  shows "map ob_id (cd_outbox (cs_db s')) = map ob_id (cd_outbox (cs_db s))"
  using assms
proof cases
  case (Claim locked now limit worker lease d cs)
  then show ?thesis using claimed_outbox [of worker locked limit lease now "cs_db s"] by (simp add: update_where_ids)
next
  case (Advance hs c ph ts now d ph' sent)
  then show ?thesis by (simp add: advance_outbox)
next
  case (Finish hs c res ts now d st)
  show ?thesis
    by (rule finalized_outbox [OF assms(2), of E c now "case res of Inl e \<Rightarrow> Some e | Inr _ \<Rightarrow> None"])
      (use Finish in \<open>auto simp: update_where_ids\<close>)
next
  case (Crash hs c ph ts)
  then show ?thesis by simp
qed

lemma new_claims_work: "sum_list (map (phase_work \<circ> snd) (map (\<lambda>c. (c, Holding)) cs)) = 6 * length cs"
  by (induction cs) simp_all

lemma dispatcher_step_work:
  assumes "dispatcher_step E s s'" "distinct (map ob_id (cd_outbox (cs_db s)))"
  shows "work_left s' < work_left s"
  using assms
proof cases
  case (Claim locked now limit worker lease d cs)
  have "length (claim_statement locked now limit (cs_db s)) \<noteq> 0" using Claim(2) by simp
  then have "sum_list (map row_work (cd_outbox d)) + 6 * length cs < sum_list (map row_work (cd_outbox (cs_db s)))"
    using claim_work [OF assms(2) Claim(3)] by linarith
  then show ?thesis unfolding Claim(1) work_left_def using new_claims_work [of cs] by simp
next
  case (Advance hs c ph ts now d ph' sent)
  then show ?thesis using advance_phase_work [OF Advance(4,3)] by (simp add: work_left_def advance_outbox)
next
  case (Finish hs c res ts now d st)
  then show ?thesis using finalize_work [OF assms(2) Finish(3)] by (simp add: work_left_def)
next
  case (Crash hs c ph ts)
  then show ?thesis by (cases ph) (simp_all add: work_left_def)
qed

lemma dispatcher_run_work:
  "(dispatcher_step E ^^ n) s s' \<Longrightarrow> distinct (map ob_id (cd_outbox (cs_db s)))
     \<Longrightarrow> n + work_left s' \<le> work_left s \<and> distinct (map ob_id (cd_outbox (cs_db s')))"
proof (induction n arbitrary: s')
  case (Suc n)
  then obtain t where t: "(dispatcher_step E ^^ n) s t" "dispatcher_step E t s'" by auto
  with Suc have "n + work_left t \<le> work_left s" "distinct (map ob_id (cd_outbox (cs_db t)))" by auto
  with dispatcher_step_work [OF t(2)] dispatcher_step_ids [OF t(2)] show ?case by auto
qed simp

text \<open>A live row of an ordinary operation can be claimed as soon as its time has come.\<close>

definition claim_time :: "outbox_row \<Rightarrow> instant" where
  "claim_time r = max (ob_available r) (case ob_locked_until r of None \<Rightarrow> ob_available r | Some t \<Rightarrow> t)"

lemma live_claimable:
  assumes "live_row r" "ordinary_compatibility r"
  shows "claimable_row (claim_time r) r"
  using assms
  by (auto simp: claimable_row_def live_row_def due_row_def abandoned_row_def unlocked_def claim_time_def
      ordinary_compatibility_def py_startswith_def S_def split: option.splits)

lemma claim_possible:
  assumes "r \<in> set (cd_outbox d)" "live_row r" "ordinary_compatibility r"
  shows "claim_statement [] (claim_time r) 10 d \<noteq> []"
proof -
  let ?rows = "filter (\<lambda>r'. claimable_row (claim_time r) r' \<and> ob_id r' \<notin> set []) (cd_outbox d)"
  have "r \<in> set ?rows" using assms live_claimable by simp
  then have "sort_key ob_available (sort_key ob_created (sort_key ob_id ?rows)) \<noteq> []"
    by (metis empty_iff empty_set set_sort)
  then show ?thesis by (simp add: claim_statement_def MAX_BATCH_SIZE_def)
qed

lemma dispatcher_stops_settled:
  assumes "\<not> (\<exists>s'. dispatcher_step E s s')"
  shows "cs_held s = []" "r \<in> set (cd_outbox (cs_db s)) \<Longrightarrow> ordinary_compatibility r \<Longrightarrow> \<not> live_row r"
proof -
  show "cs_held s = []"
  proof (rule ccontr)
    assume "cs_held s \<noteq> []"
    then obtain c ph ts where "cs_held s = [] @ (c, ph) # ts" by (cases "cs_held s") auto
    from dispatcher_step.Crash [OF this] assms show False by blast
  qed
  assume r: "r \<in> set (cd_outbox (cs_db s))" "ordinary_compatibility r"
  show "\<not> live_row r"
  proof
    assume "live_row r"
    from claim_possible [OF r(1) this r(2)]
    have "dispatcher_step E s (s\<lparr>cs_db := fst (claim_due [] [] 10 30 (claim_time r) (cs_db s)),
        cs_held := cs_held s @ map (\<lambda>c. (c, Holding)) (snd (claim_due [] [] 10 30 (claim_time r) (cs_db s)))\<rparr>)"
      by (rule dispatcher_step.Claim) simp
    with assms show False by blast
  qed
qed

end
