(* ===== verification/Compat_Safety.thy ===== *)
theory Compat_Safety
  imports Compat_Run
begin

text \<open>
  Invariants of the outbox under interleaved workers: a claim is one attempt of one row, no attempt
  is sent twice, and a cancelled row is final.
\<close>

section \<open>Claims and attempts\<close>

definition claim_key :: "claimed_operation \<Rightarrow> uuid \<times> nat" where
  "claim_key c = (cl_id c, cl_attempt c)"

fun unsent :: "claim_phase \<Rightarrow> bool" where
  "unsent (Answered call r) = False"
| "unsent (Settled res) = False"
| "unsent ph = True"

definition send_keys :: "compat_state \<Rightarrow> (uuid \<times> nat) list" where
  "send_keys s = map (claim_key \<circ> fst) (filter (unsent \<circ> snd) (cs_held s)) @ map (claim_key \<circ> fst) (cs_sent s)"

definition known :: "outbox_row list \<Rightarrow> claimed_operation \<Rightarrow> bool" where
  "known rows c \<longleftrightarrow> (\<exists>r \<in> set rows. ob_id r = cl_id c \<and> 1 \<le> cl_attempt c \<and> cl_attempt c \<le> ob_attempts r)"

definition outbox_inv :: "compat_state \<Rightarrow> bool" where
  "outbox_inv s \<longleftrightarrow>
     outbox_start (cs_db s) \<and> distinct (send_keys s)
     \<and> (\<forall>c \<in> fst ` set (cs_held s) \<union> fst ` set (cs_sent s). known (cd_outbox (cs_db s)) c)"

definition rows_grow :: "outbox_row list \<Rightarrow> outbox_row list \<Rightarrow> bool" where
  "rows_grow rows rows' \<longleftrightarrow> (\<forall>r \<in> set rows. \<exists>r' \<in> set rows'. ob_id r' = ob_id r \<and> ob_attempts r \<le> ob_attempts r')"

lemma known_grow: "known rows c \<Longrightarrow> rows_grow rows rows' \<Longrightarrow> known rows' c"
  unfolding known_def rows_grow_def by (metis order_trans)

lemma rows_grow_refl [simp]: "rows_grow rows rows"
  by (auto simp: rows_grow_def)

lemma rows_grow_append [simp]: "rows_grow rows (rows @ rows')"
  by (auto simp: rows_grow_def)

lemma rows_grow_update:
  assumes "\<And>r. ob_id (f r) = ob_id r \<and> ob_attempts r \<le> ob_attempts (f r)"
  shows "rows_grow rows (update_where P f rows)"
proof (unfold rows_grow_def, intro ballI)
  fix r assume "r \<in> set rows"
  then have "(if P r then f r else r) \<in> set (update_where P f rows)" by (auto simp: update_where_def)
  with assms [of r] show "\<exists>r' \<in> set (update_where P f rows). ob_id r' = ob_id r \<and> ob_attempts r \<le> ob_attempts r'"
    by (intro bexI [of _ "if P r then f r else r"]) simp_all
qed

lemma outbox_start_update:
  assumes "outbox_start d" "\<And>r. ob_id (f r) = ob_id r"
    "\<And>r. r \<in> set (cd_outbox d) \<Longrightarrow> ob_attempts r \<le> attempt_budget r \<Longrightarrow> ob_attempts (f r) \<le> attempt_budget (f r)"
    "cd_outbox d' = update_where P f (cd_outbox d)"
  shows "outbox_start d'"
  using assms by (auto simp: outbox_start_def update_where_ids) (auto simp: update_where_def)

lemma advance_unsent:
  assumes "advance E now c ph d = (d', ph', sent)"
  obtains (still) "sent = []" "unsent ph' \<longrightarrow> unsent ph"
    | (sends) call where "ph = Ready call" "sent = [call]" "\<not> unsent ph'"
  using assms
  by (cases "(E, now, c, ph, d)" rule: advance.cases) (auto simp: Let_def split: prod.splits sum.splits)

lemma claimed_keys:
  assumes d: "distinct (map ob_id (cd_outbox d))" and c: "claim_due worker locked limit lease now d = (d', cs)"
  shows "distinct (map claim_key cs)"
    "c \<in> set cs \<Longrightarrow> \<exists>r \<in> set (cd_outbox d). cl_id c = ob_id r \<and> cl_attempt c = ob_attempts r + 1"
    "c \<in> set cs \<Longrightarrow> known (cd_outbox d') c"
proof -
  define sel where "sel = claim_statement locked now limit d"
  define until where "until = now + seconds (max 30 (min lease 1800))"
  note rows = claim_statement_rows [OF d, where locked = locked and now = now and limit = limit, folded sel_def]
  have cs: "cs = map (claimed_view worker \<circ> claim_row worker until now) (filter (\<lambda>r. \<not> exhausted r) sel)"
    using c by (simp add: claim_due_def Let_def sel_def until_def)
  have d': "cd_outbox d' = update_where (\<lambda>r. ob_id r \<in> ob_id ` set sel) (claim_row worker until now) (cd_outbox d)"
    using claimed_outbox [of worker locked limit lease now d] unfolding c sel_def until_def by simp
  have key: "claim_key (claimed_view worker (claim_row worker until now r)) = (ob_id r, ob_attempts r + 1)"
    if "\<not> exhausted r" for r using that by (simp add: claim_key_def claimed_view_def)
  have ids: "distinct (map ob_id sel)"
    using rows(1,2) d by (auto simp: distinct_map intro: inj_on_subset)
  have "map claim_key cs = map (\<lambda>r. (ob_id r, ob_attempts r + 1)) (filter (\<lambda>r. \<not> exhausted r) sel)"
    unfolding cs using key by simp
  then show "distinct (map claim_key cs)"
    using ids by (auto simp: distinct_map inj_on_def)
  assume "c \<in> set cs"
  then obtain r where r: "r \<in> set sel" "\<not> exhausted r" "c = claimed_view worker (claim_row worker until now r)"
    unfolding cs by auto
  then have k: "cl_id c = ob_id r" "cl_attempt c = ob_attempts r + 1" using key [of r] by (simp_all add: claim_key_def)
  with r(1) rows(1) show "\<exists>r \<in> set (cd_outbox d). cl_id c = ob_id r \<and> cl_attempt c = ob_attempts r + 1" by auto
  have "claim_row worker until now r \<in> set (cd_outbox d')"
    using r(1) rows(1) unfolding d' update_where_def by force
  with k r(2) show "known (cd_outbox d') c" unfolding known_def by (intro bexI) auto
qed

lemma claim_due_start:
  assumes "outbox_start d" "claim_due worker locked limit lease now d = (d', cs)"
  shows "outbox_start d'" "rows_grow (cd_outbox d) (cd_outbox d')"
proof -
  define until where "until = now + seconds (max 30 (min lease 1800))"
  have d': "cd_outbox d' = update_where (\<lambda>r. ob_id r \<in> ob_id ` set (claim_statement locked now limit d))
      (claim_row worker until now) (cd_outbox d)"
    using claimed_outbox [of worker locked limit lease now d] unfolding assms(2) until_def by simp
  show "outbox_start d'"
    by (rule outbox_start_update [OF assms(1) _ _ d']) (auto simp: exhausted_def)
  show "rows_grow (cd_outbox d) (cd_outbox d')"
    unfolding d' by (rule rows_grow_update) simp
qed

lemma finalize_start:
  assumes "outbox_start d" "finalize_claim E c now error d = (d', st)"
  shows "outbox_start d' \<and> rows_grow (cd_outbox d) (cd_outbox d')"
proof -
  have "distinct (map ob_id (cd_outbox d))" using assms(1) by (simp add: outbox_start_def)
  then show ?thesis
  proof (rule finalized_outbox [of d E c now error])
    assume "finalize_claim E c now error d = (d, Stale)"
    with assms show ?thesis by simp
  next
    fix r assume "finalize_claim E c now error d =
      (d\<lparr>cd_outbox := update_where (\<lambda>x. x = r) (\<lambda>r. fst (settle_row E now error r)) (cd_outbox d)\<rparr>,
       snd (settle_row E now error r))"
    with assms(2) have d': "cd_outbox d' = update_where (\<lambda>x. x = r) (\<lambda>r. fst (settle_row E now error r)) (cd_outbox d)"
      by auto
    have "outbox_start d'" by (rule outbox_start_update [OF assms(1) _ _ d']) simp_all
    moreover have "rows_grow (cd_outbox d) (cd_outbox d')" unfolding d' by (rule rows_grow_update) simp
    ultimately show ?thesis ..
  qed
qed

lemma inv_grow:
  assumes "outbox_inv s" "outbox_start d" "rows_grow (cd_outbox (cs_db s)) (cd_outbox d)"
  shows "outbox_inv (s\<lparr>cs_db := d\<rparr>)"
proof -
  have "known (cd_outbox d) c" if "c \<in> fst ` set (cs_held s) \<union> fst ` set (cs_sent s)" for c
    using assms(1) that known_grow [OF _ assms(3)] by (simp add: outbox_inv_def)
  with assms(1,2) show ?thesis by (simp add: outbox_inv_def send_keys_def)
qed

lemma inv_drop:
  assumes "outbox_inv s" "cs_held s = hs @ (c, ph) # ts"
  shows "outbox_inv (s\<lparr>cs_held := hs @ ts\<rparr>)"
  using assms by (cases "unsent ph") (auto simp: outbox_inv_def send_keys_def)

lemma inv_dispatcher:
  assumes "dispatcher_step E s s'" "outbox_inv s"
  shows "outbox_inv s'"
  using assms(1)
proof cases
  case (Claim locked now limit worker lease d cs)
  have start: "outbox_start (cs_db s)" and keys: "distinct (send_keys s)"
    and known: "\<forall>c \<in> fst ` set (cs_held s) \<union> fst ` set (cs_sent s). known (cd_outbox (cs_db s)) c"
    using assms(2) by (auto simp: outbox_inv_def)
  have ids: "distinct (map ob_id (cd_outbox (cs_db s)))" using start by (simp add: outbox_start_def)
  note ck = claimed_keys [OF ids Claim(3)]
  note cd = claim_due_start [OF start Claim(3)]
  have fresh: "claim_key c \<notin> set (send_keys s)" if new: "c \<in> set cs" for c
  proof
    assume "claim_key c \<in> set (send_keys s)"
    then obtain c' where c': "c' \<in> fst ` set (cs_held s) \<union> fst ` set (cs_sent s)" "claim_key c' = claim_key c"
      unfolding send_keys_def by (force simp: image_iff)
    from known c'(1) obtain r where r: "r \<in> set (cd_outbox (cs_db s))" "ob_id r = cl_id c'" "cl_attempt c' \<le> ob_attempts r"
      unfolding known_def by blast
    obtain r' where r': "r' \<in> set (cd_outbox (cs_db s))" "cl_id c = ob_id r'" "cl_attempt c = ob_attempts r' + 1"
      using ck(2) [OF new] by blast
    have "r = r'" using r(1,2) r'(1,2) c'(2) ids by (auto simp: distinct_map inj_on_def claim_key_def)
    with r(3) r'(3) c'(2) show False by (simp add: claim_key_def)
  qed
  have "filter (unsent \<circ> snd) (map (\<lambda>c. (c, Holding)) cs) = map (\<lambda>c. (c, Holding)) cs" by (induction cs) auto
  moreover have "map (claim_key \<circ> fst) (map (\<lambda>c. (c, Holding)) cs) = map claim_key cs" by simp
  ultimately have "mset (send_keys s') = mset (map claim_key cs @ send_keys s)"
    unfolding Claim(1) send_keys_def by (simp add: comp_def)
  moreover have "distinct (map claim_key cs @ send_keys s)" using keys ck(1) fresh by auto
  ultimately have "distinct (send_keys s')" using mset_eq_imp_distinct_iff by blast
  moreover have "\<forall>c \<in> fst ` set (cs_held s') \<union> fst ` set (cs_sent s'). known (cd_outbox (cs_db s')) c"
    using known known_grow [OF _ cd(2)] ck(3) unfolding Claim(1) by auto
  ultimately show ?thesis using cd(1) Claim(1) by (simp add: outbox_inv_def)
next
  case (Advance hs c ph ts now d ph' sent)
  have o: "cd_outbox d = cd_outbox (cs_db s)" by (rule advance_outbox [OF Advance(4)])
  have "distinct (send_keys s')"
    using Advance(4)
  proof (cases rule: advance_unsent)
    case still
    show ?thesis
    proof (cases "unsent ph = unsent ph'")
      case True
      then have "send_keys s' = send_keys s" using still(1) unfolding Advance(1) by (simp add: send_keys_def Advance(2))
      with assms(2) show ?thesis by (simp add: outbox_inv_def)
    next
      case False
      with still have "unsent ph" "\<not> unsent ph'" by auto
      then have "send_keys s' = send_keys (s\<lparr>cs_held := hs @ ts\<rparr>)"
        using still(1) unfolding Advance(1) by (simp add: send_keys_def)
      with inv_drop [OF assms(2) Advance(2)] show ?thesis by (simp add: outbox_inv_def)
    qed
  next
    case (sends call)
    then have "mset (send_keys s') = mset (send_keys s)" unfolding Advance(1) by (simp add: send_keys_def Advance(2))
    with assms(2) show ?thesis using mset_eq_imp_distinct_iff by (auto simp: outbox_inv_def)
  qed
  with assms(2) Advance(1,2) o show ?thesis by (auto simp: outbox_inv_def outbox_start_def)
next
  case (Finish hs c res ts now d st)
  have start: "outbox_start (cs_db s)" using assms(2) by (simp add: outbox_inv_def)
  note f = finalize_start [OF start Finish(3)]
  have "outbox_inv (s\<lparr>cs_db := d\<rparr>)" using f assms(2) by (intro inv_grow) auto
  from inv_drop [OF this, of hs c "Settled res" ts] Finish(1,2) show ?thesis by simp
next
  case (Crash hs c ph ts)
  with inv_drop [OF assms(2)] show ?thesis by simp
qed

lemma enqueue_outbox_rows:
  assumes "enqueue_outbox mode now v d = (d', row, created)"
  obtains (same) "d' = d" | (added) "cd_outbox d' = cd_outbox d @ [enqueue_values mode now v]"
  using assms by (auto simp: enqueue_outbox_def Let_def split: option.splits)

lemma enqueue_values_simps [simp]:
  "ob_id (enqueue_values mode now v) = ob_id v" "ob_attempts (enqueue_values mode now v) = ob_attempts v"
  by (simp_all add: enqueue_values_def)

lemma inv_system:
  assumes "system_step E s s'" "outbox_inv s"
  shows "outbox_inv s'"
  using assms(1)
proof cases
  case Dispatcher
  with assms(2) show ?thesis using inv_dispatcher by blast
next
  case (Enqueue v mode now d row created)
  from Enqueue(4) show ?thesis
  proof (cases rule: enqueue_outbox_rows)
    case same
    with Enqueue(1) assms(2) show ?thesis by simp
  next
    case added
    have "outbox_start d" using assms(2) Enqueue(2,3) added by (auto simp: outbox_inv_def outbox_start_def)
    moreover have "rows_grow (cd_outbox (cs_db s)) (cd_outbox d)" using added by simp
    ultimately show ?thesis using inv_grow [OF assms(2)] Enqueue(1) by simp
  qed
next
  case (Archive now d n m)
  have o: "cd_outbox d = update_where archivable_row (archived_row now) (cd_outbox (cs_db s))"
    using Archive(2) by (auto simp: archive_retired_work_def)
  have start: "outbox_start (cs_db s)" using assms(2) by (simp add: outbox_inv_def)
  have "outbox_start d"
    by (rule outbox_start_update [OF start _ _ o]) (simp_all add: archived_row_def attempt_budget_def split: if_splits)
  moreover have "rows_grow (cd_outbox (cs_db s)) (cd_outbox d)"
    unfolding o by (rule rows_grow_update) (simp add: archived_row_def)
  ultimately show ?thesis using inv_grow [OF assms(2)] Archive(1) by simp
next
  case (Elsewhere d)
  with assms(2) show ?thesis by (simp add: outbox_inv_def outbox_start_def send_keys_def)
qed

lemma reach_inv: "outbox_reach E s \<Longrightarrow> outbox_inv s"
proof (induction rule: outbox_reach.induct)
  case (Start d)
  then show ?case by (simp add: outbox_inv_def send_keys_def)
next
  case (Step s s')
  then show ?case using inv_system by blast
qed

lemma sends_bounded:
  assumes "outbox_inv s" "r \<in> set (cd_outbox (cs_db s))"
  shows "length (filter (\<lambda>p. cl_id (fst p) = ob_id r) (cs_sent s)) \<le> ob_attempts r"
proof -
  let ?sent = "filter (\<lambda>p. cl_id (fst p) = ob_id r) (cs_sent s)"
  have ids: "distinct (map ob_id (cd_outbox (cs_db s)))" using assms(1) by (simp add: outbox_inv_def outbox_start_def)
  have "distinct (map (claim_key \<circ> fst) (cs_sent s))" using assms(1) by (simp add: outbox_inv_def send_keys_def)
  then have "distinct (map (claim_key \<circ> fst) ?sent)" by (simp add: distinct_map_filter)
  then have "distinct (map (cl_attempt \<circ> fst) ?sent)"
    by (auto simp: distinct_map inj_on_def claim_key_def)
  moreover have "set (map (cl_attempt \<circ> fst) ?sent) \<subseteq> {1..ob_attempts r}"
  proof
    fix n assume "n \<in> set (map (cl_attempt \<circ> fst) ?sent)"
    then obtain c call where c: "(c, call) \<in> set (cs_sent s)" "cl_id c = ob_id r" "n = cl_attempt c" by auto
    then have "known (cd_outbox (cs_db s)) c" using assms(1) by (force simp: outbox_inv_def)
    then obtain r' where r': "r' \<in> set (cd_outbox (cs_db s))" "ob_id r' = cl_id c" "1 \<le> cl_attempt c" "cl_attempt c \<le> ob_attempts r'"
      unfolding known_def by blast
    then have "r' = r" using ids assms(2) c(2) by (auto simp: distinct_map inj_on_def)
    with r' c show "n \<in> {1..ob_attempts r}" by simp
  qed
  ultimately have "length (map (cl_attempt \<circ> fst) ?sent) \<le> card {1..ob_attempts r}"
    by (metis card_mono distinct_card finite_atLeastAtMost)
  then show ?thesis by simp
qed

section \<open>Cancelled rows\<close>

definition no_ready :: "uuid \<Rightarrow> compat_state \<Rightarrow> bool" where
  "no_ready i s \<longleftrightarrow> (\<forall>(c, ph) \<in> set (cs_held s). cl_id c = i \<longrightarrow> (\<forall>call. ph \<noteq> Ready call))"

definition rows_of :: "uuid \<Rightarrow> compat_state \<Rightarrow> outbox_row list" where
  "rows_of i s = filter (\<lambda>r. ob_id r = i) (cd_outbox (cs_db s))"

definition sends_of :: "uuid \<Rightarrow> compat_state \<Rightarrow> (claimed_operation \<times> compat_call) list" where
  "sends_of i s = filter (\<lambda>p. cl_id (fst p) = i) (cs_sent s)"

definition finished_for :: "uuid \<Rightarrow> compat_state \<Rightarrow> bool" where
  "finished_for i s \<longleftrightarrow> rows_of i s \<noteq> [] \<and> (\<forall>r \<in> set (rows_of i s). ob_status r = ''cancelled'') \<and> no_ready i s"

lemma update_where_untouched:
  assumes "\<And>r. r \<in> set rows \<Longrightarrow> ob_id r = i \<Longrightarrow> \<not> P r" "\<And>r. ob_id (f r) = ob_id r"
  shows "filter (\<lambda>r. ob_id r = i) (update_where P f rows) = filter (\<lambda>r. ob_id r = i) rows"
  using assms(1) by (induction rows) (auto simp: update_where_def assms(2))

lemma check_claim_cancelled:
  assumes "\<forall>r \<in> set (cd_outbox d). ob_id r = cl_id c \<longrightarrow> ob_status r = ''cancelled''"
  shows "\<exists>e. check_claim c d = Inl e"
  using assms by (auto simp: check_claim_def claim_still_processing_def held_by_def permanent_def)

lemma finished_dispatcher:
  assumes "dispatcher_step E s s'" "distinct (map ob_id (cd_outbox (cs_db s)))" "finished_for i s"
  shows "rows_of i s' = rows_of i s \<and> sends_of i s' = sends_of i s \<and> no_ready i s'"
proof -
  have can: "\<forall>r \<in> set (cd_outbox (cs_db s)). ob_id r = i \<longrightarrow> ob_status r = ''cancelled''"
    and ready: "no_ready i s"
    using assms(3) by (auto simp: finished_for_def rows_of_def)
  show ?thesis using assms(1)
  proof cases
    case (Claim locked now limit worker lease d cs)
    define until where "until = now + seconds (max 30 (min lease 1800))"
    note rows = claim_statement_rows [OF assms(2), where locked = locked and now = now and limit = limit]
    have d: "cd_outbox d = update_where (\<lambda>r. ob_id r \<in> ob_id ` set (claim_statement locked now limit (cs_db s)))
        (claim_row worker until now) (cd_outbox (cs_db s))"
      using claimed_outbox [of worker locked limit lease now "cs_db s"] unfolding Claim(3) until_def by simp
    have sel: "ob_id r \<noteq> i" if "r \<in> set (claim_statement locked now limit (cs_db s))" for r
    proof -
      have "r \<in> set (cd_outbox (cs_db s))" using that rows(1) by (rule rev_subsetD)
      with can rows(3) [OF that] show ?thesis by (auto simp: claimable_row_def due_row_def abandoned_row_def)
    qed
    have "rows_of i s' = rows_of i s"
      using update_where_untouched [of "cd_outbox (cs_db s)" i
          "\<lambda>r. ob_id r \<in> ob_id ` set (claim_statement locked now limit (cs_db s))" "claim_row worker until now"]
        sel unfolding rows_of_def Claim(1) by (auto simp: d)
    moreover have "no_ready i s'" using ready unfolding Claim(1) no_ready_def by auto
    ultimately show ?thesis unfolding Claim(1) sends_of_def by simp
  next
    case (Advance hs c ph ts now d ph' sent)
    have o: "cd_outbox d = cd_outbox (cs_db s)" by (rule advance_outbox [OF Advance(4)])
    have quiet: "cl_id c = i \<Longrightarrow> sent = [] \<and> (\<forall>call. ph' \<noteq> Ready call)"
    proof -
      assume i: "cl_id c = i"
      then have nr: "\<forall>call. ph \<noteq> Ready call" using ready Advance(2) by (auto simp: no_ready_def)
      obtain e where "check_claim c (cs_db s) = Inl e" using check_claim_cancelled can i by blast
      with nr Advance(4) show ?thesis
        by (cases "(E, now, c, ph, cs_db s)" rule: advance.cases) (auto simp: Let_def split: prod.splits sum.splits)
    qed
    have "no_ready i s'" using ready quiet unfolding Advance(1) by (auto simp: no_ready_def Advance(2))
    moreover have "sends_of i s' = sends_of i s" using quiet unfolding Advance(1) sends_of_def by (cases "cl_id c = i") (simp_all add: filter_empty_conv)
    ultimately show ?thesis unfolding Advance(1) rows_of_def by (simp add: o)
  next
    case (Finish hs c res ts now d st)
    have "rows_of i s' = rows_of i s"
    proof (rule finalized_outbox [OF assms(2), of E c now "case res of Inl e \<Rightarrow> Some e | Inr _ \<Rightarrow> None"])
      assume "finalize_claim E c now (case res of Inl e \<Rightarrow> Some e | Inr _ \<Rightarrow> None) (cs_db s) = (cs_db s, Stale)"
      with Finish show ?thesis by (simp add: rows_of_def)
    next
      fix r assume r: "r \<in> set (cd_outbox (cs_db s))" "held_by c r"
        and eq: "finalize_claim E c now (case res of Inl e \<Rightarrow> Some e | Inr _ \<Rightarrow> None) (cs_db s) =
          ((cs_db s)\<lparr>cd_outbox := update_where (\<lambda>x. x = r)
              (\<lambda>r. fst (settle_row E now (case res of Inl e \<Rightarrow> Some e | Inr _ \<Rightarrow> None) r)) (cd_outbox (cs_db s))\<rparr>,
           snd (settle_row E now (case res of Inl e \<Rightarrow> Some e | Inr _ \<Rightarrow> None) r))"
      have "ob_id r \<noteq> i" using r can by (auto simp: held_by_def)
      then have "filter (\<lambda>r. ob_id r = i) (update_where (\<lambda>x. x = r)
              (\<lambda>r. fst (settle_row E now (case res of Inl e \<Rightarrow> Some e | Inr _ \<Rightarrow> None) r)) (cd_outbox (cs_db s)))
          = filter (\<lambda>r. ob_id r = i) (cd_outbox (cs_db s))"
        by (intro update_where_untouched) auto
      with Finish eq show ?thesis by (auto simp: rows_of_def)
    qed
    then show ?thesis using ready Finish(2) unfolding Finish(1) by (auto simp: sends_of_def no_ready_def)
  next
    case (Crash hs c ph ts)
    then show ?thesis using ready by (auto simp: rows_of_def sends_of_def no_ready_def)
  qed
qed

lemma finished_system:
  assumes "system_step E s s'" "outbox_inv s" "finished_for i s"
  shows "rows_of i s' = rows_of i s \<and> sends_of i s' = sends_of i s \<and> no_ready i s'"
  using assms(1)
proof cases
  case Dispatcher
  moreover have "distinct (map ob_id (cd_outbox (cs_db s)))" using assms(2) by (simp add: outbox_inv_def outbox_start_def)
  ultimately show ?thesis using finished_dispatcher assms(3) by blast
next
  case (Enqueue v mode now d row created)
  have "i \<in> set (map ob_id (cd_outbox (cs_db s)))"
    using assms(3) by (auto simp: finished_for_def rows_of_def filter_empty_conv)
  with Enqueue(2) have "ob_id v \<noteq> i" by auto
  from Enqueue(4) this show ?thesis
    by (cases rule: enqueue_outbox_rows)
      (use Enqueue(1) assms(3) in \<open>auto simp: rows_of_def sends_of_def no_ready_def finished_for_def\<close>)
next
  case (Archive now d n m)
  have o: "cd_outbox d = update_where archivable_row (archived_row now) (cd_outbox (cs_db s))"
    using Archive(2) by (auto simp: archive_retired_work_def)
  have "rows_of i s' = rows_of i s"
    unfolding rows_of_def Archive(1) using assms(3)
    by (simp add: o)
      (rule update_where_untouched; auto simp: finished_for_def rows_of_def archivable_row_def
        OUTBOX_TERMINAL_STATUSES_def archived_row_def)
  with assms(3) Archive(1) show ?thesis by (simp add: sends_of_def no_ready_def finished_for_def)
next
  case (Elsewhere d)
  with assms(3) show ?thesis by (simp add: rows_of_def sends_of_def no_ready_def finished_for_def)
qed

lemma finished_run:
  assumes "(system_step E)\<^sup>*\<^sup>* s s'" "outbox_inv s" "finished_for i s"
  shows "outbox_inv s' \<and> finished_for i s' \<and> rows_of i s' = rows_of i s \<and> sends_of i s' = sends_of i s"
  using assms
proof (induction rule: rtranclp_induct)
  case (step t u)
  then have t: "outbox_inv t" "finished_for i t" "rows_of i t = rows_of i s" "sends_of i t = sends_of i s" by auto
  with finished_system [OF step(2) t(1,2)] inv_system [OF step(2) t(1)] show ?case by (simp add: finished_for_def)
qed simp

end
