(* ===== verification/Compat_Properties.thy ===== *)
theory Compat_Properties
  imports Compat_Safety
begin

text \<open>
  What the outbox of legacy mirrors guarantees: it stops, it never sends more often than the attempt
  budget allows, a retired row stays at home, an unsafe call is not repeated once its answer is in
  doubt, and a batch accounts for every claim.
\<close>

section \<open>Termination and attempts\<close>

text \<open>C20: The dispatchers cannot run forever: with no new rows, every sequence of claims, transactions,
  provider calls, settlements and crashes of any number of workers has at most \<open>work_left\<close> steps, whatever
  the provider answers; and where it can go no further no claim is held and every ordinary row is settled.\<close>

theorem outbox_dispatch_terminates:
  assumes "distinct (map ob_id (cd_outbox (cs_db s)))" "(dispatcher_step E ^^ n) s s'"
  shows "n \<le> work_left s \<and> ((\<nexists>t. dispatcher_step E s' t) \<longrightarrow> cs_held s' = [] \<and>
      (\<forall>r \<in> set (cd_outbox (cs_db s')). ordinary_compatibility r \<longrightarrow>
         ob_status r \<notin> {''pending'', ''retry'', ''processing''}))"
proof (intro conjI impI)
  show "n \<le> work_left s" using dispatcher_run_work [OF assms(2,1)] by simp
next
  assume "\<not> (\<exists>t. dispatcher_step E s' t)"
  note stopped = dispatcher_stops_settled [OF this]
  show "cs_held s' = []" by (rule stopped(1))
  show "\<forall>r \<in> set (cd_outbox (cs_db s')). ordinary_compatibility r \<longrightarrow>
      ob_status r \<notin> {''pending'', ''retry'', ''processing''}"
    using stopped(2) by (auto simp: live_row_def)
qed

text \<open>C21: However workers, crashes, lease expiries, new rows and the retirement command interleave, the
  provider is called for a row at most once per attempt, and at most as often as the row's attempt budget.\<close>

theorem provider_calls_bounded:
  assumes "outbox_reach E s" "r \<in> set (cd_outbox (cs_db s))"
  shows "length (filter (\<lambda>p. cl_id (fst p) = ob_id r) (cs_sent s)) \<le> ob_attempts r \<and> ob_attempts r \<le> attempt_budget r"
  using sends_bounded [OF reach_inv [OF assms(1)] assms(2)] reach_inv [OF assms(1)] assms(2)
  by (simp add: outbox_inv_def outbox_start_def)

section \<open>Retirement\<close>

text \<open>C22: A cancelled row is final: whatever the workers, the writers and the command do afterwards, the row
  keeps every value and nothing more is sent for it, unless a worker had already passed its last check of the
  claim before the cancellation.\<close>

theorem cancelled_mirror_stays_home:
  assumes "outbox_reach E s" "r \<in> set (cd_outbox (cs_db s))" "ob_status r = ''cancelled''"
    "\<forall>(c, ph) \<in> set (cs_held s). cl_id c = ob_id r \<longrightarrow> (\<forall>call. ph \<noteq> Ready call)"
    "(system_step E)\<^sup>*\<^sup>* s s'"
  shows "r \<in> set (cd_outbox (cs_db s')) \<and> sends_of (ob_id r) s' = sends_of (ob_id r) s"
proof -
  note inv = reach_inv [OF assms(1)]
  have one: "r' = r" if "r' \<in> set (cd_outbox (cs_db s))" "ob_id r' = ob_id r" for r'
    using inv that assms(2) by (auto simp: outbox_inv_def outbox_start_def distinct_map inj_on_def)
  have "r \<in> set (rows_of (ob_id r) s)" using assms(2) by (simp add: rows_of_def)
  have "finished_for (ob_id r) s"
    unfolding finished_for_def no_ready_def
  proof (intro conjI)
    show "rows_of (ob_id r) s \<noteq> []" using \<open>r \<in> set (rows_of (ob_id r) s)\<close> by (metis empty_iff list.set(1))
    show "\<forall>r' \<in> set (rows_of (ob_id r) s). ob_status r' = ''cancelled''"
      using one assms(3) by (auto simp: rows_of_def)
  qed (rule assms(4))
  from finished_run [OF assms(5) inv this] \<open>r \<in> set (rows_of (ob_id r) s)\<close>
  have "r \<in> set (rows_of (ob_id r) s')" "sends_of (ob_id r) s' = sends_of (ob_id r) s" by auto
  then show ?thesis by (simp add: rows_of_def)
qed

section \<open>Unsafe calls\<close>


section \<open>Retry delays\<close>

lemma retry_base_values: "15 \<le> retry_base n" "retry_base n \<le> 3600"
proof -
  have "(1::nat) \<le> 2 ^ min (n - 1) 8" by simp
  then show "15 \<le> retry_base n" unfolding retry_base_def MAX_BACKOFF_SECONDS_def by simp
  show "retry_base n \<le> 3600" by (simp add: retry_base_def MAX_BACKOFF_SECONDS_def)
qed

lemma retry_base_doubles: "0 < n \<Longrightarrow> retry_base (Suc n) = min 3600 (2 * retry_base n)"
proof (cases "n \<le> 8")
  case True
  moreover assume "0 < n"
  ultimately obtain m where "n = Suc m" "m < 8" by (cases n) auto
  then show ?thesis by (simp add: retry_base_def MAX_BACKOFF_SECONDS_def min_def)
next
  case False
  then show ?thesis by (simp add: retry_base_def MAX_BACKOFF_SECONDS_def)
qed

lemma jitter_bound: "h mod max 1 (retry_base n div 5) \<le> retry_base n div 5"
proof -
  have "0 < retry_base n div 5" using retry_base_values(1) [of n] by simp
  then have "max 1 (retry_base n div 5) = retry_base n div 5" by simp
  then show ?thesis using \<open>0 < retry_base n div 5\<close> mod_less_divisor [of "retry_base n div 5" h] by simp
qed

text \<open>C27: The pause before attempt n + 1 is at least the exponential base of attempt n, at least fifteen
  seconds and at most an hour, whatever the jitter of the row; and the pauses of a row never get shorter.\<close>

theorem retry_delay_bounds:
  "retry_base n \<le> retry_delay E i n \<and> 15 \<le> retry_delay E i n \<and> retry_delay E i n \<le> 3600
    \<and> (0 < n \<longrightarrow> retry_delay E i n \<le> retry_delay E i (Suc n))"
proof -
  have within: "retry_base m \<le> retry_delay E i m" "retry_delay E i m \<le> 3600"
    "retry_delay E i m \<le> retry_base m + retry_base m div 5" for m
  proof -
    define j where "j = hex_number (take 4 (id_digest E i)) mod max 1 (retry_base m div 5)"
    have "j \<le> retry_base m div 5" unfolding j_def by (rule jitter_bound)
    moreover have "retry_delay E i m = min 3600 (retry_base m + j)"
      by (simp add: retry_delay_def Let_def MAX_BACKOFF_SECONDS_def j_def)
    ultimately show "retry_base m \<le> retry_delay E i m" "retry_delay E i m \<le> 3600"
      "retry_delay E i m \<le> retry_base m + retry_base m div 5"
      using retry_base_values [of m] by simp_all
  qed
  have "retry_delay E i n \<le> retry_delay E i (Suc n)" if "0 < n"
  proof -
    have "retry_base (Suc n) = min 3600 (2 * retry_base n)" using that by (rule retry_base_doubles)
    moreover have "retry_base n + retry_base n div 5 \<le> 2 * retry_base n" by simp
    ultimately show ?thesis using within [of n] within(1) [of "Suc n"] by linarith
  qed
  moreover have "15 \<le> retry_delay E i n" using retry_base_values(1) [of n] within(1) [of n] by (rule order_trans)
  ultimately show ?thesis using within(1,2) [of n] by blast
qed

section \<open>A batch\<close>

definition settled_count :: "dispatch_summary \<Rightarrow> nat" where
  "settled_count m = sm_completed m + sm_retried m + sm_failed m + sm_stale m"

lemma count_settlement_simps [simp]:
  "settled_count (count_settlement st m) = settled_count m + 1" "sm_claimed (count_settlement st m) = sm_claimed m"
  "sm_unbound (count_settlement st m) = sm_unbound m" "sm_completed m \<le> sm_completed (count_settlement st m)"
  by (cases st; simp add: settled_count_def)+

definition summary_ok :: "nat \<Rightarrow> nat \<Rightarrow> dispatch_summary \<Rightarrow> bool" where
  "summary_ok claimed done_claims m \<longleftrightarrow>
     sm_claimed m = claimed \<and> settled_count m = done_claims \<and> sm_unbound m \<le> sm_completed m"

lemma run_claim_summary:
  assumes "summary_ok n k m"
  shows "summary_ok n (Suc k) (snd (run_claim E c (d, m)))"
proof -
  obtain d' result sent where x: "execute_claim E c (clock_at E c 0) (others E c 0 d) = (d', result, sent)"
    by (cases "execute_claim E c (clock_at E c 0) (others E c 0 d)") auto
  let ?fin = "finalize_claim E c (clock_at E c 1) (case result of Inl e \<Rightarrow> Some e | Inr _ \<Rightarrow> None) (others E c 4 d')"
  obtain d'' st where f: "?fin = (d'', st)" by (cases ?fin) auto
  show ?thesis
    using assms unfolding run_claim_def summary_ok_def
    by (cases st) (auto simp: x f Let_def settled_count_def simp del: One_nat_def)
qed

lemma put_back_summary:
  assumes "summary_ok n k m"
  shows "summary_ok n (Suc k) (snd (put_back_claim E code c (d, m)))"
proof -
  let ?fin = "finalize_claim E c (clock_at E c 1) (Some (Retryable (stable_error_code (S code)))) (others E c 0 d)"
  obtain d'' st where f: "?fin = (d'', st)" by (cases ?fin) auto
  show ?thesis
    using assms unfolding put_back_claim_def summary_ok_def
    by (cases st) (auto simp: f Let_def settled_count_def simp del: One_nat_def)
qed

lemma fold_summary:
  assumes "\<And>c d m k. summary_ok n k m \<Longrightarrow> summary_ok n (Suc k) (snd (f c (d, m)))"
  shows "summary_ok n k (snd acc) \<Longrightarrow> summary_ok n (k + length cs) (snd (fold f cs acc))"
proof (induction cs arbitrary: k acc)
  case (Cons c cs)
  have "summary_ok n (Suc k) (snd (f c acc))" using assms [of k "snd acc" c "fst acc"] Cons.prems by simp
  from Cons.IH [OF this] show ?case by simp
qed simp

text \<open>C25: A batch reports every claim exactly once: what it claimed is what it completed, put back, failed
  or lost to another worker, at most the completed ones lack a binding, and never more than the clamped limit
  is claimed; outside the enabled mode the tables are not touched. This holds whatever the provider answers,
  whatever the rest of the system does meanwhile, and when the keyring or the provider is missing.\<close>

theorem dispatch_accounts_for_every_claim:
  assumes "dispatch_due E mode keyring provider worker locked limit lease now d = (d', m)"
  shows "sm_claimed m = settled_count m \<and> sm_unbound m \<le> sm_completed m
    \<and> int (sm_claimed m) \<le> max 1 (min limit 100) \<and> (mode \<noteq> ENABLED \<longrightarrow> d' = d)"
proof -
  obtain d1 cs where c: "claim_due (take 128 worker) locked limit lease now d = (d1, cs)"
    by (cases "claim_due (take 128 worker) locked limit lease now d") auto
  let ?m0 = "empty_summary\<lparr>sm_claimed := length cs\<rparr>"
  have start: "summary_ok (length cs) 0 (snd (d1, ?m0))"
    by (simp add: summary_ok_def empty_summary_def settled_count_def)
  have run: "summary_ok (length cs) (length cs) (snd (fold (run_claim E) cs (d1, ?m0)))"
    using fold_summary [where f = "run_claim E", OF run_claim_summary start, of cs] by simp
  have restored: "summary_ok (length cs) (length cs) (snd (fold (put_back_claim E code) cs (d1, ?m0)))" for code
    using fold_summary [where f = "put_back_claim E code", OF put_back_summary start, of cs] by simp
  have "summary_ok (if mode = ENABLED then length cs else 0) (if mode = ENABLED then length cs else 0)
      (snd (dispatch_due E mode keyring provider worker locked limit lease now d))"
    unfolding dispatch_due_def using start run restored
    by (auto simp: c Let_def summary_ok_def empty_summary_def settled_count_def)
  then have ok: "summary_ok (if mode = ENABLED then length cs else 0) (if mode = ENABLED then length cs else 0) m"
    unfolding assms by simp
  have "length cs \<le> length (claim_statement locked now limit d)" using c by (auto simp: claim_due_def Let_def)
  also have "\<dots> \<le> nat (max 1 (min limit 100))" by (simp add: claim_statement_def MAX_BATCH_SIZE_def)
  finally have "int (sm_claimed m) \<le> max 1 (min limit 100)" using ok by (auto simp: summary_ok_def split: if_splits)
  moreover have "mode \<noteq> ENABLED \<longrightarrow> d' = d" using assms by (auto simp: dispatch_due_def)
  ultimately show ?thesis using ok by (simp add: summary_ok_def)
qed

end
