(* ===== verification/Compat_Mirror.thy ===== *)
theory Compat_Mirror
  imports Compat_Dispatch "HOL-Library.Multiset"
begin

text \<open>
  From the local mutation to the provider's call: which call a social mirror becomes, which operations
  never become one, and what the retirement preview promises.
\<close>

section \<open>Social mirrors\<close>

definition TARGETED_OPERATIONS :: "(string \<times> string) list" where
  "TARGETED_OPERATIONS =
     [(''follow'', ''follow''), (''unfollow'', ''unfollow''), (''add-friend'', ''add_friend''),
      (''agree-friend'', ''agree_friend''), (''visit'', ''record_profile_view'')]"

definition social_path :: "string \<Rightarrow> pystr" where
  "social_path name = S (''/api/social/'' @ name)"

lemma path_operation_closed:
  "take 96 (path_operation (social_path ''follow'')) = compat_op ''social.follow''"
  "take 96 (path_operation (social_path ''unfollow'')) = compat_op ''social.unfollow''"
  "take 96 (path_operation (social_path ''add-friend'')) = compat_op ''social.add-friend''"
  "take 96 (path_operation (social_path ''agree-friend'')) = compat_op ''social.agree-friend''"
  "take 96 (path_operation (social_path ''visit'')) = compat_op ''social.visit''"
  "take 96 (path_operation (social_path ''reject-friend'')) = compat_op ''social.reject-friend''"
  "take 96 (path_operation (social_path ''cancel-friend'')) = compat_op ''social.cancel-friend''"
  by code_simp+

lemma path_operation_targeted:
  assumes "name \<in> set [''follow'', ''unfollow'', ''add-friend'', ''agree-friend'', ''visit'', ''reject-friend'', ''cancel-friend'']"
  shows "take 96 (path_operation (social_path name)) = compat_op (''social.'' @ name)"
  using assms unfolding list.set insert_iff empty_iff
  by (elim disjE; simp only: append.simps path_operation_closed)

lemma recognized_names:
  "RECOGNIZED_OPERATION_TYPES = map compat_op
     [''profile.nick'', ''profile.reset'', ''profile.privacy'', ''social.follow'', ''social.unfollow'',
      ''social.add-friend'', ''social.agree-friend'', ''social.reject-friend'', ''social.cancel-friend'',
      ''social.delete-friend'', ''social.blacklist-add'', ''social.blacklist-del'', ''social.visit'',
      ''social.topic.create'', ''social.post.publish'', ''social.post.delete'', ''social.post.visibility'',
      ''social.post.pin'', ''social.post.comment-policy'', ''social.comment.publish'', ''social.comment.delete'',
      ''social.comment.moderate'', ''social.reaction.like'', ''social.report.create'', ''social.post.view'']"
  unfolding RECOGNIZED_OPERATION_TYPES_def compat_op_def by (rule refl)

lemma compat_op_member: "compat_op n \<in> set (map compat_op ns) \<longleftrightarrow> n \<in> set ns"
  by auto

lemma prepare_social:
  assumes "n \<in> set [''social.follow'', ''social.unfollow'', ''social.add-friend'', ''social.agree-friend'', ''social.visit'']"
  shows "prepare_call show (compat_op n) payload d =
    and_then (social_body payload) (\<lambda>body.
      and_then (target_uid show payload body) (targeted_call show (compat_op n) body))"
proof -
  have "compat_op n \<in> set RECOGNIZED_OPERATION_TYPES" unfolding recognized_names compat_op_member
    using assms by (elim set_ConsD [elim_format] disjE) simp_all
  moreover have "compat_op n \<in> set SOCIAL_CALL_OPERATIONS" unfolding SOCIAL_CALL_OPERATIONS_def compat_op_member
    using assms by (elim set_ConsD [elim_format] disjE) simp_all
  ultimately have "prepare_call show (compat_op n) payload d = prepare_social_call show (compat_op n) payload"
    by (simp add: prepare_call_def)
  moreover have "n \<notin> {''profile.nick'', ''profile.reset'', ''profile.privacy'', ''social.reject-friend'', ''social.cancel-friend''}"
    using assms by (elim set_ConsD [elim_format] disjE) simp_all
  ultimately show ?thesis by (simp add: prepare_social_call_def)
qed

lemma targeted_call_method:
  assumes "(name, method) \<in> set TARGETED_OPERATIONS"
  shows "\<exists>call. targeted_call show (compat_op (''social.'' @ name)) body target = Inr call \<and>
    cc_component call = ''social'' \<and> cc_method call = method \<and> cc_args call \<noteq> [] \<and> hd (cc_args call) = target"
  using assms unfolding TARGETED_OPERATIONS_def list.set insert_iff empty_iff prod.inject
  by (elim disjE conjE; simp add: targeted_call_def add_friend_call_def mk_call_def Let_def)

lemma target_uid_of_payload:
  assumes "jget payload ''target_uid'' = JStr target" "py_strip target = target" "target \<noteq> []" "length target \<le> 128"
  shows "target_uid show payload body = Inr target"
  using assms by (simp add: target_uid_def)

lemma compatibility_row_simps [simp]:
  "ob_type (compatibility_row rid owner actor key path body target [] now) = take 96 (path_operation path)"
  "ob_status (compatibility_row rid owner actor key path body target [] now) = ''pending''"
  "jget (ob_payload (compatibility_row rid owner actor key path body target [] now)) ''body'' = json_safe (JObj body)"
  "jget (ob_payload (compatibility_row rid owner actor key path body target [] now)) ''target_uid'' = JStr target"
  by (simp_all add: compatibility_row_def terminal_values_def outbox_defaults_def jget_def)



section \<open>Operations without a call\<close>

lemma unmappable_names:
  "UNSAFE_OR_UNMAPPABLE_OPERATION_TYPES = map compat_op
     [''social.reject-friend'', ''social.cancel-friend'', ''social.post.pin'', ''social.post.comment-policy'',
      ''social.reaction.like'']"
proof -
  have direct: "DIRECTLY_MIRRORED_OPERATION_TYPES = map compat_op
     [''profile.nick'', ''profile.reset'', ''profile.privacy'', ''social.follow'', ''social.unfollow'',
      ''social.add-friend'', ''social.agree-friend'', ''social.delete-friend'', ''social.blacklist-add'',
      ''social.blacklist-del'', ''social.visit'', ''social.topic.create'', ''social.post.publish'',
      ''social.post.delete'', ''social.post.visibility'', ''social.comment.publish'', ''social.comment.delete'',
      ''social.comment.moderate'', ''social.report.create'', ''social.post.view'']"
    unfolding DIRECTLY_MIRRORED_OPERATION_TYPES_def compat_op_def by (rule refl)
  show ?thesis
    unfolding UNSAFE_OR_UNMAPPABLE_OPERATION_TYPES_def recognized_names direct filter_map comp_def compat_op_member
    by simp
qed

lemma permanent_and_then: "(\<And>x. \<exists>c. k x = Inl (Permanent c)) \<Longrightarrow> r = permanent code \<or> (\<exists>x. r = Inr x)
    \<Longrightarrow> \<exists>c. and_then r k = Inl (Permanent c)"
  by (auto simp: permanent_def)

lemma unmappable_never_called:
  assumes "operation \<in> set UNSAFE_OR_UNMAPPABLE_OPERATION_TYPES"
  shows "\<exists>c. prepare_call show operation payload d = Inl (Permanent c)"
proof -
  obtain n where n: "operation = compat_op n" "n \<in> set [''social.reject-friend'', ''social.cancel-friend'',
      ''social.post.pin'', ''social.post.comment-policy'', ''social.reaction.like'']"
    using assms unfolding unmappable_names set_map by (rule imageE)
  have body: "social_body payload = permanent ''invalid_social_body'' \<or> (\<exists>x. social_body payload = Inr x)"
    by (auto simp: social_body_def as_mapping_def split: json.splits)
  have moment: "moment_payload payload = permanent ''invalid_moments_payload'' \<or> (\<exists>x. moment_payload payload = Inr x)"
    by (auto simp: moment_payload_def as_mapping_def split: json.splits)
  have rec: "operation \<in> set RECOGNIZED_OPERATION_TYPES"
    using assms by (simp add: UNSAFE_OR_UNMAPPABLE_OPERATION_TYPES_def)
  show ?thesis
  proof (cases "n \<in> {''social.reject-friend'', ''social.cancel-friend''}")
    case True
    then have "operation \<in> set SOCIAL_CALL_OPERATIONS"
      unfolding n(1) SOCIAL_CALL_OPERATIONS_def compat_op_member by auto
    with rec have "prepare_call show operation payload d = prepare_social_call show operation payload"
      by (simp add: prepare_call_def)
    moreover have "\<exists>c. prepare_social_call show operation payload = Inl (Permanent c)"
      unfolding prepare_social_call_def n(1)
      by (rule permanent_and_then [OF _ body]) (use True in \<open>auto simp: permanent_def\<close>)
    ultimately show ?thesis by simp
  next
    case False
    with n(2) have n': "n \<in> set [''social.post.pin'', ''social.post.comment-policy'', ''social.reaction.like'']" by auto
    then have "operation \<notin> set SOCIAL_CALL_OPERATIONS" "\<not> py_startswith operation (S ''compatibility.profile.'')"
      unfolding n(1) SOCIAL_CALL_OPERATIONS_def compat_op_member
      by (auto simp: compat_op_def py_startswith_def S_def)
    with rec have "prepare_call show operation payload d = prepare_moments_call show operation payload d"
      by (simp add: prepare_call_def)
    moreover have "\<exists>c. prepare_moments_call show operation payload d = Inl (Permanent c)"
      unfolding prepare_moments_call_def n(1)
      by (rule permanent_and_then [OF _ moment]) (use n' in \<open>auto simp: permanent_def\<close>)
    ultimately show ?thesis by simp
  qed
qed

section \<open>The retirement preview\<close>

definition weight :: "(pystr \<Rightarrow> bool) \<Rightarrow> (pystr \<times> nat) list \<Rightarrow> nat" where
  "weight Q counts = sum_list (map snd (filter (Q \<circ> fst) counts))"

lemma weight_update:
  "distinct (map fst counts) \<Longrightarrow>
     weight Q (AList.update s ((case map_of counts s of None \<Rightarrow> 0 | Some n \<Rightarrow> n) + k) counts)
       = weight Q counts + (if Q s then k else 0)"
proof (induction counts)
  case Nil
  then show ?case by (simp add: weight_def)
next
  case (Cons p counts)
  obtain t n where p: "p = (t, n)" by (cases p)
  show ?case
  proof (cases "t = s")
    case True
    then show ?thesis by (simp add: p weight_def)
  next
    case False
    with Cons show ?thesis by (simp add: p weight_def)
  qed
qed

lemma add_count_weight:
  assumes "distinct (map fst counts)"
  shows "weight Q (add_count row counts) = weight Q counts + (if Q (normal_status (fst row)) then snd row else 0)"
    "distinct (map fst (add_count row counts))"
  using weight_update [OF assms] assms by (simp_all add: add_count_def Let_def distinct_update)

lemma fold_add_count:
  "distinct (map fst counts) \<Longrightarrow>
     weight Q (fold add_count rows counts) =
       weight Q counts + sum_list (map snd (filter (\<lambda>row. Q (normal_status (fst row))) rows))"
  by (induction rows arbitrary: counts) (simp_all add: add_count_weight)

lemma weight_status_counts:
  "weight Q (status_counts rows) = sum_list (map snd (filter (\<lambda>row. Q (normal_status (fst row))) rows))"
proof -
  have "mset (map snd (filter (Q \<circ> fst) (sort_key fst (fold add_count rows []))))
      = mset (map snd (filter (Q \<circ> fst) (fold add_count rows [])))" by simp
  then have "weight Q (status_counts rows) = weight Q (fold add_count rows [])"
    unfolding weight_def status_counts_def sum_mset_sum_list [symmetric] by simp
  then show ?thesis using fold_add_count [of "[]" Q rows] by (simp add: weight_def)
qed

lemma counted_once:
  "sum_list (map (count_list ss) (filter P (remdups ss))) = length (filter P ss)"
proof -
  have "sum_list (map (count_list ss) (filter P (remdups ss))) = sum (count_list ss) (set (filter P ss))"
    by (simp add: sum_list_distinct_conv_sum_set)
  also have "\<dots> = sum (count_list (filter P ss)) (set (filter P ss))"
  proof (rule sum.cong [OF refl])
    fix x assume "x \<in> set (filter P ss)"
    then have "P x" by simp
    then show "count_list ss x = count_list (filter P ss) x" by (induction ss) auto
  qed
  also have "\<dots> = length (filter P ss)" by (rule sum_count_set) simp_all
  finally show ?thesis .
qed

lemma weight_group_counts:
  "weight Q (status_counts (group_counts ss)) = length (filter (\<lambda>s. Q (normal_status s)) ss)"
  unfolding weight_status_counts group_counts_def
  by (simp add: filter_map comp_def counted_once)

definition normal_statuses :: "compat_db \<Rightarrow> bool" where
  "normal_statuses d \<longleftrightarrow> (\<forall>r \<in> set (cd_outbox d). normal_status (ob_status r) = S (ob_status r)) \<and>
     (\<forall>r \<in> set (cd_deliveries d). normal_status (dl_status r) = S (dl_status r))"

lemma preview_counts:
  assumes "normal_statuses d"
  shows "rp_outbox_cancellable (inspect_retirement d) = length (filter archivable_row (cd_outbox d))"
    "rp_tim_cancellable (inspect_retirement d) = length (filter archivable_delivery (cd_deliveries d))"
proof -
  have c: "cancellable_count terminal counts = weight (\<lambda>s. s \<notin> set (map S terminal)) counts" for terminal counts
    by (simp add: cancellable_count_def weight_def comp_def case_prod_unfold)
  have "filter (\<lambda>r. normal_status (ob_status r) \<notin> set (map S OUTBOX_TERMINAL_STATUSES))
      (filter ordinary_compatibility (cd_outbox d)) = filter archivable_row (cd_outbox d)"
    unfolding filter_filter by (rule filter_cong [OF refl])
      (use assms in \<open>auto simp: normal_statuses_def archivable_row_def OUTBOX_TERMINAL_STATUSES_def\<close>)
  then show "rp_outbox_cancellable (inspect_retirement d) = length (filter archivable_row (cd_outbox d))"
    by (simp add: inspect_retirement_def Let_def c weight_group_counts filter_map comp_def)
  have "filter (\<lambda>r. normal_status (dl_status r) \<notin> set (map S TIM_TERMINAL_STATUSES))
      (filter optional_tim (cd_deliveries d)) = filter archivable_delivery (cd_deliveries d)"
    unfolding filter_filter by (rule filter_cong [OF refl])
      (use assms in \<open>auto simp: normal_statuses_def archivable_delivery_def TIM_TERMINAL_STATUSES_def\<close>)
  then show "rp_tim_cancellable (inspect_retirement d) = length (filter archivable_delivery (cd_deliveries d))"
    by (simp add: inspect_retirement_def Let_def c weight_group_counts filter_map comp_def)
qed

lemma none_left: "(\<And>r. \<not> P (f r)) \<Longrightarrow> filter P (update_where P f rows) = []"
  by (auto simp: update_where_def filter_empty_conv)

lemma cancelled_normal: "normal_status ''cancelled'' = S ''cancelled''"
  by (simp add: normal_status_def py_lower_def lower_cp_def py_strip_def py_space_def S_def)

text \<open>C26: The preview of the retirement command is exact: with the statuses the code writes, the counts it calls
  cancellable are the numbers of rows and deliveries the archive then cancels, and a second preview finds
  nothing more to cancel.\<close>

theorem retirement_preview_exact:
  assumes "normal_statuses d" "archive_retired_work RETIRED now d = Inr (d', n, m)"
  shows "n = rp_outbox_cancellable (inspect_retirement d) \<and> m = rp_tim_cancellable (inspect_retirement d)
    \<and> rp_outbox_cancellable (inspect_retirement d') = 0 \<and> rp_tim_cancellable (inspect_retirement d') = 0"
proof -
  have d': "cd_outbox d' = update_where archivable_row (archived_row now) (cd_outbox d)"
    "cd_deliveries d' = update_where archivable_delivery archived_delivery (cd_deliveries d)"
    and n: "n = length (filter archivable_row (cd_outbox d))" "m = length (filter archivable_delivery (cd_deliveries d))"
    using assms(2) by (auto simp: archive_retired_work_def)
  have "normal_statuses d'"
    using assms(1) cancelled_normal
    by (auto simp: normal_statuses_def d' update_where_def archived_row_def archived_delivery_def)
  from preview_counts [OF this] preview_counts [OF assms(1)] show ?thesis
    unfolding n d'
    by (simp add: none_left archivable_row_def archived_row_def OUTBOX_TERMINAL_STATUSES_def
        archivable_delivery_def archived_delivery_def TIM_TERMINAL_STATUSES_def)
qed

end
