(* ===== verification/Compat_Examples.thy ===== *)
theory Compat_Examples
  imports Compat_Properties Compat_Mirror
begin

text \<open>
  A follow that is mirrored, claimed, prepared, retired and sent: the witnesses of the theorems on the
  outbox, and the interleaving in which an archived row still reaches the provider.
\<close>

section \<open>One mirror\<close>

definition mirror_env :: compat_env where
  "mirror_env = \<lparr>nfkc = id, category = (\<lambda>_. CHR ''L''), unicode_word = (\<lambda>_. True), sha256 = id,
     uuid_str = (\<lambda>u. replicate u 97), zones = (\<lambda>_. fixed_offset_zone 0), lease_seconds = 300,
     nfc = id, py_repr = (\<lambda>_. []), fresh_id = (\<lambda>ids. Suc (fold max ids 0)), valid_bracketed_host = (\<lambda>_. False),
     iso_format = (\<lambda>_. []), from_iso = (\<lambda>_. None), uuid_parse = (\<lambda>_. None),
     id_digest = (\<lambda>_. S ''00ff''), decrypt = (\<lambda>_ _ _. Some (S ''t'')), restore_runtime = (\<lambda>_. Some True),
     upstream = (\<lambda>c call. if cc_method call = ''follow''
       then Returns \<lparr>pr_ok = True, pr_status = 200, pr_kind = [], pr_code = [], pr_data = JNull\<rparr>
       else Raises (S ''ConnectError'')),
     others = (\<lambda>_ _ d. d), bind_fails = (\<lambda>_. False), clock_at = (\<lambda>_ _. 0)\<rparr>"

lemma mirror_env_simps [simp]:
  "py_repr mirror_env = (\<lambda>_. [])" "decrypt mirror_env = (\<lambda>_ _ _. Some (S ''t''))"
  "restore_runtime mirror_env = (\<lambda>_. Some True)"
  "upstream mirror_env c call = (if cc_method call = ''follow''
     then Returns \<lparr>pr_ok = True, pr_status = 200, pr_kind = [], pr_code = [], pr_data = JNull\<rparr>
     else Raises (S ''ConnectError''))"
  by (simp_all add: mirror_env_def)

definition mirror_account :: compat_account where
  "mirror_account = \<lparr>ca_id = 30, ca_user = 20, ca_user_status = ''active'', ca_user_disabled = False, ca_display = [],
     ca_profile = [], ca_provider = LEGACY_PROVIDER, ca_sync_enabled = True, ca_uid = Some (S ''7''),
     ca_login = Some [], ca_token = Some [], ca_token_expires = None, ca_device = []\<rparr>"

definition follow_row :: outbox_row where
  "follow_row = compatibility_row 10 20 (S ''7'') (S ''key'') (social_path ''follow'') [] (S ''42'') [] 0"

definition follow_db :: compat_db where
  "follow_db = \<lparr>cd_outbox = [follow_row], cd_deliveries = [], cd_entities = [], cd_bindings = [],
     cd_accounts = [mirror_account]\<rparr>"

lemma follow_row_simps [simp]:
  "ob_id follow_row = 10" "ob_owner follow_row = 20" "ob_type follow_row = compat_op ''social.follow''"
  "ob_status follow_row = ''pending''" "ob_attempts follow_row = 0" "ob_max follow_row = 8"
  "ob_available follow_row = 0" "ob_locked_until follow_row = None" "ob_locked_by follow_row = None"
  unfolding follow_row_def compatibility_row_simps path_operation_closed
  by (simp_all add: compatibility_row_def terminal_values_def outbox_defaults_def)

lemma ordinary_follow: "ordinary_compatibility r" if "ob_type r = compat_op ''social.follow''"
  using that by (simp add: ordinary_compatibility_def py_startswith_def compat_op_def S_def)

lemma claimable_follow:
  assumes "ob_type r = compat_op ''social.follow''" "due_row now r \<or> abandoned_row now r"
  shows "claimable_row now r"
  using assms ordinary_follow [OF assms(1)] by (auto simp: claimable_row_def compat_op_def)

lemma claim_one:
  assumes "cd_outbox d = [r]" "claimable_row now r"
  shows "claim_statement [] now 10 d = [r]"
    "claim_due worker [] 10 30 now d =
      (d\<lparr>cd_outbox := [claim_row worker (now + seconds 30) now r]\<rparr>,
       if exhausted r then [] else [claimed_view worker (claim_row worker (now + seconds 30) now r)])"
  using assms by (simp_all add: claim_statement_def claim_due_def update_where_def MAX_BATCH_SIZE_def Let_def)

definition busy_row :: outbox_row where
  "busy_row = processing_row (S ''w'') (seconds 30) follow_row"

definition follow_claim :: claimed_operation where
  "follow_claim = claimed_view (S ''w'') busy_row"

definition busy_db :: compat_db where
  "busy_db = follow_db\<lparr>cd_outbox := [busy_row]\<rparr>"

lemma busy_simps [simp]:
  "ob_id busy_row = 10" "ob_type busy_row = compat_op ''social.follow''" "ob_status busy_row = ''processing''"
  "ob_attempts busy_row = 1" "ob_max busy_row = 8" "ob_locked_by busy_row = Some (S ''w'')"
  "cl_id follow_claim = 10" "cl_attempt follow_claim = 1" "cl_worker follow_claim = S ''w''"
  "cl_owner follow_claim = 20" "cl_type follow_claim = compat_op ''social.follow''"
  "cl_payload follow_claim = ob_payload follow_row"
  "cd_outbox busy_db = [busy_row]" "cd_accounts busy_db = [mirror_account]" "cd_deliveries busy_db = []"
  "cd_outbox follow_db = [follow_row]" "cd_deliveries follow_db = []"
  by (simp_all add: busy_row_def processing_row_def follow_claim_def claimed_view_def busy_db_def follow_db_def)

lemma follow_claimed: "claim_due (S ''w'') [] 10 30 0 follow_db = (busy_db, [follow_claim])"
proof -
  have "claimable_row 0 follow_row" by (rule claimable_follow) (simp_all add: due_row_def unlocked_def)
  moreover have "\<not> exhausted follow_row" by (simp add: exhausted_def attempt_budget_def)
  ultimately show ?thesis
    using claim_one(2) [of follow_db follow_row 0 "S ''w''"]
    by (simp add: busy_db_def busy_row_def follow_claim_def claim_row_def)
qed

section \<open>Preparing the call\<close>

definition follow_call :: compat_call where
  "follow_call = (mk_call ''social'' ''follow'' [S ''42''])\<lparr>cc_kwargs := [(S ''quietly'', JStr (S ''1''))]\<rparr>"

definition follow_account :: runtime_account where
  "follow_account = \<lparr>ra_account = 30, ra_uid = S ''7'', ra_login = [], ra_token = [], ra_expires = None,
     ra_display = [], ra_profile = [], ra_device = []\<rparr>"

lemma strip_digits [simp]: "py_strip (S ''42'') = S ''42''" "py_strip (S ''7'') = S ''7''" "py_strip (S ''t'') = S ''t''"
  by (simp_all add: py_strip_def py_space_def S_def)

lemma follow_prepared: "prepare_call (\<lambda>_. []) (compat_op ''social.follow'') (ob_payload follow_row) d = Inr follow_call"
proof -
  have body: "social_body (ob_payload follow_row) = Inr []"
    by (simp add: follow_row_def social_body_def as_mapping_def)
  have target: "target_uid (\<lambda>_. []) (ob_payload follow_row) [] = Inr (S ''42'')"
    by (rule target_uid_of_payload) (simp_all add: follow_row_def)
  have "prepare_call (\<lambda>_. []) (compat_op ''social.follow'') (ob_payload follow_row) d
      = targeted_call (\<lambda>_. []) (compat_op ''social.follow'') [] (S ''42'')"
    using prepare_social [of "''social.follow''" "\<lambda>_. []" "ob_payload follow_row" d] body target by simp
  then show ?thesis by (simp add: targeted_call_def follow_call_def)
qed

lemma follow_account_loaded: "load_runtime_account 20 busy_db = Inr follow_account"
  by (simp add: load_runtime_account_def mirror_account_def follow_account_def Let_def or_default_def)

lemma follow_actor: "jget (ob_payload follow_row) ''actor_uid'' = JStr (S ''7'')"
  by (simp add: follow_row_def compatibility_row_def terminal_values_def outbox_defaults_def jget_def)

lemma follow_claim_prepared: "prepare_claim mirror_env follow_claim busy_db = Inr (follow_call, follow_account)"
  unfolding prepare_claim_def
  by (simp add: follow_prepared follow_account_loaded follow_actor) (simp add: follow_account_def)

lemma follow_checked: "check_claim follow_claim busy_db = Inr ()"
  by (simp add: check_claim_def claim_still_processing_def held_by_def)

lemma follow_runtime: "\<exists>session. create_runtime mirror_env follow_account 0 = Inr session"
  by (simp add: create_runtime_def follow_account_def)

section \<open>The run\<close>

definition at_phase :: "compat_db \<Rightarrow> claim_phase \<Rightarrow> compat_state" where
  "at_phase d ph = \<lparr>cs_db = d, cs_held = [(follow_claim, ph)], cs_sent = []\<rparr>"

lemma advance_at:
  assumes "\<forall>res. ph \<noteq> Settled res" "advance mirror_env 0 follow_claim ph d = (d', ph', sent)"
  shows "dispatcher_step mirror_env (at_phase d ph)
    (at_phase d' ph'\<lparr>cs_sent := map (Pair follow_claim) sent\<rparr>)"
  using dispatcher_step.Advance [of "at_phase d ph" "[]" follow_claim ph "[]" mirror_env 0 d' ph' sent] assms
  by (simp add: at_phase_def)

lemma reach_holding: "outbox_reach mirror_env (at_phase busy_db Holding)"
proof -
  let ?s = "\<lparr>cs_db = follow_db, cs_held = [], cs_sent = []\<rparr>"
  have "outbox_reach mirror_env ?s"
    by (rule outbox_reach.Start) (simp add: outbox_start_def attempt_budget_def)
  moreover have "dispatcher_step mirror_env ?s (?s\<lparr>cs_db := busy_db, cs_held := cs_held ?s @ map (\<lambda>c. (c, Holding)) [follow_claim]\<rparr>)"
  proof (rule dispatcher_step.Claim)
    show "claim_due (S ''w'') [] 10 30 0 (cs_db ?s) = (busy_db, [follow_claim])" by (simp add: follow_claimed)
    show "claim_statement [] 0 10 (cs_db ?s) \<noteq> []"
      using claim_one(1) [of follow_db follow_row 0] claimable_follow [of follow_row 0]
      by (simp add: due_row_def unlocked_def)
  qed
  ultimately show ?thesis
    using outbox_reach.Step [OF _ system_step.Dispatcher] by (simp add: at_phase_def)
qed

lemma reach_opened: "outbox_reach mirror_env (at_phase busy_db (Opened follow_call))"
proof -
  obtain session where session: "create_runtime mirror_env follow_account 0 = Inr session" using follow_runtime by blast
  have "dispatcher_step mirror_env (at_phase busy_db Holding) (at_phase busy_db (Prepared follow_call follow_account))"
    using advance_at [of Holding busy_db busy_db "Prepared follow_call follow_account" "[]"]
    by (simp add: follow_claim_prepared) (simp add: at_phase_def)
  with reach_holding have "outbox_reach mirror_env (at_phase busy_db (Prepared follow_call follow_account))"
    using outbox_reach.Step system_step.Dispatcher by blast
  moreover have "dispatcher_step mirror_env (at_phase busy_db (Prepared follow_call follow_account)) (at_phase busy_db (Opened follow_call))"
    using advance_at [of "Prepared follow_call follow_account" busy_db busy_db "Opened follow_call" "[]"]
    by (simp add: follow_checked session) (simp add: at_phase_def)
  ultimately show ?thesis using outbox_reach.Step system_step.Dispatcher by blast
qed

lemma reach_ready: "outbox_reach mirror_env (at_phase busy_db (Ready follow_call))"
proof -
  have "dispatcher_step mirror_env (at_phase busy_db (Opened follow_call)) (at_phase busy_db (Ready follow_call))"
    using advance_at [of "Opened follow_call" busy_db busy_db "Ready follow_call" "[]"]
    by (simp add: follow_checked) (simp add: at_phase_def)
  with reach_opened show ?thesis using outbox_reach.Step system_step.Dispatcher by blast
qed

definition retired_db :: compat_db where
  "retired_db = busy_db\<lparr>cd_outbox := [archived_row 5 busy_row]\<rparr>"

lemma retired_simps [simp]:
  "cd_outbox retired_db = [archived_row 5 busy_row]" "ob_status (archived_row 5 busy_row) = ''cancelled''"
  "ob_id (archived_row 5 busy_row) = 10" "ob_attempts (archived_row 5 busy_row) = 1"
  by (simp_all add: retired_db_def archived_row_def)

lemma archive_busy: "archive_retired_work RETIRED 5 busy_db = Inr (retired_db, 1, 0)"
  by (simp add: archive_retired_work_def update_where_def archivable_row_def ordinary_follow OUTBOX_TERMINAL_STATUSES_def
      retired_db_def)

lemma reach_retired: "outbox_reach mirror_env (at_phase busy_db ph) \<Longrightarrow> outbox_reach mirror_env (at_phase retired_db ph)"
  using outbox_reach.Step [OF _ system_step.Archive [of 5 "at_phase busy_db ph" retired_db 1 0]] archive_busy
  by (simp add: at_phase_def)

text \<open>The worker has passed its last check; the operator retires the row; the call still leaves.\<close>

definition escaped_state :: compat_state where
  "escaped_state = \<lparr>cs_db = retired_db,
     cs_held = [(follow_claim, Answered follow_call \<lparr>pr_ok = True, pr_status = 200, pr_kind = [], pr_code = [], pr_data = JNull\<rparr>)],
     cs_sent = [(follow_claim, follow_call)]\<rparr>"

lemma escape_step: "dispatcher_step mirror_env (at_phase retired_db (Ready follow_call)) escaped_state"
  using advance_at [of "Ready follow_call" retired_db retired_db
      "Answered follow_call \<lparr>pr_ok = True, pr_status = 200, pr_kind = [], pr_code = [], pr_data = JNull\<rparr>" "[follow_call]"]
  by (simp add: call_provider_def invoke_def ensure_success_def follow_call_def mk_call_def)
    (simp add: at_phase_def escaped_state_def follow_call_def mk_call_def)

lemma archived_row_can_escape:
  "outbox_reach mirror_env (at_phase retired_db (Ready follow_call))"
  "(\<forall>r \<in> set (cd_outbox retired_db). ob_status r = ''cancelled'')"
  "dispatcher_step mirror_env (at_phase retired_db (Ready follow_call)) escaped_state"
  "cs_sent escaped_state = [(follow_claim, follow_call)]"
  using reach_retired [OF reach_ready] escape_step by (simp_all add: escaped_state_def)

section \<open>Witnesses\<close>

theorem provider_calls_bounded_witness:
  "length (filter (\<lambda>p. cl_id (fst p) = ob_id (archived_row 5 busy_row)) (cs_sent escaped_state))
      \<le> ob_attempts (archived_row 5 busy_row)
    \<and> ob_attempts (archived_row 5 busy_row) \<le> attempt_budget (archived_row 5 busy_row)"
proof (rule provider_calls_bounded)
  show "outbox_reach mirror_env escaped_state"
    using outbox_reach.Step [OF archived_row_can_escape(1) system_step.Dispatcher [OF escape_step]] .
  show "archived_row 5 busy_row \<in> set (cd_outbox (cs_db escaped_state))" by (simp add: escaped_state_def)
qed

definition stopped_state :: compat_state where
  "stopped_state = at_phase retired_db
     (Settled (Inl (Permanent (stable_error_code (S ''compatibility_claim_cancelled'')))))"

lemma stopped_step: "dispatcher_step mirror_env (at_phase retired_db (Opened follow_call)) stopped_state"
proof -
  have "check_claim follow_claim retired_db = permanent ''compatibility_claim_cancelled''"
    by (simp add: check_claim_def claim_still_processing_def held_by_def)
  then show ?thesis
    using advance_at [of "Opened follow_call" retired_db retired_db _ "[]"]
    by (simp add: permanent_def stopped_state_def) (simp add: at_phase_def)
qed

theorem cancelled_mirror_stays_home_witness:
  "archived_row 5 busy_row \<in> set (cd_outbox (cs_db stopped_state))
    \<and> sends_of (ob_id (archived_row 5 busy_row)) stopped_state
        = sends_of (ob_id (archived_row 5 busy_row)) (at_phase retired_db (Opened follow_call))"
proof (rule cancelled_mirror_stays_home)
  show "outbox_reach mirror_env (at_phase retired_db (Opened follow_call))" by (rule reach_retired [OF reach_opened])
  show "(system_step mirror_env)\<^sup>*\<^sup>* (at_phase retired_db (Opened follow_call)) stopped_state"
    using system_step.Dispatcher [OF stopped_step] by (rule r_into_rtranclp)
qed (simp_all add: at_phase_def)

text \<open>A crashed worker held the last attempt: the lease runs out and the row fails.\<close>

definition tired_row :: outbox_row where
  "tired_row = busy_row\<lparr>ob_locked_until := Some 10, ob_max := 1\<rparr>"

definition tired_state :: compat_state where
  "tired_state = \<lparr>cs_db = busy_db\<lparr>cd_outbox := [tired_row]\<rparr>, cs_held = [(follow_claim, Holding)], cs_sent = []\<rparr>"

definition rested_state :: compat_state where
  "rested_state = \<lparr>cs_db = busy_db\<lparr>cd_outbox := [exhausted_row 20 tired_row]\<rparr>, cs_held = [], cs_sent = []\<rparr>"

lemma tired_run: "(dispatcher_step mirror_env ^^ 2) tired_state rested_state"
proof -
  let ?t = "tired_state\<lparr>cs_held := []\<rparr>"
  have "dispatcher_step mirror_env tired_state ?t"
    using dispatcher_step.Crash [of tired_state "[]" follow_claim Holding "[]"] by (simp add: tired_state_def)
  moreover have "dispatcher_step mirror_env ?t rested_state"
  proof -
    have row: "claimable_row 20 tired_row" "exhausted tired_row"
      by (rule claimable_follow, simp_all add: tired_row_def abandoned_row_def unlocked_def exhausted_def attempt_budget_def)
    then have "claim_due (S ''w'') [] 10 30 20 (cs_db ?t) = (busy_db\<lparr>cd_outbox := [exhausted_row 20 tired_row]\<rparr>, [])"
      "claim_statement [] 20 10 (cs_db ?t) \<noteq> []"
      using claim_one [of "cs_db ?t" tired_row 20] by (simp_all add: tired_state_def claim_row_def)
    from dispatcher_step.Claim [OF this(2,1)] show ?thesis by (simp add: tired_state_def rested_state_def)
  qed
  ultimately show ?thesis by (auto simp: numeral_2_eq_2)
qed

lemma rested_stops: "\<not> (\<exists>t. dispatcher_step mirror_env rested_state t)"
proof
  assume "\<exists>t. dispatcher_step mirror_env rested_state t"
  then obtain t where "dispatcher_step mirror_env rested_state t" ..
  then show False
  proof cases
    case (Claim locked now limit worker lease d cs)
    then show ?thesis
      by (simp add: rested_state_def claim_statement_def claimable_row_def due_row_def abandoned_row_def exhausted_row_def)
  qed (simp_all add: rested_state_def)
qed

theorem outbox_dispatch_terminates_witness:
  "(2::nat) \<le> work_left tired_state \<and> cs_held rested_state = [] \<and>
     ob_status (exhausted_row 20 tired_row) \<notin> {''pending'', ''retry'', ''processing''}"
proof -
  have "ordinary_compatibility (exhausted_row 20 tired_row)"
    by (rule ordinary_follow) (simp add: exhausted_row_def tired_row_def)
  then show ?thesis
    using outbox_dispatch_terminates [OF _ tired_run] rested_stops by (simp add: tired_state_def rested_state_def)
qed


theorem retry_delay_bounds_witness:
  "retry_delay mirror_env 10 2 \<le> retry_delay mirror_env 10 (Suc 2) \<and> 15 \<le> retry_delay mirror_env 10 2"
  using retry_delay_bounds [of 2 mirror_env 10] by simp

theorem dispatch_accounts_for_every_claim_witness:
  "sm_claimed (snd (dispatch_due mirror_env ENABLED True True (S ''w'') [] 10 30 0 follow_db))
      = settled_count (snd (dispatch_due mirror_env ENABLED True True (S ''w'') [] 10 30 0 follow_db))
    \<and> fst (dispatch_due mirror_env RETIRED True True (S ''w'') [] 10 30 0 follow_db) = follow_db"
  using dispatch_accounts_for_every_claim [OF surjective_pairing, of mirror_env ENABLED True True "S ''w''" "[]" 10 30 0 follow_db]
    dispatch_accounts_for_every_claim [OF surjective_pairing, of mirror_env RETIRED True True "S ''w''" "[]" 10 30 0 follow_db]
  by simp

lemma pending_normal: "normal_status ''processing'' = S ''processing''"
  by (simp add: normal_status_def py_lower_def lower_cp_def py_strip_def py_space_def S_def)

theorem retirement_preview_exact_witness:
  "1 = rp_outbox_cancellable (inspect_retirement busy_db) \<and> 0 = rp_tim_cancellable (inspect_retirement busy_db)
    \<and> rp_outbox_cancellable (inspect_retirement retired_db) = 0 \<and> rp_tim_cancellable (inspect_retirement retired_db) = 0"
  by (rule retirement_preview_exact [OF _ archive_busy]) (simp add: normal_statuses_def pending_normal)

end
