(* ===== verification/Spec2Isabelle.thy ===== *)
theory Spec2Isabelle
  imports Contact_Policy Dependency_Health Circuit_Breaker Request_Gates Peer_Gate
    Run_Properties Ledger_Properties Social_Examples Compat_Examples
begin

text \<open>
  A verification development for the BBW web and agent platform (\<^verbatim>\<open>src/bbw_agent\<close>, \<^verbatim>\<open>src/bbw_web\<close>,
  \<^verbatim>\<open>src/bbw_prod\<close>).

  \<^bold>\<open>The program.\<close>  A local web server keeps accounts, a social graph, messages and posts in PostgreSQL.
  An older third-party service (the legacy provider) is optional: local mutations are committed first and
  mirrored to it from an outbox by a background worker.  On top of the accounts runs an agent that may act
  for its owner: a queue of tasks, an orchestrator that asks a model what to do, an audit of every account
  action, and a daily budget.  In front of everything stand request gates, circuit breakers and deadlines.
  The parts meet in the database; a function that the code runs in one transaction is one function of the
  model, and a sequence of transactions of several workers is a sequence of steps.

  \<^bold>\<open>Conventions\<close> (\<open>Prelude\<close>, \<open>Py_Regex\<close>, \<open>Py_Json\<close>).  A Python string is a list of code points (\<open>pystr\<close>, with
  \<open>S\<close> for ASCII literals); \<open>py_strip\<close>, \<open>py_lower\<close> and \<open>py_casefold\<close> are the methods of \<^verbatim>\<open>str\<close>.  An instant is an
  integer of microseconds in UTC.  A raised exception is the left side of a sum and \<open>and_then\<close> sequences
  fallible steps.  JSON values are the datatype \<open>json\<close> with \<^verbatim>\<open>str\<close>, truth value and the canonical text of
  \<^verbatim>\<open>json.dumps\<close>; the pattern language that the policy modules use is an executable matcher.  Tables are lists
  of records, one record per row; a \<^verbatim>\<open>uuid\<close> is a natural number.

  \<^bold>\<open>The agent\<close> (\<^verbatim>\<open>bbw_agent\<close>).
  \<^item> \<open>Contact_Policy\<close>: \<^verbatim>\<open>contact_policy.py\<close>, the stage of a relationship and whether an automatic reply is allowed.
  \<^item> \<open>Autonomy_Types\<close>, \<open>Autonomy_Text\<close>, \<open>Candidate_Compatibility\<close>, \<open>Orchestrator\<close>: \<^verbatim>\<open>autonomous.py\<close>, the value objects
    with the checks of their constructors, the decisions on texts and times (identities, freshness, quiet
    hours), the compatibility of two profiles, and \<^verbatim>\<open>AgentAutonomyOrchestrator.run_once\<close> over a record of ports
    (store, model runner, dispatcher).
  \<^item> \<open>Run_Protocol\<close>, \<open>Run_Properties\<close>: one run records the calls it makes; the properties read off that record
    what was checked before an action was executed, that each run settles its task once, and that the outcome
    is recorded as it was.  They hold for every implementation of the ports.
  \<^item> \<open>Store_Rows\<close>, \<open>Action_Executions\<close>, \<open>Contact_Store\<close>, \<open>Discovery_Candidates\<close>, \<open>Autonomy_Settings\<close>, \<open>Task_Queue\<close>,
    \<open>Dispatch_Store\<close>, \<open>Task_Finish\<close>: the repositories of \<^verbatim>\<open>repositories.py\<close> over the tables of \<^verbatim>\<open>bbw_prod/models.py\<close>.
  \<^item> \<open>Task_Ledger\<close> with \<open>Dispatch_Properties\<close>, \<open>Finish_Properties\<close> and \<open>Ledger_Properties\<close>: all of them as steps of one
    database; the ledger invariant (budget, tasks and audit agree) holds after any sequence of calls, an
    action is started at most once, a worker that lost its lease is fenced, closing never raises.
  \<^item> \<open>Config_Fingerprint\<close>: \<^verbatim>\<open>config_fingerprint.py\<close> over an abstract hash.

  \<^bold>\<open>The social graph\<close> (\<^verbatim>\<open>bbw_web/social_native\<close>, \<^verbatim>\<open>bbw_web/legacy_media_reference.py\<close>).
  \<^item> \<open>Social_Graph\<close>: the contract, the rows, and the effective relation of a pair, in which a local row
    overrides migrated rows.  \<open>Social_Store\<close>, \<open>Social_Profile\<close>, \<open>Social_Lists\<close>: the mutations, profiles and lists of
    \<^verbatim>\<open>SqlAlchemyCanonicalSocialStore\<close>.  \<open>Social_Service\<close>: \<^verbatim>\<open>LocalSocialService\<close>, which normalises its inputs.
  \<^item> \<open>Social_Properties\<close>: every mutation refines an abstract state of a pair (\<open>pair_view\<close>: follows, friendship,
    blocks, the open request).  \<open>Social_Steps\<close>: any sequence of service calls keeps blocked pairs separated,
    friendship needs consent, requests follow their state machine, and an operation id is applied once.
    \<open>Social_Examples\<close> holds a small database and the witnesses.

  \<^bold>\<open>The outbox of legacy mirrors\<close> (\<^verbatim>\<open>bbw_web/compatibility_outbox.py\<close>, \<^verbatim>\<open>bbw_prod/compatibility.py\<close>,
  \<^verbatim>\<open>bbw_prod/compatibility_retirement.py\<close>, \<^verbatim>\<open>OperationOutboxRepository.enqueue\<close>).
  \<^item> \<open>Compat_Calls\<close>: which provider call an operation becomes.  \<open>Compat_Outbox\<close>: writing, claiming and settling rows.
    \<open>Compat_Dispatch\<close>: the account, the session, the provider's answer, bindings, a batch, the retirement command.
  \<^item> \<open>Compat_Run\<close>: workers, crashes, writers and the operator as steps, with a measure that every step of a worker
    decreases, so dispatching terminates.  \<open>Compat_Safety\<close>: one attempt is sent at most once and a cancelled row is
    final.  \<open>Compat_Mirror\<close> and \<open>Compat_Properties\<close> state the guarantees, \<open>Compat_Examples\<close> the witnesses and the one
    interleaving in which an archived row is still sent.

  \<^bold>\<open>Requests\<close> (\<^verbatim>\<open>bbw_web/store.py\<close>, \<^verbatim>\<open>bbw_web/dependency_health.py\<close>, \<^verbatim>\<open>bbw_web/bff_server.py\<close>).
  \<open>Request_Gates\<close> and \<open>Peer_Gate\<close> are the reader/writer gate of an account and the per-peer locks as step relations
  (exclusion, progress, freedom from deadlock); \<open>Dependency_Health\<close> classifies failures; \<open>Circuit_Breaker\<close> is the
  registry of breakers with its deadline and the guarded call of the server.

  \<^bold>\<open>Parameters and hypotheses.\<close>  What is not code of the repository is a field of a record that the definitions
  take: Unicode normalisation and categories, SHA-256, the text of a \<^verbatim>\<open>uuid\<close> and \<^verbatim>\<open>uuid4\<close> given the ids in use, time
  zones, date formats, the printed form of containers (\<open>env\<close>, \<open>social_env\<close>), the cipher, the legacy session and
  the provider's answers (\<open>compat_env\<close>).  A theorem that needs something of them says so: fresh ids are
  fresh, the hash is injective on the texts that are compared, and each has a witness on a concrete instance.

  \<^bold>\<open>Bounds and fuel.\<close>  No definition runs on fuel; the only counter is the five phases of a claim.  Loops are structural or have a termination proof on the size
  of their input; waiting and retrying are steps, and where a claim says that they end a measure decreases
  (\<open>work_left\<close>, the waiting lists of the gates).

  \<^bold>\<open>Database.\<close>  A function on the tables is one committed transaction; an exception leaves the tables as they were.
  Row locks are the atomicity of a step, and \<^verbatim>\<open>SKIP LOCKED\<close> is a list of rows that another transaction holds.
  Failures of the database itself are not modelled, except the refusal of a binding.

  \<^bold>\<open>Not modelled.\<close>  HTTP routing, request parsing and rendering (\<^verbatim>\<open>bff_server.py\<close>, \<^verbatim>\<open>api.py\<close>, \<^verbatim>\<open>admin_api.py\<close>), the job
  glue (\<^verbatim>\<open>jobs.py\<close>), the normalisation of legacy payloads (\<^verbatim>\<open>persistence.py\<close>, \<^verbatim>\<open>normalize.py\<close>), discovery, posts
  and media storage, the account services with their cryptography (\<^verbatim>\<open>bbw_prod/services.py\<close>, \<^verbatim>\<open>crypto.py\<close>),
  one-off migration tools, the protocol client (\<^verbatim>\<open>bbw_protocol\<close>), the supervision of agent processes and the
  model gateway, and the command line tools: mostly input and output around the parts above, or calls of
  services whose behaviour is not in the repository.  Native messages, discovery, posts and media have logic of
  their own that a later extension can add on the same tables.
\<close>

end
